(* ===== verification/Ccb_Prelude.thy ===== *)
theory Ccb_Prelude
  imports Main "HOL-Library.Word"
begin

text \<open>
  Shared vocabulary of the development: the machine integer types of the C sources, the
  fixed-size character buffers written by \<^verbatim>\<open>snprintf\<close>, and the generic facts on words
  and lists that the component theories use. Every component theory imports this one.

  Conventions used by all component theories:
  \<^item> \<^verbatim>\<open>uint8_t\<close> .. \<^verbatim>\<open>uint64_t\<close> are words of that width, so sums wrap as in C;
  \<^item> a function with return type \<^verbatim>\<open>int\<close> used as a status returns an \<open>int\<close> with the
    source's codes (0, 1, -1, -2);
  \<^item> a pointer to the object an operation works on is the object itself, and the operation
    returns the updated object; a NULL object pointer is not a value of the model, so the
    leading \<^verbatim>\<open>if (!p) return ...\<close> of such operations has no branch in it. A pointer that may
    legitimately be absent (a text argument, a callback, an allocated array) is an option;
  \<^item> a NUL-terminated C string is a HOL \<open>string\<close> without its terminator.
\<close>

type_synonym u8 = "8 word"
type_synonym u16 = "16 word"
type_synonym u32 = "32 word"
type_synonym u64 = "64 word"

abbreviation UINT16_MAX :: nat where "UINT16_MAX \<equiv> 65535"
abbreviation UINT32_MAX :: u32 where "UINT32_MAX \<equiv> 4294967295"
abbreviation UINT64_MAX :: u64 where "UINT64_MAX \<equiv> 18446744073709551615"

named_theorems nat_of_word \<open>facts that move word arithmetic to natural numbers\<close>

text \<open>
  \<^verbatim>\<open>snprintf(buf, n, "%s", s)\<close> stores at most \<open>n - 1\<close> characters and a terminator.
\<close>

definition snprintf_s :: "nat \<Rightarrow> string \<Rightarrow> string" where
  "snprintf_s n s = take (n - 1) s"

lemma snprintf_s_length [simp]: "length (snprintf_s n s) \<le> n - 1"
  by (simp add: snprintf_s_def)

lemma snprintf_s_id: "length s < n \<Longrightarrow> snprintf_s n s = s"
  by (simp add: snprintf_s_def)

section \<open>Words\<close>

lemma unat_inc [nat_of_word]:
  fixes x :: "'a::len word"
  assumes "x < y"
  shows "unat (x + 1) = unat x + 1"
proof -
  have "x \<noteq> - 1" using assms by auto
  then have "1 + x \<noteq> 0" by (metis add.inverse_unique)
  then have "unat (1 + x) = Suc (unat x)" by (rule unatSuc)
  then show ?thesis by (simp add: add.commute)
qed

lemma unat_dec [nat_of_word]:
  fixes x :: "'a::len word"
  assumes "x \<noteq> 0"
  shows "unat (x - 1) = unat x - 1"
proof -
  have "1 \<le> x" using assms by (simp add: word_less_1 linorder_not_less [symmetric])
  then show ?thesis by (simp add: unat_sub)
qed

lemma u32_le_max [simp]: "x \<le> UINT32_MAX"
proof -
  have "UINT32_MAX = (- 1 :: u32)" by simp
  then show ?thesis by (simp only: word_order.extremum)
qed

lemma u64_le_max [simp]: "x \<le> UINT64_MAX"
proof -
  have "UINT64_MAX = (- 1 :: u64)" by simp
  then show ?thesis by (simp only: word_order.extremum)
qed

text \<open>The saturating increment \<^verbatim>\<open>if (n != UINT32_MAX) ++n\<close>.\<close>

lemma unat_inc_saturating:
  "unat (if x \<noteq> UINT32_MAX then x + 1 else x) = min (unat x + 1) (unat UINT32_MAX)"
proof (cases "x = UINT32_MAX")
  case False
  then have "x < UINT32_MAX" by (simp add: order_less_le)
  then have "unat (x + 1) = unat x + 1" and "unat x < unat UINT32_MAX"
    by (rule unat_inc, simp add: word_less_nat_alt)
  with False show ?thesis by simp
qed simp

text \<open>Widening keeps the value; the value of a word is below the power of its width.\<close>

lemma unat_ucast_up:
  fixes x :: "'a::len word"
  assumes "LENGTH('a) \<le> LENGTH('b::len)"
  shows "unat (ucast x :: 'b word) = unat x"
proof -
  have "unat x < 2 ^ LENGTH('a)" by (rule unsigned_less)
  also have "\<dots> \<le> (2::nat) ^ LENGTH('b)" using assms by simp
  finally have "take_bit LENGTH('b) (unat x) = unat x" by (rule take_bit_nat_eq_self)
  then show ?thesis by (simp add: unsigned_ucast_eq)
qed

lemma unat_ucast_u32 [simp]: "unat (ucast (x :: u32) :: u64) = unat x"
  by (simp add: unat_ucast_up)

lemma unat_u32_less [simp]: "unat (x :: u32) < 4294967296"
  using unsigned_less [of x, where ?'a = nat] by simp

lemma unat_u64_less [simp]: "unat (x :: u64) < 18446744073709551616"
  using unsigned_less [of x, where ?'a = nat] by simp

lemma unat_eq_iff [simp]: "unat x = unat y \<longleftrightarrow> x = y"
  by (simp add: word_unat_eq_iff)

lemma unat_zero_iff [simp]: "unat x = 0 \<longleftrightarrow> x = 0"
  by (rule unat_eq_0)

lemma unat_pos_iff [simp]: "0 < unat x \<longleftrightarrow> x \<noteq> 0"
  by (simp add: unat_gt_0)

lemma unat_add_le [nat_of_word]:
  fixes x y :: "'a::len word"
  assumes "unat x + unat y < 2 ^ LENGTH('a)"
  shows "unat (x + y) = unat x + unat y"
  using assms by (simp add: unat_word_ariths)

lemma u64_sum_fits:
  assumes "b \<le> UINT64_MAX - x"
  shows "unat b + unat x < 2 ^ 64"
proof -
  have "unat (UINT64_MAX - x) = 18446744073709551615 - unat x" by (simp add: unat_sub)
  then show ?thesis using assms unat_u64_less [of x] by (simp add: word_le_nat_alt del: unat_u64_less)
qed

lemma unat_inc_below:
  fixes x y :: "'a::len word"
  assumes "x < y"
  shows "unat (x + 1) = unat x + 1"
proof -
  have "unat x < unat y" "unat y < 2 ^ LENGTH('a)" using assms by (simp_all add: word_less_nat_alt unsigned_less)
  then have "Suc (unat x) < 2 ^ LENGTH('a)" by linarith
  then show ?thesis by (simp add: unat_word_ariths)
qed

lemma unat_mod_word [nat_of_word]: "unat (x mod y) = unat x mod unat y"
  by (rule unat_mod_distrib)

section \<open>Lists\<close>

lemma count_list_update:
  "i < length xs \<Longrightarrow>
     count_list (xs[i := y]) z =
       count_list xs z - (if xs ! i = z then 1 else 0) + (if y = z then 1 else 0)"
proof (induction xs arbitrary: i)
  case Nil
  then show ?case by simp
next
  case (Cons x xs)
  show ?case
  proof (cases i)
    case 0
    then show ?thesis by simp
  next
    case (Suc j)
    with Cons have "count_list (xs[j := y]) z =
        count_list xs z - (if xs ! j = z then 1 else 0) + (if y = z then 1 else 0)"
      by simp
    moreover have "xs ! j = z \<Longrightarrow> 0 < count_list xs z"
      using Cons.prems Suc by (metis Suc_less_eq count_list_0_iff length_Cons neq0_conv nth_mem)
    ultimately show ?thesis using Suc by (auto split: if_splits)
  qed
qed

lemma count_list_nth_pos: "i < length xs \<Longrightarrow> 0 < count_list xs (xs ! i)"
  by (metis count_list_0_iff gr0I nth_mem)

lemma count_list_replicate: "count_list (replicate n x) y = (if x = y then n else 0)"
  by (induction n) auto

lemma sum_set_count_list_le: "count_list xs y \<le> length xs"
  by (rule count_le_length)

end
