(* ===== verification/Storage_Error.thy ===== *)
theory Storage_Error
  imports Ccb_Prelude
begin

text \<open>
  Error codes and the first-error latch of \<^verbatim>\<open>storage_error.c\<close>. The latch is shared by the
  capture task, the task supervisor and the NVMe runtime; its contract is the locale
  \<open>error_latch\<close>, interpreted on \<open>storage_error_record\<close>.
\<close>

section \<open>Codes and classes\<close>

text \<open>
  An object of the C enum can hold a value with no enumerator, for instance when it arrives
  in a message. \<open>STORAGE_ERR_UNNAMED n\<close> is the value 25 + n, so that each value of the
  underlying unsigned type is exactly one constructor term.
\<close>

datatype StorageErrorCode =
    STORAGE_ERR_NONE
  | STORAGE_ERR_CONFIG
  | STORAGE_ERR_PCIE_LINK
  | STORAGE_ERR_NVME_PROBE
  | STORAGE_ERR_DMA_INIT
  | STORAGE_ERR_DMA_DESCRIPTOR
  | STORAGE_ERR_QUEUE
  | STORAGE_ERR_UNKNOWN_CID
  | STORAGE_ERR_DUPLICATE_CID
  | STORAGE_ERR_OWNERSHIP
  | STORAGE_ERR_NVME_TIMEOUT
  | STORAGE_ERR_TAIL_UNALIGNED
  | STORAGE_ERR_LATE_COMPLETION
  | STORAGE_ERR_STOP_BOUNDARY_TIMEOUT
  | STORAGE_ERR_STOP_HARVEST_TIMEOUT
  | STORAGE_ERR_IPC
  | STORAGE_ERR_IPC_SEQUENCE
  | STORAGE_ERR_WORKER_EXIT
  | STORAGE_ERR_INTEGRITY
  | STORAGE_ERR_BYTE_MISMATCH
  | STORAGE_ERR_DMA_STOP
  | STORAGE_ERR_COMMIT
  | STORAGE_ERR_ZERO_PAYLOAD
  | STORAGE_ERR_INTERNAL
  | STORAGE_ERR_COUNT
  | STORAGE_ERR_UNNAMED nat

fun error_value :: "StorageErrorCode \<Rightarrow> nat" where
  "error_value STORAGE_ERR_NONE = 0"
| "error_value STORAGE_ERR_CONFIG = 1"
| "error_value STORAGE_ERR_PCIE_LINK = 2"
| "error_value STORAGE_ERR_NVME_PROBE = 3"
| "error_value STORAGE_ERR_DMA_INIT = 4"
| "error_value STORAGE_ERR_DMA_DESCRIPTOR = 5"
| "error_value STORAGE_ERR_QUEUE = 6"
| "error_value STORAGE_ERR_UNKNOWN_CID = 7"
| "error_value STORAGE_ERR_DUPLICATE_CID = 8"
| "error_value STORAGE_ERR_OWNERSHIP = 9"
| "error_value STORAGE_ERR_NVME_TIMEOUT = 10"
| "error_value STORAGE_ERR_TAIL_UNALIGNED = 11"
| "error_value STORAGE_ERR_LATE_COMPLETION = 12"
| "error_value STORAGE_ERR_STOP_BOUNDARY_TIMEOUT = 13"
| "error_value STORAGE_ERR_STOP_HARVEST_TIMEOUT = 14"
| "error_value STORAGE_ERR_IPC = 15"
| "error_value STORAGE_ERR_IPC_SEQUENCE = 16"
| "error_value STORAGE_ERR_WORKER_EXIT = 17"
| "error_value STORAGE_ERR_INTEGRITY = 18"
| "error_value STORAGE_ERR_BYTE_MISMATCH = 19"
| "error_value STORAGE_ERR_DMA_STOP = 20"
| "error_value STORAGE_ERR_COMMIT = 21"
| "error_value STORAGE_ERR_ZERO_PAYLOAD = 22"
| "error_value STORAGE_ERR_INTERNAL = 23"
| "error_value STORAGE_ERR_COUNT = 24"
| "error_value (STORAGE_ERR_UNNAMED n) = 25 + n"

datatype StorageErrorClass = STORAGE_ERROR_NONE | STORAGE_ERROR_DEFERRED | STORAGE_ERROR_FATAL

fun storage_error_class :: "StorageErrorCode \<Rightarrow> StorageErrorClass" where
  "storage_error_class STORAGE_ERR_NONE = STORAGE_ERROR_NONE"
| "storage_error_class STORAGE_ERR_TAIL_UNALIGNED = STORAGE_ERROR_DEFERRED"
| "storage_error_class STORAGE_ERR_LATE_COMPLETION = STORAGE_ERROR_DEFERRED"
| "storage_error_class STORAGE_ERR_STOP_BOUNDARY_TIMEOUT = STORAGE_ERROR_DEFERRED"
| "storage_error_class STORAGE_ERR_STOP_HARVEST_TIMEOUT = STORAGE_ERROR_DEFERRED"
| "storage_error_class _ = STORAGE_ERROR_FATAL"

fun storage_error_string :: "StorageErrorCode \<Rightarrow> string" where
  "storage_error_string STORAGE_ERR_NONE = ''none''"
| "storage_error_string STORAGE_ERR_CONFIG = ''config''"
| "storage_error_string STORAGE_ERR_PCIE_LINK = ''pcie_link''"
| "storage_error_string STORAGE_ERR_NVME_PROBE = ''nvme_probe''"
| "storage_error_string STORAGE_ERR_DMA_INIT = ''dma_init''"
| "storage_error_string STORAGE_ERR_DMA_DESCRIPTOR = ''dma_descriptor''"
| "storage_error_string STORAGE_ERR_QUEUE = ''queue''"
| "storage_error_string STORAGE_ERR_UNKNOWN_CID = ''unknown_cid''"
| "storage_error_string STORAGE_ERR_DUPLICATE_CID = ''duplicate_cid''"
| "storage_error_string STORAGE_ERR_OWNERSHIP = ''ownership''"
| "storage_error_string STORAGE_ERR_NVME_TIMEOUT = ''nvme_timeout''"
| "storage_error_string STORAGE_ERR_TAIL_UNALIGNED = ''tail_unaligned''"
| "storage_error_string STORAGE_ERR_LATE_COMPLETION = ''late_completion''"
| "storage_error_string STORAGE_ERR_STOP_BOUNDARY_TIMEOUT = ''stop_boundary_timeout''"
| "storage_error_string STORAGE_ERR_STOP_HARVEST_TIMEOUT = ''stop_harvest_timeout''"
| "storage_error_string STORAGE_ERR_IPC = ''ipc''"
| "storage_error_string STORAGE_ERR_IPC_SEQUENCE = ''ipc_sequence''"
| "storage_error_string STORAGE_ERR_WORKER_EXIT = ''worker_exit''"
| "storage_error_string STORAGE_ERR_INTEGRITY = ''integrity''"
| "storage_error_string STORAGE_ERR_BYTE_MISMATCH = ''byte_mismatch''"
| "storage_error_string STORAGE_ERR_DMA_STOP = ''dma_stop''"
| "storage_error_string STORAGE_ERR_COMMIT = ''commit''"
| "storage_error_string STORAGE_ERR_ZERO_PAYLOAD = ''zero_payload''"
| "storage_error_string STORAGE_ERR_INTERNAL = ''internal''"
| "storage_error_string _ = ''invalid_error_code''"

definition storage_error_code_valid :: "StorageErrorCode \<Rightarrow> bool" where
  "storage_error_code_valid code \<longleftrightarrow>
     error_value STORAGE_ERR_NONE \<le> error_value code \<and>
     error_value code < error_value STORAGE_ERR_COUNT"

definition storage_error_record ::
  "StorageErrorCode \<Rightarrow> StorageErrorCode \<Rightarrow> StorageErrorCode \<Rightarrow> StorageErrorCode \<times> StorageErrorCode" where
  "storage_error_record primary secondary code =
     (if storage_error_class code = STORAGE_ERROR_NONE then (primary, secondary)
      else if primary = STORAGE_ERR_NONE then (code, secondary)
      else if secondary = STORAGE_ERR_NONE \<and> primary \<noteq> code then (primary, code)
      else (primary, secondary))"

lemma error_value_inject [simp]: "error_value a = error_value b \<longleftrightarrow> a = b"
  by (cases a; cases b; simp)

lemma storage_error_class_none [simp]:
  "storage_error_class c = STORAGE_ERROR_NONE \<longleftrightarrow> c = STORAGE_ERR_NONE"
  by (cases c) auto

lemma storage_error_string_invalid:
  "storage_error_string c = ''invalid_error_code'' \<longleftrightarrow> \<not> storage_error_code_valid c"
  by (cases c) (auto simp: storage_error_code_valid_def)

section \<open>The first-error latch\<close>

text \<open>
  The contract of a two-place error latch: the first code other than \<open>none\<close> stays in the
  first place, the first code that differs from it stays in the second.
\<close>

locale error_latch =
  fixes record_error :: "'e \<Rightarrow> 'e \<Rightarrow> 'e \<Rightarrow> 'e \<times> 'e"
    and none :: 'e
  assumes ignores_none: "record_error p s none = (p, s)"
    and first_wins: "c \<noteq> none \<Longrightarrow> record_error none s c = (c, s)"
    and second_wins: "p \<noteq> none \<Longrightarrow> c \<noteq> none \<Longrightarrow> c \<noteq> p \<Longrightarrow> record_error p none c = (p, c)"
    and repeated: "p \<noteq> none \<Longrightarrow> record_error p s p = (p, s)"
    and latched: "p \<noteq> none \<Longrightarrow> s \<noteq> none \<Longrightarrow> record_error p s c = (p, s)"
begin

definition record_all :: "'e \<times> 'e \<Rightarrow> 'e list \<Rightarrow> 'e \<times> 'e" where
  "record_all = foldl (\<lambda>(p, s) c. record_error p s c)"

definition first_of :: "('e \<Rightarrow> bool) \<Rightarrow> 'e list \<Rightarrow> 'e" where
  "first_of P cs = (case filter P cs of [] \<Rightarrow> none | c # _ \<Rightarrow> c)"

lemma record_all_simps [simp]:
  "record_all ps [] = ps"
  "record_all (p, s) (c # cs) = record_all (record_error p s c) cs"
  by (simp_all add: record_all_def)

lemma first_of_simps [simp]:
  "first_of P [] = none"
  "first_of P (c # cs) = (if P c then c else first_of P cs)"
  by (simp_all add: first_of_def)

lemma record_all_latched:
  "p \<noteq> none \<Longrightarrow> s \<noteq> none \<Longrightarrow> record_all (p, s) cs = (p, s)"
  by (induction cs) (simp_all add: latched)

lemma record_all_second:
  "p \<noteq> none \<Longrightarrow> record_all (p, none) cs = (p, first_of (\<lambda>c. c \<noteq> none \<and> c \<noteq> p) cs)"
proof (induction cs)
  case Nil
  then show ?case by simp
next
  case (Cons c cs)
  then show ?case
    by (cases "c = none"; cases "c = p")
      (simp_all add: ignores_none repeated second_wins record_all_latched)
qed

lemma record_all_first:
  "record_all (none, none) cs =
     (let p = first_of (\<lambda>c. c \<noteq> none) cs in (p, first_of (\<lambda>c. c \<noteq> none \<and> c \<noteq> p) cs))"
proof (induction cs)
  case Nil
  then show ?case by simp
next
  case (Cons c cs)
  show ?case
  proof (cases "c = none")
    case True
    with Cons show ?thesis by (simp add: ignores_none Let_def)
  next
    case False
    then show ?thesis by (simp add: first_wins record_all_second Let_def)
  qed
qed

end

interpretation storage_latch: error_latch storage_error_record STORAGE_ERR_NONE
  by unfold_locales (auto simp: storage_error_record_def)

section \<open>Properties\<close>

definition storage_error_record_all ::
  "StorageErrorCode \<times> StorageErrorCode \<Rightarrow> StorageErrorCode list \<Rightarrow> StorageErrorCode \<times> StorageErrorCode" where
  "storage_error_record_all = foldl (\<lambda>(p, s) c. storage_error_record p s c)"

lemma storage_latch_record_all: "storage_latch.record_all = storage_error_record_all"
  by (simp add: storage_latch.record_all_def storage_error_record_all_def)

lemma storage_latch_first_of:
  "storage_latch.first_of P cs = (case filter P cs of [] \<Rightarrow> STORAGE_ERR_NONE | c # _ \<Rightarrow> c)"
  by (rule storage_latch.first_of_def)

text \<open>Whatever sequence of codes is reported to an empty pair of error fields, the primary field
  ends up with the first real error and the secondary field with the first real error that
  differs from it; later reports change neither.\<close>

lemma error_latch_keeps_first:
  "storage_error_record_all (STORAGE_ERR_NONE, STORAGE_ERR_NONE) cs =
     (let errs = filter (\<lambda>c. c \<noteq> STORAGE_ERR_NONE) cs;
          p = (case errs of [] \<Rightarrow> STORAGE_ERR_NONE | c # _ \<Rightarrow> c);
          s = (case filter (\<lambda>c. c \<noteq> p) errs of [] \<Rightarrow> STORAGE_ERR_NONE | c # _ \<Rightarrow> c)
      in (p, s))"
proof -
  have "filter (\<lambda>c. c \<noteq> STORAGE_ERR_NONE \<and> c \<noteq> p) cs =
      filter (\<lambda>c. c \<noteq> p) (filter (\<lambda>c. c \<noteq> STORAGE_ERR_NONE) cs)" for p
    by (simp add: conj_commute)
  then show ?thesis
    using storage_latch.record_all_first [of cs]
    by (simp only: storage_latch_record_all storage_latch_first_of Let_def)
qed

end
