(* ===== verification/Forward_Machine.thy ===== *)
theory Forward_Machine
  imports Ccb_Prelude
begin

text \<open>
  The contract shared by the lifecycle state machines of the program (capture task, storage
  worker, stop sequence): states carry a number, and every permitted transition goes to a
  larger one. A machine with this contract cannot cycle and takes a bounded number of steps.
\<close>

locale forward_machine =
  fixes rank :: "'s \<Rightarrow> nat"
    and allowed :: "'s \<Rightarrow> 's \<Rightarrow> bool"
    and top :: nat
  assumes forward: "allowed a b \<Longrightarrow> rank a < rank b"
    and bounded: "rank a \<le> top"
begin

lemma irreflexive: "\<not> allowed a a"
  using forward by blast

lemma path_rank:
  "successively allowed (a # xs) \<Longrightarrow> rank a + length xs \<le> rank (last (a # xs))"
proof (induction xs arbitrary: a)
  case Nil
  then show ?case by simp
next
  case (Cons b xs)
  then have "allowed a b" and "rank b + length xs \<le> rank (last (b # xs))" by auto
  with forward [of a b] show ?case by simp
qed

lemma path_bounded: "successively allowed (a # xs) \<Longrightarrow> rank a + length xs \<le> top"
  using path_rank bounded le_trans by blast

lemma path_sorted: "successively allowed xs \<Longrightarrow> sorted_wrt (<) (map rank xs)"
proof -
  assume "successively allowed xs"
  then have "successively (\<lambda>a b. rank a < rank b) xs"
    by (rule successively_mono) (use forward in auto)
  then show ?thesis
    by (simp add: successively_conv_sorted_wrt transp_def sorted_wrt_map)
qed

lemma path_distinct: "successively allowed xs \<Longrightarrow> distinct xs"
  by (metis distinct_map path_sorted strict_sorted_iff)

end

end
