(* ===== verification/Capture_Task.thy ===== *)
theory Capture_Task
  imports Storage_Error Forward_Machine
begin

text \<open>
  The capture task of \<^verbatim>\<open>storage_controller.c\<close>: its state machine, the stop request with
  its epoch, and the error latch. A \<open>capture_op\<close> is one call of the module's interface and
  \<open>capture_step\<close> executes it.
\<close>

section \<open>State\<close>

datatype CaptureState =
    CAPTURE_IDLE
  | CAPTURE_PREPARING
  | CAPTURE_READY
  | CAPTURE_STARTING
  | CAPTURE_RUNNING
  | CAPTURE_STOPPING
  | CAPTURE_COMMITTING
  | CAPTURE_DONE
  | CAPTURE_FAILED

primrec capture_code :: "CaptureState \<Rightarrow> nat" where
  "capture_code CAPTURE_IDLE = 0"
| "capture_code CAPTURE_PREPARING = 1"
| "capture_code CAPTURE_READY = 2"
| "capture_code CAPTURE_STARTING = 3"
| "capture_code CAPTURE_RUNNING = 4"
| "capture_code CAPTURE_STOPPING = 5"
| "capture_code CAPTURE_COMMITTING = 6"
| "capture_code CAPTURE_DONE = 7"
| "capture_code CAPTURE_FAILED = 8"

lemma capture_code_inject [simp]: "capture_code a = capture_code b \<longleftrightarrow> a = b"
  by (cases a; cases b; simp)

text \<open>C compares enumerators by their values; so does the order on the datatype.\<close>

instantiation CaptureState :: linorder
begin

definition less_eq_CaptureState :: "CaptureState \<Rightarrow> CaptureState \<Rightarrow> bool" where
  "less_eq_CaptureState a b \<longleftrightarrow> capture_code a \<le> capture_code b"

definition less_CaptureState :: "CaptureState \<Rightarrow> CaptureState \<Rightarrow> bool" where
  "less_CaptureState a b \<longleftrightarrow> capture_code a < capture_code b"

instance
  by intro_classes (auto simp: less_eq_CaptureState_def less_CaptureState_def)

end

lemmas capture_order = less_eq_CaptureState_def less_CaptureState_def

record CaptureTask =
  ct_state :: CaptureState
  ct_task_id :: string
  ct_target_mask :: u32
  ct_deadline_us :: u64
  ct_stop_epoch :: u64
  ct_primary_error :: StorageErrorCode
  ct_secondary_error :: StorageErrorCode

section \<open>Operations\<close>

definition capture_transition_allowed :: "CaptureState \<Rightarrow> CaptureState \<Rightarrow> bool" where
  "capture_transition_allowed expected next =
     (if next = CAPTURE_FAILED then CAPTURE_IDLE < expected \<and> expected < CAPTURE_DONE
      else case expected of
          CAPTURE_PREPARING \<Rightarrow> next = CAPTURE_READY \<or> next = CAPTURE_STOPPING
        | CAPTURE_READY \<Rightarrow> next = CAPTURE_STARTING \<or> next = CAPTURE_STOPPING
        | CAPTURE_STARTING \<Rightarrow> next = CAPTURE_RUNNING \<or> next = CAPTURE_STOPPING
        | CAPTURE_RUNNING \<Rightarrow> next = CAPTURE_STOPPING
        | CAPTURE_STOPPING \<Rightarrow> next = CAPTURE_COMMITTING
        | CAPTURE_COMMITTING \<Rightarrow> next = CAPTURE_DONE
        | _ \<Rightarrow> False)"

definition capture_task_init :: CaptureTask where
  "capture_task_init =
     \<lparr>ct_state = CAPTURE_IDLE, ct_task_id = '''', ct_target_mask = 0, ct_deadline_us = 0,
      ct_stop_epoch = 0, ct_primary_error = STORAGE_ERR_NONE,
      ct_secondary_error = STORAGE_ERR_NONE\<rparr>"

text \<open>\<^verbatim>\<open>strncpy(task->task_id, task_id, 11)\<close> into the zeroed 12-byte field keeps 11 characters.\<close>

definition capture_task_begin ::
  "CaptureTask \<Rightarrow> string option \<Rightarrow> u32 \<Rightarrow> u64 \<Rightarrow> int \<times> CaptureTask" where
  "capture_task_begin task task_id target_mask deadline_us =
     (case task_id of
        None \<Rightarrow> (-1, task)
      | Some tid \<Rightarrow>
          if tid = '''' \<or> target_mask = 0 \<or>
             (ct_state task \<noteq> CAPTURE_IDLE \<and> ct_state task \<noteq> CAPTURE_DONE \<and>
              ct_state task \<noteq> CAPTURE_FAILED)
          then (-1, task)
          else (0, capture_task_init
                     \<lparr>ct_state := CAPTURE_PREPARING, ct_target_mask := target_mask,
                      ct_deadline_us := deadline_us, ct_task_id := take 11 tid\<rparr>))"

definition capture_task_transition ::
  "CaptureTask \<Rightarrow> CaptureState \<Rightarrow> CaptureState \<Rightarrow> int \<times> CaptureTask" where
  "capture_task_transition task expected next =
     (if ct_state task \<noteq> expected \<or> \<not> capture_transition_allowed expected next then (-1, task)
      else (0, task\<lparr>ct_state := next\<rparr>))"

definition capture_task_request_stop :: "CaptureTask \<Rightarrow> u64 \<Rightarrow> int \<times> CaptureTask" where
  "capture_task_request_stop task stop_epoch =
     (if stop_epoch = 0 then (-1, task)
      else if ct_state task \<in> {CAPTURE_STOPPING, CAPTURE_COMMITTING, CAPTURE_DONE, CAPTURE_FAILED}
      then let task' = (if ct_stop_epoch task = 0 then task\<lparr>ct_stop_epoch := stop_epoch\<rparr> else task)
           in (if ct_stop_epoch task' = stop_epoch then 0 else -1, task')
      else case capture_task_transition task (ct_state task) CAPTURE_STOPPING of
             (rc, task') \<Rightarrow> if rc \<noteq> 0 then (-1, task')
                            else (0, task'\<lparr>ct_stop_epoch := stop_epoch\<rparr>))"

definition capture_task_fail :: "CaptureTask \<Rightarrow> StorageErrorCode \<Rightarrow> CaptureTask" where
  "capture_task_fail task err =
     (if err = STORAGE_ERR_NONE then task
      else let (p, s) = storage_error_record (ct_primary_error task) (ct_secondary_error task) err;
               task' = task\<lparr>ct_primary_error := p, ct_secondary_error := s\<rparr>;
               current = ct_state task'
           in if CAPTURE_IDLE < current \<and> current < CAPTURE_DONE
              then snd (capture_task_transition task' current CAPTURE_FAILED) else task')"

definition capture_task_busy :: "CaptureTask \<Rightarrow> bool" where
  "capture_task_busy task \<longleftrightarrow>
     CAPTURE_PREPARING \<le> ct_state task \<and> ct_state task \<le> CAPTURE_COMMITTING"

primrec capture_state_name :: "CaptureState \<Rightarrow> string" where
  "capture_state_name CAPTURE_IDLE = ''idle''"
| "capture_state_name CAPTURE_PREPARING = ''preparing''"
| "capture_state_name CAPTURE_READY = ''ready''"
| "capture_state_name CAPTURE_STARTING = ''starting''"
| "capture_state_name CAPTURE_RUNNING = ''running''"
| "capture_state_name CAPTURE_STOPPING = ''stopping''"
| "capture_state_name CAPTURE_COMMITTING = ''committing''"
| "capture_state_name CAPTURE_DONE = ''done''"
| "capture_state_name CAPTURE_FAILED = ''failed''"

datatype capture_op =
    CaptureBegin "string option" u32 u64
  | CaptureTransition CaptureState CaptureState
  | CaptureRequestStop u64
  | CaptureFail StorageErrorCode

primrec capture_step :: "CaptureTask \<Rightarrow> capture_op \<Rightarrow> int \<times> CaptureTask" where
  "capture_step task (CaptureBegin tid m deadline) = capture_task_begin task tid m deadline"
| "capture_step task (CaptureTransition expected next) = capture_task_transition task expected next"
| "capture_step task (CaptureRequestStop epoch) = capture_task_request_stop task epoch"
| "capture_step task (CaptureFail err) = (0, capture_task_fail task err)"

fun capture_run :: "CaptureTask \<Rightarrow> capture_op list \<Rightarrow> CaptureTask list" where
  "capture_run task [] = []"
| "capture_run task (x # xs) = (let task' = snd (capture_step task x) in task' # capture_run task' xs)"

section \<open>Facts\<close>

interpretation capture_machine: forward_machine capture_code capture_transition_allowed 8
proof
  show "capture_transition_allowed a b \<Longrightarrow> capture_code a < capture_code b" for a b
    by (cases a; cases b) (simp_all add: capture_transition_allowed_def capture_order)
  show "capture_code a \<le> 8" for a
    by (cases a) simp_all
qed

lemmas capture_defs =
  capture_task_begin_def capture_task_transition_def capture_task_request_stop_def
  capture_task_fail_def capture_task_init_def Let_def

text \<open>What one call can do to the state: nothing, restart a task that is not busy, or one
  permitted transition.\<close>

lemma capture_step_state:
  assumes "capture_step task x = (rc, task')"
  shows "ct_state task' = ct_state task \<or>
         (\<not> capture_task_busy task \<and> ct_state task' = CAPTURE_PREPARING \<and>
          (\<exists>tid m d. x = CaptureBegin tid m d)) \<or>
         capture_transition_allowed (ct_state task) (ct_state task')"
  using assms
  by (cases x)
    (auto simp: capture_defs capture_task_busy_def capture_order
      split: if_splits option.splits prod.splits)

lemma capture_busy_iff:
  "capture_task_busy task \<longleftrightarrow> ct_state task \<notin> {CAPTURE_IDLE, CAPTURE_DONE, CAPTURE_FAILED}"
  by (cases "ct_state task") (auto simp: capture_task_busy_def capture_order)

lemma capture_into_done:
  "capture_transition_allowed a CAPTURE_DONE \<longleftrightarrow> a = CAPTURE_COMMITTING"
  "capture_transition_allowed a CAPTURE_COMMITTING \<longleftrightarrow> a = CAPTURE_STOPPING"
  by (cases a; simp add: capture_transition_allowed_def)+

primrec capture_op_begins :: "capture_op \<Rightarrow> bool" where
  "capture_op_begins (CaptureBegin _ _ _) = True"
| "capture_op_begins (CaptureTransition _ _) = False"
| "capture_op_begins (CaptureRequestStop _) = False"
| "capture_op_begins (CaptureFail _) = False"

text \<open>The states of a run, the initial one first, and the calls that began a capture.\<close>

definition capture_before :: "capture_op list \<Rightarrow> nat \<Rightarrow> CaptureTask" where
  "capture_before ops i = (capture_task_init # capture_run capture_task_init ops) ! i"

definition capture_begun :: "capture_op list \<Rightarrow> nat \<Rightarrow> bool" where
  "capture_begun ops i \<longleftrightarrow> i < length ops \<and> capture_op_begins (ops ! i) \<and> fst (capture_step (capture_before ops i) (ops ! i)) = 0"

lemma capture_run_length [simp]: "length (capture_run task xs) = length xs"
  by (induction xs arbitrary: task) (simp_all add: Let_def)

lemma capture_run_nth:
  "i < length xs \<Longrightarrow> capture_run task xs ! i = snd (capture_step ((task # capture_run task xs) ! i) (xs ! i))"
  by (induction xs arbitrary: task i) (auto simp: Let_def nth_Cons split: nat.split)

lemma capture_before_Suc:
  "i < length ops \<Longrightarrow> capture_before ops (Suc i) = snd (capture_step (capture_before ops i) (ops ! i))"
  by (simp add: capture_before_def capture_run_nth)

lemma capture_begin_state:
  "capture_op_begins x \<Longrightarrow> capture_step task x = (rc, task') \<Longrightarrow> if rc = 0 then ct_state task' = CAPTURE_PREPARING else task' = task"
  by (cases x) (auto simp: capture_defs split: if_splits option.splits)

lemma capture_nobegin_state:
  "\<not> capture_op_begins x \<Longrightarrow> capture_step task x = (rc, task') \<Longrightarrow>
     ct_state task' = ct_state task \<or> capture_transition_allowed (ct_state task) (ct_state task')"
  using capture_step_state [of task x rc task'] by auto

text \<open>What the current capture has gone through. The state before call \<open>Suc m\<close> is the one after call \<open>m\<close>.\<close>

definition capture_past :: "capture_op list \<Rightarrow> nat \<Rightarrow> nat \<Rightarrow> bool" where
  "capture_past ops b i \<longleftrightarrow>
     b < i \<and> capture_begun ops b \<and> (\<forall>m. b < m \<and> m < i \<longrightarrow> \<not> capture_begun ops m) \<and>
     (ct_state (capture_before ops i) = CAPTURE_STOPPING \<longrightarrow> Suc b < i) \<and>
     (ct_state (capture_before ops i) = CAPTURE_COMMITTING \<longrightarrow>
        (\<exists>k. b < k \<and> Suc k < i \<and> ct_state (capture_before ops (Suc k)) = CAPTURE_STOPPING)) \<and>
     (ct_state (capture_before ops i) = CAPTURE_DONE \<longrightarrow>
        (\<exists>k j. b < k \<and> k < j \<and> Suc j < i \<and> ct_state (capture_before ops (Suc k)) = CAPTURE_STOPPING \<and>
           ct_state (capture_before ops (Suc j)) = CAPTURE_COMMITTING))"

lemma capture_past_begin:
  assumes "capture_begun ops i" shows "capture_past ops i (Suc i)"
proof -
  obtain rc task' where r: "capture_step (capture_before ops i) (ops ! i) = (rc, task')" by fastforce
  then have "ct_state (capture_before ops (Suc i)) = CAPTURE_PREPARING"
    using assms capture_begin_state [OF _ r] by (simp add: capture_begun_def capture_before_Suc)
  then show ?thesis using assms by (auto simp: capture_past_def)
qed

lemma capture_past_step:
  assumes past: "capture_past ops b i" and i: "i < length ops" "\<not> capture_begun ops i"
    and st: "ct_state (capture_before ops (Suc i)) = ct_state (capture_before ops i) \<or>
      capture_transition_allowed (ct_state (capture_before ops i)) (ct_state (capture_before ops (Suc i)))"
  shows "capture_past ops b (Suc i)"
proof -
  have no: "\<not> capture_begun ops m" if "b < m" "m < Suc i" for m
    using that past i(2) by (cases "m = i") (auto simp: capture_past_def)
  have b: "b < i" "capture_begun ops b" using past by (auto simp: capture_past_def)
  obtain i' where i': "i = Suc i'" using b(1) by (cases i) auto
  let ?old = "ct_state (capture_before ops i)" and ?new = "ct_state (capture_before ops (Suc i))"
  have c: "\<exists>k. b < k \<and> Suc k < Suc i \<and> ct_state (capture_before ops (Suc k)) = CAPTURE_STOPPING" if "?new = CAPTURE_COMMITTING"
  proof -
    have "?old = CAPTURE_COMMITTING \<or> ?old = CAPTURE_STOPPING" using st that by (auto simp: capture_into_done)
    then show ?thesis using past b i' by (auto simp: capture_past_def intro: less_SucI)
  qed
  have d: "\<exists>k j. b < k \<and> k < j \<and> Suc j < Suc i \<and> ct_state (capture_before ops (Suc k)) = CAPTURE_STOPPING \<and>
      ct_state (capture_before ops (Suc j)) = CAPTURE_COMMITTING" if "?new = CAPTURE_DONE"
  proof -
    have "?old = CAPTURE_DONE \<or> ?old = CAPTURE_COMMITTING" using st that by (auto simp: capture_into_done)
    then show ?thesis
    proof
      assume "?old = CAPTURE_DONE"
      then show ?thesis using past by (auto simp: capture_past_def intro: less_SucI)
    next
      assume o: "?old = CAPTURE_COMMITTING"
      then obtain k where "b < k" "Suc k < i" "ct_state (capture_before ops (Suc k)) = CAPTURE_STOPPING"
        using past by (auto simp: capture_past_def)
      then show ?thesis using o i' by (intro exI [of _ k] exI [of _ i']) auto
    qed
  qed
  show ?thesis unfolding capture_past_def using b no c d by auto
qed

lemma capture_has_past:
  assumes "i \<le> length ops" shows "ct_state (capture_before ops i) = CAPTURE_IDLE \<or> (\<exists>b. capture_past ops b i)"
  using assms
proof (induction i)
  case 0
  then show ?case by (simp add: capture_before_def capture_task_init_def)
next
  case (Suc i)
  obtain rc task' where r: "capture_step (capture_before ops i) (ops ! i) = (rc, task')" by fastforce
  have n: "capture_before ops (Suc i) = task'" using Suc.prems r by (simp add: capture_before_Suc)
  show ?case
  proof (cases "capture_begun ops i")
    case True
    then show ?thesis using capture_past_begin by blast
  next
    case False
    have st: "ct_state task' = ct_state (capture_before ops i) \<or> capture_transition_allowed (ct_state (capture_before ops i)) (ct_state task')"
      using False Suc.prems r capture_begin_state [OF _ r] capture_nobegin_state [OF _ r]
      by (cases "capture_op_begins (ops ! i)") (auto simp: capture_begun_def split: if_splits)
    from Suc have "ct_state (capture_before ops i) = CAPTURE_IDLE \<or> (\<exists>b. capture_past ops b i)" by simp
    then show ?thesis
    proof
      assume "ct_state (capture_before ops i) = CAPTURE_IDLE"
      then show ?thesis using st n by (simp add: capture_transition_allowed_def capture_order split: if_splits)
    next
      assume "\<exists>b. capture_past ops b i"
      then show ?thesis using capture_past_step [of ops _ i] Suc.prems False st n by auto
    qed
  qed
qed

text \<open>Once a stop has an epoch, no call but a new capture changes it or leaves the stop states.\<close>

definition capture_stop_held :: "u64 \<Rightarrow> CaptureTask \<Rightarrow> bool" where
  "capture_stop_held epoch task \<longleftrightarrow>
     epoch \<noteq> 0 \<and> ct_stop_epoch task = epoch \<and> CAPTURE_STOPPING \<le> ct_state task"

lemma capture_stop_states:
  "CAPTURE_STOPPING \<le> s \<longleftrightarrow> s \<in> {CAPTURE_STOPPING, CAPTURE_COMMITTING, CAPTURE_DONE, CAPTURE_FAILED}"
  by (cases s) (simp_all add: capture_order)

lemma capture_step_epoch:
  assumes "capture_stop_held epoch task" and "\<not> capture_op_begins x"
  shows "ct_stop_epoch (snd (capture_step task x)) = epoch"
  using assms
  by (cases x)
    (auto simp: capture_stop_held_def capture_stop_states capture_defs split: if_splits prod.splits)

lemma capture_step_held:
  assumes "capture_stop_held epoch task" and "\<not> capture_op_begins x"
  shows "capture_stop_held epoch (snd (capture_step task x))"
proof -
  obtain rc task' where r: "capture_step task x = (rc, task')" by (cases "capture_step task x")
  have "ct_state task' = ct_state task \<or> capture_transition_allowed (ct_state task) (ct_state task')"
    using capture_step_state [OF r] assms(2) by (cases x) auto
  then have "ct_state task \<le> ct_state task'"
    using capture_machine.forward by (auto simp: capture_order intro: less_imp_le)
  then show ?thesis
    using assms capture_step_epoch [OF assms] r by (auto simp: capture_stop_held_def)
qed

lemma capture_run_held:
  assumes "capture_stop_held epoch task" and "list_all (\<lambda>x. \<not> capture_op_begins x) xs"
  shows "capture_stop_held epoch (last (task # capture_run task xs))"
  using assms
proof (induction xs arbitrary: task)
  case (Cons x xs)
  then have "capture_stop_held epoch (last (snd (capture_step task x) # capture_run (snd (capture_step task x)) xs))"
    by (intro Cons.IH capture_step_held) auto
  then show ?case by (simp add: Let_def)
qed simp

lemma capture_request_held:
  assumes "capture_task_request_stop task epoch = (0, task')"
  shows "capture_stop_held epoch task'"
  using assms
  by (cases "ct_state task")
    (auto simp: capture_stop_held_def capture_stop_states capture_defs capture_transition_allowed_def
      capture_order split: if_splits)

lemma capture_held_request:
  assumes "capture_stop_held epoch task"
  shows "capture_task_request_stop task e = (if e = epoch then 0 else -1, task)"
  using assms by (auto simp: capture_task_request_stop_def capture_stop_held_def capture_stop_states Let_def)

section \<open>Properties\<close>

text \<open>C14. Whenever the controller reports a capture as done, that very capture was stopping and then
  committing: since the last accepted begin there is a call after which it was stopping and a later one after which it
  was committing, both before it was done. No interleaving of calls skips the drain or the metadata commit, also
  when captures follow each other.\<close>

theorem capture_done_after_commit:
  assumes "i < length ops" and "ct_state (capture_run capture_task_init ops ! i) = CAPTURE_DONE"
  shows "\<exists>b k j. b < k \<and> k < j \<and> j < i \<and> capture_begun ops b \<and> (\<forall>m. b < m \<and> m \<le> i \<longrightarrow> \<not> capture_begun ops m) \<and>
     ct_state (capture_run capture_task_init ops ! k) = CAPTURE_STOPPING \<and>
     ct_state (capture_run capture_task_init ops ! j) = CAPTURE_COMMITTING"
proof -
  have b: "capture_before ops (Suc m) = capture_run capture_task_init ops ! m" for m by (simp add: capture_before_def)
  obtain b where "capture_past ops b (Suc i)" using capture_has_past [of "Suc i" ops] assms by (auto simp: b)
  then show ?thesis using assms(2) unfolding capture_past_def b by (simp add: less_Suc_eq_le Suc_le_eq) blast
qed

definition demo_capture :: "capture_op list" where
  "demo_capture =
     [CaptureBegin (Some ''T1'') 3 0, CaptureTransition CAPTURE_PREPARING CAPTURE_READY,
      CaptureRequestStop 7, CaptureTransition CAPTURE_STOPPING CAPTURE_COMMITTING,
      CaptureTransition CAPTURE_COMMITTING CAPTURE_DONE, CaptureBegin (Some ''T2'') 1 0,
      CaptureRequestStop 8, CaptureTransition CAPTURE_STOPPING CAPTURE_COMMITTING,
      CaptureTransition CAPTURE_COMMITTING CAPTURE_DONE]"

theorem capture_done_after_commit_witness:
  "ct_state (capture_run capture_task_init demo_capture ! 8) = CAPTURE_DONE \<and>
   (\<exists>b k j. 5 \<le> b \<and> b < k \<and> k < j \<and> j < 8 \<and> ct_state (capture_run capture_task_init demo_capture ! k) = CAPTURE_STOPPING \<and>
      ct_state (capture_run capture_task_init demo_capture ! j) = CAPTURE_COMMITTING)"
proof -
  have l: "8 < length demo_capture" by code_simp
  have d: "ct_state (capture_run capture_task_init demo_capture ! 8) = CAPTURE_DONE" by code_simp
  have g: "capture_begun demo_capture 5" by code_simp
  from capture_done_after_commit [OF l d] obtain b k j where p: "b < k" "k < j" "j < 8"
    "\<forall>m. b < m \<and> m \<le> 8 \<longrightarrow> \<not> capture_begun demo_capture m"
    "ct_state (capture_run capture_task_init demo_capture ! k) = CAPTURE_STOPPING"
    "ct_state (capture_run capture_task_init demo_capture ! j) = CAPTURE_COMMITTING" by blast
  have "\<not> b < 5" using p(4) g by auto
  then show ?thesis using p d by (metis not_less)
qed

text \<open>A stop is idempotent and owned by its epoch: after an accepted stop request, until a new
  capture begins, repeating the request with the same epoch succeeds without effect and a
  request with any other epoch is refused without effect.\<close>

lemma capture_stop_idempotent:
  assumes "capture_task_request_stop task epoch = (0, task')"
    and "list_all (\<lambda>x. \<not> capture_op_begins x) ops"
  shows "let now = last (task' # capture_run task' ops) in
     \<forall>e. capture_task_request_stop now e = (if e = epoch then 0 else -1, now)"
  using capture_held_request [OF capture_run_held [OF capture_request_held [OF assms(1)] assms(2)]]
  by (simp only: Let_def) simp

end
