(* ===== verification/Storage_Worker.thy ===== *)
theory Storage_Worker
  imports Forward_Machine
begin

text \<open>
  The lifecycle of one storage worker, \<^verbatim>\<open>storage_worker.c\<close>: the guarded transition and the
  three queries the write queue asks of the state.
\<close>

datatype StorageWorkerState =
    WORKER_INIT
  | WORKER_READY
  | WORKER_ARMED
  | WORKER_RUNNING
  | WORKER_WAIT_BOUNDARY
  | WORKER_DMA_QUIESCING
  | WORKER_HARVESTING
  | WORKER_DRAINING
  | WORKER_DRAINED_WAIT_STOP
  | WORKER_FINALIZING
  | WORKER_DONE
  | WORKER_FAILED

primrec worker_code :: "StorageWorkerState \<Rightarrow> nat" where
  "worker_code WORKER_INIT = 0"
| "worker_code WORKER_READY = 1"
| "worker_code WORKER_ARMED = 2"
| "worker_code WORKER_RUNNING = 3"
| "worker_code WORKER_WAIT_BOUNDARY = 4"
| "worker_code WORKER_DMA_QUIESCING = 5"
| "worker_code WORKER_HARVESTING = 6"
| "worker_code WORKER_DRAINING = 7"
| "worker_code WORKER_DRAINED_WAIT_STOP = 8"
| "worker_code WORKER_FINALIZING = 9"
| "worker_code WORKER_DONE = 10"
| "worker_code WORKER_FAILED = 11"

lemma worker_code_inject [simp]: "worker_code a = worker_code b \<longleftrightarrow> a = b"
  by (cases a; cases b; simp)

instantiation StorageWorkerState :: linorder
begin

definition less_eq_StorageWorkerState :: "StorageWorkerState \<Rightarrow> StorageWorkerState \<Rightarrow> bool" where
  "less_eq_StorageWorkerState a b \<longleftrightarrow> worker_code a \<le> worker_code b"

definition less_StorageWorkerState :: "StorageWorkerState \<Rightarrow> StorageWorkerState \<Rightarrow> bool" where
  "less_StorageWorkerState a b \<longleftrightarrow> worker_code a < worker_code b"

instance
  by intro_classes (auto simp: less_eq_StorageWorkerState_def less_StorageWorkerState_def)

end

lemmas worker_order = less_eq_StorageWorkerState_def less_StorageWorkerState_def

definition worker_transition_allowed :: "StorageWorkerState \<Rightarrow> StorageWorkerState \<Rightarrow> bool" where
  "worker_transition_allowed expected next =
     (if next = WORKER_FAILED then WORKER_INIT \<le> expected \<and> expected < WORKER_DONE
      else case expected of
          WORKER_INIT \<Rightarrow> next = WORKER_READY
        | WORKER_READY \<Rightarrow> next = WORKER_ARMED
        | WORKER_ARMED \<Rightarrow> next = WORKER_RUNNING
        | WORKER_RUNNING \<Rightarrow> next = WORKER_WAIT_BOUNDARY \<or> next = WORKER_DRAINING
        | WORKER_WAIT_BOUNDARY \<Rightarrow> next = WORKER_DMA_QUIESCING
        | WORKER_DMA_QUIESCING \<Rightarrow> next = WORKER_HARVESTING
        | WORKER_HARVESTING \<Rightarrow> next = WORKER_DRAINING
        | WORKER_DRAINING \<Rightarrow> next = WORKER_DRAINED_WAIT_STOP
        | WORKER_DRAINED_WAIT_STOP \<Rightarrow> next = WORKER_FINALIZING
        | WORKER_FINALIZING \<Rightarrow> next = WORKER_DONE
        | _ \<Rightarrow> False)"

definition storage_worker_transition ::
  "StorageWorkerState \<Rightarrow> StorageWorkerState \<Rightarrow> StorageWorkerState \<Rightarrow> int \<times> StorageWorkerState" where
  "storage_worker_transition state expected next =
     (if state \<noteq> expected \<or> \<not> worker_transition_allowed expected next then (-1, state) else (0, next))"

definition storage_worker_stop_latched :: "StorageWorkerState \<Rightarrow> bool" where
  "storage_worker_stop_latched state \<longleftrightarrow> WORKER_WAIT_BOUNDARY \<le> state"

definition storage_worker_producer_done :: "StorageWorkerState \<Rightarrow> bool" where
  "storage_worker_producer_done state \<longleftrightarrow> WORKER_DRAINING \<le> state"

definition storage_worker_can_requeue :: "StorageWorkerState \<Rightarrow> bool" where
  "storage_worker_can_requeue state \<longleftrightarrow> state = WORKER_RUNNING"

primrec storage_worker_state_name :: "StorageWorkerState \<Rightarrow> string" where
  "storage_worker_state_name WORKER_INIT = ''init''"
| "storage_worker_state_name WORKER_READY = ''ready''"
| "storage_worker_state_name WORKER_ARMED = ''armed''"
| "storage_worker_state_name WORKER_RUNNING = ''running''"
| "storage_worker_state_name WORKER_WAIT_BOUNDARY = ''wait_boundary''"
| "storage_worker_state_name WORKER_DMA_QUIESCING = ''dma_quiescing''"
| "storage_worker_state_name WORKER_HARVESTING = ''harvesting''"
| "storage_worker_state_name WORKER_DRAINING = ''draining''"
| "storage_worker_state_name WORKER_DRAINED_WAIT_STOP = ''drained_wait_stop''"
| "storage_worker_state_name WORKER_FINALIZING = ''finalizing''"
| "storage_worker_state_name WORKER_DONE = ''done''"
| "storage_worker_state_name WORKER_FAILED = ''failed''"

text \<open>A worker executing a sequence of attempted transitions; refused ones leave it in place.\<close>

fun worker_run ::
  "StorageWorkerState \<Rightarrow> (StorageWorkerState \<times> StorageWorkerState) list \<Rightarrow> StorageWorkerState" where
  "worker_run s [] = s"
| "worker_run s ((e, n) # xs) = worker_run (snd (storage_worker_transition s e n)) xs"

section \<open>Facts\<close>

interpretation worker_machine: forward_machine worker_code worker_transition_allowed 11
proof
  show "worker_transition_allowed a b \<Longrightarrow> worker_code a < worker_code b" for a b
    by (cases a; cases b) (simp_all add: worker_transition_allowed_def worker_order)
  show "worker_code a \<le> 11" for a
    by (cases a) simp_all
qed

lemma worker_transition_forward: "s \<le> snd (storage_worker_transition s e n)"
  using worker_machine.forward [of s n]
  by (auto simp: storage_worker_transition_def worker_order)

lemma worker_run_forward: "s \<le> worker_run s xs"
proof (induction s xs rule: worker_run.induct)
  case (2 s e n xs)
  then show ?case
    using worker_transition_forward [of s e n] by (auto intro: order_trans)
qed simp

lemma worker_from_terminal:
  "\<not> worker_transition_allowed WORKER_DONE n" "\<not> worker_transition_allowed WORKER_FAILED n"
  by (simp_all add: worker_transition_allowed_def worker_order)

section \<open>Properties\<close>

text \<open>Once a worker has latched its stop, no sequence of further transition attempts makes it
  requeue descriptors again or undoes the latch, and a worker that is done or failed stays so.\<close>

lemma worker_stop_irrevocable:
  assumes "storage_worker_stop_latched s"
  shows "storage_worker_stop_latched (worker_run s xs) \<and>
         \<not> storage_worker_can_requeue (worker_run s xs) \<and>
         (s \<in> {WORKER_DONE, WORKER_FAILED} \<longrightarrow> worker_run s xs = s)"
proof -
  have l: "WORKER_WAIT_BOUNDARY \<le> worker_run s xs"
    using assms worker_run_forward [of s xs] by (simp add: storage_worker_stop_latched_def)
  moreover have "\<not> WORKER_WAIT_BOUNDARY \<le> WORKER_RUNNING" by (simp add: worker_order)
  moreover have "worker_run s xs = s" if "s \<in> {WORKER_DONE, WORKER_FAILED}"
    using that by (induction s xs rule: worker_run.induct)
      (auto simp: storage_worker_transition_def worker_from_terminal)
  ultimately show ?thesis
    by (auto simp: storage_worker_stop_latched_def storage_worker_can_requeue_def)
qed

text \<open>A worker accepts at most eleven transitions in its life, visits no state twice, and each
  accepted transition moves it forward in the lifecycle.\<close>

lemma worker_lifecycle_bounded:
  assumes "successively worker_transition_allowed (s # ss)"
  shows "length ss \<le> 11 \<and> distinct (s # ss) \<and> sorted_wrt (\<lambda>a b. a < b) (s # ss)"
  using worker_machine.path_bounded [OF assms] worker_machine.path_distinct [OF assms]
    worker_machine.path_sorted [OF assms]
  by (simp add: sorted_wrt_map worker_order)

end
