(* ===== verification/Stable_Window.thy ===== *)
theory Stable_Window
  imports Ccb_Prelude
begin

text \<open>
  The contract of the program's two stability detectors (\<^verbatim>\<open>storage_stop_harvest_observe\<close> and
  \<^verbatim>\<open>storage_drain_stable_observe\<close>): each scan is either quiet or not, a scan that is not quiet
  restarts the detector, and the verdict is positive when enough consecutive quiet scans span
  a long enough time. The locale fixes one detector with its two thresholds and characterises
  its verdict over a whole sequence of scans.
\<close>

locale stable_window =
  fixes observe :: "'s \<Rightarrow> 'i \<Rightarrow> bool \<times> 's"
    and quiet :: "'i \<Rightarrow> bool"
    and time :: "'i \<Rightarrow> u64"
    and scans :: "'s \<Rightarrow> u32"
    and since :: "'s \<Rightarrow> u64"
    and start :: 's
    and required :: u32
    and window :: u64
  assumes scans_start: "scans start = 0"
    and restart: "\<not> quiet i \<Longrightarrow> observe s i = (False, start)"
    and count: "quiet i \<Longrightarrow>
       scans (snd (observe s i)) = (if scans s \<noteq> UINT32_MAX then scans s + 1 else scans s)"
    and mark: "quiet i \<Longrightarrow>
       since (snd (observe s i)) = (if scans s = 0 then time i else since s)"
    and verdict: "quiet i \<Longrightarrow> fst (observe s i) \<longleftrightarrow>
       (if required = 0 then 1 else required) \<le> scans (snd (observe s i)) \<and>
       since (snd (observe s i)) \<le> time i \<and>
       window \<le> time i - since (snd (observe s i))"
begin

fun run :: "'s \<Rightarrow> 'i list \<Rightarrow> 's" where
  "run s [] = s"
| "run s (i # is) = run (snd (observe s i)) is"

definition quiet_suffix :: "'i list \<Rightarrow> nat" where
  "quiet_suffix is = length (takeWhile quiet (rev is))"

lemma run_snoc: "run s (is @ [i]) = snd (observe (run s is) i)"
  by (induction "is" arbitrary: s) simp_all

lemma quiet_suffix_snoc [simp]:
  "quiet_suffix (is @ [i]) = (if quiet i then Suc (quiet_suffix is) else 0)"
  "quiet_suffix [] = 0"
  by (simp_all add: quiet_suffix_def)

lemma quiet_suffix_le: "quiet_suffix is \<le> length is"
  by (metis length_rev length_takeWhile_le quiet_suffix_def)

lemma quiet_suffix_quiet:
  assumes "length is - quiet_suffix is \<le> k" and "k < length is"
  shows "quiet (is ! k)"
proof -
  have "length is - Suc k < quiet_suffix is" using assms by linarith
  then have "quiet (takeWhile quiet (rev is) ! (length is - Suc k))"
    unfolding quiet_suffix_def by (metis nth_mem set_takeWhileD)
  then show ?thesis
    using assms \<open>length is - Suc k < quiet_suffix is\<close>
    by (simp add: quiet_suffix_def takeWhile_nth rev_nth)
qed

lemma run_scans: "unat (scans (run start is)) = min (quiet_suffix is) (unat UINT32_MAX)"
proof (induction "is" rule: rev_induct)
  case Nil
  then show ?case by (simp add: scans_start)
next
  case (snoc i "is")
  show ?case
  proof (cases "quiet i")
    case False
    then show ?thesis by (simp add: run_snoc restart scans_start)
  next
    case True
    with snoc show ?thesis
      by (simp only: run_snoc count unat_inc_saturating quiet_suffix_snoc) simp
  qed
qed

lemma run_since:
  "0 < quiet_suffix is \<Longrightarrow> since (run start is) = time (is ! (length is - quiet_suffix is))"
proof (induction "is" rule: rev_induct)
  case Nil
  then show ?case by simp
next
  case (snoc i "is")
  from snoc.prems have q: "quiet i" by (simp split: if_splits)
  show ?case
  proof (cases "quiet_suffix is = 0")
    case True
    then have "scans (run start is) = 0" using run_scans [of "is"] by simp
    with q True show ?thesis by (simp add: run_snoc mark)
  next
    case False
    then have "scans (run start is) \<noteq> 0" using run_scans [of "is"] by auto
    moreover have "length is - quiet_suffix is < length is"
      using False quiet_suffix_le [of "is"] by linarith
    ultimately show ?thesis using q False snoc.IH by (simp add: run_snoc mark nth_append)
  qed
qed

text \<open>
  The verdict of the last scan of a sequence is positive exactly when the sequence ends in
  enough quiet scans, and the time from the first of them to the last fills the window.
\<close>

theorem verdict_iff:
  fixes "is" i
  defines "n \<equiv> quiet_suffix (is @ [i])"
  shows "fst (observe (run start is) i) \<longleftrightarrow>
     quiet i \<and> max 1 (unat required) \<le> n \<and>
     (let t0 = time ((is @ [i]) ! (length (is @ [i]) - n))
      in t0 \<le> time i \<and> window \<le> time i - t0)"
proof (cases "quiet i")
  case False
  then show ?thesis by (simp add: restart)
next
  case True
  let ?s = "snd (observe (run start is) i)"
  have n: "0 < n" using True by (simp add: n_def)
  have sc: "unat (scans ?s) = min n (unat UINT32_MAX)"
    using run_scans [of "is @ [i]"] by (simp add: run_snoc n_def)
  have si: "since ?s = time ((is @ [i]) ! (length (is @ [i]) - n))"
    using run_since [of "is @ [i]"] n by (simp add: run_snoc n_def)
  have req: "unat required \<le> unat UINT32_MAX"
    using u32_le_max [of required] by (simp only: word_le_nat_alt)
  have "(if required = 0 then 1 else required) \<le> scans ?s \<longleftrightarrow> max 1 (unat required) \<le> n"
    using sc req n by (cases "required = 0") (auto simp: word_le_nat_alt min_def)
  with True si show ?thesis by (simp add: verdict Let_def)
qed

end

end
