(* ===== verification/Storage_Stop.thy ===== *)
theory Storage_Stop
  imports Forward_Machine Stable_Window
begin

text \<open>
  The stop sequence of \<^verbatim>\<open>storage_stop.c\<close>: the phase machine with its deadline, the
  once-only DMA quiesce, the input-idle detector, the stable-empty harvest detector and the
  disposition of the last descriptor.
\<close>

section \<open>State\<close>

datatype StorageStopPhase =
    STORAGE_STOP_NONE
  | STORAGE_STOP_REQUESTED
  | STORAGE_STOP_WAIT_BOUNDARY
  | STORAGE_STOP_DMA_QUIESCING
  | STORAGE_STOP_HARVESTING
  | STORAGE_STOP_PRODUCER_DONE
  | STORAGE_STOP_WRITER_DRAINING
  | STORAGE_STOP_FINALIZING
  | STORAGE_STOP_FINISHED
  | STORAGE_STOP_FAILED

primrec stop_code :: "StorageStopPhase \<Rightarrow> nat" where
  "stop_code STORAGE_STOP_NONE = 0"
| "stop_code STORAGE_STOP_REQUESTED = 1"
| "stop_code STORAGE_STOP_WAIT_BOUNDARY = 2"
| "stop_code STORAGE_STOP_DMA_QUIESCING = 3"
| "stop_code STORAGE_STOP_HARVESTING = 4"
| "stop_code STORAGE_STOP_PRODUCER_DONE = 5"
| "stop_code STORAGE_STOP_WRITER_DRAINING = 6"
| "stop_code STORAGE_STOP_FINALIZING = 7"
| "stop_code STORAGE_STOP_FINISHED = 8"
| "stop_code STORAGE_STOP_FAILED = 9"

lemma stop_code_inject [simp]: "stop_code a = stop_code b \<longleftrightarrow> a = b"
  by (cases a; cases b; simp)

instantiation StorageStopPhase :: linorder
begin

definition less_eq_StorageStopPhase :: "StorageStopPhase \<Rightarrow> StorageStopPhase \<Rightarrow> bool" where
  "less_eq_StorageStopPhase a b \<longleftrightarrow> stop_code a \<le> stop_code b"

definition less_StorageStopPhase :: "StorageStopPhase \<Rightarrow> StorageStopPhase \<Rightarrow> bool" where
  "less_StorageStopPhase a b \<longleftrightarrow> stop_code a < stop_code b"

instance
  by intro_classes (auto simp: less_eq_StorageStopPhase_def less_StorageStopPhase_def)

end

lemmas stop_order = less_eq_StorageStopPhase_def less_StorageStopPhase_def

record StorageDmaQuiesceState =
  dq_drain_epoch :: u64
  dq_started :: bool
  dq_finished :: bool
  dq_result :: int

record StorageStopState =
  sp_state :: StorageStopPhase
  sp_deadline_us :: u64
  sp_quiesce :: StorageDmaQuiesceState

record StorageStopHarvestState =
  sh_consecutive_empty_scans :: u32
  sh_empty_since_us :: u64

datatype StorageInputIdleEvent =
    STORAGE_INPUT_IDLE_NO_CHANGE
  | STORAGE_INPUT_IDLE_CANDIDATE
  | STORAGE_INPUT_ACTIVE

record StorageInputIdleState =
  ii_first_data_seen :: bool
  ii_candidate :: bool
  ii_last_dma_activity_us :: u64
  ii_dma_observed_bytes :: u64
  ii_completed_descriptor_count :: u64
  ii_idle_since_us :: u64
  ii_idle_scan_count :: u32

datatype StorageStopTailDisposition =
    STORAGE_STOP_TAIL_QUEUE
  | STORAGE_STOP_TAIL_DEFER_UNALIGNED
  | STORAGE_STOP_TAIL_DEFER_LATE

section \<open>Operations\<close>

definition STORAGE_DMA_QUIESCE_WAIT_MAX_US :: u64 where
  "STORAGE_DMA_QUIESCE_WAIT_MAX_US = 250000"

definition storage_dma_quiesce_wait_us :: "u64 \<Rightarrow> u64" where
  "storage_dma_quiesce_wait_us configured_timeout_us =
     (if configured_timeout_us = 0 \<or> STORAGE_DMA_QUIESCE_WAIT_MAX_US < configured_timeout_us
      then STORAGE_DMA_QUIESCE_WAIT_MAX_US else configured_timeout_us)"

definition storage_dma_quiesce_init :: StorageDmaQuiesceState where
  "storage_dma_quiesce_init =
     \<lparr>dq_drain_epoch = 0, dq_started = False, dq_finished = False, dq_result = 0\<rparr>"

definition storage_stop_state_init :: StorageStopState where
  "storage_stop_state_init =
     \<lparr>sp_state = STORAGE_STOP_NONE, sp_deadline_us = 0, sp_quiesce = storage_dma_quiesce_init\<rparr>"

text \<open>
  The quiesce callback acts on an opaque context; it is an argument, absent when the C
  function pointer is NULL.
\<close>

definition storage_dma_quiesce_once ::
  "StorageDmaQuiesceState \<Rightarrow> u64 \<Rightarrow> ('c \<Rightarrow> int \<times> 'c) option \<Rightarrow> 'c \<Rightarrow> int \<times> StorageDmaQuiesceState \<times> 'c" where
  "storage_dma_quiesce_once state drain_epoch quiesce opaque =
     (case quiesce of
        None \<Rightarrow> (-1, state, opaque)
      | Some q \<Rightarrow>
          if drain_epoch = 0 then (-1, state, opaque)
          else if dq_started state
          then (if dq_drain_epoch state \<noteq> drain_epoch \<or> \<not> dq_finished state then -1
                else dq_result state, state, opaque)
          else let (r, opaque') = q opaque;
                   state' = state\<lparr>dq_drain_epoch := drain_epoch, dq_started := True,
                                  dq_result := r, dq_finished := True\<rparr>
               in (dq_result state', state', opaque'))"

definition storage_stop_state_latch :: "StorageStopState \<Rightarrow> u64 \<Rightarrow> bool \<times> StorageStopState" where
  "storage_stop_state_latch state deadline_us =
     (if sp_state state \<noteq> STORAGE_STOP_NONE then (False, state)
      else (True, state\<lparr>sp_state := STORAGE_STOP_REQUESTED, sp_deadline_us := deadline_us\<rparr>))"

definition storage_stop_state_advance ::
  "StorageStopState \<Rightarrow> StorageStopPhase \<Rightarrow> int \<times> StorageStopState" where
  "storage_stop_state_advance state next =
     (if sp_state state = STORAGE_STOP_FAILED \<or>
         stop_code next \<noteq> stop_code (sp_state state) + 1 \<or>
         STORAGE_STOP_FINISHED < next
      then (-1, state) else (0, state\<lparr>sp_state := next\<rparr>))"

definition storage_stop_state_fail :: "StorageStopState \<Rightarrow> StorageStopState" where
  "storage_stop_state_fail state = state\<lparr>sp_state := STORAGE_STOP_FAILED\<rparr>"

definition storage_stop_state_expired :: "StorageStopState \<Rightarrow> u64 \<Rightarrow> bool" where
  "storage_stop_state_expired state now_us \<longleftrightarrow>
     sp_state state \<noteq> STORAGE_STOP_NONE \<and> sp_deadline_us state \<noteq> 0 \<and> sp_deadline_us state \<le> now_us"

definition storage_stop_boundary_should_quiesce :: "StorageStopState \<Rightarrow> bool \<Rightarrow> u64 \<Rightarrow> bool" where
  "storage_stop_boundary_should_quiesce state rx_packet_open now_us \<longleftrightarrow>
     sp_state state = STORAGE_STOP_WAIT_BOUNDARY \<and>
     (\<not> rx_packet_open \<or> storage_stop_state_expired state now_us)"

definition storage_stop_harvest_state_init :: StorageStopHarvestState where
  "storage_stop_harvest_state_init = \<lparr>sh_consecutive_empty_scans = 0, sh_empty_since_us = 0\<rparr>"

definition storage_input_idle_init :: StorageInputIdleState where
  "storage_input_idle_init =
     \<lparr>ii_first_data_seen = False, ii_candidate = False, ii_last_dma_activity_us = 0,
      ii_dma_observed_bytes = 0, ii_completed_descriptor_count = 0, ii_idle_since_us = 0,
      ii_idle_scan_count = 0\<rparr>"

definition storage_input_idle_observe ::
  "StorageInputIdleState \<Rightarrow> u64 \<Rightarrow> u64 \<Rightarrow> u64 \<Rightarrow> bool \<Rightarrow> bool \<Rightarrow> u64 \<Rightarrow> u32 \<Rightarrow>
   StorageInputIdleEvent \<times> StorageInputIdleState" where
  "storage_input_idle_observe state now_us dma_observed_bytes completed_descriptor_count
     rx_packet_open dma_error required_idle_us required_scans =
   (let activity = (dma_observed_bytes \<noteq> ii_dma_observed_bytes state \<or>
                    completed_descriptor_count \<noteq> ii_completed_descriptor_count state \<or>
                    rx_packet_open);
        was_candidate = ii_candidate state;
        s1 = (if dma_observed_bytes \<noteq> 0 \<or> completed_descriptor_count \<noteq> 0
              then state\<lparr>ii_first_data_seen := True\<rparr> else state);
        s2 = s1\<lparr>ii_dma_observed_bytes := dma_observed_bytes,
                ii_completed_descriptor_count := completed_descriptor_count\<rparr>
    in if activity \<or> dma_error \<or> \<not> ii_first_data_seen s2
       then let s3 = (if activity then s2\<lparr>ii_last_dma_activity_us := now_us\<rparr> else s2)
            in (if was_candidate \<and> activity then STORAGE_INPUT_ACTIVE
                else STORAGE_INPUT_IDLE_NO_CHANGE,
                s3\<lparr>ii_candidate := False, ii_idle_since_us := 0, ii_idle_scan_count := 0\<rparr>)
       else let s3 = (if ii_last_dma_activity_us s2 = 0
                      then s2\<lparr>ii_last_dma_activity_us := now_us\<rparr> else s2)
            in if now_us < ii_last_dma_activity_us s3 \<or>
                  now_us - ii_last_dma_activity_us s3 < required_idle_us
               then (STORAGE_INPUT_IDLE_NO_CHANGE,
                     s3\<lparr>ii_idle_since_us := 0, ii_idle_scan_count := 0\<rparr>)
               else let required = (if required_scans = 0 then 1 else required_scans);
                        s4 = (if ii_idle_scan_count s3 = 0 then s3\<lparr>ii_idle_since_us := now_us\<rparr> else s3);
                        s5 = (if ii_idle_scan_count s4 \<noteq> UINT32_MAX
                              then s4\<lparr>ii_idle_scan_count := ii_idle_scan_count s4 + 1\<rparr> else s4)
                    in if \<not> ii_candidate s5 \<and> required \<le> ii_idle_scan_count s5
                       then (STORAGE_INPUT_IDLE_CANDIDATE, s5\<lparr>ii_candidate := True\<rparr>)
                       else (STORAGE_INPUT_IDLE_NO_CHANGE, s5))"

definition storage_stop_harvest_observe ::
  "StorageStopHarvestState \<Rightarrow> bool \<Rightarrow> u32 \<Rightarrow> u32 \<Rightarrow> bool \<Rightarrow> u64 \<Rightarrow> u32 \<Rightarrow> u64 \<Rightarrow>
   bool \<times> StorageStopHarvestState" where
  "storage_stop_harvest_observe state dma_quiesced harvested_count completed_unharvested
     rx_packet_open now_us required_empty_scans stable_window_us =
   (if \<not> dma_quiesced \<or> harvested_count \<noteq> 0 \<or> completed_unharvested \<noteq> 0 \<or> rx_packet_open
    then (False, storage_stop_harvest_state_init)
    else let required = (if required_empty_scans = 0 then 1 else required_empty_scans);
             s1 = (if sh_consecutive_empty_scans state = 0
                   then state\<lparr>sh_empty_since_us := now_us\<rparr> else state);
             s2 = s1\<lparr>sh_consecutive_empty_scans :=
                       (if sh_consecutive_empty_scans s1 \<noteq> UINT32_MAX
                        then sh_consecutive_empty_scans s1 + 1 else sh_consecutive_empty_scans s1)\<rparr>
         in (required \<le> sh_consecutive_empty_scans s2 \<and> sh_empty_since_us s2 \<le> now_us \<and>
             stable_window_us \<le> now_us - sh_empty_since_us s2, s2))"

definition storage_stop_tail_disposition ::
  "bool \<Rightarrow> bool \<Rightarrow> u64 \<Rightarrow> u64 \<Rightarrow> bool \<Rightarrow> StorageStopTailDisposition" where
  "storage_stop_tail_disposition stop_active tail_already_seen payload_bytes media_bytes
     padding_coherent =
   (if payload_bytes = 0 \<or> media_bytes = payload_bytes \<or> padding_coherent
    then STORAGE_STOP_TAIL_QUEUE
    else if media_bytes < payload_bytes then STORAGE_STOP_TAIL_DEFER_LATE
    else if tail_already_seen then STORAGE_STOP_TAIL_DEFER_LATE
    else STORAGE_STOP_TAIL_DEFER_UNALIGNED)"

section \<open>Facts\<close>

text \<open>The phases a stop can go through: one accepted advance, or a failure.\<close>

definition stop_phase_allowed :: "StorageStopPhase \<Rightarrow> StorageStopPhase \<Rightarrow> bool" where
  "stop_phase_allowed a b \<longleftrightarrow>
     fst (storage_stop_state_advance (storage_stop_state_init\<lparr>sp_state := a\<rparr>) b) = 0 \<or>
     (a \<noteq> STORAGE_STOP_FAILED \<and> b = STORAGE_STOP_FAILED)"

interpretation stop_machine: forward_machine stop_code stop_phase_allowed 9
proof
  show "stop_phase_allowed a b \<Longrightarrow> stop_code a < stop_code b" for a b
    by (cases a) (auto simp: stop_phase_allowed_def storage_stop_state_advance_def split: if_splits)
  show "stop_code a \<le> 9" for a
    by (cases a) simp_all
qed

text \<open>One scan of the stop harvest: quiesced, harvested, still completed, packet open, time.\<close>

record harvest_scan =
  hs_dma_quiesced :: bool
  hs_harvested_count :: u32
  hs_completed_unharvested :: u32
  hs_rx_packet_open :: bool
  hs_now_us :: u64

definition harvest_scan_empty :: "harvest_scan \<Rightarrow> bool" where
  "harvest_scan_empty h \<longleftrightarrow>
     hs_dma_quiesced h \<and> hs_harvested_count h = 0 \<and> hs_completed_unharvested h = 0 \<and>
     \<not> hs_rx_packet_open h"

definition observe_harvest_scan ::
  "u32 \<Rightarrow> u64 \<Rightarrow> StorageStopHarvestState \<Rightarrow> harvest_scan \<Rightarrow> bool \<times> StorageStopHarvestState" where
  "observe_harvest_scan required window s h =
     storage_stop_harvest_observe s (hs_dma_quiesced h) (hs_harvested_count h)
       (hs_completed_unharvested h) (hs_rx_packet_open h) (hs_now_us h) required window"

lemmas harvest_defs =
  observe_harvest_scan_def storage_stop_harvest_observe_def harvest_scan_empty_def
  storage_stop_harvest_state_init_def Let_def

interpretation harvest_window: stable_window
  "observe_harvest_scan required window" harvest_scan_empty hs_now_us
  sh_consecutive_empty_scans sh_empty_since_us storage_stop_harvest_state_init required window
  for required window
  by unfold_locales (auto simp: harvest_defs)

fun harvest_scan_all :: "u32 \<Rightarrow> u64 \<Rightarrow> StorageStopHarvestState \<Rightarrow> harvest_scan list \<Rightarrow> StorageStopHarvestState" where
  "harvest_scan_all required window s [] = s"
| "harvest_scan_all required window s (h # hs) =
     harvest_scan_all required window (snd (observe_harvest_scan required window s h)) hs"

lemma harvest_scan_all_run: "harvest_window.run required window s hs = harvest_scan_all required window s hs"
  by (induction hs arbitrary: s) simp_all

text \<open>Repeated quiesce requests against one callback and context.\<close>

fun quiesce_all ::
  "StorageDmaQuiesceState \<Rightarrow> ('c \<Rightarrow> int \<times> 'c) \<Rightarrow> 'c \<Rightarrow> u64 list \<Rightarrow> int list \<times> 'c" where
  "quiesce_all s q c [] = ([], c)"
| "quiesce_all s q c (e # es) =
     (case storage_dma_quiesce_once s e (Some q) c of
        (rc, s', c') \<Rightarrow> (case quiesce_all s' q c' es of (rcs, c'') \<Rightarrow> (rc # rcs, c'')))"

lemma quiesce_all_started:
  assumes "dq_started s" and "dq_finished s" and "0 \<notin> set es"
  shows "quiesce_all s q c es = (map (\<lambda>e. if e = dq_drain_epoch s then dq_result s else -1) es, c)"
  using assms by (induction es) (auto simp: storage_dma_quiesce_once_def)

section \<open>Input idle detection\<close>

record idle_scan =
  is_now_us :: u64
  is_dma_observed_bytes :: u64
  is_completed_descriptor_count :: u64
  is_rx_packet_open :: bool
  is_dma_error :: bool

definition observe_idle_scan ::
  "u64 \<Rightarrow> u32 \<Rightarrow> StorageInputIdleState \<Rightarrow> idle_scan \<Rightarrow> StorageInputIdleEvent \<times> StorageInputIdleState" where
  "observe_idle_scan required_us required_scans s x =
     storage_input_idle_observe s (is_now_us x) (is_dma_observed_bytes x)
       (is_completed_descriptor_count x) (is_rx_packet_open x) (is_dma_error x)
       required_us required_scans"

fun idle_events :: "u64 \<Rightarrow> u32 \<Rightarrow> StorageInputIdleState \<Rightarrow> idle_scan list \<Rightarrow> StorageInputIdleEvent list" where
  "idle_events req n s [] = []"
| "idle_events req n s (x # xs) =
     (case observe_idle_scan req n s x of (e, s') \<Rightarrow> e # idle_events req n s' xs)"

lemma idle_scan_cases:
  "observe_idle_scan req n s x = (e, s') \<Longrightarrow>
     (e = STORAGE_INPUT_ACTIVE \<longrightarrow> ii_candidate s \<and> \<not> ii_candidate s') \<and>
     (e = STORAGE_INPUT_IDLE_CANDIDATE \<longrightarrow> \<not> ii_candidate s \<and> ii_candidate s') \<and>
     (e = STORAGE_INPUT_IDLE_NO_CHANGE \<longrightarrow> ii_candidate s' \<longrightarrow> ii_candidate s)"
  by (auto simp: observe_idle_scan_def storage_input_idle_observe_def Let_def split: if_splits)

lemma idle_events_balance:
  "count_list (idle_events req n s xs) STORAGE_INPUT_ACTIVE \<le>
     count_list (idle_events req n s xs) STORAGE_INPUT_IDLE_CANDIDATE + (if ii_candidate s then 1 else 0)"
proof (induction xs arbitrary: s)
  case (Cons x xs)
  obtain e s' where r: "observe_idle_scan req n s x = (e, s')" by (cases "observe_idle_scan req n s x")
  show ?case using Cons.IH [of s'] idle_scan_cases [OF r] r by (cases e) (auto split: if_splits)
qed simp

text \<open>
  A scan shows activity when a packet is open or a counter differs from the scan before it, and it stays
  quiet after a scan with the same counters.
\<close>

definition scan_active :: "idle_scan list \<Rightarrow> idle_scan \<Rightarrow> bool" where
  "scan_active before x \<longleftrightarrow>
     is_rx_packet_open x \<or>
     is_dma_observed_bytes x \<noteq> (if before = [] then 0 else is_dma_observed_bytes (last before)) \<or>
     is_completed_descriptor_count x \<noteq> (if before = [] then 0 else is_completed_descriptor_count (last before))"

definition quiet_since :: "idle_scan \<Rightarrow> idle_scan \<Rightarrow> bool" where
  "quiet_since a x \<longleftrightarrow> \<not> is_rx_packet_open x \<and> is_dma_observed_bytes x = is_dma_observed_bytes a \<and>
     is_completed_descriptor_count x = is_completed_descriptor_count a"

definition idle_enough :: "u64 \<Rightarrow> idle_scan \<Rightarrow> idle_scan \<Rightarrow> bool" where
  "idle_enough req a x \<longleftrightarrow> \<not> is_dma_error x \<and> unat (is_now_us a) + unat req \<le> unat (is_now_us x)"

text \<open>The scans so far: the last active one, the quiet ones after it, and of these the last ones that count.\<close>

definition idle_history :: "u64 \<Rightarrow> idle_scan list \<Rightarrow> idle_scan list \<Rightarrow> idle_scan \<Rightarrow> idle_scan list \<Rightarrow> idle_scan list \<Rightarrow> bool" where
  "idle_history req xs pre a early counted \<longleftrightarrow>
     xs = pre @ a # early @ counted \<and> scan_active pre a \<and> list_all (quiet_since a) (early @ counted) \<and>
     list_all (idle_enough req a) counted"

definition idle_after :: "u64 \<Rightarrow> u32 \<Rightarrow> idle_scan list \<Rightarrow> StorageInputIdleState" where
  "idle_after req n xs = foldl (\<lambda>s x. snd (observe_idle_scan req n s x)) storage_input_idle_init xs"

definition idle_inv :: "u64 \<Rightarrow> idle_scan list \<Rightarrow> StorageInputIdleState \<Rightarrow> bool" where
  "idle_inv req xs s \<longleftrightarrow>
     ii_dma_observed_bytes s = (if xs = [] then 0 else is_dma_observed_bytes (last xs)) \<and>
     ii_completed_descriptor_count s = (if xs = [] then 0 else is_completed_descriptor_count (last xs)) \<and>
     (if ii_first_data_seen s
      then \<exists>pre a early counted. idle_history req xs pre a early counted \<and> unat (ii_idle_scan_count s) \<le> length counted \<and>
             is_now_us a \<le> ii_last_dma_activity_us s
      else ii_idle_scan_count s = 0 \<and> ii_dma_observed_bytes s = 0 \<and> ii_completed_descriptor_count s = 0)"

lemma idle_history_active: "scan_active xs x \<Longrightarrow> idle_history req (xs @ [x]) xs x [] []"
  by (simp add: idle_history_def)

lemma idle_history_quiet:
  assumes h: "idle_history req xs pre a early counted" and q: "\<not> scan_active xs x"
  shows "idle_history req (xs @ [x]) pre a (early @ counted @ [x]) []"
    and "idle_enough req a x \<Longrightarrow> idle_history req (xs @ [x]) pre a early (counted @ [x])"
proof -
  have "quiet_since a (last xs)" if "early @ counted \<noteq> []"
    using h that by (auto simp: idle_history_def list_all_iff last_append split: if_splits)
  then have "quiet_since a x"
    using h q by (cases "early @ counted = []") (auto simp: idle_history_def scan_active_def quiet_since_def)
  then show "idle_history req (xs @ [x]) pre a (early @ counted @ [x]) []"
    and "idle_enough req a x \<Longrightarrow> idle_history req (xs @ [x]) pre a early (counted @ [x])"
    using h by (simp_all add: idle_history_def)
qed

lemma idle_observe_inv:
  assumes inv: "idle_inv req xs s" and o: "observe_idle_scan req n s x = (e, s')"
  shows "idle_inv req (xs @ [x]) s'"
proof -
  let ?act = "scan_active xs x" and ?first = "ii_first_data_seen s \<or> is_dma_observed_bytes x \<noteq> 0 \<or> is_completed_descriptor_count x \<noteq> 0"
  have act: "?act \<longleftrightarrow> is_dma_observed_bytes x \<noteq> ii_dma_observed_bytes s \<or>
      is_completed_descriptor_count x \<noteq> ii_completed_descriptor_count s \<or> is_rx_packet_open x"
    using inv by (auto simp: scan_active_def idle_inv_def)
  note d = o [unfolded observe_idle_scan_def storage_input_idle_observe_def Let_def]
  have f: "ii_dma_observed_bytes s' = is_dma_observed_bytes x" "ii_completed_descriptor_count s' = is_completed_descriptor_count x"
      "ii_first_data_seen s' \<longleftrightarrow> ?first" using d by (auto split: if_splits)
  show ?thesis
  proof (cases ?act)
    case True
    then have "ii_idle_scan_count s' = 0" "ii_last_dma_activity_us s' = is_now_us x" using d act by (auto split: if_splits)
    then show ?thesis using idle_history_active [OF True, of req] f by (fastforce simp: idle_inv_def)
  next
    case quiet: False
    show ?thesis
    proof (cases "ii_first_data_seen s")
      case False
      then have "ii_idle_scan_count s' = 0" "\<not> ii_first_data_seen s'" using inv d quiet act by (auto simp: idle_inv_def split: if_splits)
      then show ?thesis using inv f False quiet act by (auto simp: idle_inv_def)
    next
      case seen: True
      then obtain pre a early counted where h: "idle_history req xs pre a early counted"
        and c: "unat (ii_idle_scan_count s) \<le> length counted" and t: "is_now_us a \<le> ii_last_dma_activity_us s"
        using inv by (auto simp: idle_inv_def)
      note h' = idle_history_quiet [OF h quiet]
      have t': "is_now_us a \<le> ii_last_dma_activity_us s'"
        using d t seen quiet act by (auto simp: word_le_nat_alt split: if_splits)
      have inc: "unat (ii_idle_scan_count s + 1) \<le> Suc (unat (ii_idle_scan_count s))" by (simp add: unat_word_ariths)
      consider (reset) "ii_idle_scan_count s' = 0"
        | (count) "unat (ii_idle_scan_count s') \<le> Suc (unat (ii_idle_scan_count s))" "\<not> is_dma_error x"
            "ii_last_dma_activity_us s' \<le> is_now_us x" "req \<le> is_now_us x - ii_last_dma_activity_us s'"
        using d seen quiet act inc by (auto simp: not_less split: if_splits)
      then show ?thesis
      proof cases
        case reset
        then show ?thesis using h'(1) t' f seen by (fastforce simp: idle_inv_def)
      next
        case count
        then have "unat (ii_last_dma_activity_us s') + unat req \<le> unat (is_now_us x)"
          by (simp add: word_le_nat_alt unat_sub)
        then have "idle_enough req a x" using t' count(2) by (simp add: idle_enough_def word_le_nat_alt)
        moreover have "unat (ii_idle_scan_count s') \<le> length (counted @ [x])" using count(1) c by simp
        ultimately show ?thesis using h'(2) t' f seen unfolding idle_inv_def by (simp del: length_append) blast
      qed
    qed
  qed
qed

lemma idle_after_inv: "idle_inv req xs (idle_after req n xs)"
proof (induction xs rule: rev_induct)
  case Nil
  then show ?case by (simp add: idle_inv_def idle_after_def storage_input_idle_init_def)
next
  case (snoc x xs)
  have "idle_after req n (xs @ [x]) = snd (observe_idle_scan req n (idle_after req n xs) x)" by (simp add: idle_after_def)
  with idle_observe_inv [OF snoc] show ?case by (metis prod.collapse)
qed

lemma idle_candidate_counted:
  assumes "observe_idle_scan req n s x = (STORAGE_INPUT_IDLE_CANDIDATE, s')"
  shows "ii_first_data_seen s' \<and> (if n = 0 then 1 else n) \<le> ii_idle_scan_count s'"
  using assms by (auto simp: observe_idle_scan_def storage_input_idle_observe_def Let_def not_less split: if_splits)

section \<open>Properties\<close>

text \<open>The DMA quiesce callback runs exactly once: of any sequence of quiesce requests the first
  one runs it and fixes the epoch and the result, every later request with the same epoch gets
  that result and every request with another epoch gets -1, without running the callback.\<close>

lemma quiesce_runs_once:
  assumes "0 \<notin> set (e # es)"
  shows "quiesce_all storage_dma_quiesce_init q c (e # es) =
     (fst (q c) # map (\<lambda>x. if x = e then fst (q c) else -1) es, snd (q c))"
proof -
  obtain r c' where q: "q c = (r, c')" by (cases "q c")
  let ?s = "storage_dma_quiesce_init\<lparr>dq_drain_epoch := e, dq_started := True, dq_result := r,
              dq_finished := True\<rparr>"
  have "storage_dma_quiesce_once storage_dma_quiesce_init e (Some q) c = (r, ?s, c')"
    using assms q by (auto simp: storage_dma_quiesce_once_def storage_dma_quiesce_init_def Let_def)
  then show ?thesis using quiesce_all_started [of ?s es q c'] assms q by simp
qed

text \<open>After the stop, the harvest is declared stable exactly when the scans end in enough
  consecutive empty ones (DMA quiesced, nothing harvested, nothing completed, no open packet)
  whose first and last are far enough apart in time.\<close>

lemma harvest_stable_iff:
  "fst (observe_harvest_scan required window
          (harvest_scan_all required window storage_stop_harvest_state_init hs) h) \<longleftrightarrow>
     (let n = length (takeWhile harvest_scan_empty (rev (hs @ [h])));
          t0 = hs_now_us ((hs @ [h]) ! (length (hs @ [h]) - n))
      in harvest_scan_empty h \<and> max 1 (unat required) \<le> n \<and>
         t0 \<le> hs_now_us h \<and> window \<le> hs_now_us h - t0)"
  using harvest_window.verdict_iff [of required window hs h]
  unfolding harvest_scan_all_run harvest_window.quiet_suffix_def Let_def by blast

text \<open>C33. When the detector reports the input as idle after any sequence of scans, data was seen before: there is a
  last scan with activity, every scan since then is quiet, with unchanged counters and no open packet, and the last ones, at
  least as many as required and at least one, are all free of a DMA error and at least the required time later than the
  last activity.\<close>

theorem idle_detection_sound:
  assumes "fst (observe_idle_scan req n (idle_after req n xs) x) = STORAGE_INPUT_IDLE_CANDIDATE"
  shows "\<exists>pre a early counted. xs @ [x] = pre @ a # early @ counted \<and> scan_active pre a \<and>
     list_all (quiet_since a) (early @ counted) \<and> max 1 (unat n) \<le> length counted \<and>
     list_all (\<lambda>y. \<not> is_dma_error y \<and> unat (is_now_us a) + unat req \<le> unat (is_now_us y)) counted"
proof -
  obtain s' where o: "observe_idle_scan req n (idle_after req n xs) x = (STORAGE_INPUT_IDLE_CANDIDATE, s')"
    using assms by (metis prod.collapse)
  have "unat (if n = 0 then 1 else n) \<le> unat (ii_idle_scan_count s')"
    using idle_candidate_counted [OF o] by (simp add: word_le_nat_alt)
  moreover have "1 \<le> unat n" if "n \<noteq> 0" using that by (simp add: Suc_le_eq unat_gt_0)
  ultimately have n: "max 1 (unat n) \<le> unat (ii_idle_scan_count s')" by (cases "n = 0") auto
  obtain pre a early counted where h: "idle_history req (xs @ [x]) pre a early counted" "unat (ii_idle_scan_count s') \<le> length counted"
    using idle_observe_inv [OF idle_after_inv o] idle_candidate_counted [OF o] by (auto simp: idle_inv_def)
  show ?thesis using h(1) order_trans [OF n h(2)] unfolding idle_history_def idle_enough_def by blast
qed

definition demo_idle_scan :: "u64 \<Rightarrow> idle_scan" where
  "demo_idle_scan now =
     \<lparr>is_now_us = now, is_dma_observed_bytes = 64, is_completed_descriptor_count = 1,
      is_rx_packet_open = False, is_dma_error = False\<rparr>"

theorem idle_detection_sound_witness:
  "fst (observe_idle_scan 50 2 (idle_after 50 2 [demo_idle_scan 10, demo_idle_scan 100]) (demo_idle_scan 200)) = STORAGE_INPUT_IDLE_CANDIDATE \<and>
   (\<exists>pre a early counted. [demo_idle_scan 10, demo_idle_scan 100, demo_idle_scan 200] = pre @ a # early @ counted \<and> 2 \<le> length counted)"
proof -
  have e: "fst (observe_idle_scan 50 2 (idle_after 50 2 [demo_idle_scan 10, demo_idle_scan 100]) (demo_idle_scan 200)) = STORAGE_INPUT_IDLE_CANDIDATE"
    by code_simp
  from idle_detection_sound [OF e] obtain pre a early counted where
    "[demo_idle_scan 10, demo_idle_scan 100, demo_idle_scan 200] = pre @ a # early @ counted" "max 1 (unat (2 :: u32)) \<le> length counted"
    by auto
  moreover from this(2) have "2 \<le> length counted" by simp
  ultimately show ?thesis using e by blast
qed

end
