(* ===== verification/Storage_Writer.thy ===== *)
theory Storage_Writer
  imports Stable_Window
begin



datatype StorageCrossSlotWriterDecision =
    STORAGE_CROSS_SLOT_WRITER_CONTINUE
  | STORAGE_CROSS_SLOT_WRITER_WAIT_FOR_QUEUE
  | STORAGE_CROSS_SLOT_WRITER_DRAINED
  | STORAGE_CROSS_SLOT_WRITER_QUEUE_ERROR




definition storage_cross_slot_writer_decide ::
  "bool \<Rightarrow> u32 \<Rightarrow> bool \<Rightarrow> u32 \<Rightarrow> u32 \<Rightarrow> StorageCrossSlotWriterDecision" where
  "storage_cross_slot_writer_decide producer_done queue_count queue_error engine_active
     engine_inflight =
   (if queue_error then STORAGE_CROSS_SLOT_WRITER_QUEUE_ERROR
    else if queue_count \<noteq> 0 \<or> engine_active \<noteq> 0 \<or> engine_inflight \<noteq> 0
    then STORAGE_CROSS_SLOT_WRITER_CONTINUE
    else if producer_done then STORAGE_CROSS_SLOT_WRITER_DRAINED
    else STORAGE_CROSS_SLOT_WRITER_WAIT_FOR_QUEUE)"

section \<open>Facts\<close>







section \<open>Properties\<close>




end
