(* ===== verification/Slot_Table.thy ===== *)
theory Slot_Table
  imports Ccb_Prelude
begin

text \<open>
  The DDR slot table of \<^verbatim>\<open>storage_queue.c\<close>: one ownership state per slot and six counters
  that must agree with them. The interface the pipeline and the write queue rely on is the
  locale \<open>slot_store\<close>, interpreted on the table.
\<close>

section \<open>State\<close>

datatype StorageSlotState =
    STORAGE_SLOT_DMA_WRITABLE
  | STORAGE_SLOT_DMA_COMPLETED_UNHARVESTED
  | STORAGE_SLOT_READY_FOR_NVME
  | STORAGE_SLOT_NVME_BUSY
  | STORAGE_SLOT_REQUEUE_PENDING
  | STORAGE_SLOT_FREE
  | STORAGE_SLOT_INVALID

record StorageSlotCounts =
  sc_total :: u32
  sc_dma_writable :: u32
  sc_completed_unharvested :: u32
  sc_ready :: u32
  sc_nvme_busy :: u32
  sc_requeue_pending :: u32
  sc_free_count :: u32

text \<open>The \<^verbatim>\<open>states\<close> array is allocated by \<^verbatim>\<open>calloc\<close>; a destroyed table has none.\<close>

record StorageSlotTable =
  st_states :: "StorageSlotState list option"
  st_counts :: StorageSlotCounts
  st_capacity :: u32

definition slot_counts_zero :: StorageSlotCounts where
  "slot_counts_zero =
     \<lparr>sc_total = 0, sc_dma_writable = 0, sc_completed_unharvested = 0, sc_ready = 0,
      sc_nvme_busy = 0, sc_requeue_pending = 0, sc_free_count = 0\<rparr>"

definition slot_table_zero :: StorageSlotTable where
  "slot_table_zero = \<lparr>st_states = None, st_counts = slot_counts_zero, st_capacity = 0\<rparr>"

section \<open>Operations\<close>

text \<open>\<^verbatim>\<open>count_for_state\<close> returns a pointer to a counter: how to read it and how to change it.\<close>

fun count_for_state ::
  "StorageSlotState \<Rightarrow>
   ((StorageSlotCounts \<Rightarrow> u32) \<times> ((u32 \<Rightarrow> u32) \<Rightarrow> StorageSlotCounts \<Rightarrow> StorageSlotCounts)) option" where
  "count_for_state STORAGE_SLOT_DMA_WRITABLE = Some (sc_dma_writable, sc_dma_writable_update)"
| "count_for_state STORAGE_SLOT_DMA_COMPLETED_UNHARVESTED =
     Some (sc_completed_unharvested, sc_completed_unharvested_update)"
| "count_for_state STORAGE_SLOT_READY_FOR_NVME = Some (sc_ready, sc_ready_update)"
| "count_for_state STORAGE_SLOT_NVME_BUSY = Some (sc_nvme_busy, sc_nvme_busy_update)"
| "count_for_state STORAGE_SLOT_REQUEUE_PENDING = Some (sc_requeue_pending, sc_requeue_pending_update)"
| "count_for_state STORAGE_SLOT_FREE = Some (sc_free_count, sc_free_count_update)"
| "count_for_state STORAGE_SLOT_INVALID = None"

definition slot_counts_sum :: "StorageSlotCounts \<Rightarrow> u64" where
  "slot_counts_sum c =
     ucast (sc_dma_writable c) + ucast (sc_completed_unharvested c) + ucast (sc_ready c) +
     ucast (sc_nvme_busy c) + ucast (sc_requeue_pending c) + ucast (sc_free_count c)"

definition storage_slot_table_valid :: "StorageSlotTable \<Rightarrow> bool" where
  "storage_slot_table_valid table =
     (if st_states table = None \<or> st_capacity table = 0 then False
      else sc_total (st_counts table) = st_capacity table \<and>
           slot_counts_sum (st_counts table) = ucast (sc_total (st_counts table)))"

text \<open>The argument \<open>alloc_ok\<close> is whether \<^verbatim>\<open>calloc\<close> succeeds.\<close>

definition storage_slot_table_init :: "bool \<Rightarrow> StorageSlotTable \<Rightarrow> u32 \<Rightarrow> int \<times> StorageSlotTable" where
  "storage_slot_table_init alloc_ok table slots =
     (if slots = 0 then (-1, table)
      else if \<not> alloc_ok then (-1, slot_table_zero)
      else (0, \<lparr>st_states = Some (replicate (unat slots) STORAGE_SLOT_DMA_WRITABLE),
                st_counts = slot_counts_zero\<lparr>sc_total := slots, sc_dma_writable := slots\<rparr>,
                st_capacity = slots\<rparr>))"

definition storage_slot_table_destroy :: "StorageSlotTable \<Rightarrow> StorageSlotTable" where
  "storage_slot_table_destroy table = slot_table_zero"

definition storage_slot_transition ::
  "StorageSlotTable \<Rightarrow> u32 \<Rightarrow> StorageSlotState \<Rightarrow> StorageSlotState \<Rightarrow> int \<times> StorageSlotTable" where
  "storage_slot_transition table slot expected next =
     (if \<not> storage_slot_table_valid table \<or> st_capacity table \<le> slot \<or>
         the (st_states table) ! unat slot \<noteq> expected \<or> expected = next
      then (-1, table)
      else case (count_for_state expected, count_for_state next) of
             (Some (from_get, from_upd), Some (to_get, to_upd)) \<Rightarrow>
               if from_get (st_counts table) = 0 then (-1, table)
               else let c1 = from_upd (\<lambda>n. n - 1) (st_counts table);
                        c2 = to_upd (\<lambda>n. n + 1) c1;
                        xs = the (st_states table);
                        t1 = table\<lparr>st_counts := c2, st_states := Some (xs[unat slot := next])\<rparr>
                    in if \<not> storage_slot_table_valid t1
                       then (-1, t1\<lparr>st_states := Some (xs[unat slot := expected]),
                                    st_counts := to_upd (\<lambda>n. n - 1) (from_upd (\<lambda>n. n + 1) c2)\<rparr>)
                       else (0, t1)
           | _ \<Rightarrow> (-1, table))"

definition storage_slot_state :: "StorageSlotTable \<Rightarrow> u32 \<Rightarrow> StorageSlotState" where
  "storage_slot_state table slot =
     (case st_states table of
        None \<Rightarrow> STORAGE_SLOT_INVALID
      | Some xs \<Rightarrow> if st_capacity table \<le> slot then STORAGE_SLOT_INVALID else xs ! unat slot)"

definition storage_slot_busy_count :: "StorageSlotTable \<Rightarrow> u32" where
  "storage_slot_busy_count table =
     (if \<not> storage_slot_table_valid table then 0
      else sc_completed_unharvested (st_counts table) + sc_ready (st_counts table) +
           sc_nvme_busy (st_counts table) + sc_requeue_pending (st_counts table))"

section \<open>Invariant\<close>

text \<open>
  Each counter is the number of slots in its state. The validity test of the code follows
  from it.
\<close>

definition counter_exact :: "StorageSlotState list \<Rightarrow> StorageSlotCounts \<Rightarrow> StorageSlotState \<Rightarrow> bool" where
  "counter_exact xs c s \<longleftrightarrow>
     (case count_for_state s of None \<Rightarrow> count_list xs s = 0
      | Some (get, _) \<Rightarrow> unat (get c) = count_list xs s)"

definition slot_table_inv :: "StorageSlotTable \<Rightarrow> bool" where
  "slot_table_inv table \<longleftrightarrow>
     st_capacity table \<noteq> 0 \<and> sc_total (st_counts table) = st_capacity table \<and>
     (\<exists>xs. st_states table = Some xs \<and> length xs = unat (st_capacity table) \<and>
           (\<forall>s. counter_exact xs (st_counts table) s))"

lemma slot_states_all:
  "(\<forall>s. P s) \<longleftrightarrow> P STORAGE_SLOT_DMA_WRITABLE \<and> P STORAGE_SLOT_DMA_COMPLETED_UNHARVESTED \<and>
     P STORAGE_SLOT_READY_FOR_NVME \<and> P STORAGE_SLOT_NVME_BUSY \<and>
     P STORAGE_SLOT_REQUEUE_PENDING \<and> P STORAGE_SLOT_FREE \<and> P STORAGE_SLOT_INVALID"
  by (metis StorageSlotState.exhaust)

lemma count_slot_states:
  "count_list xs STORAGE_SLOT_DMA_WRITABLE + count_list xs STORAGE_SLOT_DMA_COMPLETED_UNHARVESTED +
   count_list xs STORAGE_SLOT_READY_FOR_NVME + count_list xs STORAGE_SLOT_NVME_BUSY +
   count_list xs STORAGE_SLOT_REQUEUE_PENDING + count_list xs STORAGE_SLOT_FREE +
   count_list xs STORAGE_SLOT_INVALID = length xs"
proof (induction xs)
  case (Cons x xs)
  then show ?case by (cases x) simp_all
qed simp

lemma unat_slot_counts_sum:
  "unat (slot_counts_sum c) =
     unat (sc_dma_writable c) + unat (sc_completed_unharvested c) + unat (sc_ready c) +
     unat (sc_nvme_busy c) + unat (sc_requeue_pending c) + unat (sc_free_count c)"
  using unat_u32_less [of "sc_dma_writable c"] unat_u32_less [of "sc_completed_unharvested c"]
    unat_u32_less [of "sc_ready c"] unat_u32_less [of "sc_nvme_busy c"]
    unat_u32_less [of "sc_requeue_pending c"] unat_u32_less [of "sc_free_count c"]
  by (simp add: slot_counts_sum_def unat_word_ariths del: unat_u32_less)

lemma slot_table_inv_valid:
  assumes "slot_table_inv t"
  shows "storage_slot_table_valid t"
proof -
  from assms obtain xs where xs: "st_states t = Some xs" "length xs = unat (st_capacity t)"
      and c: "\<forall>s. counter_exact xs (st_counts t) s" and cap: "st_capacity t \<noteq> 0"
      and tot: "sc_total (st_counts t) = st_capacity t"
    by (auto simp: slot_table_inv_def)
  have "unat (slot_counts_sum (st_counts t)) = length xs"
    using c count_slot_states [of xs] unfolding slot_states_all
    by (simp add: unat_slot_counts_sum counter_exact_def)
  also have "\<dots> = unat (ucast (sc_total (st_counts t)) :: u64)"
    using xs(2) tot by simp
  finally have "slot_counts_sum (st_counts t) = ucast (sc_total (st_counts t))"
    by (simp only: word_unat_eq_iff)
  then show ?thesis using xs(1) cap tot by (simp add: storage_slot_table_valid_def)
qed

section \<open>Transitions under the invariant\<close>

lemma counter_get_upd:
  "count_for_state s = Some (g, u) \<Longrightarrow> g (u f c) = f (g c)"
  "count_for_state s = Some (g, u) \<Longrightarrow> sc_total (u f c) = sc_total c"
  by (cases s; auto)+

lemma counter_get_other:
  "count_for_state s = Some (g, u) \<Longrightarrow> count_for_state s' = Some (g', u') \<Longrightarrow> s \<noteq> s' \<Longrightarrow>
     g' (u f c) = g' c"
  by (cases s; cases s'; auto)

lemma count_for_state_none [simp]: "count_for_state s = None \<longleftrightarrow> s = STORAGE_SLOT_INVALID"
  by (cases s) auto

lemma counter_exact_Some:
  "count_for_state s = Some (g, u) \<Longrightarrow> counter_exact xs c s \<longleftrightarrow> unat (g c) = count_list xs s"
  by (simp add: counter_exact_def)

lemma counter_exact_INVALID:
  "counter_exact xs c STORAGE_SLOT_INVALID \<longleftrightarrow> count_list xs STORAGE_SLOT_INVALID = 0"
  by (simp add: counter_exact_def)

lemma counter_exact_no_INVALID:
  "\<forall>s. counter_exact xs c s \<Longrightarrow> count_list xs STORAGE_SLOT_INVALID = 0"
  using counter_exact_INVALID by blast

lemma counter_exact_move:
  assumes all: "\<forall>s. counter_exact xs c s"
    and i: "i < length xs" and len: "length xs < 4294967296"
    and ne: "xs ! i \<noteq> next" and legal: "next \<noteq> STORAGE_SLOT_INVALID"
    and f: "count_for_state (xs ! i) = Some (fg, fu)" and t: "count_for_state next = Some (tg, tu)"
  shows "counter_exact (xs[i := next]) (tu (\<lambda>n. n + 1) (fu (\<lambda>n. n - 1) c)) s"
proof (cases "count_for_state s")
  case None
  then show ?thesis using counter_exact_no_INVALID [OF all] legal i
    by (simp add: counter_exact_INVALID count_list_update)
next
  case (Some gu)
  then obtain g u where gu: "count_for_state s = Some (g, u)" by (cases gu) simp
  have eq: "unat (g c) = count_list xs s" using all counter_exact_Some [OF gu] by blast
  have upd: "count_list (xs[i := next]) s =
      count_list xs s - (if xs ! i = s then 1 else 0) + (if next = s then 1 else 0)"
    using i by (rule count_list_update)
  consider "s = xs ! i" | "s = next" | "s \<noteq> xs ! i" "s \<noteq> next" by blast
  then show ?thesis
  proof cases
    case 1
    have "g c \<noteq> 0" using eq count_list_nth_pos [OF i] 1 by auto
    moreover have "g = fg" using gu f 1 by simp
    ultimately show ?thesis using 1 ne eq upd gu f t
      by (simp add: counter_exact_Some counter_get_other [OF t f] counter_get_upd unat_dec)
  next
    case 2
    have "count_list xs next + count_list xs (xs ! i) \<le> length xs"
      using count_slot_states [of xs] ne by (cases "next"; cases "xs ! i") simp_all
    then have "unat (g c) < length xs"
      using 2 eq count_list_nth_pos [OF i] by simp
    then have "unat (g c) < unat UINT32_MAX" using len by simp
    then have "unat (g c + 1) = unat (g c) + 1"
      by (intro unat_inc [of _ UINT32_MAX]) (simp only: word_less_nat_alt)
    moreover have "g = tg" using gu t 2 by simp
    moreover have "tg (tu (\<lambda>n. n + 1) (fu (\<lambda>n. n - 1) c)) = tg c + 1"
      by (simp only: counter_get_upd(1) [OF t] counter_get_other [OF f t ne])
    ultimately show ?thesis using 2 ne eq upd gu
      by (simp add: counter_exact_Some)
  next
    case 3
    then show ?thesis using eq upd gu
      by (simp add: counter_exact_Some counter_get_other [OF t gu] counter_get_other [OF f gu])
  qed
qed

text \<open>
  Under the invariant a transition is accepted exactly when the slot exists, is in the
  expected state and the target is another legal state; its rollback branch is never taken.
\<close>

lemma slot_transition_accept:
  assumes inv: "slot_table_inv t" and slot: "slot < st_capacity t"
    and st: "storage_slot_state t slot = expected"
    and ne: "expected \<noteq> next" and legal: "next \<noteq> STORAGE_SLOT_INVALID"
  shows "\<exists>t'. storage_slot_transition t slot expected next = (0, t') \<and> slot_table_inv t' \<and>
           storage_slot_state t' = (storage_slot_state t)(slot := next) \<and>
           st_capacity t' = st_capacity t"
proof -
  from inv obtain xs where xs: "st_states t = Some xs" "length xs = unat (st_capacity t)"
      and c: "\<forall>s. counter_exact xs (st_counts t) s" and cap: "st_capacity t \<noteq> 0"
      and tot: "sc_total (st_counts t) = st_capacity t"
    by (auto simp: slot_table_inv_def)
  have i: "unat slot < length xs" using slot xs(2) by (simp add: word_less_nat_alt)
  have e: "xs ! unat slot = expected"
    using st slot xs(1) by (simp add: storage_slot_state_def linorder_not_le [symmetric])
  have "expected \<noteq> STORAGE_SLOT_INVALID"
    using counter_exact_no_INVALID [OF c] e count_list_nth_pos [OF i] by auto
  then obtain fg fu tg tu where f: "count_for_state expected = Some (fg, fu)"
      and t: "count_for_state next = Some (tg, tu)"
    using legal by (metis count_for_state_none not_None_eq surj_pair)
  let ?c = "tu (\<lambda>n. n + 1) (fu (\<lambda>n. n - 1) (st_counts t))"
  let ?t = "t\<lparr>st_counts := ?c, st_states := Some (xs[unat slot := next])\<rparr>"
  have "\<forall>s. counter_exact (xs[unat slot := next]) ?c s"
    using counter_exact_move [OF c i _ _ legal _ t, of fg fu] e ne f xs(2) by simp
  then have inv': "slot_table_inv ?t"
    using cap tot xs f t by (auto simp: slot_table_inv_def counter_get_upd)
  have "fg (st_counts t) \<noteq> 0"
    using c f e count_list_nth_pos [OF i] by (metis counter_exact_Some unat_zero_iff not_gr_zero)
  then have "storage_slot_transition t slot expected next = (0, ?t)"
    using slot_table_inv_valid [OF inv] slot_table_inv_valid [OF inv'] slot xs(1) e ne f t
    by (simp add: storage_slot_transition_def Let_def linorder_not_le [symmetric])
  moreover have "storage_slot_state ?t = (storage_slot_state t)(slot := next)"
    using xs(1) i slot
    by (auto simp: storage_slot_state_def nth_list_update fun_eq_iff not_le dest: leD)
  ultimately show ?thesis using inv' by simp
qed

lemma slot_transition_refuse:
  assumes inv: "slot_table_inv t"
    and no: "\<not> (slot < st_capacity t \<and> storage_slot_state t slot = expected \<and>
             expected \<noteq> next \<and> next \<noteq> STORAGE_SLOT_INVALID)"
  shows "storage_slot_transition t slot expected next = (-1, t)"
proof -
  from inv obtain xs where xs: "st_states t = Some xs" by (auto simp: slot_table_inv_def)
  show ?thesis
  proof (cases "slot < st_capacity t")
    case True
    then have "\<not> st_capacity t \<le> slot" by simp
    then show ?thesis using no xs True
      by (auto simp: storage_slot_transition_def storage_slot_state_def split: option.splits)
  qed (simp add: storage_slot_transition_def not_less)
qed

section \<open>The interface\<close>

text \<open>
  What a client of a slot store may rely on: a move from the state a slot is in to another
  legal state succeeds and changes that slot only, any other move is refused without effect.
  A client that moves a whole batch succeeds when each slot of the batch is in the source
  state and none occurs twice.
\<close>

locale slot_store =
  fixes inv :: "'t \<Rightarrow> bool"
    and state_of :: "'t \<Rightarrow> 'i \<Rightarrow> 's"
    and in_range :: "'t \<Rightarrow> 'i \<Rightarrow> bool"
    and legal :: "'s \<Rightarrow> bool"
    and move :: "'t \<Rightarrow> 'i \<Rightarrow> 's \<Rightarrow> 's \<Rightarrow> int \<times> 't"
  assumes accept: "inv t \<Longrightarrow> in_range t i \<Longrightarrow> state_of t i = a \<Longrightarrow> a \<noteq> b \<Longrightarrow> legal b \<Longrightarrow>
      \<exists>t'. move t i a b = (0, t') \<and> inv t' \<and> state_of t' = (state_of t)(i := b) \<and>
           in_range t' = in_range t"
    and refuse: "inv t \<Longrightarrow> \<not> (in_range t i \<and> state_of t i = a \<and> a \<noteq> b \<and> legal b) \<Longrightarrow>
      move t i a b = (-1, t)"
begin

lemma move_cases:
  assumes "inv t"
  obtains (moved) t' where "move t i a b = (0, t')" "inv t'" "state_of t' = (state_of t)(i := b)"
      "in_range t' = in_range t" "in_range t i" "state_of t i = a" "a \<noteq> b" "legal b"
    | (refused) "move t i a b = (-1, t)"
      "\<not> (in_range t i \<and> state_of t i = a \<and> a \<noteq> b \<and> legal b)"
  using assms accept refuse by metis

lemma move_inv: "inv t \<Longrightarrow> inv (snd (move t i a b))"
  by (metis move_cases snd_conv)

fun move_all :: "'t \<Rightarrow> 's \<Rightarrow> 's \<Rightarrow> 'i list \<Rightarrow> int \<times> 't" where
  "move_all t a b [] = (0, t)"
| "move_all t a b (i # is) =
     (case move t i a b of (rc, t') \<Rightarrow> if rc \<noteq> 0 then (-1, t') else move_all t' a b is)"

lemma move_all_accept:
  assumes "inv t" and "distinct is" and "\<forall>i\<in>set is. in_range t i \<and> state_of t i = a"
    and "a \<noteq> b" and "legal b"
  shows "\<exists>t'. move_all t a b is = (0, t') \<and> inv t' \<and> in_range t' = in_range t \<and>
           state_of t' = (\<lambda>i. if i \<in> set is then b else state_of t i)"
  using assms
proof (induction "is" arbitrary: t)
  case Nil
  then show ?case by simp
next
  case (Cons i "is")
  then obtain t1 where t1: "move t i a b = (0, t1)" "inv t1"
      "state_of t1 = (state_of t)(i := b)" "in_range t1 = in_range t"
    using accept [of t i a b] by auto
  with Cons.prems have "\<forall>j\<in>set is. in_range t1 j \<and> state_of t1 j = a" by auto
  with Cons t1 obtain t2 where t2: "move_all t1 a b is = (0, t2)" "inv t2"
      "in_range t2 = in_range t1"
      "state_of t2 = (\<lambda>i. if i \<in> set is then b else state_of t1 i)"
    by (metis distinct.simps(2))
  with t1 show ?case by (auto simp: fun_eq_iff)
qed

end

interpretation slot_table: slot_store slot_table_inv storage_slot_state
  "\<lambda>t i. i < st_capacity t" "\<lambda>s. s \<noteq> STORAGE_SLOT_INVALID" storage_slot_transition
proof
  show "\<exists>t'. storage_slot_transition t i a b = (0, t') \<and> slot_table_inv t' \<and>
          storage_slot_state t' = (storage_slot_state t)(i := b) \<and>
          (\<lambda>i. i < st_capacity t') = (\<lambda>i. i < st_capacity t)"
    if "slot_table_inv t" "i < st_capacity t" "storage_slot_state t i = a" "a \<noteq> b"
      "b \<noteq> STORAGE_SLOT_INVALID" for t i a b
    using slot_transition_accept [OF that] by auto
  show "storage_slot_transition t i a b = (-1, t)"
    if "slot_table_inv t" "\<not> (i < st_capacity t \<and> storage_slot_state t i = a \<and> a \<noteq> b \<and>
          b \<noteq> STORAGE_SLOT_INVALID)" for t i a b
    using that by (rule slot_transition_refuse)
qed

lemma slot_table_init_inv:
  assumes "slots \<noteq> 0"
  shows "slot_table_inv (snd (storage_slot_table_init True t slots))"
  using assms
  by (auto simp: storage_slot_table_init_def slot_table_inv_def slot_states_all counter_exact_def
      count_list_replicate slot_counts_zero_def)

lemma slot_table_init_state:
  "slots \<noteq> 0 \<Longrightarrow> i < slots \<Longrightarrow>
     storage_slot_state (snd (storage_slot_table_init True t slots)) i = STORAGE_SLOT_DMA_WRITABLE"
  by (simp add: storage_slot_table_init_def storage_slot_state_def not_le word_less_nat_alt)

section \<open>Properties\<close>

text \<open>C23. On a consistent table a slot changes owner exactly when it exists, is in the state the
  caller expects and the target is another legal state; then only that slot changes and every
  counter still equals the number of slots in its state. Any other request returns -1 and
  changes nothing. The rollback branch of the code is never needed.\<close>

theorem slot_transition_exact:
  assumes "slot_table_inv t"
  shows "if slot < st_capacity t \<and> storage_slot_state t slot = expected \<and> expected \<noteq> next \<and>
            next \<noteq> STORAGE_SLOT_INVALID
         then \<exists>t'. storage_slot_transition t slot expected next = (0, t') \<and> slot_table_inv t' \<and>
                storage_slot_state t' = (storage_slot_state t)(slot := next) \<and>
                st_capacity t' = st_capacity t
         else storage_slot_transition t slot expected next = (-1, t)"
  using slot_transition_accept [OF assms] slot_transition_refuse [OF assms] by auto

theorem slot_transition_exact_witness:
  "let t = snd (storage_slot_table_init True slot_table_zero 4)
   in \<exists>t'. storage_slot_transition t 2 STORAGE_SLOT_DMA_WRITABLE STORAGE_SLOT_FREE = (0, t') \<and>
        slot_table_inv t'"
proof -
  let ?t = "snd (storage_slot_table_init True slot_table_zero 4)"
  have inv: "slot_table_inv ?t" by (rule slot_table_init_inv) simp
  have "2 < st_capacity ?t" "storage_slot_state ?t 2 = STORAGE_SLOT_DMA_WRITABLE" by code_simp+
  then show ?thesis
    using slot_transition_exact [OF inv, of 2 STORAGE_SLOT_DMA_WRITABLE STORAGE_SLOT_FREE]
    unfolding Let_def by auto
qed

end
