(* ===== verification/Ring_View.thy ===== *)
theory Ring_View
  imports Ccb_Prelude
begin

text \<open>
  A circular buffer read as a list: \<open>ring_view xs h c\<close> is the \<open>c\<close> elements of the array \<open>xs\<close>
  that start at index \<open>h\<close> and wrap around its end. Shared by the write queue and by the
  diagnostic event ring.
\<close>

definition ring_view :: "'a list \<Rightarrow> nat \<Rightarrow> nat \<Rightarrow> 'a list" where
  "ring_view xs h c = map (\<lambda>k. xs ! ((h + k) mod length xs)) [0..<c]"

lemma ring_view_0 [simp]: "ring_view xs h 0 = []"
  by (simp add: ring_view_def)

lemma ring_view_length [simp]: "length (ring_view xs h c) = c"
  by (simp add: ring_view_def)

lemma ring_view_nth: "k < c \<Longrightarrow> ring_view xs h c ! k = xs ! ((h + k) mod length xs)"
  by (simp add: ring_view_def)

text \<open>Taking the oldest element advances the head.\<close>

lemma ring_view_take:
  assumes "h < length xs"
  shows "ring_view xs h (Suc c) = xs ! h # ring_view xs (Suc h mod length xs) c"
proof (rule nth_equalityI)
  fix i assume "i < length (ring_view xs h (Suc c))"
  then show "ring_view xs h (Suc c) ! i = (xs ! h # ring_view xs (Suc h mod length xs) c) ! i"
    using assms by (cases i) (simp_all add: ring_view_nth mod_add_left_eq)
qed simp

text \<open>Two indices less than a full turn apart are different cells.\<close>

lemma ring_index_inj_le:
  fixes n :: nat
  assumes "(h + i) mod n = (h + j) mod n" and "i \<le> j" and "j < n"
  shows "i = j"
proof -
  have "n dvd (h + j) - (h + i)"
    using assms(1,2) by (subst mod_eq_dvd_iff_nat [symmetric]) simp_all
  then have "n dvd j - i" by simp
  moreover have "j - i < n" using assms(3) by simp
  ultimately have "j - i = 0" using nat_dvd_not_less by blast
  then show ?thesis using assms(2) by simp
qed

lemma ring_index_inj:
  fixes n :: nat
  assumes "(h + i) mod n = (h + j) mod n" and "i < n" and "j < n"
  shows "i = j"
  using assms ring_index_inj_le [of h i n j] ring_index_inj_le [of h j n i]
  by (metis nat_le_linear)

text \<open>Writing the cell behind the newest element appends, while the ring is not full.\<close>

lemma ring_view_put:
  assumes "c < length xs"
  shows "ring_view (xs[(h + c) mod length xs := x]) h (Suc c) = ring_view xs h c @ [x]"
proof (rule nth_equalityI)
  fix i assume i: "i < length (ring_view (xs[(h + c) mod length xs := x]) h (Suc c))"
  have n: "0 < length xs" using assms by linarith
  show "ring_view (xs[(h + c) mod length xs := x]) h (Suc c) ! i = (ring_view xs h c @ [x]) ! i"
  proof (cases "i = c")
    case True
    then show ?thesis using n by (simp add: ring_view_nth nth_append)
  next
    case False
    with i have "i < c" by simp
    moreover from this have "(h + c) mod length xs \<noteq> (h + i) mod length xs"
      using assms ring_index_inj [of h c "length xs" i] by auto
    ultimately show ?thesis by (simp add: ring_view_nth nth_append)
  qed
qed simp

text \<open>The indices as 32-bit words.\<close>

lemma ring_advance:
  fixes tail cap :: u32
  assumes "tail < cap"
  shows "unat ((tail + 1) mod cap) = Suc (unat tail) mod unat cap"
  using assms by (simp add: unat_mod_word unat_inc)

lemma ring_advance_less:
  fixes h cap :: u32
  assumes "h < cap"
  shows "(h + 1) mod cap < cap"
proof -
  have "0 < unat cap" using assms by (metis word_less_nat_alt gr_implies_not0 gr0I)
  then show ?thesis using ring_advance [OF assms] by (simp add: word_less_nat_alt)
qed

end
