(* ===== verification/Fifo_Channel.thy ===== *)
theory Fifo_Channel
  imports Main
begin

text \<open>
  The contract of an ordered channel between a producer and a consumer: one step appends what
  it accepts and removes what it delivers from the front. A client that runs any sequence of
  legal steps sees every accepted element delivered at most once and in order.
\<close>

locale fifo_channel =
  fixes inv :: "'q \<Rightarrow> bool"
    and contents :: "'q \<Rightarrow> 'a list"
    and legal :: "'op \<Rightarrow> bool"
    and step :: "'q \<Rightarrow> 'op \<Rightarrow> 'q"
    and accepted :: "'q \<Rightarrow> 'op \<Rightarrow> 'a list"
    and delivered :: "'q \<Rightarrow> 'op \<Rightarrow> 'a list"
  assumes step_inv: "inv q \<Longrightarrow> legal x \<Longrightarrow> inv (step q x)"
    and step_order: "inv q \<Longrightarrow> legal x \<Longrightarrow>
        delivered q x @ contents (step q x) = contents q @ accepted q x"
begin

fun run :: "'q \<Rightarrow> 'op list \<Rightarrow> 'q" where
  "run q [] = q"
| "run q (x # xs) = run (step q x) xs"

fun all_accepted :: "'q \<Rightarrow> 'op list \<Rightarrow> 'a list" where
  "all_accepted q [] = []"
| "all_accepted q (x # xs) = accepted q x @ all_accepted (step q x) xs"

fun all_delivered :: "'q \<Rightarrow> 'op list \<Rightarrow> 'a list" where
  "all_delivered q [] = []"
| "all_delivered q (x # xs) = delivered q x @ all_delivered (step q x) xs"

lemma run_inv: "inv q \<Longrightarrow> list_all legal xs \<Longrightarrow> inv (run q xs)"
  by (induction xs arbitrary: q) (auto intro: step_inv)

theorem conservation:
  "inv q \<Longrightarrow> list_all legal xs \<Longrightarrow>
     all_delivered q xs @ contents (run q xs) = contents q @ all_accepted q xs"
proof (induction xs arbitrary: q)
  case (Cons x xs)
  then have "all_delivered (step q x) xs @ contents (run (step q x) xs) =
      contents (step q x) @ all_accepted (step q x) xs"
    by (auto intro: step_inv)
  moreover have "delivered q x @ contents (step q x) = contents q @ accepted q x"
    using Cons.prems by (simp add: step_order)
  ultimately show ?case by simp
qed simp

end

end
