(* ===== verification/Storage_Pipeline.thy ===== *)
theory Storage_Pipeline
  imports Slot_Table Ring_View Fifo_Channel
begin

text \<open>
  The write queue between the DMA harvester and the NVMe writer, \<^verbatim>\<open>ccb_storage_pipeline.c\<close>:
  a bounded circular buffer of work items over the slot table, and the pressure and deadline
  decisions of the producer loop. The mutex makes each operation one atomic step;
  \<^verbatim>\<open>pthread_cond_wait\<close> on an empty queue is the outcome \<open>PopBlocked\<close>, after which the loop of
  the code re-evaluates the same condition.
\<close>

section \<open>State\<close>

datatype StorageFirstDmaDeadlineOutcome =
    STORAGE_FIRST_DMA_DEADLINE_WAIT
  | STORAGE_FIRST_DMA_DEADLINE_DATA
  | STORAGE_FIRST_DMA_DEADLINE_HARVEST_FAILED
  | STORAGE_FIRST_DMA_DEADLINE_EXPIRED

record StoragePipelineItem =
  pi_slot :: u32
  pi_bytes :: u64
  pi_chunk_index :: u64
  pi_file_offset :: u64
  pi_start_lba :: u64
  pi_sectors :: u64
  pi_hw_addr :: u64

record StoragePipeline =
  pl_items :: "StoragePipelineItem list option"
  pl_slots :: StorageSlotTable
  pl_head :: u32
  pl_tail :: u32
  pl_count :: u32
  pl_error :: bool

definition pipeline_zero :: StoragePipeline where
  "pipeline_zero =
     \<lparr>pl_items = None, pl_slots = slot_table_zero, pl_head = 0, pl_tail = 0, pl_count = 0,
      pl_error = False\<rparr>"

definition pipeline_item_zero :: StoragePipelineItem where
  "pipeline_item_zero =
     \<lparr>pi_slot = 0, pi_bytes = 0, pi_chunk_index = 0, pi_file_offset = 0, pi_start_lba = 0,
      pi_sectors = 0, pi_hw_addr = 0\<rparr>"

section \<open>Pressure and deadline decisions\<close>

definition storage_ring_pressure_level :: "u32 \<Rightarrow> u32 \<Rightarrow> u32 \<Rightarrow> u32 \<Rightarrow> u32" where
  "storage_ring_pressure_level occupied_slots total_slots warning_percent critical_percent =
     (if total_slots = 0 \<or> warning_percent = 0 \<or> critical_percent \<le> warning_percent \<or>
         100 < critical_percent then 0
      else if total_slots \<le> occupied_slots then 3
      else let occupied_percent = (ucast occupied_slots * 100 :: u64) div ucast total_slots
           in if ucast critical_percent \<le> occupied_percent then 2
              else if ucast warning_percent \<le> occupied_percent then 1
              else 0)"

definition storage_writer_budget_for_pressure :: "u32 \<Rightarrow> u32 \<Rightarrow> u32" where
  "storage_writer_budget_for_pressure base_budget_us pressure_level =
     (let scaled = (ucast base_budget_us :: u64);
          scaled = (if 2 \<le> pressure_level then scaled * 2
                    else if pressure_level = 1 then scaled + (scaled + 1) div 2
                    else scaled)
      in if ucast UINT32_MAX < scaled then UINT32_MAX else ucast scaled)"

definition storage_ring_pressure_should_stop :: "u32 \<Rightarrow> u64 \<Rightarrow> u64 \<Rightarrow> u64 \<Rightarrow> bool \<Rightarrow> bool" where
  "storage_ring_pressure_should_stop pressure_level critical_since_us now_us critical_duration_us
      stop_enabled \<longleftrightarrow>
     stop_enabled \<and> 2 \<le> pressure_level \<and> critical_since_us \<noteq> 0 \<and>
     critical_since_us \<le> now_us \<and> critical_duration_us \<le> now_us - critical_since_us"

definition storage_first_dma_deadline_outcome ::
  "bool \<Rightarrow> bool \<Rightarrow> bool \<Rightarrow> int \<Rightarrow> u32 \<Rightarrow> StorageFirstDmaDeadlineOutcome" where
  "storage_first_dma_deadline_outcome deadline_due saw_dma_data stop_requested harvest_rc
      harvest_count =
     (if harvest_rc \<noteq> 0 then STORAGE_FIRST_DMA_DEADLINE_HARVEST_FAILED
      else if harvest_count \<noteq> 0 \<or> saw_dma_data then STORAGE_FIRST_DMA_DEADLINE_DATA
      else if deadline_due \<and> \<not> stop_requested then STORAGE_FIRST_DMA_DEADLINE_EXPIRED
      else STORAGE_FIRST_DMA_DEADLINE_WAIT)"

definition storage_harvest_limit_for_remaining :: "u64 \<Rightarrow> u32 \<Rightarrow> u32 \<Rightarrow> u32" where
  "storage_harvest_limit_for_remaining remaining_bytes dma_desc_bytes max_batch =
     (if remaining_bytes = 0 \<or> dma_desc_bytes = 0 \<or> max_batch = 0 then 0
      else let needed = remaining_bytes div ucast dma_desc_bytes;
               needed = (if remaining_bytes mod ucast dma_desc_bytes \<noteq> 0 then needed + 1 else needed)
           in if needed < ucast max_batch then ucast needed else max_batch)"

section \<open>Queue operations\<close>

definition storage_pipeline_counts_valid :: "StoragePipeline \<Rightarrow> bool" where
  "storage_pipeline_counts_valid p \<longleftrightarrow>
     pl_count p \<le> st_capacity (pl_slots p) \<and> storage_slot_table_valid (pl_slots p)"

text \<open>
  The arguments \<open>items_ok\<close>, \<open>table_ok\<close> and \<open>sync_ok\<close> are whether the two allocations and the
  initialisation of the mutex and condition variable succeed.
\<close>

definition storage_pipeline_init ::
  "bool \<Rightarrow> bool \<Rightarrow> bool \<Rightarrow> StoragePipeline \<Rightarrow> u32 \<Rightarrow> int \<times> StoragePipeline" where
  "storage_pipeline_init items_ok table_ok sync_ok p slots =
     (if slots = 0 then (-1, p)
      else if \<not> items_ok then (-1, pipeline_zero)
      else let p1 = pipeline_zero\<lparr>pl_items := Some (replicate (unat slots) pipeline_item_zero)\<rparr>
           in case storage_slot_table_init table_ok (pl_slots p1) slots of
                (rc, t) \<Rightarrow> if rc \<noteq> 0 \<or> \<not> sync_ok then (-1, pipeline_zero)
                            else (0, p1\<lparr>pl_slots := t\<rparr>))"

definition storage_pipeline_destroy :: "StoragePipeline \<Rightarrow> StoragePipeline" where
  "storage_pipeline_destroy p = pipeline_zero"

definition storage_pipeline_mark_completed :: "StoragePipeline \<Rightarrow> u32 \<Rightarrow> int \<times> StoragePipeline" where
  "storage_pipeline_mark_completed p slot =
     (case storage_slot_transition (pl_slots p) slot STORAGE_SLOT_DMA_WRITABLE
             STORAGE_SLOT_DMA_COMPLETED_UNHARVESTED of
        (rc, t) \<Rightarrow> let p1 = p\<lparr>pl_slots := t\<rparr>
                   in (rc, if rc \<noteq> 0 then p1\<lparr>pl_error := True\<rparr> else p1))"

text \<open>The first loop of \<^verbatim>\<open>storage_queue_push_batch\<close>; \<open>seen\<close> is \<^verbatim>\<open>items[0..i)\<close>.\<close>

definition item_expected_sectors :: "StoragePipelineItem \<Rightarrow> u64" where
  "item_expected_sectors x =
     (let n = pi_bytes x div 512 in if pi_bytes x mod 512 \<noteq> 0 then n + 1 else n)"

fun push_batch_check :: "StorageSlotTable \<Rightarrow> StoragePipelineItem list \<Rightarrow> StoragePipelineItem list \<Rightarrow> bool" where
  "push_batch_check slots seen [] = True"
| "push_batch_check slots seen (x # xs) =
     (if pi_bytes x = 0 \<or> pi_sectors x = 0 \<or> st_capacity slots \<le> pi_slot x \<or>
         storage_slot_state slots (pi_slot x) \<noteq> STORAGE_SLOT_DMA_COMPLETED_UNHARVESTED then False
      else if pi_sectors x \<noteq> item_expected_sectors x then False
      else if list_ex (\<lambda>y. pi_slot y = pi_slot x) seen then False
      else push_batch_check slots (seen @ [x]) xs)"

text \<open>The second loop, which stores the items and moves their slots.\<close>

fun push_batch_commit ::
  "StoragePipeline \<Rightarrow> u32 \<Rightarrow> StoragePipelineItem list \<Rightarrow> bool \<times> StoragePipeline \<times> u32" where
  "push_batch_commit p tail [] = (True, p, tail)"
| "push_batch_commit p tail (x # xs) =
     (let p1 = p\<lparr>pl_items := map_option (\<lambda>ys. ys[unat tail := x]) (pl_items p)\<rparr>;
          tail1 = (tail + 1) mod st_capacity (pl_slots p)
      in case storage_slot_transition (pl_slots p) (pi_slot x)
                STORAGE_SLOT_DMA_COMPLETED_UNHARVESTED STORAGE_SLOT_READY_FOR_NVME of
           (rc, t) \<Rightarrow> let p2 = p1\<lparr>pl_slots := t\<rparr>
                      in if rc \<noteq> 0 then (False, p2, tail1) else push_batch_commit p2 tail1 xs)"

text \<open>The array argument has \<^verbatim>\<open>item_count\<close> elements.\<close>

definition storage_queue_push_batch ::
  "StoragePipeline \<Rightarrow> StoragePipelineItem list option \<Rightarrow> u32 \<Rightarrow> int \<times> StoragePipeline" where
  "storage_queue_push_batch p items item_count =
     (case items of
        None \<Rightarrow> (-1, p)
      | Some ys \<Rightarrow>
          if item_count = 0 then (-1, p)
          else let xs = take (unat item_count) ys
          in if pl_error p \<or> st_capacity (pl_slots p) < pl_count p \<or>
                \<not> storage_pipeline_counts_valid p \<or>
                st_capacity (pl_slots p) - pl_count p < item_count \<or>
                sc_completed_unharvested (st_counts (pl_slots p)) < item_count
             then (-1, p\<lparr>pl_error := True\<rparr>)
             else if \<not> push_batch_check (pl_slots p) [] xs then (-1, p\<lparr>pl_error := True\<rparr>)
             else case push_batch_commit p (pl_tail p) xs of
                    (ok, p1, tail) \<Rightarrow>
                      if \<not> ok then (-1, p1\<lparr>pl_error := True\<rparr>)
                      else (0, p1\<lparr>pl_tail := tail, pl_count := pl_count p1 + item_count\<rparr>))"

datatype pop_outcome =
    PopBlocked
  | PopReturns int "StoragePipelineItem option"

definition storage_pipeline_pop :: "StoragePipeline \<Rightarrow> bool \<Rightarrow> pop_outcome \<times> StoragePipeline" where
  "storage_pipeline_pop p wait =
     (if wait \<and> \<not> pl_error p \<and> pl_count p = 0 then (PopBlocked, p)
      else if pl_error p then (PopReturns (-1) None, p)
      else if pl_count p = 0 then (PopReturns 1 None, p)
      else let x = the (pl_items p) ! unat (pl_head p);
               p1 = p\<lparr>pl_head := (pl_head p + 1) mod st_capacity (pl_slots p),
                      pl_count := pl_count p - 1\<rparr>
           in case storage_slot_transition (pl_slots p) (pi_slot x)
                     STORAGE_SLOT_READY_FOR_NVME STORAGE_SLOT_NVME_BUSY of
                (rc, t) \<Rightarrow> let p2 = p1\<lparr>pl_slots := t\<rparr>
                           in if rc \<noteq> 0 then (PopReturns (-1) (Some x), p2\<lparr>pl_error := True\<rparr>)
                              else (PopReturns 0 (Some x), p2))"

definition storage_pipeline_complete :: "StoragePipeline \<Rightarrow> u32 \<Rightarrow> bool \<Rightarrow> int \<times> StoragePipeline" where
  "storage_pipeline_complete p slot requeue =
     (case storage_slot_transition (pl_slots p) slot STORAGE_SLOT_NVME_BUSY
             (if requeue then STORAGE_SLOT_REQUEUE_PENDING else STORAGE_SLOT_FREE) of
        (rc, t) \<Rightarrow> let p1 = p\<lparr>pl_slots := t\<rparr>
                   in (rc, if rc \<noteq> 0 then p1\<lparr>pl_error := True\<rparr> else p1))"

section \<open>Invariant\<close>

text \<open>The items waiting for the writer, oldest first.\<close>

definition pipeline_queue :: "StoragePipeline \<Rightarrow> StoragePipelineItem list" where
  "pipeline_queue p = ring_view (the (pl_items p)) (unat (pl_head p)) (unat (pl_count p))"

text \<open>
  The ring indices agree, the table is consistent, no slot is queued twice, and the queued
  slots are exactly the slots in the ready state.
\<close>

definition pipeline_inv :: "StoragePipeline \<Rightarrow> bool" where
  "pipeline_inv p \<longleftrightarrow>
     slot_table_inv (pl_slots p) \<and>
     (\<exists>xs. pl_items p = Some xs \<and> length xs = unat (st_capacity (pl_slots p))) \<and>
     pl_head p < st_capacity (pl_slots p) \<and>
     pl_count p \<le> st_capacity (pl_slots p) \<and>
     unat (pl_tail p) = (unat (pl_head p) + unat (pl_count p)) mod unat (st_capacity (pl_slots p)) \<and>
     distinct (map pi_slot (pipeline_queue p)) \<and>
     (\<forall>i. storage_slot_state (pl_slots p) i = STORAGE_SLOT_READY_FOR_NVME \<longleftrightarrow>
          i \<in> pi_slot ` set (pipeline_queue p))"

definition item_acceptable :: "StorageSlotTable \<Rightarrow> StoragePipelineItem \<Rightarrow> bool" where
  "item_acceptable slots x \<longleftrightarrow>
     pi_bytes x \<noteq> 0 \<and> pi_sectors x \<noteq> 0 \<and> pi_slot x < st_capacity slots \<and>
     storage_slot_state slots (pi_slot x) = STORAGE_SLOT_DMA_COMPLETED_UNHARVESTED \<and>
     pi_sectors x = item_expected_sectors x"

lemma push_batch_check_iff:
  "push_batch_check slots seen xs \<longleftrightarrow>
     (\<forall>x\<in>set xs. item_acceptable slots x) \<and> distinct (map pi_slot xs) \<and>
     pi_slot ` set xs \<inter> pi_slot ` set seen = {}"
proof (induction xs arbitrary: seen)
  case (Cons x xs)
  have seen: "list_ex (\<lambda>y. pi_slot y = pi_slot x) seen \<longleftrightarrow> pi_slot x \<in> pi_slot ` set seen"
    by (simp add: list_ex_iff image_iff) metis
  show ?case
    by (auto simp: Cons.IH seen item_acceptable_def not_le)
qed simp

lemma push_batch_commit_ok:
  assumes "slot_table_inv (pl_slots p)"
    and "pl_items p = Some ys" and "length ys = unat (st_capacity (pl_slots p))"
    and "distinct (map pi_slot xs)"
    and "\<forall>x\<in>set xs. item_acceptable (pl_slots p) x"
    and "c + length xs \<le> length ys" and "unat tail = (h + c) mod length ys"
  shows "\<exists>ys' t' tail'.
     push_batch_commit p tail xs = (True, p\<lparr>pl_items := Some ys', pl_slots := t'\<rparr>, tail') \<and>
     length ys' = length ys \<and> ring_view ys' h (c + length xs) = ring_view ys h c @ xs \<and>
     unat tail' = (h + c + length xs) mod length ys \<and>
     slot_table_inv t' \<and> st_capacity t' = st_capacity (pl_slots p) \<and>
     storage_slot_state t' = (\<lambda>i. if i \<in> pi_slot ` set xs then STORAGE_SLOT_READY_FOR_NVME
                                   else storage_slot_state (pl_slots p) i)"
  using assms
proof (induction xs arbitrary: p ys c tail)
  case Nil
  then show ?case
    by (intro exI [of _ ys] exI [of _ "pl_slots p"] exI [of _ tail]) (cases p, simp)
next
  case (Cons x xs)
  let ?n = "length ys"
  have x: "item_acceptable (pl_slots p) x" using Cons.prems(5) by simp
  obtain t where t: "storage_slot_transition (pl_slots p) (pi_slot x)
        STORAGE_SLOT_DMA_COMPLETED_UNHARVESTED STORAGE_SLOT_READY_FOR_NVME = (0, t)"
      "slot_table_inv t" "st_capacity t = st_capacity (pl_slots p)"
      "storage_slot_state t = (storage_slot_state (pl_slots p))(pi_slot x := STORAGE_SLOT_READY_FOR_NVME)"
    using slot_transition_accept [OF Cons.prems(1)] x by (fastforce simp: item_acceptable_def)
  have n: "0 < ?n" using Cons.prems(6) by (simp del: length_greater_0_conv)
  have tail: "tail < st_capacity (pl_slots p)"
    using Cons.prems(3,7) n by (simp add: word_less_nat_alt)
  let ?tail = "(tail + 1) mod st_capacity (pl_slots p)"
  have tail': "unat ?tail = (h + Suc c) mod ?n"
    using ring_advance [OF tail] Cons.prems(3,7) by (simp add: mod_Suc_eq)
  let ?ys = "ys[unat tail := x]"
  have view: "ring_view ?ys h (Suc c) = ring_view ys h c @ [x]"
    using ring_view_put [of c ys h x] Cons.prems(6,7) by simp
  let ?p = "p\<lparr>pl_items := Some ?ys, pl_slots := t\<rparr>"
  have "\<forall>y\<in>set xs. pi_slot y \<noteq> pi_slot x" 
    using Cons.prems(4) by (simp add: image_iff) metis
  then have acc: "\<forall>y\<in>set xs. item_acceptable (pl_slots ?p) y"
    using Cons.prems(5) t(3,4) unfolding item_acceptable_def by auto
  have "\<exists>ys' t' tail'.
     push_batch_commit ?p ?tail xs = (True, ?p\<lparr>pl_items := Some ys', pl_slots := t'\<rparr>, tail') \<and>
     length ys' = length ?ys \<and> ring_view ys' h (Suc c + length xs) = ring_view ?ys h (Suc c) @ xs \<and>
     unat tail' = (h + Suc c + length xs) mod length ?ys \<and>
     slot_table_inv t' \<and> st_capacity t' = st_capacity (pl_slots ?p) \<and>
     storage_slot_state t' = (\<lambda>i. if i \<in> pi_slot ` set xs then STORAGE_SLOT_READY_FOR_NVME
                                   else storage_slot_state (pl_slots ?p) i)"
    using t(2,3) Cons.prems(3,4,6) acc tail' by (intro Cons.IH) simp_all
  then obtain ys' t' tail' where r:
     "push_batch_commit ?p ?tail xs = (True, ?p\<lparr>pl_items := Some ys', pl_slots := t'\<rparr>, tail')"
     "length ys' = length ?ys"
     "ring_view ys' h (Suc c + length xs) = ring_view ?ys h (Suc c) @ xs"
     "unat tail' = (h + Suc c + length xs) mod length ?ys"
     "slot_table_inv t'" "st_capacity t' = st_capacity (pl_slots ?p)"
     "storage_slot_state t' = (\<lambda>i. if i \<in> pi_slot ` set xs then STORAGE_SLOT_READY_FOR_NVME
                                    else storage_slot_state (pl_slots ?p) i)"
    by blast
  show ?case
    using r t(1,3,4) view Cons.prems(2)
    by (intro exI [of _ ys'] exI [of _ t'] exI [of _ tail']) (auto simp: fun_eq_iff)
qed

lemma pipeline_invE:
  assumes "pipeline_inv p"
  obtains ys where "pl_items p = Some ys" "length ys = unat (st_capacity (pl_slots p))"
    "slot_table_inv (pl_slots p)" "pl_head p < st_capacity (pl_slots p)"
    "unat (pl_count p) \<le> length ys"
    "unat (pl_tail p) = (unat (pl_head p) + unat (pl_count p)) mod length ys"
    "pipeline_queue p = ring_view ys (unat (pl_head p)) (unat (pl_count p))"
    "distinct (map pi_slot (pipeline_queue p))"
    "\<forall>i. storage_slot_state (pl_slots p) i = STORAGE_SLOT_READY_FOR_NVME \<longleftrightarrow>
          i \<in> pi_slot ` set (pipeline_queue p)"
  using assms unfolding pipeline_inv_def
  by (auto simp: pipeline_queue_def word_le_nat_alt)

text \<open>
  A batch is accepted as a whole exactly when the queue is healthy, there is room, and every
  item is acceptable with no slot twice; a refused batch changes nothing but the error flag.
\<close>

definition push_guard :: "StoragePipeline \<Rightarrow> StoragePipelineItem list \<Rightarrow> bool" where
  "push_guard p xs \<longleftrightarrow>
     \<not> pl_error p \<and> length xs \<le> unat (st_capacity (pl_slots p)) - unat (pl_count p) \<and>
     length xs \<le> unat (sc_completed_unharvested (st_counts (pl_slots p))) \<and>
     (\<forall>x\<in>set xs. item_acceptable (pl_slots p) x) \<and> distinct (map pi_slot xs)"

lemma push_ok:
  assumes inv: "pipeline_inv p" and g: "push_guard p xs" and ne: "xs \<noteq> []"
    and n: "length xs = unat n"
  shows "\<exists>p'. storage_queue_push_batch p (Some xs) n = (0, p') \<and> pipeline_inv p' \<and>
           pipeline_queue p' = pipeline_queue p @ xs \<and> pl_error p' = pl_error p"
proof -
  from inv obtain ys where ys: "pl_items p = Some ys" "length ys = unat (st_capacity (pl_slots p))"
      and si: "slot_table_inv (pl_slots p)" and h: "pl_head p < st_capacity (pl_slots p)"
      and c: "unat (pl_count p) \<le> length ys"
      and tl: "unat (pl_tail p) = (unat (pl_head p) + unat (pl_count p)) mod length ys"
      and q: "pipeline_queue p = ring_view ys (unat (pl_head p)) (unat (pl_count p))"
      and d: "distinct (map pi_slot (pipeline_queue p))"
      and r: "\<forall>i. storage_slot_state (pl_slots p) i = STORAGE_SLOT_READY_FOR_NVME \<longleftrightarrow>
          i \<in> pi_slot ` set (pipeline_queue p)"
    by (rule pipeline_invE)
  have acc: "\<forall>x\<in>set xs. item_acceptable (pl_slots p) x" and dx: "distinct (map pi_slot xs)"
    and room: "unat (pl_count p) + length xs \<le> length ys"
    using g c ys(2) by (auto simp: push_guard_def)
  obtain ys' t' tail' where k:
     "push_batch_commit p (pl_tail p) xs = (True, p\<lparr>pl_items := Some ys', pl_slots := t'\<rparr>, tail')"
     "length ys' = length ys"
     "ring_view ys' (unat (pl_head p)) (unat (pl_count p) + length xs) = pipeline_queue p @ xs"
     "unat tail' = (unat (pl_head p) + unat (pl_count p) + length xs) mod length ys"
     "slot_table_inv t'" "st_capacity t' = st_capacity (pl_slots p)"
     "storage_slot_state t' = (\<lambda>i. if i \<in> pi_slot ` set xs then STORAGE_SLOT_READY_FOR_NVME
                                    else storage_slot_state (pl_slots p) i)"
    using push_batch_commit_ok [OF si ys dx acc room tl] q by auto
  let ?p = "p\<lparr>pl_items := Some ys', pl_slots := t', pl_tail := tail', pl_count := pl_count p + n\<rparr>"
  have count: "unat (pl_count p + n) = unat (pl_count p) + length xs"
    using room n ys(2) unat_u32_less [of "st_capacity (pl_slots p)"]
    by (subst unat_add_le) (simp_all del: unat_u32_less)
  have nz: "n \<noteq> 0" using ne n by auto
  have "storage_pipeline_counts_valid p"
    using slot_table_inv_valid [OF si] c ys(2) by (simp add: storage_pipeline_counts_valid_def word_le_nat_alt)
  moreover have "n \<le> st_capacity (pl_slots p) - pl_count p" "pl_count p \<le> st_capacity (pl_slots p)"
    using room c ys(2) n by (simp_all add: word_le_nat_alt unat_sub)
  moreover have "n \<le> sc_completed_unharvested (st_counts (pl_slots p))" "\<not> pl_error p"
    using g n by (simp_all add: push_guard_def word_le_nat_alt)
  moreover have "push_batch_check (pl_slots p) [] xs"
    using acc dx by (simp add: push_batch_check_iff)
  ultimately have res: "storage_queue_push_batch p (Some xs) n = (0, ?p)"
    using nz n k(1) by (simp add: storage_queue_push_batch_def Let_def not_less)
  have qp: "pipeline_queue ?p = pipeline_queue p @ xs"
    using k(3) count by (simp add: pipeline_queue_def)
  have "\<forall>i\<in>pi_slot ` set xs. storage_slot_state (pl_slots p) i \<noteq> STORAGE_SLOT_READY_FOR_NVME"
    using acc by (simp add: item_acceptable_def)
  then have "pi_slot ` set xs \<inter> pi_slot ` set (pipeline_queue p) = {}"
    using r by blast
  then have "distinct (map pi_slot (pipeline_queue ?p))"
    using d dx unfolding qp by auto
  moreover have "storage_slot_state t' i = STORAGE_SLOT_READY_FOR_NVME \<longleftrightarrow>
      i \<in> pi_slot ` set (pipeline_queue ?p)" for i
    unfolding qp k(7) using r by auto
  moreover have "unat tail' = (unat (pl_head p) + unat (pl_count p + n)) mod unat (st_capacity t')"
    using k(4,6) count ys(2) by (simp add: add.assoc)
  ultimately have "pipeline_inv ?p"
    using k(2,5,6) ys h room count unfolding pipeline_inv_def
    by (simp add: word_le_nat_alt)
  with res qp show ?thesis by auto
qed

lemma push_refused:
  assumes inv: "pipeline_inv p" and g: "\<not> push_guard p xs" and ne: "xs \<noteq> []"
    and n: "length xs = unat n"
  shows "storage_queue_push_batch p (Some xs) n = (-1, p\<lparr>pl_error := True\<rparr>)"
proof -
  have c: "pl_count p \<le> st_capacity (pl_slots p)"
    using inv by (simp add: pipeline_inv_def)
  have nz: "n \<noteq> 0" using ne n by auto
  show ?thesis
    using g nz n c
    by (auto simp: storage_queue_push_batch_def Let_def push_guard_def push_batch_check_iff
        word_less_nat_alt unat_sub not_le)
qed

lemma pop_ok:
  assumes inv: "pipeline_inv p" and e: "\<not> pl_error p" and q: "pipeline_queue p = x # xs"
  shows "\<exists>p'. storage_pipeline_pop p wait = (PopReturns 0 (Some x), p') \<and> pipeline_inv p' \<and>
           pipeline_queue p' = xs \<and> \<not> pl_error p' \<and>
           storage_slot_state (pl_slots p') =
             (storage_slot_state (pl_slots p))(pi_slot x := STORAGE_SLOT_NVME_BUSY)"
proof -
  from inv obtain ys where ys: "pl_items p = Some ys" "length ys = unat (st_capacity (pl_slots p))"
      and si: "slot_table_inv (pl_slots p)" and h: "pl_head p < st_capacity (pl_slots p)"
      and c: "unat (pl_count p) \<le> length ys"
      and tl: "unat (pl_tail p) = (unat (pl_head p) + unat (pl_count p)) mod length ys"
      and qv: "pipeline_queue p = ring_view ys (unat (pl_head p)) (unat (pl_count p))"
      and d: "distinct (map pi_slot (pipeline_queue p))"
      and r: "\<forall>i. storage_slot_state (pl_slots p) i = STORAGE_SLOT_READY_FOR_NVME \<longleftrightarrow>
          i \<in> pi_slot ` set (pipeline_queue p)"
    by (rule pipeline_invE)
  have nz: "pl_count p \<noteq> 0" using q qv by auto
  then obtain k where k: "unat (pl_count p) = Suc k" by (metis unat_zero_iff not0_implies_Suc)
  have k': "unat (pl_count p - 1) = k" using nz k by (simp add: unat_dec)
  have hl: "unat (pl_head p) < length ys" using h ys(2) by (simp add: word_less_nat_alt)
  let ?h = "(pl_head p + 1) mod st_capacity (pl_slots p)"
  have h': "unat ?h = Suc (unat (pl_head p)) mod length ys" using ring_advance [OF h] ys(2) by simp
  have x: "x = ys ! unat (pl_head p)" and xs: "xs = ring_view ys (unat ?h) k"
    using ring_view_take [OF hl, of k] q qv k h' by auto
  have ready: "storage_slot_state (pl_slots p) (pi_slot x) = STORAGE_SLOT_READY_FOR_NVME"
    using r q by simp
  then have "pi_slot x < st_capacity (pl_slots p)"
    by (auto simp: storage_slot_state_def not_le [symmetric] split: option.splits if_splits)
  with ready obtain t where t: "storage_slot_transition (pl_slots p) (pi_slot x)
        STORAGE_SLOT_READY_FOR_NVME STORAGE_SLOT_NVME_BUSY = (0, t)"
      "slot_table_inv t" "st_capacity t = st_capacity (pl_slots p)"
      "storage_slot_state t = (storage_slot_state (pl_slots p))(pi_slot x := STORAGE_SLOT_NVME_BUSY)"
    using slot_transition_accept [OF si] by fastforce
  let ?p = "p\<lparr>pl_head := ?h, pl_count := pl_count p - 1, pl_slots := t\<rparr>"
  have res: "storage_pipeline_pop p wait = (PopReturns 0 (Some x), ?p)"
    using e nz t(1) x ys(1) by (simp add: storage_pipeline_pop_def Let_def)
  have qp: "pipeline_queue ?p = xs" using xs k' ys(1) by (simp add: pipeline_queue_def)
  have "unat (pl_tail p) = (unat ?h + k) mod length ys"
    using tl k h' by (simp add: mod_add_left_eq)
  moreover have "distinct (map pi_slot xs)" "pi_slot x \<notin> pi_slot ` set xs" using d q by auto
  moreover have "storage_slot_state t i = STORAGE_SLOT_READY_FOR_NVME \<longleftrightarrow> i \<in> pi_slot ` set xs" for i
    using r q calculation(3) t(4) by auto
  ultimately have "pipeline_inv ?p"
    using t(2,3) ys h k k' c ring_advance_less [OF h] qp unfolding pipeline_inv_def
    by (simp add: word_le_nat_alt)
  then show ?thesis using res qp t(4) e by simp
qed

lemma pop_empty:
  assumes "pipeline_queue p = [] \<or> pl_error p"
  shows "snd (storage_pipeline_pop p wait) = p"
proof -
  have "pipeline_queue p = [] \<longleftrightarrow> pl_count p = 0"
    by (metis pipeline_queue_def ring_view_length length_0_conv unat_zero_iff)
  then show ?thesis using assms by (auto simp: storage_pipeline_pop_def)
qed

lemma pipeline_inv_error [simp]: "pipeline_inv (p\<lparr>pl_error := e\<rparr>) = pipeline_inv p"
  "pipeline_queue (p\<lparr>pl_error := e\<rparr>) = pipeline_queue p"
  by (simp_all add: pipeline_inv_def pipeline_queue_def)

text \<open>A move between states other than ready leaves the queue alone.\<close>

lemma pipeline_inv_move:
  assumes inv: "pipeline_inv p" and m: "storage_slot_transition (pl_slots p) i a b = (rc, t)"
    and "a \<noteq> STORAGE_SLOT_READY_FOR_NVME" and "b \<noteq> STORAGE_SLOT_READY_FOR_NVME"
  shows "pipeline_inv (p\<lparr>pl_slots := t\<rparr>) \<and> pipeline_queue (p\<lparr>pl_slots := t\<rparr>) = pipeline_queue p"
proof -
  have si: "slot_table_inv (pl_slots p)" using inv by (simp add: pipeline_inv_def)
  have q: "pipeline_queue (p\<lparr>pl_slots := t\<rparr>) = pipeline_queue p" by (simp add: pipeline_queue_def)
  from si show ?thesis
  proof (cases rule: slot_table.move_cases [of _ i a b])
    case (moved t')
    have "st_capacity t = st_capacity (pl_slots p)"
      using slot_transition_accept [OF si moved(5-8)] m by auto
    moreover have "t = t'" using moved(1) m by simp
    ultimately show ?thesis using inv moved(2,3,6) assms(3,4) q
      by (auto simp: pipeline_inv_def)
  next
    case refused
    with m have "t = pl_slots p" by simp
    then show ?thesis using inv by simp
  qed
qed

section \<open>Runs\<close>

datatype pipeline_op =
    MarkCompleted u32
  | PushBatch "StoragePipelineItem list option" u32
  | PipelinePop bool
  | PipelineComplete u32 bool

primrec pipeline_step :: "StoragePipeline \<Rightarrow> pipeline_op \<Rightarrow> StoragePipeline" where
  "pipeline_step p (MarkCompleted slot) = snd (storage_pipeline_mark_completed p slot)"
| "pipeline_step p (PushBatch items n) = snd (storage_queue_push_batch p items n)"
| "pipeline_step p (PipelinePop wait) = snd (storage_pipeline_pop p wait)"
| "pipeline_step p (PipelineComplete slot requeue) = snd (storage_pipeline_complete p slot requeue)"

fun pipeline_accepted :: "StoragePipeline \<Rightarrow> pipeline_op \<Rightarrow> StoragePipelineItem list" where
  "pipeline_accepted p (PushBatch (Some xs) n) =
     (if fst (storage_queue_push_batch p (Some xs) n) = 0 then xs else [])"
| "pipeline_accepted p _ = []"

fun pipeline_delivered :: "StoragePipeline \<Rightarrow> pipeline_op \<Rightarrow> StoragePipelineItem list" where
  "pipeline_delivered p (PipelinePop wait) =
     (case fst (storage_pipeline_pop p wait) of PopReturns _ (Some x) \<Rightarrow> [x] | _ \<Rightarrow> [])"
| "pipeline_delivered p _ = []"

text \<open>The caller's array has the length it announces.\<close>

fun pipeline_op_legal :: "pipeline_op \<Rightarrow> bool" where
  "pipeline_op_legal (PushBatch (Some xs) n) \<longleftrightarrow> length xs = unat n"
| "pipeline_op_legal _ \<longleftrightarrow> True"

lemma push_step:
  assumes inv: "pipeline_inv p" and n: "length xs = unat n"
  shows "pipeline_inv (pipeline_step p (PushBatch (Some xs) n)) \<and>
         pipeline_queue (pipeline_step p (PushBatch (Some xs) n)) =
           pipeline_queue p @ pipeline_accepted p (PushBatch (Some xs) n)"
proof (cases "xs = []")
  case True
  with n have "n = 0" by simp
  with True inv show ?thesis by (simp add: storage_queue_push_batch_def)
next
  case False
  show ?thesis
  proof (cases "push_guard p xs")
    case True
    from push_ok [OF inv this False n] show ?thesis by auto
  next
    case no: False
    from push_refused [OF inv no False n] show ?thesis using inv by simp
  qed
qed

lemma pop_step:
  assumes inv: "pipeline_inv p"
  shows "pipeline_inv (pipeline_step p (PipelinePop wait)) \<and>
         pipeline_delivered p (PipelinePop wait) @ pipeline_queue (pipeline_step p (PipelinePop wait)) =
           pipeline_queue p"
proof (cases "pipeline_queue p = [] \<or> pl_error p")
  case True
  then have "pl_count p = 0 \<or> pl_error p"
    by (metis pipeline_queue_def ring_view_length length_0_conv unat_zero_iff)
  then show ?thesis using inv pop_empty [OF True] by (auto simp: storage_pipeline_pop_def)
next
  case False
  then obtain x xs where q: "pipeline_queue p = x # xs" by (cases "pipeline_queue p") auto
  with pop_ok [OF inv _ q, of wait] False show ?thesis by auto
qed

lemma mark_complete_step:
  assumes inv: "pipeline_inv p"
  shows "pipeline_inv (pipeline_step p (MarkCompleted slot)) \<and>
         pipeline_queue (pipeline_step p (MarkCompleted slot)) = pipeline_queue p"
    and "pipeline_inv (pipeline_step p (PipelineComplete slot requeue)) \<and>
         pipeline_queue (pipeline_step p (PipelineComplete slot requeue)) = pipeline_queue p"
  using pipeline_inv_move [OF inv]
  by (auto simp: storage_pipeline_mark_completed_def storage_pipeline_complete_def Let_def
      split: prod.splits if_splits)

interpretation write_queue: fifo_channel pipeline_inv pipeline_queue pipeline_op_legal pipeline_step
  pipeline_accepted pipeline_delivered
proof
  fix p x
  assume inv: "pipeline_inv p" and l: "pipeline_op_legal x"
  have "pipeline_inv (pipeline_step p x) \<and>
    pipeline_delivered p x @ pipeline_queue (pipeline_step p x) =
      pipeline_queue p @ pipeline_accepted p x"
  proof (cases x)
    case (PushBatch items n)
    show ?thesis
    proof (cases items)
      case None
      then show ?thesis using PushBatch inv by (simp add: storage_queue_push_batch_def)
    next
      case (Some xs)
      then show ?thesis using PushBatch l push_step [OF inv, of xs n] by simp
    qed
  next
    case (PipelinePop wait)
    then show ?thesis using pop_step [OF inv] by simp
  qed (use mark_complete_step [OF inv] in simp_all)
  then show "pipeline_inv (pipeline_step p x)"
    and "pipeline_delivered p x @ pipeline_queue (pipeline_step p x) =
      pipeline_queue p @ pipeline_accepted p x"
    by simp_all
qed

lemma pipeline_init_inv:
  assumes "storage_pipeline_init a b c p0 slots = (0, p)"
  shows "pipeline_inv p \<and> pipeline_queue p = [] \<and> \<not> pl_error p"
proof -
  have nz: "slots \<noteq> 0" using assms by (auto simp: storage_pipeline_init_def)
  have b: "b" using assms
    by (auto simp: storage_pipeline_init_def storage_slot_table_init_def Let_def split: if_splits)
  then have p: "p = pipeline_zero\<lparr>pl_items := Some (replicate (unat slots) pipeline_item_zero),
      pl_slots := snd (storage_slot_table_init True slot_table_zero slots)\<rparr>"
    using assms by (auto simp: storage_pipeline_init_def pipeline_zero_def Let_def
        split: if_splits prod.splits)
  let ?t = "snd (storage_slot_table_init True slot_table_zero slots)"
  have cap: "st_capacity ?t = slots" using nz by (simp add: storage_slot_table_init_def)
  have "storage_slot_state ?t i \<noteq> STORAGE_SLOT_READY_FOR_NVME" for i
    using nz slot_table_init_state [OF nz, of i] cap
    by (cases "i < slots") (auto simp: storage_slot_state_def storage_slot_table_init_def not_less)
  then show ?thesis
    using slot_table_init_inv [OF nz, of slot_table_zero] nz cap unfolding p
    by (simp add: pipeline_inv_def pipeline_queue_def pipeline_zero_def word_neq_0_conv)
qed

fun pipeline_run :: "StoragePipeline \<Rightarrow> pipeline_op list \<Rightarrow> StoragePipeline" where
  "pipeline_run p [] = p"
| "pipeline_run p (x # xs) = pipeline_run (pipeline_step p x) xs"

fun pipeline_all_accepted :: "StoragePipeline \<Rightarrow> pipeline_op list \<Rightarrow> StoragePipelineItem list" where
  "pipeline_all_accepted p [] = []"
| "pipeline_all_accepted p (x # xs) =
     pipeline_accepted p x @ pipeline_all_accepted (pipeline_step p x) xs"

fun pipeline_all_delivered :: "StoragePipeline \<Rightarrow> pipeline_op list \<Rightarrow> StoragePipelineItem list" where
  "pipeline_all_delivered p [] = []"
| "pipeline_all_delivered p (x # xs) =
     pipeline_delivered p x @ pipeline_all_delivered (pipeline_step p x) xs"

lemma write_queue_runs:
  "write_queue.run p xs = pipeline_run p xs"
  "write_queue.all_accepted p xs = pipeline_all_accepted p xs"
  "write_queue.all_delivered p xs = pipeline_all_delivered p xs"
  by (induction xs arbitrary: p) simp_all

section \<open>Arithmetic of the decisions\<close>

lemma unat_div_ucast:
  "unat ((x :: u64) div ucast (d :: u32)) = unat x div unat d"
  "unat ((x :: u64) mod ucast (d :: u32)) = unat x mod unat d"
  by (simp_all add: unat_div_distrib unat_mod_word)

lemma ceil_div:
  fixes r d :: nat
  assumes "0 < d"
  shows "(r + d - 1) div d = (if r mod d \<noteq> 0 then r div d + 1 else r div d)"
proof (cases "r mod d = 0")
  case True
  then obtain k where k: "r = k * d" by (metis div_mult_mod_eq add_0_right)
  have "(d - 1 + k * d) div d = k" using assms by (simp only: div_mult_self1) simp
  moreover have "r + d - 1 = d - 1 + k * d" using k assms by simp
  ultimately show ?thesis using True k assms by simp
next
  case False
  have "r + d - 1 = (r mod d - 1) + (r div d + 1) * d"
    using False assms div_mult_mod_eq [of r d] by (simp add: add_mult_distrib)
  moreover have "r mod d - 1 < d" using assms mod_less_divisor [of d r] by linarith
  ultimately have "(r + d - 1) div d = r div d + 1"
    using assms by (simp only: div_mult_self1) simp
  then show ?thesis using False by simp
qed

lemma unat_ucast_down:
  "unat (x :: u64) < 4294967296 \<Longrightarrow> unat (ucast x :: u32) = unat x"
  by (simp add: unsigned_ucast_eq take_bit_nat_eq_self)

lemma harvest_needed:
  fixes r :: u64 and d :: u32
  assumes d: "d \<noteq> 0"
  shows "unat (if r mod ucast d \<noteq> 0 then r div ucast d + 1 else r div ucast d) =
    (unat r + unat d - 1) div unat d"
proof -
  have mz: "r mod ucast d = 0 \<longleftrightarrow> unat r mod unat d = 0"
    by (metis unat_div_ucast(2) unat_zero_iff)
  have "unat (r div ucast d + 1) = unat r div unat d + 1" if "unat r mod unat d \<noteq> 0"
  proof -
    have "1 < unat d" using that d by (cases "unat d = 1") (auto simp: nat_neq_iff)
    moreover have "0 < unat r" using that by (cases "unat r = 0") auto
    ultimately have "unat r div unat d < unat r" by (rule div_less_dividend)
    then have "unat (r div ucast d) < 18446744073709551615"
      using unat_u64_less [of r] unfolding unat_div_ucast by linarith
    then show ?thesis by (subst unat_add_le) (simp_all add: unat_div_ucast)
  qed
  moreover have "(unat r + unat d - 1) div unat d =
      (if unat r mod unat d \<noteq> 0 then unat r div unat d + 1 else unat r div unat d)"
    using d by (intro ceil_div) simp
  ultimately show ?thesis using mz by (simp add: unat_div_ucast)
qed

lemma harvest_limit_exact:
  assumes d: "d \<noteq> 0"
  shows "unat (storage_harvest_limit_for_remaining r d m) =
           min ((unat r + unat d - 1) div unat d) (unat m)"
proof -
  let ?n = "if r mod ucast d \<noteq> 0 then r div ucast d + 1 else r div ucast d"
  consider "r = 0" | "m = 0" | "r \<noteq> 0" "m \<noteq> 0" by blast
  then show ?thesis
  proof cases
    case 1
    then show ?thesis using d by (simp add: storage_harvest_limit_for_remaining_def)
  next
    case 2
    then show ?thesis by (simp add: storage_harvest_limit_for_remaining_def)
  next
    case 3
    have "storage_harvest_limit_for_remaining r d m = (if ?n < ucast m then ucast ?n else m)"
      using 3 d by (simp add: storage_harvest_limit_for_remaining_def Let_def)
    moreover have "?n < ucast m \<longleftrightarrow> unat ?n < unat m" by (simp only: word_less_nat_alt unat_ucast_u32)
    moreover have "unat ?n < unat m \<Longrightarrow> unat (ucast ?n :: u32) = unat ?n"
      using unat_u32_less [of m] by (intro unat_ucast_down) linarith
    ultimately show ?thesis using harvest_needed [OF d, of r] by (simp add: min_def)
  qed
qed

lemma clamp_u32_exact:
  "unat (if (4294967295 :: u64) < s then UINT32_MAX else ucast s) = min (unat UINT32_MAX) (unat s)"
proof (cases "(4294967295 :: u64) < s")
  case True
  then show ?thesis by (simp add: word_less_nat_alt)
next
  case False
  then have "unat s \<le> 4294967295" by (simp add: word_le_nat_alt not_less)
  then show ?thesis using False by (simp add: unat_ucast_down)
qed

lemma writer_budget_exact:
  "unat (storage_writer_budget_for_pressure b l) =
     min (unat UINT32_MAX)
       (if 2 \<le> l then 2 * unat b else if l = 1 then unat b + (unat b + 1) div 2 else unat b)"
proof -
  have b: "unat b < 4294967296" by simp
  have two: "unat ((ucast b :: u64) * 2) = 2 * unat b"
    using b by (simp add: unat_word_ariths del: unat_u32_less)
  have half: "unat ((ucast b :: u64) + (ucast b + 1) div 2) = unat b + (unat b + 1) div 2"
    using b by (simp add: unat_word_ariths unat_div_distrib del: unat_u32_less)
  have eq: "storage_writer_budget_for_pressure b l =
      (let s = (if 2 \<le> l then (ucast b :: u64) * 2
                else if l = 1 then ucast b + (ucast b + 1) div 2 else ucast b)
       in if (4294967295 :: u64) < s then UINT32_MAX else ucast s)"
    by (simp add: storage_writer_budget_for_pressure_def Let_def)
  show ?thesis unfolding eq Let_def clamp_u32_exact using two half by simp
qed

lemma pressure_level_nat:
  "storage_ring_pressure_level occ tot w c =
     (if tot = 0 \<or> w = 0 \<or> c \<le> w \<or> 100 < c then 0
      else if unat tot \<le> unat occ then 3
      else if unat c \<le> unat occ * 100 div unat tot then 2
      else if unat w \<le> unat occ * 100 div unat tot then 1 else 0)"
proof -
  have occ: "unat occ < 4294967296" by simp
  have "unat (ucast occ * 100 :: u64) = unat occ * 100"
    using occ by (simp add: unat_word_ariths del: unat_u32_less)
  then have "unat ((ucast occ * 100 :: u64) div ucast tot) = unat occ * 100 div unat tot"
    by (simp only: unat_div_ucast)
  then show ?thesis
    by (simp add: storage_ring_pressure_level_def Let_def word_le_nat_alt)
qed

section \<open>Properties\<close>

text \<open>C12. From a freshly initialised queue, whatever sequence of harvest, push, pop and
  completion calls runs (accepted or refused), the items the NVMe writer has received,
  followed by the items still queued, are exactly the accepted items in the order they were
  pushed: nothing is lost, duplicated or reordered.\<close>

theorem write_queue_fifo:
  assumes "storage_pipeline_init a b c p0 slots = (0, p)"
    and "list_all pipeline_op_legal ops"
  shows "pipeline_all_delivered p ops @ pipeline_queue (pipeline_run p ops) =
         pipeline_all_accepted p ops"
  using write_queue.conservation [of p ops] pipeline_init_inv [OF assms(1)] assms(2)
  by (simp add: write_queue_runs)

definition demo_item :: "u32 \<Rightarrow> u64 \<Rightarrow> StoragePipelineItem" where
  "demo_item slot bytes =
     \<lparr>pi_slot = slot, pi_bytes = bytes, pi_chunk_index = 0, pi_file_offset = 0, pi_start_lba = 0,
      pi_sectors = (bytes + 511) div 512, pi_hw_addr = 0\<rparr>"

definition demo_ops :: "pipeline_op list" where
  "demo_ops =
     [MarkCompleted 0, MarkCompleted 1, PushBatch (Some [demo_item 0 512, demo_item 1 700]) 2,
      PipelinePop False, MarkCompleted 2, PushBatch (Some [demo_item 2 1]) 1,
      PipelineComplete 0 True, PipelinePop True, PipelinePop False]"

theorem write_queue_fifo_witness:
  "\<exists>p. storage_pipeline_init True True True pipeline_zero 3 = (0, p) \<and>
     list_all pipeline_op_legal demo_ops \<and>
     pipeline_all_delivered p demo_ops @ pipeline_queue (pipeline_run p demo_ops) =
       pipeline_all_accepted p demo_ops \<and>
     pipeline_all_accepted p demo_ops = [demo_item 0 512, demo_item 1 700, demo_item 2 1]"
proof -
  let ?p = "snd (storage_pipeline_init True True True pipeline_zero 3)"
  have i: "storage_pipeline_init True True True pipeline_zero 3 = (0, ?p)" by code_simp
  have l: "list_all pipeline_op_legal demo_ops" by code_simp
  have a: "pipeline_all_accepted ?p demo_ops = [demo_item 0 512, demo_item 1 700, demo_item 2 1]"
    by code_simp
  show ?thesis using write_queue_fifo [OF i l] i l a by blast
qed

text \<open>C13. A batch is taken as a whole or not at all. When the queue has not failed, has room and
  enough completed slots, and every item describes a distinct completed slot with a sector
  count that matches its bytes, the call returns 0, appends the whole batch and keeps the
  invariant; otherwise it returns -1 and changes nothing but the error flag. In particular
  the commit loop, whose failure would leave a half-pushed batch, never fails.\<close>

theorem push_batch_atomic:
  assumes "pipeline_inv p" and "xs \<noteq> []" and "length xs = unat n"
  shows "(if push_guard p xs
          then \<exists>p'. storage_queue_push_batch p (Some xs) n = (0, p') \<and> pipeline_inv p' \<and>
                 pipeline_queue p' = pipeline_queue p @ xs \<and> pl_error p' = pl_error p
          else storage_queue_push_batch p (Some xs) n = (-1, p\<lparr>pl_error := True\<rparr>))"
  using push_ok [OF assms(1) _ assms(2,3)] push_refused [OF assms(1) _ assms(2,3)] by simp

theorem push_batch_atomic_witness:
  "\<exists>p. pipeline_inv p \<and> \<not> push_guard p [demo_item 0 512, demo_item 0 512] \<and>
     storage_queue_push_batch p (Some [demo_item 0 512, demo_item 0 512]) 2 =
       (-1, p\<lparr>pl_error := True\<rparr>)"
proof -
  let ?p = "snd (storage_pipeline_init True True True pipeline_zero 3)"
  have i: "storage_pipeline_init True True True pipeline_zero 3 = (0, ?p)" by code_simp
  have inv: "pipeline_inv ?p" using pipeline_init_inv [OF i] by simp
  have g: "\<not> push_guard ?p [demo_item 0 512, demo_item 0 512]"
    by (simp add: push_guard_def demo_item_def)
  show ?thesis
    using push_batch_atomic [OF inv, of "[demo_item 0 512, demo_item 0 512]" 2] inv g by auto
qed

text \<open>On a queue that has not failed, a pop returns the oldest item, hands its slot to the
  NVMe writer and to nothing else, and leaves the rest of the queue in order.\<close>

lemma pop_takes_oldest:
  assumes "pipeline_inv p" and "\<not> pl_error p" and "pipeline_queue p = x # xs"
  shows "\<exists>p'. storage_pipeline_pop p wait = (PopReturns 0 (Some x), p') \<and> pipeline_inv p' \<and>
           pipeline_queue p' = xs \<and> \<not> pl_error p' \<and>
           storage_slot_state (pl_slots p') =
             (storage_slot_state (pl_slots p))(pi_slot x := STORAGE_SLOT_NVME_BUSY)"
  using assms by (rule pop_ok)

text \<open>The harvest limit is exactly the number of descriptors the remaining bytes need, cut
  at the batch size; the writer budget under pressure is exactly the base, one and a half
  times the base rounded up, or twice the base, cut at the largest 32-bit value. None of the
  intermediate sums wraps.\<close>

lemma harvest_and_budget_bounds:
  "(if d = 0 then storage_harvest_limit_for_remaining r d m = 0
    else unat (storage_harvest_limit_for_remaining r d m) =
           min ((unat r + unat d - 1) div unat d) (unat m)) \<and>
   unat (storage_writer_budget_for_pressure b l) =
     min (unat UINT32_MAX)
       (if 2 \<le> l then 2 * unat b else if l = 1 then unat b + (unat b + 1) div 2 else unat b)"
  using harvest_limit_exact [of d r m] writer_budget_exact [of b l]
  by (simp add: storage_harvest_limit_for_remaining_def)

text \<open>Ring pressure never falls as the ring fills, and with valid thresholds it is full
  (level 3) exactly when no slot is left.\<close>

lemma pressure_level_monotone:
  assumes "occ \<le> occ'"
  shows "storage_ring_pressure_level occ slots w c \<le> storage_ring_pressure_level occ' slots w c \<and>
     (slots \<noteq> 0 \<and> w \<noteq> 0 \<and> w < c \<and> c \<le> 100 \<longrightarrow>
        (storage_ring_pressure_level occ slots w c = 3 \<longleftrightarrow> slots \<le> occ))"
proof -
  have "unat occ * 100 div unat slots \<le> unat occ' * 100 div unat slots"
    using assms by (intro div_le_mono) (simp add: word_le_nat_alt)
  then show ?thesis using assms
    by (auto simp: pressure_level_nat word_le_nat_alt word_less_nat_alt not_le not_less)
qed

lemma pressure_level_monotone_witness:
  "storage_ring_pressure_level 800 1024 75 90 = 1 \<and>
   storage_ring_pressure_level 800 1024 75 90 \<le> storage_ring_pressure_level 1024 1024 75 90"
  using pressure_level_monotone [of 800 1024 1024 75 90] by (simp add: pressure_level_nat)

end
