(* ===== verification/Serial_Proto.thy ===== *)
theory Serial_Proto
  imports Ccb_Prelude
begin

text \<open>
  The UART protocol of \<^verbatim>\<open>serial_proto.c\<close>: the byte-wise frame parser \<^verbatim>\<open>proto_input\<close> with its
  static buffer, index and expected length, and the acknowledgement frames it sends. The two
  registered callbacks are outside the module: a call of the handler or of the send function
  is an effect with the bytes handed over. An access outside the buffer, undefined in C, is an effect of its
  own with the index. Log lines are not modelled.
\<close>

unbundle bit_operations_syntax

section \<open>State and effects\<close>

abbreviation FRAME_HEAD :: u8 where "FRAME_HEAD \<equiv> 0x55"
abbreviation FRAME_TAIL :: u8 where "FRAME_TAIL \<equiv> 0xAA"
abbreviation DEVICE_ID :: u8 where "DEVICE_ID \<equiv> 0xCC"
abbreviation CMD_ACQ_CTRL :: u8 where "CMD_ACQ_CTRL \<equiv> 0x21"
abbreviation CMD_FILE_LIST :: u8 where "CMD_FILE_LIST \<equiv> 0x41"

record Proto =
  pr_buf :: "u8 list"
  pr_idx :: nat
  pr_expected_len :: nat
  pr_send_cb :: bool
  pr_handler_cb :: bool

datatype proto_effect =
    HandlerCalled "u8 list"
  | BytesSent "u8 list"
  | BadAccess int

definition proto_start :: Proto where
  "proto_start =
     \<lparr>pr_buf = replicate 128 0, pr_idx = 0, pr_expected_len = 0, pr_send_cb = False,
      pr_handler_cb = False\<rparr>"

section \<open>Operations\<close>

definition get_len :: "u8 \<Rightarrow> nat" where
  "get_len cmd =
     (if cmd = 0x11 then 64 else if cmd = 0x21 then 16 else if cmd = 0x31 then 16
      else if cmd = 0x41 then 16 else if cmd = 0x51 then 32 else if cmd = 0x61 then 16
      else if cmd = 0x71 then 16 else 0)"

definition store_be32 :: "u32 \<Rightarrow> u8 list" where
  "store_be32 value =
     [ucast (drop_bit 24 value AND 0xFF), ucast (drop_bit 16 value AND 0xFF),
      ucast (drop_bit 8 value AND 0xFF), ucast (value AND 0xFF)]"

definition store_be64 :: "u64 \<Rightarrow> u8 list" where
  "store_be64 value =
     [ucast (drop_bit 56 value AND 0xFF), ucast (drop_bit 48 value AND 0xFF),
      ucast (drop_bit 40 value AND 0xFF), ucast (drop_bit 32 value AND 0xFF),
      ucast (drop_bit 24 value AND 0xFF), ucast (drop_bit 16 value AND 0xFF),
      ucast (drop_bit 8 value AND 0xFF), ucast (value AND 0xFF)]"

definition proto_emit :: "Proto \<Rightarrow> u8 list \<Rightarrow> proto_effect list" where
  "proto_emit p bytes = (if pr_send_cb p then [BytesSent bytes] else [])"

definition send_ack :: "Proto \<Rightarrow> u8 \<Rightarrow> u8 \<Rightarrow> proto_effect list" where
  "send_ack p cmd result =
     (let ack = (replicate 16 0)[0 := FRAME_HEAD, 1 := DEVICE_ID, 2 := cmd, 3 := result, 15 := FRAME_TAIL]
      in proto_emit p ack)"

definition send_acq_ack :: "Proto \<Rightarrow> u8 \<Rightarrow> u8 \<Rightarrow> u8 \<Rightarrow> proto_effect list" where
  "send_acq_ack p result acq_type failure_type =
     (let ack = (replicate 16 0)[0 := FRAME_HEAD, 1 := DEVICE_ID, 2 := CMD_ACQ_CTRL, 3 := result,
                   4 := acq_type, 5 := failure_type, 15 := FRAME_TAIL]
      in proto_emit p ack)"

definition proto_init :: "Proto \<Rightarrow> Proto" where
  "proto_init p = p\<lparr>pr_idx := 0, pr_expected_len := 0\<rparr>"

definition proto_set_send :: "Proto \<Rightarrow> bool \<Rightarrow> Proto" where
  "proto_set_send p func = p\<lparr>pr_send_cb := func\<rparr>"

definition proto_set_handler :: "Proto \<Rightarrow> bool \<Rightarrow> Proto" where
  "proto_set_handler p handler = p\<lparr>pr_handler_cb := handler\<rparr>"

text \<open>\<^verbatim>\<open>buf[idx++] = byte\<close>\<close>

definition proto_store :: "Proto \<Rightarrow> u8 \<Rightarrow> Proto" where
  "proto_store p byte = p\<lparr>pr_buf := (pr_buf p)[pr_idx p := byte], pr_idx := pr_idx p + 1\<rparr>"

definition buf_access :: "int \<Rightarrow> proto_effect list" where
  "buf_access i = (if 0 \<le> i \<and> i < 128 then [] else [BadAccess i])"

definition proto_input :: "Proto \<Rightarrow> u8 \<Rightarrow> proto_effect list \<times> Proto" where
  "proto_input p byte =
     (let stored = buf_access (int (pr_idx p))
      in if pr_idx p = 0 then
        if byte \<noteq> FRAME_HEAD then ([], p) else (stored, proto_store p byte)
      else if pr_idx p = 1 then
        if byte \<noteq> DEVICE_ID then (stored, (proto_store p byte)\<lparr>pr_idx := 0\<rparr>)
        else (stored, proto_store p byte)
      else if pr_idx p = 2 then
        let p1 = (proto_store p byte)\<lparr>pr_expected_len := get_len byte\<rparr>
        in if pr_expected_len p1 = 0 then (stored, p1\<lparr>pr_idx := 0\<rparr>) else (stored, p1)
      else
        let p1 = proto_store p byte; tail = int (pr_expected_len p1) - 1
        in if pr_expected_len p1 \<le> pr_idx p1 then
             (stored @ buf_access tail @
              (if pr_buf p1 ! nat tail = FRAME_TAIL
               then if pr_handler_cb p1 then [HandlerCalled (pr_buf p1)]
                    else send_ack p1 (pr_buf p1 ! 2) 0
               else []),
              p1\<lparr>pr_idx := 0\<rparr>)
           else (stored, p1))"

definition proto_send_ack :: "Proto \<Rightarrow> u8 \<Rightarrow> u8 \<Rightarrow> proto_effect list" where
  "proto_send_ack p cmd result = send_ack p cmd result"

definition proto_send_acq_ack :: "Proto \<Rightarrow> u8 \<Rightarrow> u8 \<Rightarrow> u8 \<Rightarrow> proto_effect list" where
  "proto_send_acq_ack p result acq_type failure_type = send_acq_ack p result acq_type failure_type"

text \<open>The packed \<^verbatim>\<open>AckFileList\<close> is sent as its bytes; an absent task id leaves zeros.\<close>

record AckFileList =
  afl_frame_head :: u8
  afl_device_id :: u8
  afl_cmd_type :: u8
  afl_result :: u8
  afl_task_id :: "u8 list"
  afl_file_count :: u8
  afl_file_index :: u8
  afl_file_type :: u8
  afl_file_size :: "u8 list"
  afl_start_sector :: "u8 list"
  afl_sector_count :: "u8 list"
  afl_flag :: u8
  afl_calibration_type :: u8
  afl_frame_tail :: u8

definition ack_file_list_bytes :: "AckFileList \<Rightarrow> u8 list" where
  "ack_file_list_bytes a =
     [afl_frame_head a, afl_device_id a, afl_cmd_type a, afl_result a] @ afl_task_id a @
     [afl_file_count a, afl_file_index a, afl_file_type a] @ afl_file_size a @ afl_start_sector a @
     afl_sector_count a @ [afl_flag a, afl_calibration_type a, afl_frame_tail a]"

definition ack_task_id :: "string option \<Rightarrow> u8 list" where
  "ack_task_id task_id =
     (case task_id of
        None \<Rightarrow> replicate 11 0
      | Some s \<Rightarrow> let n = (if 11 < length s then 11 else length s)
                  in map of_char (take n s) @ replicate (11 - n) 0)"

definition proto_send_file_list ::
  "Proto \<Rightarrow> string option \<Rightarrow> u8 \<Rightarrow> u8 \<Rightarrow> u8 \<Rightarrow> u8 \<Rightarrow> u64 \<Rightarrow> u64 \<Rightarrow> u32 \<Rightarrow> u8 \<Rightarrow> u8 \<Rightarrow>
   proto_effect list" where
  "proto_send_file_list p task_id result file_count file_index file_type file_size start_sector
      sector_count flag calibration_type =
     proto_emit p (ack_file_list_bytes
       \<lparr>afl_frame_head = FRAME_HEAD, afl_device_id = DEVICE_ID, afl_cmd_type = CMD_FILE_LIST,
        afl_result = result, afl_task_id = ack_task_id task_id, afl_file_count = file_count,
        afl_file_index = file_index, afl_file_type = file_type,
        afl_file_size = store_be64 file_size, afl_start_sector = store_be64 start_sector,
        afl_sector_count = store_be32 sector_count, afl_flag = flag,
        afl_calibration_type = calibration_type, afl_frame_tail = FRAME_TAIL\<rparr>)"

fun proto_feed :: "Proto \<Rightarrow> u8 list \<Rightarrow> proto_effect list \<times> Proto" where
  "proto_feed p [] = ([], p)"
| "proto_feed p (b # bs) =
     (let (e1, p1) = proto_input p b; (e2, p2) = proto_feed p1 bs in (e1 @ e2, p2))"

section \<open>Parser invariant\<close>

text \<open>The index stays inside the buffer and the announced frame fits into it.\<close>

definition proto_inv :: "Proto \<Rightarrow> bool" where
  "proto_inv p \<longleftrightarrow>
     length (pr_buf p) = 128 \<and>
     (pr_idx p \<le> 2 \<or> (pr_idx p < pr_expected_len p \<and> pr_expected_len p \<le> 64))"

lemma get_len_range: "get_len cmd = 0 \<or> (16 \<le> get_len cmd \<and> get_len cmd \<le> 64)"
  by (simp add: get_len_def)

lemma proto_store_simps [simp]:
  "pr_buf (proto_store p b) = (pr_buf p)[pr_idx p := b]"
  "pr_idx (proto_store p b) = pr_idx p + 1"
  "pr_expected_len (proto_store p b) = pr_expected_len p"
  "pr_handler_cb (proto_store p b) = pr_handler_cb p"
  "pr_send_cb (proto_store p b) = pr_send_cb p"
  by (simp_all add: proto_store_def)

lemma proto_start_inv: "proto_inv proto_start"
  by (simp add: proto_inv_def proto_start_def)

lemma proto_input_inv: "proto_inv p \<Longrightarrow> proto_inv (snd (proto_input p b))"
  using get_len_range [of b] by (auto simp: proto_inv_def proto_input_def Let_def)

lemma proto_feed_inv: "proto_inv p \<Longrightarrow> proto_inv (snd (proto_feed p bs))"
  by (induction bs arbitrary: p) (auto simp: split_beta Let_def intro: proto_input_inv)

text \<open>Every access of the parser is inside the buffer.\<close>

lemma proto_input_access: "proto_inv p \<Longrightarrow> BadAccess i \<notin> set (fst (proto_input p b))"
  by (auto simp: proto_inv_def proto_input_def buf_access_def send_ack_def proto_emit_def Let_def)

lemma proto_feed_access: "proto_inv p \<Longrightarrow> BadAccess i \<notin> set (fst (proto_feed p bs))"
  by (induction bs arbitrary: p) (auto simp: split_beta Let_def proto_input_access proto_input_inv)

lemma proto_feed_append:
  "proto_feed p (xs @ ys) =
     (let (e1, p1) = proto_feed p xs; (e2, p2) = proto_feed p1 ys in (e1 @ e2, p2))"
  by (induction xs arbitrary: p) (simp_all add: Let_def split_beta)

lemma proto_feed_silent:
  "proto_feed p xs = ([], q) \<Longrightarrow> proto_feed p (xs @ ys) = proto_feed q ys"
  by (simp add: proto_feed_append Let_def)

lemma proto_feed_single: "proto_feed p [b] = proto_input p b"
  by (simp add: Let_def split_beta)

text \<open>Feeding keeps the callbacks.\<close>

lemma proto_input_cbs [simp]:
  "pr_handler_cb (snd (proto_input p b)) = pr_handler_cb p"
  "pr_send_cb (snd (proto_input p b)) = pr_send_cb p"
  by (simp_all add: proto_input_def Let_def)

section \<open>Whole frames\<close>

definition frame_ok :: "u8 list \<Rightarrow> bool" where
  "frame_ok f \<longleftrightarrow>
     3 \<le> length f \<and> f ! 0 = FRAME_HEAD \<and> f ! 1 = DEVICE_ID \<and> length f = get_len (f ! 2) \<and>
     last f = FRAME_TAIL"

lemma take_Suc_update: "k < length xs \<Longrightarrow> take (Suc k) (xs[k := t]) = take k xs @ [t]"
  by (simp add: take_Suc_conv_app_nth)

text \<open>Below the announced length, the bytes of a frame are only collected.\<close>

lemma proto_feed_collect:
  assumes "length (pr_buf p) = 128" and "3 \<le> pr_idx p"
    and "pr_idx p + length bs < pr_expected_len p" and "pr_expected_len p \<le> 64"
  shows "proto_feed p bs =
     ([], p\<lparr>pr_buf := take (pr_idx p) (pr_buf p) @ bs @ drop (pr_idx p + length bs) (pr_buf p),
            pr_idx := pr_idx p + length bs\<rparr>)"
  using assms
proof (induction bs arbitrary: p)
  case (Cons b bs)
  let ?p = "proto_store p b"
  have "proto_input p b = ([], ?p)" using Cons.prems by (simp add: proto_input_def buf_access_def Let_def)
  moreover have "proto_feed ?p bs =
      ([], ?p\<lparr>pr_buf := take (pr_idx ?p) (pr_buf ?p) @ bs @ drop (pr_idx ?p + length bs) (pr_buf ?p),
              pr_idx := pr_idx ?p + length bs\<rparr>)"
    using Cons.prems by (intro Cons.IH) simp_all
  moreover have "take (Suc (pr_idx p)) ((pr_buf p)[pr_idx p := b]) = take (pr_idx p) (pr_buf p) @ [b]"
    using Cons.prems by (intro take_Suc_update) linarith
  ultimately show ?case by (simp add: proto_store_def)
qed simp

lemma frame_okE:
  assumes "frame_ok f"
  obtains c body where "f = FRAME_HEAD # DEVICE_ID # c # body @ [FRAME_TAIL]"
    "get_len c = length body + 4"
proof -
  from assms obtain c r where f: "f = FRAME_HEAD # DEVICE_ID # c # r"
    by (auto simp: frame_ok_def Suc_le_length_iff numeral_3_eq_3)
  then have g: "get_len c = length r + 3" "r \<noteq> []"
    using assms get_len_range [of c] by (auto simp: frame_ok_def)
  then have "r = butlast r @ [FRAME_TAIL]"
    using assms f append_butlast_last_id [of r] by (simp add: frame_ok_def split: if_splits)
  then have "f = FRAME_HEAD # DEVICE_ID # c # butlast r @ [FRAME_TAIL]" using f by simp
  moreover have "get_len c = length (butlast r) + 4" using g by (cases r) simp_all
  ultimately show ?thesis by (rule that)
qed

definition proto_idle :: "Proto \<Rightarrow> bool" where
  "proto_idle p \<longleftrightarrow> length (pr_buf p) = 128 \<and> pr_idx p = 0"

lemma proto_idle_inv: "proto_idle p \<Longrightarrow> proto_inv p"
  by (simp add: proto_idle_def proto_inv_def)

text \<open>An announced body of the right length is judged by its last byte alone.\<close>

lemma proto_feed_complete:
  assumes idle: "proto_idle p" and len: "get_len c = length body + 4"
  shows "\<exists>buf. length buf = 128 \<and> take (length body + 4) buf = FRAME_HEAD # DEVICE_ID # c # body @ [t] \<and>
     proto_feed p (FRAME_HEAD # DEVICE_ID # c # body @ [t]) =
       (if t = FRAME_TAIL
        then if pr_handler_cb p then [HandlerCalled buf] else send_ack p c 0
        else [],
        p\<lparr>pr_buf := buf, pr_idx := 0, pr_expected_len := length body + 4\<rparr>)"
proof -
  let ?n = "length body + 4"
  have n: "?n \<le> 64" using get_len_range [of c] len by auto
  have buf: "length (pr_buf p) = 128" and idx: "pr_idx p = 0" using idle by (simp_all add: proto_idle_def)
  let ?b3 = "(pr_buf p)[0 := FRAME_HEAD, 1 := DEVICE_ID, 2 := c]"
  let ?p3 = "p\<lparr>pr_buf := ?b3, pr_idx := 3, pr_expected_len := ?n\<rparr>"
  have head: "proto_feed p [FRAME_HEAD, DEVICE_ID, c] = ([], ?p3)"
    using idx len by (simp add: proto_input_def buf_access_def proto_store_def Let_def numeral_2_eq_2 numeral_3_eq_3)
  have b3: "take 3 ?b3 = [FRAME_HEAD, DEVICE_ID, c]"
    using buf by (cases "pr_buf p"; cases "tl (pr_buf p)"; cases "tl (tl (pr_buf p))")
      (auto simp: numeral_2_eq_2 numeral_3_eq_3)
  let ?b4 = "take 3 ?b3 @ body @ drop (3 + length body) ?b3"
  let ?p4 = "?p3\<lparr>pr_buf := ?b4, pr_idx := 3 + length body\<rparr>"
  have mid: "proto_feed ?p3 body = ([], ?p4)"
    using proto_feed_collect [of ?p3 body] buf n by simp
  have l4: "length ?b4 = 128" using buf n by simp
  let ?b5 = "?b4[3 + length body := t]"
  have t5: "take ?n ?b5 = FRAME_HEAD # DEVICE_ID # c # body @ [t]"
  proof -
    have "take (Suc (3 + length body)) ?b5 = take (3 + length body) ?b4 @ [t]"
      using l4 n by (intro take_Suc_update) linarith
    then show ?thesis using b3 buf by (simp add: add.commute)
  qed
  have nth5: "?b5 ! (3 + length body) = t" using l4 n by (subst nth_list_update_eq) simp_all
  have "?b5 ! 2 = take ?n ?b5 ! 2" by simp
  then have c5: "?b5 ! 2 = c" unfolding t5 by simp
  let ?p5 = "p\<lparr>pr_buf := ?b5, pr_idx := 0, pr_expected_len := ?n\<rparr>"
  have ix: "nat (3 + int (length body)) = 3 + length body" by simp
  have last: "proto_input ?p4 t =
      (if t = FRAME_TAIL then if pr_handler_cb p then [HandlerCalled ?b5] else send_ack p c 0 else [], ?p5)"
    using nth5 c5 n ix
    by (simp add: proto_input_def buf_access_def proto_store_def Let_def send_ack_def proto_emit_def
        del: list_update_append append_assoc)
  have "proto_feed p ([FRAME_HEAD, DEVICE_ID, c] @ body @ [t]) = proto_input ?p4 t"
    unfolding proto_feed_silent [OF head] proto_feed_silent [OF mid] by (rule proto_feed_single)
  then have "proto_feed p (FRAME_HEAD # DEVICE_ID # c # body @ [t]) =
      (if t = FRAME_TAIL then if pr_handler_cb p then [HandlerCalled ?b5] else send_ack p c 0 else [], ?p5)"
    unfolding last by simp
  then have "length ?b5 = 128 \<and> take ?n ?b5 = FRAME_HEAD # DEVICE_ID # c # body @ [t] \<and>
     proto_feed p (FRAME_HEAD # DEVICE_ID # c # body @ [t]) =
      (if t = FRAME_TAIL then if pr_handler_cb p then [HandlerCalled ?b5] else send_ack p c 0 else [], ?p5)"
    using t5 l4 by (metis length_list_update)
  then show ?thesis by blast
qed

lemma proto_feed_frame:
  assumes "frame_ok f" and "proto_idle p"
  shows "\<exists>buf. take (length f) buf = f \<and>
     fst (proto_feed p f) =
       (if pr_handler_cb p then [HandlerCalled buf] else send_ack p (f ! 2) 0) \<and>
     proto_idle (snd (proto_feed p f)) \<and>
     pr_handler_cb (snd (proto_feed p f)) = pr_handler_cb p"
proof -
  from assms(1) obtain c body where f: "f = FRAME_HEAD # DEVICE_ID # c # body @ [FRAME_TAIL]"
    "get_len c = length body + 4" by (rule frame_okE)
  obtain buf where b: "length buf = 128"
      "take (length body + 4) buf = FRAME_HEAD # DEVICE_ID # c # body @ [FRAME_TAIL]"
      "proto_feed p (FRAME_HEAD # DEVICE_ID # c # body @ [FRAME_TAIL]) =
         (if FRAME_TAIL = FRAME_TAIL
          then if pr_handler_cb p then [HandlerCalled buf] else send_ack p c 0 else [],
          p\<lparr>pr_buf := buf, pr_idx := 0, pr_expected_len := length body + 4\<rparr>)"
    using proto_feed_complete [OF assms(2) f(2), of FRAME_TAIL] by blast
  have "length f = length body + 4" using f(1) by simp
  with b show ?thesis unfolding f(1) [symmetric]
    by (intro exI [of _ buf]) (simp add: f(1) proto_idle_def eval_nat_numeral del: proto_feed.simps)
qed

text \<open>Bytes without a frame head do not disturb an idle parser.\<close>

lemma proto_feed_noise:
  "proto_idle p \<Longrightarrow> FRAME_HEAD \<notin> set bs \<Longrightarrow> proto_feed p bs = ([], p)"
  by (induction bs) (auto simp: proto_idle_def proto_input_def)

text \<open>The frames handed to the handler, cut to their announced length.\<close>

definition delivered_frames :: "proto_effect list \<Rightarrow> u8 list list" where
  "delivered_frames es =
     List.map_filter (\<lambda>e. case e of HandlerCalled buf \<Rightarrow> Some (take (get_len (buf ! 2)) buf)
                                 | _ \<Rightarrow> None) es"

fun line_bytes :: "(u8 list \<times> u8 list) list \<Rightarrow> u8 list" where
  "line_bytes [] = []"
| "line_bytes ((noise, f) # xs) = noise @ f @ line_bytes xs"

lemma delivered_frames_simps:
  "delivered_frames [] = []"
  "delivered_frames (xs @ ys) = delivered_frames xs @ delivered_frames ys"
  "delivered_frames (HandlerCalled buf # es) = take (get_len (buf ! 2)) buf # delivered_frames es"
  by (simp_all add: delivered_frames_def map_filter_def)

lemma frame_ok_take:
  assumes "frame_ok f" and "take (length f) buf = f"
  shows "take (get_len (buf ! 2)) buf = f"
proof -
  have "f ! 2 = buf ! 2" using assms nth_take [of 2 "length f" buf] by (simp add: frame_ok_def)
  then show ?thesis using assms by (simp add: frame_ok_def)
qed

lemma proto_feed_stream:
  assumes "proto_idle p" and "pr_handler_cb p"
    and "\<forall>(noise, f)\<in>set xs. FRAME_HEAD \<notin> set noise \<and> frame_ok f"
  shows "delivered_frames (fst (proto_feed p (line_bytes xs))) = map snd xs \<and>
         proto_idle (snd (proto_feed p (line_bytes xs)))"
  using assms
proof (induction xs arbitrary: p)
  case (Cons x xs)
  obtain noise f where x: "x = (noise, f)" by (cases x)
  with Cons.prems have ok: "FRAME_HEAD \<notin> set noise" "frame_ok f" by auto
  obtain buf where b: "take (length f) buf = f" "fst (proto_feed p f) = [HandlerCalled buf]"
      "proto_idle (snd (proto_feed p f))" "pr_handler_cb (snd (proto_feed p f))"
    using proto_feed_frame [OF ok(2) Cons.prems(1)] Cons.prems(2) by auto
  have "delivered_frames (fst (proto_feed (snd (proto_feed p f)) (line_bytes xs))) = map snd xs \<and>
      proto_idle (snd (proto_feed (snd (proto_feed p f)) (line_bytes xs)))"
    using b(3,4) Cons.prems(3) by (intro Cons.IH) auto
  then show ?case
    using b(2) frame_ok_take [OF ok(2) b(1)] proto_feed_noise [OF Cons.prems(1) ok(1)]
    by (simp add: x proto_feed_append Let_def split_beta delivered_frames_simps)
qed (simp add: delivered_frames_def map_filter_def)

text \<open>The parser is never stuck inside a frame.\<close>

definition proto_remaining :: "Proto \<Rightarrow> nat" where
  "proto_remaining p =
     (if pr_idx p = 0 then 0 else if pr_idx p \<le> 2 then 66 - pr_idx p
      else pr_expected_len p - pr_idx p)"

lemma proto_input_progress:
  assumes "proto_inv p" and "pr_idx p \<noteq> 0"
  shows "proto_remaining (snd (proto_input p b)) < proto_remaining p"
  using assms get_len_range [of b]
  by (auto simp: proto_inv_def proto_input_def proto_remaining_def Let_def)

lemma proto_resync:
  assumes "proto_inv p" and "proto_remaining p \<le> length bs"
  shows "\<exists>k\<le>proto_remaining p. proto_idle (snd (proto_feed p (take k bs)))"
  using assms
proof (induction bs arbitrary: p)
  case Nil
  then show ?case
    by (auto simp: proto_remaining_def proto_idle_def proto_inv_def split: if_splits)
next
  case (Cons b bs)
  show ?case
  proof (cases "pr_idx p = 0")
    case True
    then show ?thesis using Cons.prems(1)
      by (intro exI [of _ 0]) (simp add: proto_idle_def proto_inv_def)
  next
    case False
    let ?p = "snd (proto_input p b)"
    have less: "proto_remaining ?p < proto_remaining p"
      using proto_input_progress [OF Cons.prems(1) False] .
    then obtain k where k: "k \<le> proto_remaining ?p" "proto_idle (snd (proto_feed ?p (take k bs)))"
      using Cons.IH [of ?p] Cons.prems proto_input_inv [OF Cons.prems(1)] by fastforce
    then show ?thesis using less
      by (intro exI [of _ "Suc k"]) (simp add: Let_def split_beta)
  qed
qed

section \<open>Big-endian fields\<close>

definition be_value :: "u8 list \<Rightarrow> nat" where
  "be_value bs = foldl (\<lambda>a b. 256 * a + unat b) 0 bs"

lemma unat_byte_of:
  "unat (ucast (drop_bit k (v :: 'a::len word) AND 0xFF) :: u8) = unat v div 2 ^ k mod 256"
proof -
  have "drop_bit k v AND 0xFF = take_bit 8 (drop_bit k v)"
    by (simp add: take_bit_eq_mask mask_eq_exp_minus_1)
  moreover have "unat (ucast (take_bit 8 (drop_bit k v)) :: u8) = take_bit 8 (drop_bit k (unat v))"
    by (simp add: unsigned_ucast_eq unsigned_take_bit_eq unsigned_drop_bit_eq
        take_bit_nat_eq_self [OF unsigned_less] drop_bit_eq_div [symmetric])
  ultimately show ?thesis by (simp only: take_bit_eq_mod drop_bit_eq_div) simp
qed

text \<open>The bytes of a number from the most significant on, and their value.\<close>

lemma be_value_snoc: "be_value (bs @ [b]) = 256 * be_value bs + unat b"
  by (simp add: be_value_def)

lemma be_value_digits:
  assumes "\<And>i. i < length bs \<Longrightarrow> unat (bs ! i) = n div 256 ^ (length bs - Suc i) mod 256"
  shows "be_value bs = n mod 256 ^ length bs"
  using assms
proof (induction bs arbitrary: n rule: rev_induct)
  case Nil
  then show ?case by (simp add: be_value_def)
next
  case (snoc b bs)
  have "unat (bs ! i) = n div 256 div 256 ^ (length bs - Suc i) mod 256" if "i < length bs" for i
  proof -
    have "length bs - i = Suc (length bs - Suc i)" using that by simp
    then show ?thesis using snoc.prems [of i] that
      by (simp add: nth_append div_mult2_eq)
  qed
  then have "be_value bs = n div 256 mod 256 ^ length bs" by (rule snoc.IH)
  moreover have "unat b = n mod 256" using snoc.prems [of "length bs"] by simp
  ultimately show ?case by (simp add: be_value_snoc mod_mult2_eq)
qed

lemma be_value_be32: "be_value (store_be32 v) = unat v"
proof -
  have "be_value (store_be32 v) = unat v mod 256 ^ length (store_be32 v)"
    using unat_byte_of [of 0 v]
    by (intro be_value_digits) (auto simp: store_be32_def unat_byte_of less_Suc_eq)
  then show ?thesis by (simp add: store_be32_def)
qed

lemma be_value_be64: "be_value (store_be64 v) = unat v"
proof -
  have "be_value (store_be64 v) = unat v mod 256 ^ length (store_be64 v)"
    using unat_byte_of [of 0 v]
    by (intro be_value_digits) (auto simp: store_be64_def unat_byte_of less_Suc_eq)
  then show ?thesis by (simp add: store_be64_def)
qed

section \<open>Properties\<close>

text \<open>C18. An idle parser with a registered handler, fed any mix of valid command frames separated
  by arbitrary noise that contains no frame head, calls the handler exactly once per frame, in
  order, with the frame's bytes, and is idle again afterwards.\<close>

theorem proto_delivers_frames:
  assumes "proto_idle p" and "pr_handler_cb p"
    and "\<forall>(noise, f)\<in>set xs. FRAME_HEAD \<notin> set noise \<and> frame_ok f"
  shows "delivered_frames (fst (proto_feed p (line_bytes xs))) = map snd xs \<and>
         proto_idle (snd (proto_feed p (line_bytes xs)))"
  using assms by (rule proto_feed_stream)

definition demo_frame :: "u8 \<Rightarrow> u8 list" where
  "demo_frame flag = [0x55, 0xCC, 0x21, flag] @ replicate 11 0 @ [0xAA]"

theorem proto_delivers_frames_witness:
  "delivered_frames (fst (proto_feed (proto_start\<lparr>pr_handler_cb := True\<rparr>)
     (line_bytes [([1, 2], demo_frame 0x11), ([], demo_frame 0xFF)]))) =
   [demo_frame 0x11, demo_frame 0xFF]"
proof -
  have "frame_ok (demo_frame 0x11)" "frame_ok (demo_frame 0xFF)" by code_simp+
  then show ?thesis
    using proto_delivers_frames [of "proto_start\<lparr>pr_handler_cb := True\<rparr>"
        "[([1, 2], demo_frame 0x11), ([], demo_frame 0xFF)]"]
    by (simp add: proto_idle_def proto_start_def)
qed

text \<open>C34. Whatever bytes arrive and whichever callbacks are registered, the parser never writes or reads outside its
  128-byte buffer, the look at the announced last byte included, and from any state it can be in it is idle again
  after at most 65 further bytes: a corrupted frame cannot stall the line.\<close>

theorem proto_resynchronises:
  assumes "65 \<le> length later"
  shows "let (es, p) = proto_feed (proto_start\<lparr>pr_send_cb := send, pr_handler_cb := handler\<rparr>) bs in
     (\<forall>i. BadAccess i \<notin> set es) \<and> (\<exists>k\<le>65. proto_idle (snd (proto_feed p (take k later))))"
proof -
  let ?s = "proto_start\<lparr>pr_send_cb := send, pr_handler_cb := handler\<rparr>"
  let ?p = "snd (proto_feed ?s bs)"
  have start: "proto_inv ?s" using proto_start_inv by (simp add: proto_inv_def)
  then have inv: "proto_inv ?p" by (rule proto_feed_inv)
  have "proto_remaining ?p \<le> 65" using inv by (auto simp: proto_inv_def proto_remaining_def)
  then obtain k where "k \<le> 65" "proto_idle (snd (proto_feed ?p (take k later)))"
    using proto_resync [OF inv, of later] assms by (meson order_trans)
  then show ?thesis using proto_feed_access [OF start] by (auto simp: split_beta)
qed

theorem proto_resynchronises_witness:
  "BadAccess (- 1) \<notin> set (fst (proto_feed (proto_start\<lparr>pr_send_cb := True, pr_handler_cb := False\<rparr>) [0x55, 0xCC, 0x99, 7])) \<and>
   (\<exists>k\<le>65. proto_idle (snd (proto_feed (snd (proto_feed (proto_start\<lparr>pr_send_cb := True, pr_handler_cb := False\<rparr>) [0x55, 0xCC, 0x99, 7]))
      (take k (replicate 65 7)))))"
  using proto_resynchronises [where later = "replicate 65 7" and bs = "[0x55, 0xCC, 0x99, 7]" and send = True and handler = False]
  by (simp only: split_beta Let_def length_replicate order_refl) blast

text \<open>C35. A file-list reply is 41 bytes with the fields where the upper computer expects them:
  the 64-bit size and start sector and the 32-bit sector count read back, most significant
  byte first, as the values that were sent, and the task id occupies bytes 4 to 14.\<close>

theorem file_list_reply_layout:
  "\<exists>bytes. proto_send_file_list (p\<lparr>pr_send_cb := True\<rparr>) tid res cnt ix ft fsize lba sectors flag cal =
       [BytesSent bytes] \<and>
     length bytes = 41 \<and> take 4 bytes = [FRAME_HEAD, DEVICE_ID, CMD_FILE_LIST, res] \<and>
     take 11 (drop 4 bytes) = ack_task_id tid \<and>
     take 3 (drop 15 bytes) = [cnt, ix, ft] \<and>
     be_value (take 8 (drop 18 bytes)) = unat fsize \<and>
     be_value (take 8 (drop 26 bytes)) = unat lba \<and>
     be_value (take 4 (drop 34 bytes)) = unat sectors \<and>
     drop 38 bytes = [flag, cal, FRAME_TAIL]"
proof -
  have t: "length (ack_task_id tid) = 11"
    by (cases tid) (simp_all add: ack_task_id_def Let_def)
  have b: "length (store_be64 x) = 8" "length (store_be32 y) = 4" for x y
    by (simp_all add: store_be64_def store_be32_def)
  show ?thesis
    by (simp add: proto_send_file_list_def proto_emit_def ack_file_list_bytes_def t b
        be_value_be64 be_value_be32)
qed

end
