(* ===== verification/C_Library.thy ===== *)
theory C_Library
  imports Ccb_Prelude
begin

text \<open>
  The functions of the C library that the modelled sources use on text: \<^verbatim>\<open>strtoul\<close> and
  \<^verbatim>\<open>strtoull\<close>, \<^verbatim>\<open>strncmp\<close> on a prefix, \<^verbatim>\<open>strstr\<close> and \<^verbatim>\<open>getenv\<close>. The process environment is a
  function from names to optional values. The largest value of \<^verbatim>\<open>unsigned long\<close> depends on the
  target and is an argument.
\<close>

type_synonym environment = "string \<Rightarrow> string option"

definition c_isspace :: "char \<Rightarrow> bool" where
  "c_isspace c \<longleftrightarrow> of_char c = (32 :: nat) \<or> (9 \<le> (of_char c :: nat) \<and> of_char c \<le> (13 :: nat))"

definition c_digit :: "char \<Rightarrow> int option" where
  "c_digit c =
     (let n = of_char c :: int
      in if 48 \<le> n \<and> n \<le> 57 then Some (n - 48)
         else if 97 \<le> n \<and> n \<le> 122 then Some (n - 87)
         else if 65 \<le> n \<and> n \<le> 90 then Some (n - 55)
         else None)"

definition c_base_digit :: "int \<Rightarrow> char \<Rightarrow> bool" where
  "c_base_digit base c \<longleftrightarrow> (case c_digit c of None \<Rightarrow> False | Some d \<Rightarrow> d < base)"

definition c_digits_value :: "int \<Rightarrow> string \<Rightarrow> int" where
  "c_digits_value base s = foldl (\<lambda>a c. base * a + (case c_digit c of None \<Rightarrow> 0 | Some d \<Rightarrow> d)) 0 s"

text \<open>
  \<^verbatim>\<open>strtoul(s, &end, base)\<close>: the value, the text from \<^verbatim>\<open>end\<close> on, whether anything was converted
  (\<^verbatim>\<open>end != s\<close>), and whether \<^verbatim>\<open>errno\<close> is set to \<^verbatim>\<open>ERANGE\<close>. Base 0 takes the base from the prefix.
  A minus sign negates modulo the range of the type.
\<close>

record strtoul_result =
  su_value :: int
  su_end :: string
  su_converted :: bool
  su_range_error :: bool

definition c_prefix_base :: "int \<Rightarrow> string \<Rightarrow> int \<times> string" where
  "c_prefix_base base s =
     (let hex = (case s of c0 # c1 # c2 # _ \<Rightarrow>
                   c0 = CHR ''0'' \<and> (c1 = CHR ''x'' \<or> c1 = CHR ''X'') \<and> c_base_digit 16 c2
                 | _ \<Rightarrow> False)
      in if (base = 0 \<or> base = 16) \<and> hex then (16, drop 2 s)
         else if base = 0 then (if s \<noteq> [] \<and> hd s = CHR ''0'' then 8 else 10, s)
         else (base, s))"

definition c_ulong_value :: "int \<Rightarrow> bool \<Rightarrow> int \<Rightarrow> int" where
  "c_ulong_value ulong_max neg v =
     (if ulong_max < v then ulong_max else if neg \<and> v \<noteq> 0 then ulong_max + 1 - v else v)"

definition strtoul :: "int \<Rightarrow> int \<Rightarrow> string \<Rightarrow> strtoul_result" where
  "strtoul ulong_max base s =
     (let s1 = dropWhile c_isspace s;
          neg = (s1 \<noteq> [] \<and> hd s1 = CHR ''-'');
          s2 = (if s1 \<noteq> [] \<and> (hd s1 = CHR ''-'' \<or> hd s1 = CHR ''+'') then tl s1 else s1);
          (b, s3) = c_prefix_base base s2;
          ds = takeWhile (c_base_digit b) s3;
          v = c_digits_value b ds
      in if ds = [] then \<lparr>su_value = 0, su_end = s, su_converted = False, su_range_error = False\<rparr>
         else \<lparr>su_value = c_ulong_value ulong_max neg v,
               su_end = dropWhile (c_base_digit b) s3,
               su_converted = True,
               su_range_error = ulong_max < v\<rparr>)"

lemma c_digit_nonneg: "c_digit c = Some d \<Longrightarrow> 0 \<le> d"
  by (auto simp: c_digit_def Let_def split: if_splits)

lemma c_digits_value_nonneg: "0 \<le> base \<Longrightarrow> 0 \<le> c_digits_value base s"
proof (induction s rule: rev_induct)
  case (snoc c s)
  have "0 \<le> (case c_digit c of None \<Rightarrow> 0 | Some d \<Rightarrow> d)"
    using c_digit_nonneg by (auto split: option.splits)
  with snoc show ?case by (simp add: c_digits_value_def)
qed (simp add: c_digits_value_def)

lemma c_ulong_value_range:
  assumes "0 \<le> m" and "0 \<le> v"
  shows "0 \<le> c_ulong_value m neg v \<and> c_ulong_value m neg v \<le> m"
  using assms by (auto simp: c_ulong_value_def)

lemma c_prefix_base_nonneg: "0 \<le> base \<Longrightarrow> 0 \<le> fst (c_prefix_base base s)"
  by (simp add: c_prefix_base_def Let_def)

lemma strtoul_range:
  assumes "0 \<le> m" and "0 \<le> base"
  shows "0 \<le> su_value (strtoul m base s) \<and> su_value (strtoul m base s) \<le> m"
  using assms
  by (simp add: strtoul_def Let_def split_beta c_ulong_value_range c_digits_value_nonneg c_prefix_base_nonneg)

definition c_starts_with :: "string \<Rightarrow> string \<Rightarrow> bool" where
  "c_starts_with p s \<longleftrightarrow> take (length p) s = p"

fun c_strstr :: "string \<Rightarrow> string \<Rightarrow> bool" where
  "c_strstr [] needle = (needle = [])"
| "c_strstr (c # cs) needle = (c_starts_with needle (c # cs) \<or> c_strstr cs needle)"

lemma c_strstr_iff: "c_strstr s p \<longleftrightarrow> (\<exists>a b. s = a @ p @ b)"
proof (induction s)
  case (Cons c cs)
  have "c_starts_with p (c # cs) \<longleftrightarrow> (\<exists>b. c # cs = p @ b)"
    by (metis append_take_drop_id append_eq_conv_conj c_starts_with_def)
  then show ?case using Cons.IH
    by (auto simp: append_eq_Cons_conv Cons_eq_append_conv)
qed simp

text \<open>\<^verbatim>\<open>%u\<close> and \<^verbatim>\<open>%d\<close>.\<close>

function decimal :: "nat \<Rightarrow> string" where
  "decimal n = (if n < 10 then [char_of (48 + n)] else decimal (n div 10) @ [char_of (48 + n mod 10)])"
  by auto
termination by (relation "measure id") auto

declare decimal.simps [simp del]

definition decimal_int :: "int \<Rightarrow> string" where
  "decimal_int i = (if i < 0 then ''-'' @ decimal (nat (- i)) else decimal (nat i))"

end
