(* ===== verification/Metadata.thy ===== *)
theory Metadata
  imports C_Library
begin

text \<open>
  The per-channel file table of \<^verbatim>\<open>ccb_metadata.c\<close>: allocation of a table slot and of the next
  data LBA, the overlap check for explicit LBA ranges, lookup and numbering of files, and the
  file the table is stored in. The file system is a map from paths to the whole records a
  \<^verbatim>\<open>fread\<close> of \<^verbatim>\<open>sizeof(FileEntry)\<close> elements returns; whether directory creation, reading and
  writing succeed are parameters. \<^verbatim>\<open>print_entry\<close> and the log lines are not modelled.
\<close>

section \<open>State\<close>

abbreviation MAX_FILES_TOTAL :: nat where "MAX_FILES_TOTAL \<equiv> 128"
abbreviation DATA_START_LBA :: u64 where "DATA_START_LBA \<equiv> 1000"

record FileEntry =
  fe_task_no :: string
  fe_file_cnt :: u8
  fe_file_type :: u8
  fe_file_index :: u16
  fe_file_size_bytes :: u32
  fe_start_lba :: u64
  fe_sector_count :: u32
  fe_valid :: u8

definition file_entry_zero :: FileEntry where
  "file_entry_zero =
     \<lparr>fe_task_no = replicate 11 (CHR 0x00), fe_file_cnt = 0, fe_file_type = 0, fe_file_index = 0,
      fe_file_size_bytes = 0, fe_start_lba = 0, fe_sector_count = 0, fe_valid = 0\<rparr>"

section \<open>Allocation and overlap\<close>

text \<open>The loop of \<^verbatim>\<open>metadata_alloc_slot_and_lba\<close> from index \<open>i\<close> on; \<^verbatim>\<open>slot < 0\<close> is \<open>None\<close>.\<close>

fun alloc_loop ::
  "nat \<Rightarrow> nat option \<Rightarrow> u64 \<Rightarrow> u32 \<Rightarrow> FileEntry list \<Rightarrow> nat option \<times> u64 \<times> u32" where
  "alloc_loop i slot next_lba valid_count [] = (slot, next_lba, valid_count)"
| "alloc_loop i slot next_lba valid_count (e # es) =
     (if fe_valid e = 1 then
        let end_lba = fe_start_lba e + ucast (fe_sector_count e)
        in alloc_loop (i + 1) slot (if next_lba < end_lba then end_lba else next_lba) (valid_count + 1) es
      else alloc_loop (i + 1) (if slot = None then Some i else slot) next_lba valid_count es)"

definition metadata_alloc_slot_and_lba :: "FileEntry list \<Rightarrow> (nat \<times> u64 \<times> u32) option" where
  "metadata_alloc_slot_and_lba table =
     (case alloc_loop 0 None DATA_START_LBA 0 table of
        (None, _, _) \<Rightarrow> None
      | (Some slot, next_lba, valid_count) \<Rightarrow> Some (slot, next_lba, valid_count))"

definition range_overlaps :: "u64 \<Rightarrow> u64 \<Rightarrow> u64 \<Rightarrow> u64 \<Rightarrow> bool" where
  "range_overlaps start_a sectors_a start_b sectors_b \<longleftrightarrow>
     (let end_a = start_a + sectors_a; end_b = start_b + sectors_b
      in start_a < end_b \<and> start_b < end_a)"

fun overlap_loop :: "u64 \<Rightarrow> u64 \<Rightarrow> FileEntry list \<Rightarrow> int" where
  "overlap_loop start_lba sectors [] = 0"
| "overlap_loop start_lba sectors (e # es) =
     (if fe_valid e \<noteq> 1 then overlap_loop start_lba sectors es
      else if UINT64_MAX - fe_start_lba e < ucast (fe_sector_count e) then -1
      else if range_overlaps start_lba sectors (fe_start_lba e) (ucast (fe_sector_count e)) then -1
      else overlap_loop start_lba sectors es)"

definition metadata_check_lba_overlap :: "FileEntry list \<Rightarrow> u64 \<Rightarrow> u64 \<Rightarrow> int" where
  "metadata_check_lba_overlap table start_lba sectors =
     (if UINT64_MAX - start_lba < sectors then -1 else overlap_loop start_lba sectors table)"

section \<open>Lookup and numbering\<close>

text \<open>The 11 stored characters need not be terminated; the copy is.\<close>

definition task_string :: "FileEntry \<Rightarrow> string" where
  "task_string e = takeWhile (\<lambda>c. c \<noteq> CHR 0x00) (take 11 (fe_task_no e))"

definition task_matches :: "FileEntry \<Rightarrow> string \<Rightarrow> bool" where
  "task_matches e task_no \<longleftrightarrow> task_string e = task_no"

fun find_loop :: "nat \<Rightarrow> string \<Rightarrow> u32 \<Rightarrow> FileEntry list \<Rightarrow> (nat \<times> FileEntry) option" where
  "find_loop i task_no file_index [] = None"
| "find_loop i task_no file_index (e # es) =
     (if fe_valid e \<noteq> 1 then find_loop (i + 1) task_no file_index es
      else if ucast (fe_file_index e) \<noteq> file_index then find_loop (i + 1) task_no file_index es
      else if \<not> task_matches e task_no then find_loop (i + 1) task_no file_index es
      else Some (i, e))"

definition metadata_find_by_task :: "FileEntry list \<Rightarrow> string \<Rightarrow> u32 \<Rightarrow> (nat \<times> FileEntry) option" where
  "metadata_find_by_task table task_no file_index = find_loop 0 task_no file_index table"

fun max_index_loop :: "string \<Rightarrow> bool \<Rightarrow> u32 \<Rightarrow> FileEntry list \<Rightarrow> bool \<times> u32" where
  "max_index_loop task_no task_exists max_index [] = (task_exists, max_index)"
| "max_index_loop task_no task_exists max_index (e # es) =
     (if fe_valid e \<noteq> 1 \<or> \<not> task_matches e task_no
      then max_index_loop task_no task_exists max_index es
      else max_index_loop task_no True
             (if max_index < ucast (fe_file_index e) then ucast (fe_file_index e) else max_index) es)"

definition metadata_resolve_file_index :: "FileEntry list \<Rightarrow> string option \<Rightarrow> u32 \<Rightarrow> u32 option" where
  "metadata_resolve_file_index table task_no requested_index =
     (case task_no of
        None \<Rightarrow> None
      | Some t \<Rightarrow>
          if 0xFFFF < requested_index then None
          else case max_index_loop t False 0 table of
                 (task_exists, max_index) \<Rightarrow>
                   if \<not> task_exists \<or> max_index < requested_index then Some requested_index
                   else if 0xFFFF \<le> max_index then None
                   else Some (max_index + 1))"

section \<open>Storage\<close>

definition metadata_dir :: "string option \<Rightarrow> string" where
  "metadata_dir env =
     (case env of Some s \<Rightarrow> if s \<noteq> '''' then s else ''/run/ccb_nvme_process_test''
                | None \<Rightarrow> ''/run/ccb_nvme_process_test'')"

definition build_metadata_path :: "string \<Rightarrow> nat \<Rightarrow> nat \<Rightarrow> string option" where
  "build_metadata_path dir ch path_size =
     (let path = dir @ ''/'' @ ''meta_ch'' @ decimal ch @ ''.bin''
      in if length path < path_size then Some path else None)"

type_synonym meta_fs = "string \<rightharpoonup> FileEntry list"

text \<open>
  A file that cannot be opened, missing or not, is an empty table; a short file is padded with zero entries. The
  arguments \<open>mkdir_ok\<close>, \<open>open_ok\<close> and \<open>read_ok\<close> are the results of \<^verbatim>\<open>mkdir_one\<close>, \<^verbatim>\<open>fopen\<close> on an existing file and
  \<^verbatim>\<open>ferror\<close>.
\<close>

definition metadata_read :: "bool \<Rightarrow> bool \<Rightarrow> bool \<Rightarrow> string option \<Rightarrow> meta_fs \<Rightarrow> nat \<Rightarrow> FileEntry list option" where
  "metadata_read mkdir_ok open_ok read_ok env fs ch =
     (if \<not> mkdir_ok then None
      else case build_metadata_path (metadata_dir env) ch 512 of
             None \<Rightarrow> None
           | Some path \<Rightarrow>
               (case (if open_ok then fs path else None) of
                  None \<Rightarrow> Some (replicate MAX_FILES_TOTAL file_entry_zero)
                | Some es \<Rightarrow>
                    if \<not> read_ok then None
                    else let table = take MAX_FILES_TOTAL es
                         in Some (table @ replicate (MAX_FILES_TOTAL - length table) file_entry_zero)))"

text \<open>
  \<open>written\<close> is the number of entries \<^verbatim>\<open>fwrite\<close> accepts. The stream is buffered: \<open>stored\<close> is the number of entries
  that have reached the file once \<^verbatim>\<open>fclose\<close>, whose result the code ignores, has flushed it.
\<close>

definition metadata_write ::
  "bool \<Rightarrow> bool \<Rightarrow> nat \<Rightarrow> nat \<Rightarrow> string option \<Rightarrow> meta_fs \<Rightarrow> nat \<Rightarrow> FileEntry list \<Rightarrow> int \<times> meta_fs" where
  "metadata_write mkdir_ok open_ok written stored env fs ch table =
     (if \<not> mkdir_ok then (-1, fs)
      else case build_metadata_path (metadata_dir env) ch 512 of
             None \<Rightarrow> (-1, fs)
           | Some path \<Rightarrow>
               if \<not> open_ok then (-1, fs)
               else let n = min written MAX_FILES_TOTAL
                    in (if n = MAX_FILES_TOTAL then 0 else -1, fs(path \<mapsto> take (min stored n) table)))"

section \<open>Facts\<close>

text \<open>A range of sectors that does not wrap, and the sectors it covers.\<close>

definition range_fits :: "u64 \<Rightarrow> nat \<Rightarrow> bool" where
  "range_fits start n \<longleftrightarrow> unat start + n < 18446744073709551616"

definition sectors_of :: "FileEntry \<Rightarrow> nat set" where
  "sectors_of e = {unat (fe_start_lba e) ..< unat (fe_start_lba e) + unat (fe_sector_count e)}"

definition entry_fits :: "FileEntry \<Rightarrow> bool" where
  "entry_fits e \<longleftrightarrow> range_fits (fe_start_lba e) (unat (fe_sector_count e))"

lemma range_guard: "UINT64_MAX - s < n \<longleftrightarrow> \<not> range_fits s (unat n)"
proof -
  have "unat (UINT64_MAX - s) = 18446744073709551615 - unat s" by (simp add: unat_sub)
  then show ?thesis using unat_u64_less [of s] unfolding word_less_nat_alt range_fits_def by arith
qed

lemma range_end: "range_fits s (unat n) \<Longrightarrow> unat (s + n) = unat s + unat n"
  by (intro unat_add_le) (simp add: range_fits_def)

lemma entry_end:
  "entry_fits e \<Longrightarrow>
     unat (fe_start_lba e + ucast (fe_sector_count e)) = unat (fe_start_lba e) + unat (fe_sector_count e)"
  using range_end [of "fe_start_lba e" "ucast (fe_sector_count e)"] by (simp add: entry_fits_def)

definition ranges_cross :: "nat \<Rightarrow> nat \<Rightarrow> FileEntry \<Rightarrow> bool" where
  "ranges_cross start n e \<longleftrightarrow>
     start < unat (fe_start_lba e) + unat (fe_sector_count e) \<and> unat (fe_start_lba e) < start + n"

lemma ranges_cross_disjoint: "\<not> ranges_cross start n e \<Longrightarrow> {start ..< start + n} \<inter> sectors_of e = {}"
  by (auto simp: ranges_cross_def sectors_of_def)

lemma range_overlaps_iff:
  assumes "range_fits s (unat n)" and "entry_fits e"
  shows "range_overlaps s n (fe_start_lba e) (ucast (fe_sector_count e)) \<longleftrightarrow>
    ranges_cross (unat s) (unat n) e"
  using range_end [OF assms(1)] entry_end [OF assms(2)]
  by (simp add: range_overlaps_def ranges_cross_def Let_def word_less_nat_alt)

lemma overlap_loop_iff:
  assumes "range_fits s (unat n)"
  shows "overlap_loop s n es = 0 \<longleftrightarrow>
    (\<forall>e\<in>set es. fe_valid e = 1 \<longrightarrow> entry_fits e \<and> \<not> ranges_cross (unat s) (unat n) e)"
  by (induction es) (auto simp: range_guard range_overlaps_iff [OF assms] entry_fits_def [symmetric])

lemma check_overlap_iff:
  "metadata_check_lba_overlap table s n = 0 \<longleftrightarrow>
     range_fits s (unat n) \<and>
     (\<forall>e\<in>set table. fe_valid e = 1 \<longrightarrow> entry_fits e \<and> \<not> ranges_cross (unat s) (unat n) e)"
  by (auto simp: metadata_check_lba_overlap_def range_guard overlap_loop_iff)

lemma alloc_loop_lba:
  assumes "alloc_loop i slot n c es = (slot', n', c')"
  shows "n \<le> n' \<and> (\<forall>e\<in>set es. fe_valid e = 1 \<longrightarrow> fe_start_lba e + ucast (fe_sector_count e) \<le> n')"
  using assms
proof (induction es arbitrary: i slot n c)
  case (Cons e es)
  show ?case
  proof (cases "fe_valid e = 1")
    case True
    let ?stop = "fe_start_lba e + ucast (fe_sector_count e)"
    let ?n = "if n < ?stop then ?stop else n"
    have "?n \<le> n' \<and> (\<forall>e\<in>set es. fe_valid e = 1 \<longrightarrow> fe_start_lba e + ucast (fe_sector_count e) \<le> n')"
      using Cons.prems True by (intro Cons.IH [of "i + 1" slot ?n "c + 1"]) (simp add: Let_def)
    moreover have "n \<le> ?n" "?stop \<le> ?n" by (auto simp: not_less)
    ultimately show ?thesis by (auto intro: order_trans)
  next
    case False
    with Cons.prems Cons.IH [of "i + 1" "if slot = None then Some i else slot" n c] show ?thesis by auto
  qed
qed simp

lemma alloc_loop_slot_kept: "fst (alloc_loop i (Some k) n c es) = Some k"
  by (induction es arbitrary: i n c) (simp_all add: Let_def)

lemma alloc_loop_slot:
  "fst (alloc_loop i None n c es) =
     (if list_all (\<lambda>e. fe_valid e = 1) es then None
      else Some (i + length (takeWhile (\<lambda>e. fe_valid e = 1) es)))"
  by (induction es arbitrary: i n c) (auto simp: Let_def alloc_loop_slot_kept)

lemma alloc_loop_count:
  "snd (snd (alloc_loop i slot n c es)) = c + of_nat (length (filter (\<lambda>e. fe_valid e = 1) es))"
  by (induction es arbitrary: i slot n c) (simp_all add: Let_def add_ac)

lemma alloc_Some:
  assumes "metadata_alloc_slot_and_lba table = Some (slot, lba, count)"
  shows "slot = length (takeWhile (\<lambda>e. fe_valid e = 1) table)" "slot < length table"
    "fe_valid (table ! slot) \<noteq> 1" "DATA_START_LBA \<le> lba"
    "\<forall>e\<in>set table. fe_valid e = 1 \<longrightarrow> fe_start_lba e + ucast (fe_sector_count e) \<le> lba"
    "count = of_nat (length (filter (\<lambda>e. fe_valid e = 1) table))"
proof -
  have r: "alloc_loop 0 None DATA_START_LBA 0 table = (Some slot, lba, count)"
    using assms by (auto simp: metadata_alloc_slot_and_lba_def split: prod.splits option.splits)
  then show slot: "slot = length (takeWhile (\<lambda>e. fe_valid e = 1) table)"
    using alloc_loop_slot [of 0 DATA_START_LBA 0 table] by (auto split: if_splits)
  have "\<not> list_all (\<lambda>e. fe_valid e = 1) table"
    using r alloc_loop_slot [of 0 DATA_START_LBA 0 table] by (auto split: if_splits)
  then have "takeWhile (\<lambda>e. fe_valid e = 1) table \<noteq> table"
    by (simp add: takeWhile_eq_all_conv list_all_iff)
  then show l: "slot < length table"
    using slot length_takeWhile_le [of "\<lambda>e. fe_valid e = 1" table]
    by (metis takeWhile_eq_take take_all le_neq_implies_less order_refl)
  show "fe_valid (table ! slot) \<noteq> 1"
    using nth_length_takeWhile [of "\<lambda>e. fe_valid e = 1" table] l slot by simp
  show "DATA_START_LBA \<le> lba"
    "\<forall>e\<in>set table. fe_valid e = 1 \<longrightarrow> fe_start_lba e + ucast (fe_sector_count e) \<le> lba"
    using alloc_loop_lba [OF r] by simp_all
  show "count = of_nat (length (filter (\<lambda>e. fe_valid e = 1) table))"
    using alloc_loop_count [of 0 None DATA_START_LBA 0 table] r by simp
qed

lemma max_index_loop_bound:
  assumes "max_index_loop t ex m es = (ex', m')"
  shows "(ex \<longrightarrow> ex') \<and> m \<le> m' \<and>
    (\<forall>e\<in>set es. fe_valid e = 1 \<and> task_matches e t \<longrightarrow> ex' \<and> ucast (fe_file_index e) \<le> m')"
  using assms
proof (induction es arbitrary: ex m)
  case (Cons e es)
  show ?case
  proof (cases "fe_valid e \<noteq> 1 \<or> \<not> task_matches e t")
    case True
    with Cons.prems Cons.IH [of ex m] show ?thesis by auto
  next
    case False
    let ?x = "ucast (fe_file_index e) :: u32"
    have "(True \<longrightarrow> ex') \<and> (if m < ?x then ?x else m) \<le> m' \<and>
      (\<forall>e\<in>set es. fe_valid e = 1 \<and> task_matches e t \<longrightarrow> ex' \<and> ucast (fe_file_index e) \<le> m')"
      using Cons.prems False by (intro Cons.IH) simp
    then show ?thesis by (auto split: if_splits simp: not_less intro: order_trans)
  qed
qed simp

lemma find_loop_None:
  "find_loop i t x es = None \<longleftrightarrow>
     (\<forall>e\<in>set es. \<not> (fe_valid e = 1 \<and> ucast (fe_file_index e) = x \<and> task_matches e t))"
  by (induction es arbitrary: i) auto

lemma find_loop_Some:
  "find_loop i t x es = Some (k, e) \<Longrightarrow>
     i \<le> k \<and> k < i + length es \<and> es ! (k - i) = e \<and>
     fe_valid e = 1 \<and> ucast (fe_file_index e) = x \<and> task_matches e t"
proof (induction es arbitrary: i)
  case (Cons a es)
  show ?case
  proof (cases "fe_valid a = 1 \<and> ucast (fe_file_index a) = x \<and> task_matches a t")
    case True
    with Cons.prems show ?thesis by auto
  next
    case False
    with Cons.prems have "find_loop (i + 1) t x es = Some (k, e)" by (auto split: if_splits)
    from Cons.IH [OF this] show ?thesis by (auto simp: nth_Cons' )
  qed
qed simp

text \<open>Different channels have different files.\<close>

definition decimal_value :: "string \<Rightarrow> nat" where
  "decimal_value s = foldl (\<lambda>a c. 10 * a + (of_char c - 48)) 0 s"

lemma decimal_value_decimal: "decimal_value (decimal n) = n"
proof (induction n rule: less_induct)
  case (less n)
  have digit: "of_char (char_of (48 + d) :: char) - 48 = d" if "d < 10" for d :: nat
    using that by simp
  show ?case
  proof (cases "n < 10")
    case True
    then show ?thesis using digit [of n] by (subst decimal.simps) (simp add: decimal_value_def)
  next
    case False
    then have "decimal_value (decimal (n div 10)) = n div 10" by (intro less.IH) simp
    then show ?thesis using False digit [of "n mod 10"]
      by (subst decimal.simps) (simp add: decimal_value_def)
  qed
qed

lemma decimal_inject [simp]: "decimal m = decimal n \<longleftrightarrow> m = n"
  by (metis decimal_value_decimal)

lemma metadata_path_inject:
  assumes "build_metadata_path d m k = Some path" and "build_metadata_path d n k = Some path"
  shows "m = n"
  using assms by (auto simp: build_metadata_path_def Let_def split: if_splits)

section \<open>Properties\<close>

text \<open>C25. The overlap check accepts a range exactly when the range does not wrap and no valid entry
  wraps or crosses it; an accepted range shares no sector with any valid entry.\<close>

theorem overlap_check_exact:
  "(metadata_check_lba_overlap table s n = 0 \<longleftrightarrow>
     range_fits s (unat n) \<and>
     (\<forall>e\<in>set table. fe_valid e = 1 \<longrightarrow> entry_fits e \<and> \<not> ranges_cross (unat s) (unat n) e)) \<and>
   (metadata_check_lba_overlap table s n = 0 \<longrightarrow>
     (\<forall>e\<in>set table. fe_valid e = 1 \<longrightarrow> {unat s ..< unat s + unat n} \<inter> sectors_of e = {}))"
  using check_overlap_iff [of table s n] ranges_cross_disjoint by blast

definition demo_entry :: "u64 \<Rightarrow> u32 \<Rightarrow> FileEntry" where
  "demo_entry start sectors =
     file_entry_zero\<lparr>fe_task_no := ''T1'' @ replicate 9 (CHR 0x00), fe_file_index := 3,
       fe_start_lba := start, fe_sector_count := sectors, fe_valid := 1\<rparr>"

theorem overlap_check_exact_witness:
  "metadata_check_lba_overlap [demo_entry 1000 8] 1008 16 = 0 \<and>
   {unat (1008 :: u64) ..< unat (1008 :: u64) + unat (16 :: u64)} \<inter> sectors_of (demo_entry 1000 8) = {}"
proof -
  have "metadata_check_lba_overlap [demo_entry 1000 8] 1008 16 = 0" by code_simp
  moreover have "fe_valid (demo_entry 1000 8) = 1" by code_simp
  ultimately show ?thesis using overlap_check_exact [of "[demo_entry 1000 8]" 1008 16] by simp
qed

text \<open>C24. Allocation succeeds exactly when the table has a free slot. It returns the first free
  slot, the number of valid entries, and a start address in the data area; when no valid entry
  wraps, a file of any length that fits at that address passes the overlap check.\<close>

theorem alloc_is_free:
  "(metadata_alloc_slot_and_lba table = None \<longleftrightarrow> (\<forall>e\<in>set table. fe_valid e = 1)) \<and>
   (\<forall>slot lba count. metadata_alloc_slot_and_lba table = Some (slot, lba, count) \<longrightarrow>
      slot < length table \<and> fe_valid (table ! slot) \<noteq> 1 \<and> (\<forall>i < slot. fe_valid (table ! i) = 1) \<and>
      count = of_nat (length (filter (\<lambda>e. fe_valid e = 1) table)) \<and> DATA_START_LBA \<le> lba \<and>
      ((\<forall>e\<in>set table. fe_valid e = 1 \<longrightarrow> entry_fits e) \<longrightarrow>
        (\<forall>n. range_fits lba (unat n) \<longrightarrow> metadata_check_lba_overlap table lba n = 0)))"
proof (intro conjI allI impI)
  show "metadata_alloc_slot_and_lba table = None \<longleftrightarrow> (\<forall>e\<in>set table. fe_valid e = 1)"
    using alloc_loop_slot [of 0 DATA_START_LBA 0 table]
    by (auto simp: metadata_alloc_slot_and_lba_def list_all_iff split: prod.splits option.splits if_splits)
next
  fix slot lba count
  assume r: "metadata_alloc_slot_and_lba table = Some (slot, lba, count)"
  note a = alloc_Some [OF r]
  show "slot < length table" "fe_valid (table ! slot) \<noteq> 1" "DATA_START_LBA \<le> lba"
    "count = of_nat (length (filter (\<lambda>e. fe_valid e = 1) table))" by (fact a)+
  show "fe_valid (table ! i) = 1" if "i < slot" for i
    using that a(1) nth_mem [of i "takeWhile (\<lambda>e. fe_valid e = 1) table"]
    by (auto simp: takeWhile_nth dest: set_takeWhileD)
  show "metadata_check_lba_overlap table lba n = 0"
    if "\<forall>e\<in>set table. fe_valid e = 1 \<longrightarrow> entry_fits e" "range_fits lba (unat n)" for n
    using that a(5) entry_end
    by (fastforce simp: check_overlap_iff ranges_cross_def word_le_nat_alt)
qed

theorem alloc_is_free_witness:
  "metadata_alloc_slot_and_lba [demo_entry 1000 8, demo_entry 5000 7, file_entry_zero] = Some (2, 5007, 2) \<and>
   metadata_check_lba_overlap [demo_entry 1000 8, demo_entry 5000 7, file_entry_zero] 5007 4096 = 0"
proof -
  let ?t = "[demo_entry 1000 8, demo_entry 5000 7, file_entry_zero]"
  have a: "metadata_alloc_slot_and_lba ?t = Some (2, 5007, 2)" by code_simp
  have "\<forall>e\<in>set ?t. fe_valid e = 1 \<longrightarrow> entry_fits e"
    by (simp add: demo_entry_def file_entry_zero_def entry_fits_def range_fits_def)
  moreover have "range_fits 5007 (unat (4096 :: u64))" by (simp add: range_fits_def)
  ultimately show ?thesis using alloc_is_free [of ?t] a by blast
qed

text \<open>A file number handed out for a task fits the 16-bit field and is not in use for that
  task: looking it up finds nothing, and every file the task already has is numbered lower
  whenever the requested number was taken.\<close>

lemma resolved_index_fresh:
  assumes "metadata_resolve_file_index table (Some t) req = Some ix"
  shows "ix \<le> 0xFFFF \<and> req \<le> ix \<and> metadata_find_by_task table t ix = None \<and>
     (\<forall>e\<in>set table. fe_valid e = 1 \<and> task_matches e t \<longrightarrow> ucast (fe_file_index e) < ix)"
proof -
  obtain ex m where l: "max_index_loop t False 0 table = (ex, m)" by (cases "max_index_loop t False 0 table")
  have b: "\<forall>e\<in>set table. fe_valid e = 1 \<and> task_matches e t \<longrightarrow> ex \<and> ucast (fe_file_index e) \<le> m"
    using max_index_loop_bound [OF l] by simp
  have c: "req \<le> 0xFFFF" "ix = (if \<not> ex \<or> m < req then req else m + 1)" "ex \<Longrightarrow> m < req \<or> m < 0xFFFF"
    using assms l by (auto simp: metadata_resolve_file_index_def not_less not_le split: if_splits)
  have step: "m < 0xFFFF \<Longrightarrow> m < m + 1 \<and> m + 1 \<le> 0xFFFF"
    using unat_inc [of m "0xFFFF"] by (simp add: word_less_nat_alt word_le_nat_alt)
  have lt: "\<forall>e\<in>set table. fe_valid e = 1 \<and> task_matches e t \<longrightarrow> ucast (fe_file_index e) < ix"
    using b c step by (auto intro: order_le_less_trans)
  moreover have "metadata_find_by_task table t ix = None"
    using lt by (auto simp: metadata_find_by_task_def find_loop_None)
  moreover have "ix \<le> 0xFFFF" "req \<le> ix"
    using c step by (auto simp: not_less split: if_splits intro: order_trans less_imp_le)
  ultimately show ?thesis by blast
qed

text \<open>C38. After a write that returned 0 the table is read back as the entries the closing of the stream has brought
  to the file, in their places, followed by empty ones. So it is read back unchanged when the whole table was
  flushed, and since the result of closing is ignored a failed flush is reported as success and read as a table
  with the last entries missing. Writing one channel's table leaves every other channel's table as it was.\<close>

theorem metadata_write_read:
  assumes "metadata_write mk op written stored env fs ch table = (0, fs')" and "length table = MAX_FILES_TOTAL"
  shows "metadata_read True True True env fs' ch =
       Some (take stored table @ replicate (MAX_FILES_TOTAL - stored) file_entry_zero) \<and>
     (MAX_FILES_TOTAL \<le> stored \<longrightarrow> metadata_read True True True env fs' ch = Some table) \<and>
     (\<forall>ch'. ch' \<noteq> ch \<longrightarrow> metadata_read mk' op' rd env fs' ch' = metadata_read mk' op' rd env fs ch')"
proof -
  obtain path where p: "build_metadata_path (metadata_dir env) ch 512 = Some path"
    and w: "min written MAX_FILES_TOTAL = MAX_FILES_TOTAL" "fs' = fs(path \<mapsto> take (min stored (min written MAX_FILES_TOTAL)) table)"
    using assms(1) by (auto simp: metadata_write_def Let_def split: if_splits option.splits)
  have f: "fs' = fs(path \<mapsto> take stored table)" unfolding w(2) w(1) using assms(2) by (simp add: min_def)
  have r: "metadata_read True True True env fs' ch = Some (take stored table @ replicate (MAX_FILES_TOTAL - stored) file_entry_zero)"
    using p assms(2) by (simp add: metadata_read_def f min_def)
  moreover have "metadata_read mk' op' rd env fs' ch' = metadata_read mk' op' rd env fs ch'" if "ch' \<noteq> ch" for ch'
    using that w(2) metadata_path_inject [OF p]
    by (auto simp: metadata_read_def split: option.splits)
  moreover have "take stored table @ replicate (MAX_FILES_TOTAL - stored) file_entry_zero = table" if "MAX_FILES_TOTAL \<le> stored"
    using that assms(2) by simp
  ultimately show ?thesis by auto
qed

theorem metadata_write_read_witness:
  "\<exists>fs' fs''. metadata_write True True 128 128 None Map.empty 1 (replicate 128 (demo_entry 1000 8)) = (0, fs') \<and>
     metadata_read True True True None fs' 1 = Some (replicate 128 (demo_entry 1000 8)) \<and>
     metadata_write True True 128 0 None Map.empty 1 (replicate 128 (demo_entry 1000 8)) = (0, fs'') \<and>
     metadata_read True True True None fs'' 1 = Some (replicate 128 file_entry_zero)"
proof -
  let ?w = "\<lambda>stored. metadata_write True True 128 stored None Map.empty 1 (replicate 128 (demo_entry 1000 8))"
  have "length (decimal 1) = 1" by (subst decimal.simps) simp
  then have w: "?w stored = (0, snd (?w stored))" for stored
    by (simp add: metadata_write_def metadata_dir_def build_metadata_path_def Let_def)
  have r: "metadata_read True True True None (snd (?w stored)) 1 =
      Some (take stored (replicate 128 (demo_entry 1000 8)) @ replicate (MAX_FILES_TOTAL - stored) file_entry_zero)" for stored
    using metadata_write_read [OF w [of stored]] by simp
  show ?thesis using w [of 128] w [of 0] r [of 128] r [of 0] by (intro exI [of _ "snd (?w 128)"] exI [of _ "snd (?w 0)"]) simp
qed

end
