(* ===== verification/Storage_Config.thy ===== *)
theory Storage_Config
  imports C_Library
begin

text \<open>
  The configuration snapshot of \<^verbatim>\<open>storage_config.c\<close>: the environment variables it reads, the
  values it accepts and the channel profiles. The environment is an argument. Deprecation
  warnings and their list of names already warned about only produce log lines and are not
  modelled. A failed load returns the error text.
\<close>

section \<open>State\<close>

datatype CcbLogLevel = CCB_LOG_ERROR | CCB_LOG_INFO | CCB_LOG_PERF | CCB_LOG_DEBUG

datatype StorageProfile = STORAGE_PROFILE_SAFE_QD1 | STORAGE_PROFILE_PERF_QD8

datatype StorageWriterMode = STORAGE_WRITER_LEGACY | STORAGE_WRITER_CROSS_SLOT

record ChannelStorageConfig =
  cs_channel :: u32
  cs_writer_mode :: StorageWriterMode
  cs_ring_bytes :: u64
  cs_descriptor_bytes :: u32
  cs_command_bytes :: u32
  cs_nvme_qd :: u32
  cs_max_active_slots :: u32
  cs_cq_batch :: u32
  cs_writer_realtime :: bool
  cs_writer_priority :: u32
  cs_producer_realtime :: bool
  cs_producer_priority :: u32

record AppConfig =
  ac_uart_device :: string
  ac_log_level :: CcbLogLevel
  ac_perf_enabled :: bool
  ac_perf_interval_ms :: u32
  ac_status_timeout_ms :: u32
  ac_first_data_timeout_ms :: u32
  ac_storage_profile :: StorageProfile
  ac_legacy_compat_mode :: bool
  ac_dump_diag_on_error :: bool
  ac_auto_input_complete :: bool
  ac_idle_scan_interval_ms :: u32
  ac_idle_required_ms :: u32
  ac_idle_required_scans :: u32
  ac_drain_stable_scans :: u32
  ac_drain_stable_us :: u32
  ac_channels :: "ChannelStorageConfig list"

abbreviation NUM_CHANNELS :: u32 where "NUM_CHANNELS \<equiv> 3"
abbreviation LOW_SPEED_CHANNEL_ID :: u32 where "LOW_SPEED_CHANNEL_ID \<equiv> 2"
abbreviation CHANNEL0_DDR_BYTES :: u64 where "CHANNEL0_DDR_BYTES \<equiv> 1 * 1024 * 1024 * 1024"
abbreviation CHANNEL2_DDR_BYTES :: u64 where "CHANNEL2_DDR_BYTES \<equiv> 512 * 1024 * 1024"
abbreviation MIB :: u32 where "MIB \<equiv> 1024 * 1024"

section \<open>Reading the environment\<close>

definition env_set :: "string option \<Rightarrow> bool" where
  "env_set value \<longleftrightarrow> (case value of None \<Rightarrow> False | Some s \<Rightarrow> s \<noteq> [])"

definition text_is_false :: "string option \<Rightarrow> bool" where
  "text_is_false value \<longleftrightarrow>
     (case value of
        None \<Rightarrow> True
      | Some s \<Rightarrow> s = [] \<or> s = ''0'' \<or> s = ''false'' \<or> s = ''FALSE'' \<or> s = ''off'' \<or> s = ''OFF'' \<or>
                  s = ''no'' \<or> s = ''NO'')"

definition storage_config_legacy_compat_enabled :: "environment \<Rightarrow> bool" where
  "storage_config_legacy_compat_enabled env \<longleftrightarrow> \<not> text_is_false (env ''CCB_STORAGE_COMPAT_MODE'')"

definition is_profile_override_name :: "string \<Rightarrow> bool" where
  "is_profile_override_name name \<longleftrightarrow>
     c_starts_with ''SRC_REAL_'' name \<and>
     (c_strstr name ''NVME_CMD_KIB'' \<or> c_strstr name ''NVME_QD'' \<or> c_strstr name ''CROSS_SLOT_QD'' \<or>
      c_strstr name ''MAX_ACTIVE'' \<or> c_strstr name ''CROSS_SLOT_BATCH'' \<or>
      c_strstr name ''TARGET_QD'' \<or> c_strstr name ''CQ_BATCH'' \<or>
      c_strstr name ''CROSS_SLOT_ENABLED'' \<or> c_strstr name ''CROSS_SLOT_CH'' \<or>
      name = ''SRC_REAL_CROSS_SLOT'' \<or> c_strstr name ''WRITER_RT_POLICY'' \<or>
      c_strstr name ''PRODUCER_RT_POLICY'' \<or> c_strstr name ''WRITER_RT_PRIO'' \<or>
      c_strstr name ''PRODUCER_RT_PRIO'' \<or> c_strstr name ''STORAGE_RING_BYTES'' \<or>
      c_strstr name ''STORAGE_DMA_DESC_BYTES'')"

definition storage_config_compat_getenv :: "environment \<Rightarrow> string option \<Rightarrow> string option" where
  "storage_config_compat_getenv env name =
     (case name of
        None \<Rightarrow> None
      | Some n \<Rightarrow>
          if env_set (env n) \<and> is_profile_override_name n \<and>
             \<not> storage_config_legacy_compat_enabled env then None
          else env n)"

definition read_primary_or_legacy :: "environment \<Rightarrow> string \<Rightarrow> string option \<Rightarrow> string option" where
  "read_primary_or_legacy env primary legacy =
     (if env_set (env primary) then env primary
      else case legacy of None \<Rightarrow> None | Some n \<Rightarrow> env n)"

text \<open>
  \<^verbatim>\<open>parse_u32\<close> leaves the default in place when the text is absent or empty; \<open>current\<close> is the
  value of the output variable before the call.
\<close>

definition parse_u32 ::
  "int \<Rightarrow> string \<Rightarrow> string option \<Rightarrow> u32 \<Rightarrow> u32 \<Rightarrow> u32 \<Rightarrow> string + u32" where
  "parse_u32 ulong_max name value minimum maximum current =
     (case value of
        None \<Rightarrow> Inr current
      | Some s \<Rightarrow>
          if s = [] then Inr current
          else let r = strtoul ulong_max 10 s
               in if su_range_error r \<or> \<not> su_converted r \<or> su_end r \<noteq> [] \<or>
                     su_value r < uint minimum \<or> uint maximum < su_value r
                  then Inl (snprintf_s 160 (''invalid '' @ name @ ''='' @ s))
                  else Inr (of_int (su_value r)))"

definition parse_legacy_us :: "int \<Rightarrow> string \<Rightarrow> string option \<Rightarrow> u32 \<Rightarrow> string + u32" where
  "parse_legacy_us ulong_max name value current =
     (if \<not> env_set value then Inr current
      else case parse_u32 ulong_max name value 1000 UINT32_MAX current of
             Inl e \<Rightarrow> Inl e
           | Inr microseconds \<Rightarrow> Inr (microseconds div 1000))"

definition parse_log_level :: "string option \<Rightarrow> CcbLogLevel option" where
  "parse_log_level value =
     (case value of
        None \<Rightarrow> Some CCB_LOG_INFO
      | Some s \<Rightarrow>
          if s = [] \<or> s = ''info'' \<or> s = ''summary'' then Some CCB_LOG_INFO
          else if s = ''error'' \<or> s = ''critical'' \<or> s = ''quiet'' then Some CCB_LOG_ERROR
          else if s = ''perf'' then Some CCB_LOG_PERF
          else if s = ''debug'' \<or> s = ''trace'' then Some CCB_LOG_DEBUG
          else None)"

definition parse_profile :: "string option \<Rightarrow> StorageProfile option" where
  "parse_profile value =
     (case value of
        None \<Rightarrow> Some STORAGE_PROFILE_PERF_QD8
      | Some s \<Rightarrow>
          if s = [] \<or> s = ''PERF_QD8'' \<or> s = ''perf_qd8'' \<or> s = ''perf'' then Some STORAGE_PROFILE_PERF_QD8
          else if s = ''SAFE_QD1'' \<or> s = ''safe_qd1'' \<or> s = ''safe'' then Some STORAGE_PROFILE_SAFE_QD1
          else None)"

section \<open>Profiles and loading\<close>

definition channel_profile :: "bool \<Rightarrow> u32 \<Rightarrow> ChannelStorageConfig" where
  "channel_profile safe channel =
     \<lparr>cs_channel = channel,
      cs_writer_mode = (if channel = LOW_SPEED_CHANNEL_ID then STORAGE_WRITER_LEGACY
                        else STORAGE_WRITER_CROSS_SLOT),
      cs_ring_bytes = (if channel = LOW_SPEED_CHANNEL_ID then CHANNEL2_DDR_BYTES else CHANNEL0_DDR_BYTES),
      cs_descriptor_bytes = (if channel = LOW_SPEED_CHANNEL_ID then 16 * MIB else 8 * MIB),
      cs_command_bytes = 256 * 1024,
      cs_nvme_qd = (if safe then 1 else 8),
      cs_max_active_slots = (if safe then 1 else if channel = LOW_SPEED_CHANNEL_ID then 1 else 4),
      cs_cq_batch = (if safe then 1 else 8),
      cs_writer_realtime = False, cs_writer_priority = 0, cs_producer_realtime = False,
      cs_producer_priority = 0\<rparr>"

definition set_channel_profile :: "AppConfig \<Rightarrow> AppConfig" where
  "set_channel_profile config =
     config\<lparr>ac_channels := map (channel_profile (ac_storage_profile config = STORAGE_PROFILE_SAFE_QD1)) [0, 1, 2]\<rparr>"

text \<open>The three numeric settings: a primary variable with its range, else a legacy one.\<close>

definition load_status_timeout :: "int \<Rightarrow> environment \<Rightarrow> string + u32" where
  "load_status_timeout ulong_max env =
     (if env_set (env ''CCB_STATUS_TIMEOUT_MS'')
      then parse_u32 ulong_max ''CCB_STATUS_TIMEOUT_MS'' (env ''CCB_STATUS_TIMEOUT_MS'') 1 60000 100
      else parse_legacy_us ulong_max ''SRC_REAL_STATUS_TIMEOUT_US'' (env ''SRC_REAL_STATUS_TIMEOUT_US'') 100)"

definition load_first_data_timeout :: "int \<Rightarrow> environment \<Rightarrow> string + u32" where
  "load_first_data_timeout ulong_max env =
     (if env_set (env ''CCB_FIRST_DATA_TIMEOUT_MS'')
      then parse_u32 ulong_max ''CCB_FIRST_DATA_TIMEOUT_MS'' (env ''CCB_FIRST_DATA_TIMEOUT_MS'') 1 3600000 5000
      else parse_legacy_us ulong_max ''SRC_REAL_FIRST_DMA_TIMEOUT_US'' (env ''SRC_REAL_FIRST_DMA_TIMEOUT_US'') 5000)"

definition load_perf_interval :: "int \<Rightarrow> environment \<Rightarrow> string + u32" where
  "load_perf_interval ulong_max env =
     (if env_set (env ''CCB_PERF_INTERVAL_MS'')
      then parse_u32 ulong_max ''CCB_PERF_INTERVAL_MS'' (env ''CCB_PERF_INTERVAL_MS'') 100 60000 1000
      else if env_set (env ''SRC_REAL_PERF_LOG_INTERVAL_SEC'')
      then case parse_u32 ulong_max ''SRC_REAL_PERF_LOG_INTERVAL_SEC''
                  (env ''SRC_REAL_PERF_LOG_INTERVAL_SEC'') 1 60 0 of
             Inl e \<Rightarrow> Inl e
           | Inr seconds \<Rightarrow> Inr (seconds * 1000)
      else Inr 1000)"

definition storage_config_load :: "int \<Rightarrow> environment \<Rightarrow> string + AppConfig" where
  "storage_config_load ulong_max env =
     (let uart = snprintf_s 256 (if env_set (env ''UART_DEV_PATH'') then the (env ''UART_DEV_PATH'')
                                 else ''/dev/ttyUL1'');
          level = read_primary_or_legacy env ''CCB_LOG_LEVEL'' (Some ''SRC_REAL_LOG_LEVEL'')
      in case parse_log_level level of
           None \<Rightarrow> Inl (snprintf_s 160 (''invalid CCB_LOG_LEVEL='' @ the level))
         | Some log_level \<Rightarrow>
      (case parse_profile (env ''CCB_STORAGE_PROFILE'') of
           None \<Rightarrow> Inl (snprintf_s 160 (''invalid CCB_STORAGE_PROFILE='' @ the (env ''CCB_STORAGE_PROFILE'')))
         | Some profile \<Rightarrow>
      (case load_status_timeout ulong_max env of Inl e \<Rightarrow> Inl e | Inr status_ms \<Rightarrow>
      (case load_first_data_timeout ulong_max env of Inl e \<Rightarrow> Inl e | Inr first_ms \<Rightarrow>
      (case load_perf_interval ulong_max env of Inl e \<Rightarrow> Inl e | Inr perf_ms \<Rightarrow>
         Inr (set_channel_profile
           \<lparr>ac_uart_device = uart, ac_log_level = log_level,
            ac_perf_enabled = (\<not> text_is_false (read_primary_or_legacy env ''CCB_PERF_ENABLE''
                                                (Some ''SRC_REAL_PERF_LOG_ENABLE''))),
            ac_perf_interval_ms = perf_ms, ac_status_timeout_ms = status_ms,
            ac_first_data_timeout_ms = first_ms, ac_storage_profile = profile,
            ac_legacy_compat_mode = storage_config_legacy_compat_enabled env,
            ac_dump_diag_on_error = (\<not> text_is_false (read_primary_or_legacy env
                ''CCB_DUMP_DIAG_ON_ERROR'' (Some ''SRC_REAL_DUMP_EVENT_RING_ON_ERROR''))),
            ac_auto_input_complete = True, ac_idle_scan_interval_ms = 100,
            ac_idle_required_ms = 500, ac_idle_required_scans = 5, ac_drain_stable_scans = 3,
            ac_drain_stable_us = 100, ac_channels = []\<rparr>))))))"

text \<open>The global snapshot is loaded once; \<open>None\<close> is \<^verbatim>\<open>g_config_loaded == false\<close>.\<close>

definition storage_config_load_global ::
  "int \<Rightarrow> environment \<Rightarrow> AppConfig option \<Rightarrow> int \<times> AppConfig option" where
  "storage_config_load_global ulong_max env g =
     (case g of
        Some _ \<Rightarrow> (0, g)
      | None \<Rightarrow> (case storage_config_load ulong_max env of Inl _ \<Rightarrow> (-1, None) | Inr c \<Rightarrow> (0, Some c)))"

definition storage_config_get ::
  "int \<Rightarrow> environment \<Rightarrow> AppConfig option \<Rightarrow> AppConfig option \<times> AppConfig option" where
  "storage_config_get ulong_max env g =
     (case storage_config_load_global ulong_max env g of (rc, g') \<Rightarrow> (if rc = 0 then g' else None, g'))"

definition storage_config_channel :: "AppConfig option \<Rightarrow> u32 \<Rightarrow> ChannelStorageConfig option" where
  "storage_config_channel config channel =
     (case config of
        None \<Rightarrow> None
      | Some c \<Rightarrow> if channel < NUM_CHANNELS then Some (ac_channels c ! unat channel) else None)"

definition storage_config_profile_name :: "StorageProfile \<Rightarrow> string" where
  "storage_config_profile_name profile =
     (if profile = STORAGE_PROFILE_SAFE_QD1 then ''SAFE_QD1'' else ''PERF_QD8'')"

primrec storage_config_log_level_name :: "CcbLogLevel \<Rightarrow> string" where
  "storage_config_log_level_name CCB_LOG_ERROR = ''ERROR''"
| "storage_config_log_level_name CCB_LOG_INFO = ''INFO''"
| "storage_config_log_level_name CCB_LOG_PERF = ''PERF''"
| "storage_config_log_level_name CCB_LOG_DEBUG = ''DEBUG''"

section \<open>Facts\<close>

lemma parse_u32_range:
  assumes "parse_u32 m name tx lo hi cur = Inr x" and "lo \<le> cur" and "cur \<le> hi"
  shows "lo \<le> x \<and> x \<le> hi"
proof (cases "\<exists>s. tx = Some s \<and> s \<noteq> []")
  case True
  then obtain s where v: "tx = Some s" "s \<noteq> []" by blast
  let ?v = "su_value (strtoul m 10 s)"
  have x: "x = of_int ?v" "uint lo \<le> ?v" "?v \<le> uint hi"
    using assms(1) v by (auto simp: parse_u32_def Let_def split: if_splits)
  have "0 \<le> ?v" "?v < 2 ^ LENGTH(32)"
    using x(2,3) uint_ge_0 [of lo] uint_lt2p [of hi] by linarith+
  then have "uint x = ?v" using x(1) by (simp add: uint_word_of_int_eq take_bit_int_eq_self)
  then show ?thesis using x by (simp add: word_le_def)
next
  case False
  then have "x = cur" using assms(1) by (auto simp: parse_u32_def split: option.splits if_splits)
  then show ?thesis using assms by simp
qed

lemma parse_legacy_us_range:
  assumes "parse_legacy_us m name tx cur = Inr x" and "1 \<le> cur" and "cur \<le> 4294967"
  shows "1 \<le> x \<and> x \<le> 4294967"
proof (cases "env_set tx")
  case False
  then show ?thesis using assms by (simp add: parse_legacy_us_def)
next
  case True
  then obtain us where us: "parse_u32 m name tx 1000 UINT32_MAX cur = Inr us" "x = us div 1000"
    using assms(1) by (auto simp: parse_legacy_us_def split: sum.splits)
  have v: "tx \<noteq> None" "tx \<noteq> Some []" using True by (auto simp: env_set_def split: option.splits)
  have "1000 \<le> us"
  proof -
    have "parse_u32 m name tx 1000 UINT32_MAX 1000 = Inr us"
      using us(1) v by (auto simp: parse_u32_def split: option.splits)
    then show ?thesis using parse_u32_range [of m name tx 1000 UINT32_MAX 1000 us] by simp
  qed
  then have "1000 \<le> unat us" by (simp add: word_le_nat_alt)
  moreover have "unat us < 4294967296" by simp
  ultimately have "1 \<le> unat us div 1000" "unat us div 1000 \<le> 4294967" by arith+
  then show ?thesis using us(2) by (simp add: word_le_nat_alt unat_div_distrib)
qed

lemma load_perf_interval_range:
  assumes "load_perf_interval m env = Inr x"
  shows "100 \<le> x \<and> x \<le> 60000"
proof -
  consider (primary) "parse_u32 m ''CCB_PERF_INTERVAL_MS'' (env ''CCB_PERF_INTERVAL_MS'') 100 60000 1000 = Inr x"
    | (legacy) s where "env_set (env ''SRC_REAL_PERF_LOG_INTERVAL_SEC'')" "x = s * 1000"
        "parse_u32 m ''SRC_REAL_PERF_LOG_INTERVAL_SEC'' (env ''SRC_REAL_PERF_LOG_INTERVAL_SEC'') 1 60 0 = Inr s"
    | (default) "x = 1000"
    using assms unfolding load_perf_interval_def
    by (cases "env_set (env ''CCB_PERF_INTERVAL_MS'')"; cases "env_set (env ''SRC_REAL_PERF_LOG_INTERVAL_SEC'')")
      (auto split: sum.splits)
  then show ?thesis
  proof cases
    case primary
    from parse_u32_range [OF this] show ?thesis by simp
  next
    case legacy
    have "env ''SRC_REAL_PERF_LOG_INTERVAL_SEC'' \<noteq> None" "env ''SRC_REAL_PERF_LOG_INTERVAL_SEC'' \<noteq> Some []"
      using legacy(1) by (auto simp: env_set_def split: option.splits)
    then have "parse_u32 m ''SRC_REAL_PERF_LOG_INTERVAL_SEC'' (env ''SRC_REAL_PERF_LOG_INTERVAL_SEC'') 1 60 1 = Inr s"
      using legacy(3) by (auto simp: parse_u32_def split: option.splits)
    from parse_u32_range [OF this] have b: "1 \<le> unat s" "unat s \<le> 60" by (simp_all add: word_le_nat_alt)
    then have "unat (s * 1000) = unat s * 1000" by (simp add: unat_word_ariths)
    then show ?thesis using b legacy(2) by (simp add: word_le_nat_alt)
  qed simp
qed

text \<open>
  \<^verbatim>\<open>strtoul\<close> accepts a minus sign and negates modulo its range, and the legacy microsecond
  settings have no upper bound below \<^verbatim>\<open>UINT32_MAX\<close>, so a negative text can be taken as a large
  timeout: \<^verbatim>\<open>-1\<close> on a 32-bit target, a longer text on a 64-bit one.
\<close>

lemma legacy_us_accepts_negative:
  "parse_legacy_us 4294967295 ''SRC_REAL_STATUS_TIMEOUT_US'' (Some ''-1'') 100 = Inr 4294967"
  "parse_legacy_us 18446744073709551615 ''SRC_REAL_STATUS_TIMEOUT_US'' (Some ''-18446744073709549616'') 100
     = Inr 2"
  by code_simp+

section \<open>Properties\<close>

text \<open>C39. Whatever the environment, a configuration that loads has every setting in a usable range:
  the device path is non-empty and fits its buffer, the two timeouts are between one millisecond
  and the largest legacy value, the performance interval is between 100 ms and a minute, and
  each of the three channels has a ring that is a whole number of descriptors and a queue depth
  that its profile names.\<close>

theorem config_load_ranges:
  assumes "storage_config_load ulong_max env = Inr c"
  shows "ac_uart_device c \<noteq> [] \<and> length (ac_uart_device c) \<le> 255 \<and>
     1 \<le> ac_status_timeout_ms c \<and> ac_status_timeout_ms c \<le> 4294967 \<and>
     1 \<le> ac_first_data_timeout_ms c \<and> ac_first_data_timeout_ms c \<le> 4294967 \<and>
     100 \<le> ac_perf_interval_ms c \<and> ac_perf_interval_ms c \<le> 60000 \<and>
     length (ac_channels c) = 3 \<and>
     (\<forall>ch. ch < NUM_CHANNELS \<longrightarrow>
        (\<exists>s. storage_config_channel (Some c) ch = Some s \<and> cs_channel s = ch \<and>
           cs_ring_bytes s mod ucast (cs_descriptor_bytes s) = 0 \<and> cs_ring_bytes s \<noteq> 0 \<and>
           cs_nvme_qd s = (if ac_storage_profile c = STORAGE_PROFILE_SAFE_QD1 then 1 else 8)))"
proof -
  obtain ll pr st fd pf where
    p: "load_status_timeout ulong_max env = Inr st" "load_first_data_timeout ulong_max env = Inr fd"
       "load_perf_interval ulong_max env = Inr pf"
    and c: "ac_uart_device c = snprintf_s 256 (if env_set (env ''UART_DEV_PATH'')
              then the (env ''UART_DEV_PATH'') else ''/dev/ttyUL1'')"
       "ac_status_timeout_ms c = st" "ac_first_data_timeout_ms c = fd" "ac_perf_interval_ms c = pf"
       "ac_channels c = map (channel_profile (ac_storage_profile c = STORAGE_PROFILE_SAFE_QD1)) [0, 1, 2]"
    using assms
    by (auto simp: storage_config_load_def Let_def set_channel_profile_def split: option.splits sum.splits)
  have "1 \<le> st \<and> st \<le> 4294967"
  proof (cases "env_set (env ''CCB_STATUS_TIMEOUT_MS'')")
    case True
    then have "1 \<le> st \<and> st \<le> 60000"
      using p(1) parse_u32_range [of ulong_max "''CCB_STATUS_TIMEOUT_MS''" "env ''CCB_STATUS_TIMEOUT_MS''" 1 60000 100 st]
      by (simp add: load_status_timeout_def)
    then show ?thesis by (auto intro: order_trans)
  next
    case False
    then show ?thesis
      using p(1) parse_legacy_us_range [of ulong_max "''SRC_REAL_STATUS_TIMEOUT_US''" "env ''SRC_REAL_STATUS_TIMEOUT_US''" 100 st]
      by (simp add: load_status_timeout_def)
  qed
  moreover have "1 \<le> fd \<and> fd \<le> 4294967"
  proof (cases "env_set (env ''CCB_FIRST_DATA_TIMEOUT_MS'')")
    case True
    then have "1 \<le> fd \<and> fd \<le> 3600000"
      using p(2) parse_u32_range [of ulong_max "''CCB_FIRST_DATA_TIMEOUT_MS''" "env ''CCB_FIRST_DATA_TIMEOUT_MS''" 1 3600000 5000 fd]
      by (simp add: load_first_data_timeout_def)
    then show ?thesis by (auto intro: order_trans)
  next
    case False
    then show ?thesis
      using p(2) parse_legacy_us_range [of ulong_max "''SRC_REAL_FIRST_DMA_TIMEOUT_US''" "env ''SRC_REAL_FIRST_DMA_TIMEOUT_US''" 5000 fd]
      by (simp add: load_first_data_timeout_def)
  qed
  moreover have "ac_uart_device c \<noteq> [] \<and> length (ac_uart_device c) \<le> 255"
    unfolding c(1) by (auto simp: snprintf_s_def env_set_def split: option.splits)
  moreover have "\<exists>s. storage_config_channel (Some c) ch = Some s \<and> cs_channel s = ch \<and>
           cs_ring_bytes s mod ucast (cs_descriptor_bytes s) = 0 \<and> cs_ring_bytes s \<noteq> 0 \<and>
           cs_nvme_qd s = (if ac_storage_profile c = STORAGE_PROFILE_SAFE_QD1 then 1 else 8)"
    if "ch < NUM_CHANNELS" for ch
  proof -
    have "unat ch < 3" using that by (simp add: word_less_nat_alt)
    then have "unat ch = 0 \<or> unat ch = 1 \<or> unat ch = 2" by arith
    then have "unat ch = unat (0 :: u32) \<or> unat ch = unat (1 :: u32) \<or> unat ch = unat (2 :: u32)" by simp
    then have "ch = 0 \<or> ch = 1 \<or> ch = 2" by (simp only: unat_eq_iff)
    then show ?thesis by (auto simp: storage_config_channel_def c(5) channel_profile_def)
  qed
  ultimately show ?thesis using c load_perf_interval_range [OF p(3)] by simp
qed

theorem config_load_ranges_witness:
  "\<exists>c. storage_config_load 4294967295 (\<lambda>n. if n = ''CCB_STATUS_TIMEOUT_MS'' then Some ''250'' else None) = Inr c \<and>
     ac_status_timeout_ms c = 250 \<and> 1 \<le> ac_status_timeout_ms c"
proof -
  let ?r = "storage_config_load 4294967295 (\<lambda>n. if n = ''CCB_STATUS_TIMEOUT_MS'' then Some ''250'' else None)"
  have "\<not> isl ?r" "ac_status_timeout_ms (projr ?r) = 250" by code_simp+
  then obtain c where "?r = Inr c" "ac_status_timeout_ms c = 250" by (cases ?r) auto
  then show ?thesis using config_load_ranges by blast
qed

text \<open>Without the compatibility mode, no legacy variable that would override a profile has any
  effect: reading it through the compatibility entry point yields nothing, or an empty text.\<close>

lemma profile_overrides_blocked:
  assumes "\<not> storage_config_legacy_compat_enabled env" and "is_profile_override_name name"
  shows "\<not> env_set (storage_config_compat_getenv env (Some name))"
  using assms by (simp add: storage_config_compat_getenv_def env_set_def)

end
