(* ===== verification/Storage_Ipc.thy ===== *)
theory Storage_Ipc
  imports Storage_Error Storage_Config
begin

text \<open>
  The messages between the parent process and the storage workers, \<^verbatim>\<open>ccb_storage_ipc.c\<close>:
  deadlines and timeout budgets, construction and validation of control messages and worker
  events, and the read and write loops over non-blocking pipes.

  A system call is an element of a script: the loops consume one element per call and return
  \<open>None\<close> when the script ends while they would still be running. \<^verbatim>\<open>errno\<close> is a value of the result.
  The sizes the compiler gives the structures, and the reading of a control message out of its
  bytes (\<^verbatim>\<open>memcpy\<close>), depend on the target and are arguments.
\<close>

section \<open>Messages\<close>

abbreviation STORAGE_IPC_MAGIC :: u32 where "STORAGE_IPC_MAGIC \<equiv> 0x53544732"
abbreviation STORAGE_IPC_VERSION :: u16 where "STORAGE_IPC_VERSION \<equiv> 8"

abbreviation STORAGE_CTRL_ARM :: u32 where "STORAGE_CTRL_ARM \<equiv> 1"
abbreviation STORAGE_CTRL_AUTO_DRAIN :: u32 where "STORAGE_CTRL_AUTO_DRAIN \<equiv> 4"

abbreviation STORAGE_WORKER_READY :: u32 where "STORAGE_WORKER_READY \<equiv> 1"
abbreviation STORAGE_WORKER_ARMED :: u32 where "STORAGE_WORKER_ARMED \<equiv> 2"
abbreviation STORAGE_WORKER_RUNNING :: u32 where "STORAGE_WORKER_RUNNING \<equiv> 3"
abbreviation STORAGE_WORKER_FATAL :: u32 where "STORAGE_WORKER_FATAL \<equiv> 4"
abbreviation STORAGE_WORKER_DRAIN_READY :: u32 where "STORAGE_WORKER_DRAIN_READY \<equiv> 5"
abbreviation STORAGE_WORKER_FINAL_RESULT :: u32 where "STORAGE_WORKER_FINAL_RESULT \<equiv> 6"
abbreviation STORAGE_WORKER_PERF_SAMPLE :: u32 where "STORAGE_WORKER_PERF_SAMPLE \<equiv> 7"
abbreviation STORAGE_WORKER_DIAG_EVENT :: u32 where "STORAGE_WORKER_DIAG_EVENT \<equiv> 8"
abbreviation STORAGE_WORKER_STOP_PHASE :: u32 where "STORAGE_WORKER_STOP_PHASE \<equiv> 9"
abbreviation STORAGE_WORKER_INPUT_IDLE_CANDIDATE :: u32 where "STORAGE_WORKER_INPUT_IDLE_CANDIDATE \<equiv> 10"
abbreviation STORAGE_WORKER_INPUT_ACTIVE :: u32 where "STORAGE_WORKER_INPUT_ACTIVE \<equiv> 11"

abbreviation STORAGE_WORKER_STOP_REQUESTED :: u32 where "STORAGE_WORKER_STOP_REQUESTED \<equiv> 1"
abbreviation STORAGE_WORKER_DMA_QUIESCED :: u32 where "STORAGE_WORKER_DMA_QUIESCED \<equiv> 3"
abbreviation STORAGE_WORKER_FAILED_FATAL :: u32 where "STORAGE_WORKER_FAILED_FATAL \<equiv> 7"

record StorageControlMessage =
  cm_magic :: u32
  cm_version :: u16
  cm_size :: u16
  cm_type :: u32
  cm_flags :: u32
  cm_timestamp_us :: u64
  cm_stop_epoch :: u64

record StorageControlReader =
  cr_bytes :: "u8 list"
  cr_used :: nat

datatype StorageParentStopTimeoutSource =
    STORAGE_PARENT_STOP_TIMEOUT_EXPLICIT_US
  | STORAGE_PARENT_STOP_TIMEOUT_EXPLICIT_MS
  | STORAGE_PARENT_STOP_TIMEOUT_CALCULATED

record StorageParentStopTimeoutConfig =
  pt_parent_timeout_us :: u64
  pt_dma_quiesce_us :: u64
  pt_stop_harvest_us :: u64
  pt_writer_drain_us :: u64
  pt_nvme_abort_us :: u64
  pt_stage_total_us :: u64
  pt_margin_us :: u64
  pt_source :: StorageParentStopTimeoutSource

record WorkerReadyPayload =
  wr_received_bytes :: u64
  wr_reason :: string

record WorkerPhasePayload =
  wp_error_code :: StorageErrorCode
  wp_stop_phase :: u32
  wp_received_bytes :: u64
  wp_stop_epoch :: u64
  wp_reason :: string

record WorkerFatalPayload =
  wf_error_code :: StorageErrorCode
  wf_received_bytes :: u64
  wf_reason :: string

record WorkerDrainReadyPayload =
  wd_task_id :: string
  wd_drain_epoch :: u64
  wd_dma_observed_bytes :: u64
  wd_dma_harvested_payload_bytes :: u64
  wd_queued_payload_bytes :: u64
  wd_nvme_completed_payload_bytes :: u64
  wd_tail_unqueued_bytes :: u64
  wd_submit_count :: u64
  wd_completion_count :: u64
  wd_integrity_ok :: u32
  wd_primary_error :: StorageErrorCode
  wd_secondary_error :: StorageErrorCode
  wd_reason :: string

text \<open>
  The result of one write. Of its fields the model keeps those that the supervisor, the commit
  and the message layer read; the others are timestamps and counters for reports.
\<close>

record WriteResult =
  wres_channel_id :: int
  wres_metadata_slot :: u32
  wres_start_lba :: u64
  wres_sector_count :: u64
  wres_size_bytes :: u64
  wres_file_index :: u32
  wres_data_persisted :: bool
  wres_receive_integrity_ok :: bool
  wres_storage_integrity_ok :: bool
  wres_integrity_ok :: bool
  wres_dma_received_bytes :: u64
  wres_nvme_completed_bytes :: u64
  wres_file_bytes :: u64
  wres_primary_error :: StorageErrorCode
  wres_secondary_error :: StorageErrorCode
  wres_integrity_risk :: string
  wres_secondary_reason :: string
  wres_task_no :: string

record WorkerFinalPayload =
  wn_error_code :: StorageErrorCode
  wn_received_bytes :: u64
  wn_reason :: string
  wn_result :: WriteResult

text \<open>
  The payload union: each field is what reading that member yields. The members
  \<^verbatim>\<open>perf\<close> and \<^verbatim>\<open>diag\<close> are only passed through and are not kept.
\<close>

record StorageWorkerEvent =
  ev_magic :: u32
  ev_version :: u16
  ev_size :: u16
  ev_type :: u32
  ev_channel :: u32
  ev_payload_size :: u32
  ev_timestamp_us :: u64
  ev_ready :: WorkerReadyPayload
  ev_phase :: WorkerPhasePayload
  ev_fatal :: WorkerFatalPayload
  ev_drain_ready :: WorkerDrainReadyPayload
  ev_final :: WorkerFinalPayload

text \<open>What \<^verbatim>\<open>sizeof\<close> yields for the structures on the target.\<close>

record ipc_sizes =
  sz_control :: u16
  sz_event :: u16
  sz_ready :: u32
  sz_drain_ready :: u32
  sz_fatal :: u32
  sz_final :: u32
  sz_perf :: u32
  sz_diag :: u32
  sz_phase :: u32

section \<open>Deadlines and timeouts\<close>

definition INT_MAX :: int where "INT_MAX = 2147483647"

datatype errno = EINVAL | ETIMEDOUT | EIO | EPROTO | EINTR | EAGAIN | EOTHER

definition storage_ipc_deadline_remaining_ms :: "u64 \<Rightarrow> u64 \<Rightarrow> errno + int" where
  "storage_ipc_deadline_remaining_ms deadline_us now_us =
     (if deadline_us \<le> now_us then Inl ETIMEDOUT
      else let remaining_us = deadline_us - now_us;
               remaining_ms = remaining_us div 1000;
               remaining_ms = (if remaining_us mod 1000 \<noteq> 0 then remaining_ms + 1 else remaining_ms)
           in Inr (if INT_MAX < uint remaining_ms then INT_MAX else uint remaining_ms))"

definition storage_ipc_saturating_add_u64 :: "u64 \<Rightarrow> u64 \<Rightarrow> u64" where
  "storage_ipc_saturating_add_u64 a b = (if UINT64_MAX - b < a then UINT64_MAX else a + b)"

definition storage_ipc_saturating_mul_u64 :: "u64 \<Rightarrow> u64 \<Rightarrow> u64" where
  "storage_ipc_saturating_mul_u64 a b =
     (if a = 0 \<or> b = 0 then 0 else if UINT64_MAX div b < a then UINT64_MAX else a * b)"

text \<open>\<^verbatim>\<open>unsigned long long\<close> has 64 bits on every target.\<close>

definition storage_ipc_parse_u64_env :: "environment \<Rightarrow> string option \<Rightarrow> u64 option" where
  "storage_ipc_parse_u64_env env name =
     (case storage_config_compat_getenv env name of
        None \<Rightarrow> None
      | Some s \<Rightarrow>
          if s = [] then None
          else let r = strtoul 18446744073709551615 0 s
               in if su_range_error r \<or> \<not> su_converted r \<or> su_end r \<noteq> [] \<or> su_value r = 0 then None
                  else Some (of_int (su_value r)))"

definition storage_ipc_timeout_env_us :: "environment \<Rightarrow> string option \<Rightarrow> string option \<Rightarrow> u64 \<Rightarrow> u64" where
  "storage_ipc_timeout_env_us env us_name ms_name fallback_us =
     (case storage_ipc_parse_u64_env env us_name of
        Some v \<Rightarrow> v
      | None \<Rightarrow> (case storage_ipc_parse_u64_env env ms_name of
                   Some v \<Rightarrow> storage_ipc_saturating_mul_u64 v 1000
                 | None \<Rightarrow> fallback_us))"

primrec storage_ipc_parent_stop_timeout_source :: "StorageParentStopTimeoutSource \<Rightarrow> string" where
  "storage_ipc_parent_stop_timeout_source STORAGE_PARENT_STOP_TIMEOUT_EXPLICIT_US = ''explicit_us''"
| "storage_ipc_parent_stop_timeout_source STORAGE_PARENT_STOP_TIMEOUT_EXPLICIT_MS = ''explicit_ms''"
| "storage_ipc_parent_stop_timeout_source STORAGE_PARENT_STOP_TIMEOUT_CALCULATED = ''calculated''"

definition storage_ipc_parent_stop_timeout_config ::
  "environment \<Rightarrow> u64 \<Rightarrow> StorageParentStopTimeoutConfig" where
  "storage_ipc_parent_stop_timeout_config env worker_compat_default_us =
     (let compat_us = storage_ipc_timeout_env_us env (Some ''SRC_REAL_STORAGE_STOP_TIMEOUT_US'')
                        (Some ''SRC_REAL_STORAGE_STOP_TIMEOUT_MS'') worker_compat_default_us;
          dma = storage_ipc_timeout_env_us env (Some ''SRC_REAL_DMA_QUIESCE_TIMEOUT_US'') None compat_us;
          harvest = storage_ipc_timeout_env_us env (Some ''SRC_REAL_STOP_HARVEST_TIMEOUT_US'') None compat_us;
          drain = storage_ipc_timeout_env_us env (Some ''SRC_REAL_WRITER_DRAIN_TIMEOUT_US'') None compat_us;
          abort = storage_ipc_timeout_env_us env (Some ''SRC_REAL_NVME_ABORT_TIMEOUT_US'') None
                    (if drain < compat_us then compat_us else drain);
          stage = storage_ipc_saturating_add_u64
                    (storage_ipc_saturating_add_u64 (storage_ipc_saturating_add_u64 dma harvest) drain) abort;
          margin = (if stage div 10 < 5000000 then 5000000 else stage div 10);
          (timeout, source) =
            (case storage_ipc_parse_u64_env env (Some ''SRC_REAL_STORAGE_PARENT_STOP_TIMEOUT_US'') of
               Some v \<Rightarrow> (v, STORAGE_PARENT_STOP_TIMEOUT_EXPLICIT_US)
             | None \<Rightarrow>
                 (case storage_ipc_parse_u64_env env (Some ''SRC_REAL_STORAGE_PARENT_STOP_TIMEOUT_MS'') of
                    Some v \<Rightarrow> (storage_ipc_saturating_mul_u64 v 1000, STORAGE_PARENT_STOP_TIMEOUT_EXPLICIT_MS)
                  | None \<Rightarrow> (storage_ipc_saturating_add_u64 stage margin, STORAGE_PARENT_STOP_TIMEOUT_CALCULATED)))
      in \<lparr>pt_parent_timeout_us = timeout, pt_dma_quiesce_us = dma, pt_stop_harvest_us = harvest,
          pt_writer_drain_us = drain, pt_nvme_abort_us = abort, pt_stage_total_us = stage,
          pt_margin_us = margin, pt_source = source\<rparr>)"

definition storage_ipc_parent_stop_should_force_reap :: "bool \<Rightarrow> bool \<Rightarrow> u64 \<Rightarrow> u64 \<Rightarrow> bool" where
  "storage_ipc_parent_stop_should_force_reap worker_live already_forced now_us deadline_us \<longleftrightarrow>
     worker_live \<and> \<not> already_forced \<and> deadline_us \<noteq> 0 \<and> deadline_us \<le> now_us"

section \<open>Construction and validation\<close>

definition storage_ipc_make_control :: "ipc_sizes \<Rightarrow> u32 \<Rightarrow> u64 \<Rightarrow> StorageControlMessage" where
  "storage_ipc_make_control sz type timestamp_us =
     \<lparr>cm_magic = STORAGE_IPC_MAGIC, cm_version = STORAGE_IPC_VERSION, cm_size = sz_control sz,
      cm_type = type, cm_flags = 0, cm_timestamp_us = timestamp_us, cm_stop_epoch = 0\<rparr>"

definition storage_ipc_event_payload_size :: "ipc_sizes \<Rightarrow> u32 \<Rightarrow> u32" where
  "storage_ipc_event_payload_size sz type =
     (if type \<in> {STORAGE_WORKER_READY, STORAGE_WORKER_ARMED, STORAGE_WORKER_RUNNING,
                 STORAGE_WORKER_INPUT_IDLE_CANDIDATE, STORAGE_WORKER_INPUT_ACTIVE} then sz_ready sz
      else if type = STORAGE_WORKER_DRAIN_READY then sz_drain_ready sz
      else if type = STORAGE_WORKER_FATAL then sz_fatal sz
      else if type = STORAGE_WORKER_FINAL_RESULT then sz_final sz
      else if type = STORAGE_WORKER_PERF_SAMPLE then sz_perf sz
      else if type = STORAGE_WORKER_DIAG_EVENT then sz_diag sz
      else if type = STORAGE_WORKER_STOP_PHASE then sz_phase sz
      else 0)"

definition write_result_zero :: WriteResult where
  "write_result_zero =
     \<lparr>wres_channel_id = 0, wres_metadata_slot = 0, wres_start_lba = 0, wres_sector_count = 0,
      wres_size_bytes = 0, wres_file_index = 0, wres_data_persisted = False,
      wres_receive_integrity_ok = False, wres_storage_integrity_ok = False, wres_integrity_ok = False,
      wres_dma_received_bytes = 0, wres_nvme_completed_bytes = 0, wres_file_bytes = 0,
      wres_primary_error = STORAGE_ERR_NONE, wres_secondary_error = STORAGE_ERR_NONE,
      wres_integrity_risk = [], wres_secondary_reason = [], wres_task_no = []\<rparr>"

definition drain_ready_zero :: WorkerDrainReadyPayload where
  "drain_ready_zero =
     \<lparr>wd_task_id = [], wd_drain_epoch = 0, wd_dma_observed_bytes = 0, wd_dma_harvested_payload_bytes = 0,
      wd_queued_payload_bytes = 0, wd_nvme_completed_payload_bytes = 0, wd_tail_unqueued_bytes = 0,
      wd_submit_count = 0, wd_completion_count = 0, wd_integrity_ok = 0,
      wd_primary_error = STORAGE_ERR_NONE, wd_secondary_error = STORAGE_ERR_NONE, wd_reason = []\<rparr>"

definition worker_event_zero :: StorageWorkerEvent where
  "worker_event_zero =
     \<lparr>ev_magic = 0, ev_version = 0, ev_size = 0, ev_type = 0, ev_channel = 0, ev_payload_size = 0,
      ev_timestamp_us = 0, ev_ready = \<lparr>wr_received_bytes = 0, wr_reason = []\<rparr>,
      ev_phase = \<lparr>wp_error_code = STORAGE_ERR_NONE, wp_stop_phase = 0, wp_received_bytes = 0,
                  wp_stop_epoch = 0, wp_reason = []\<rparr>,
      ev_fatal = \<lparr>wf_error_code = STORAGE_ERR_NONE, wf_received_bytes = 0, wf_reason = []\<rparr>,
      ev_drain_ready = drain_ready_zero,
      ev_final = \<lparr>wn_error_code = STORAGE_ERR_NONE, wn_received_bytes = 0, wn_reason = [],
                  wn_result = write_result_zero\<rparr>\<rparr>"

definition reason_text :: "string option \<Rightarrow> string" where
  "reason_text reason = (case reason of None \<Rightarrow> [] | Some s \<Rightarrow> snprintf_s 64 s)"

text \<open>\<open>now_us\<close> is the clock sample of \<^verbatim>\<open>storage_ipc_monotonic_us\<close>.\<close>

definition storage_ipc_make_event ::
  "ipc_sizes \<Rightarrow> u64 \<Rightarrow> u32 \<Rightarrow> u32 \<Rightarrow> StorageErrorCode \<Rightarrow> u64 \<Rightarrow> string option \<Rightarrow> StorageWorkerEvent" where
  "storage_ipc_make_event sz now_us type channel error_code received_bytes reason =
     (let e = worker_event_zero\<lparr>ev_magic := STORAGE_IPC_MAGIC, ev_version := STORAGE_IPC_VERSION,
                ev_size := sz_event sz, ev_type := type, ev_channel := channel,
                ev_payload_size := storage_ipc_event_payload_size sz type, ev_timestamp_us := now_us\<rparr>
      in if type \<in> {STORAGE_WORKER_READY, STORAGE_WORKER_ARMED, STORAGE_WORKER_RUNNING,
                    STORAGE_WORKER_INPUT_IDLE_CANDIDATE, STORAGE_WORKER_INPUT_ACTIVE}
         then e\<lparr>ev_ready := \<lparr>wr_received_bytes = received_bytes, wr_reason = reason_text reason\<rparr>\<rparr>
         else if type = STORAGE_WORKER_DRAIN_READY
         then e\<lparr>ev_drain_ready := (ev_drain_ready e)\<lparr>wd_primary_error := error_code,
                  wd_dma_observed_bytes := received_bytes, wd_reason := reason_text reason\<rparr>\<rparr>
         else if type = STORAGE_WORKER_FATAL
         then e\<lparr>ev_fatal := \<lparr>wf_error_code = error_code, wf_received_bytes = received_bytes,
                             wf_reason = reason_text reason\<rparr>\<rparr>
         else if type = STORAGE_WORKER_FINAL_RESULT
         then e\<lparr>ev_final := (ev_final e)\<lparr>wn_error_code := error_code, wn_received_bytes := received_bytes,
                             wn_reason := reason_text reason\<rparr>\<rparr>
         else if type = STORAGE_WORKER_STOP_PHASE
         then e\<lparr>ev_phase := (ev_phase e)\<lparr>wp_error_code := error_code, wp_received_bytes := received_bytes,
                             wp_reason := reason_text reason\<rparr>\<rparr>
         else e)"

definition storage_ipc_control_valid :: "ipc_sizes \<Rightarrow> StorageControlMessage \<Rightarrow> bool" where
  "storage_ipc_control_valid sz msg \<longleftrightarrow>
     cm_magic msg = STORAGE_IPC_MAGIC \<and> cm_version msg = STORAGE_IPC_VERSION \<and>
     cm_size msg = sz_control sz \<and> STORAGE_CTRL_ARM \<le> cm_type msg \<and> cm_type msg \<le> STORAGE_CTRL_AUTO_DRAIN"

definition storage_ipc_validate_event :: "ipc_sizes \<Rightarrow> StorageWorkerEvent \<Rightarrow> bool" where
  "storage_ipc_validate_event sz e =
     (if ev_magic e \<noteq> STORAGE_IPC_MAGIC \<or> ev_version e \<noteq> STORAGE_IPC_VERSION \<or>
         ev_size e \<noteq> sz_event sz \<or> ev_type e < STORAGE_WORKER_READY \<or>
         STORAGE_WORKER_INPUT_ACTIVE < ev_type e then False
      else if ev_payload_size e \<noteq> storage_ipc_event_payload_size sz (ev_type e) then False
      else if ev_type e = STORAGE_WORKER_FATAL
      then storage_error_code_valid (wf_error_code (ev_fatal e)) \<and>
           storage_error_class (wf_error_code (ev_fatal e)) = STORAGE_ERROR_FATAL
      else if ev_type e = STORAGE_WORKER_FINAL_RESULT
      then storage_error_code_valid (wn_error_code (ev_final e))
      else if ev_type e = STORAGE_WORKER_DRAIN_READY
      then wd_drain_epoch (ev_drain_ready e) \<noteq> 0 \<and>
           storage_error_code_valid (wd_primary_error (ev_drain_ready e)) \<and>
           storage_error_code_valid (wd_secondary_error (ev_drain_ready e))
      else if ev_type e = STORAGE_WORKER_STOP_PHASE
      then let phase = ev_phase e
           in if \<not> storage_error_code_valid (wp_error_code phase) \<or>
                 wp_stop_phase phase < STORAGE_WORKER_STOP_REQUESTED \<or>
                 STORAGE_WORKER_FAILED_FATAL < wp_stop_phase phase then False
              else if wp_stop_phase phase = STORAGE_WORKER_FAILED_FATAL
              then storage_error_class (wp_error_code phase) = STORAGE_ERROR_FATAL
              else wp_error_code phase = STORAGE_ERR_NONE \<or>
                   storage_error_class (wp_error_code phase) = STORAGE_ERROR_DEFERRED
      else True)"

definition storage_ipc_stop_phase_name :: "u32 \<Rightarrow> string" where
  "storage_ipc_stop_phase_name phase =
     (if phase = 1 then ''stop_requested'' else if phase = 2 then ''packet_boundary_reached''
      else if phase = 3 then ''dma_quiesced'' else if phase = 4 then ''harvest_stable_empty''
      else if phase = 5 then ''writer_drained'' else if phase = 6 then ''finalized''
      else if phase = 7 then ''failed_fatal'' else ''invalid'')"

section \<open>Pipes\<close>

text \<open>
  The results of \<^verbatim>\<open>write\<close>, \<^verbatim>\<open>read\<close> and \<^verbatim>\<open>poll\<close>. A read that returns no bytes is the end of the
  stream. \<^verbatim>\<open>EWOULDBLOCK\<close> is \<^verbatim>\<open>EAGAIN\<close>. In a deadline loop each iteration also has the clock
  sample and the poll result, which are only looked at after \<^verbatim>\<open>EAGAIN\<close>.
\<close>

datatype write_call = WroteN nat | WriteErr errno
datatype read_call = ReadBytes "u8 list" | ReadErr errno
datatype poll_call = PollReady | PollTimeout | PollErr errno

fun storage_ipc_write_full :: "u8 list \<Rightarrow> u8 list \<Rightarrow> write_call list \<Rightarrow> (int \<times> u8 list) option" where
  "storage_ipc_write_full sent rest calls =
     (if rest = [] then Some (0, sent)
      else case calls of
             [] \<Rightarrow> None
           | WroteN n # cs \<Rightarrow>
               if 0 < n then storage_ipc_write_full (sent @ take n rest) (drop n rest) cs else Some (-1, sent)
           | WriteErr e # cs \<Rightarrow>
               if e = EINTR then storage_ipc_write_full sent rest cs else Some (-1, sent))"

fun storage_ipc_read_full :: "nat \<Rightarrow> u8 list \<Rightarrow> read_call list \<Rightarrow> (int \<times> u8 list) option" where
  "storage_ipc_read_full want got calls =
     (if want \<le> length got then Some (0, got)
      else case calls of
             [] \<Rightarrow> None
           | ReadBytes bs # cs \<Rightarrow>
               if bs \<noteq> [] then storage_ipc_read_full want (got @ bs) cs
               else Some (if got = [] then 1 else -1, got)
           | ReadErr e # cs \<Rightarrow>
               if e = EINTR then storage_ipc_read_full want got cs else Some (-1, got))"

declare storage_ipc_write_full.simps [simp del] storage_ipc_read_full.simps [simp del]

text \<open>
  The common loop of \<^verbatim>\<open>storage_ipc_write_control_deadline\<close> and
  \<^verbatim>\<open>storage_ipc_write_event_deadline\<close>: one \<^verbatim>\<open>write\<close> of the whole message, repeated until it is
  taken, fails, or the deadline passes. The last component is whether the message was sent.
\<close>

fun write_deadline_loop ::
  "nat \<Rightarrow> u64 \<Rightarrow> (write_call \<times> u64 \<times> poll_call) list \<Rightarrow> (int \<times> errno option \<times> bool) option" where
  "write_deadline_loop want deadline_us [] = None"
| "write_deadline_loop want deadline_us ((w, now_us, p) # steps) =
     (case w of
        WroteN n \<Rightarrow> if n = want then Some (0, None, True) else Some (-1, Some EIO, False)
      | WriteErr e \<Rightarrow>
          if e = EINTR then write_deadline_loop want deadline_us steps
          else if e \<noteq> EAGAIN then Some (-1, Some e, False)
          else case storage_ipc_deadline_remaining_ms deadline_us now_us of
                 Inl err \<Rightarrow> Some (-1, Some err, False)
               | Inr timeout_ms \<Rightarrow>
                   (case p of
                      PollReady \<Rightarrow> write_deadline_loop want deadline_us steps
                    | PollTimeout \<Rightarrow> Some (-1, Some ETIMEDOUT, False)
                    | PollErr pe \<Rightarrow>
                        if pe \<noteq> EINTR then Some (-1, Some pe, False)
                        else write_deadline_loop want deadline_us steps))"

definition storage_ipc_write_control ::
  "ipc_sizes \<Rightarrow> StorageControlMessage \<Rightarrow> u8 list \<Rightarrow> write_call list \<Rightarrow> (int \<times> u8 list) option" where
  "storage_ipc_write_control sz msg bytes calls =
     (if storage_ipc_control_valid sz msg then storage_ipc_write_full [] bytes calls else Some (-1, []))"

definition storage_ipc_write_control_deadline ::
  "ipc_sizes \<Rightarrow> StorageControlMessage \<Rightarrow> u64 \<Rightarrow> (write_call \<times> u64 \<times> poll_call) list \<Rightarrow>
   (int \<times> errno option \<times> bool) option" where
  "storage_ipc_write_control_deadline sz msg deadline_us steps =
     (if \<not> storage_ipc_control_valid sz msg then Some (-1, Some EINVAL, False)
      else write_deadline_loop (unat (sz_control sz)) deadline_us steps)"

definition storage_ipc_read_control ::
  "ipc_sizes \<Rightarrow> (u8 list \<Rightarrow> StorageControlMessage) \<Rightarrow> read_call list \<Rightarrow>
   (int \<times> StorageControlMessage) option" where
  "storage_ipc_read_control sz dec calls =
     (case storage_ipc_read_full (unat (sz_control sz)) [] calls of
        None \<Rightarrow> None
      | Some (rc, bytes) \<Rightarrow>
          Some (if rc = 0 \<and> \<not> storage_ipc_control_valid sz (dec bytes) then -1 else rc, dec bytes))"

definition storage_ipc_control_reader_init :: "ipc_sizes \<Rightarrow> StorageControlReader" where
  "storage_ipc_control_reader_init sz = \<lparr>cr_bytes = replicate (unat (sz_control sz)) 0, cr_used = 0\<rparr>"

text \<open>\<^verbatim>\<open>read(fd, reader->bytes + reader->used, ...)\<close> stores the bytes and advances \<^verbatim>\<open>used\<close>.\<close>

definition reader_store :: "StorageControlReader \<Rightarrow> u8 list \<Rightarrow> StorageControlReader" where
  "reader_store reader bs =
     \<lparr>cr_bytes = take (cr_used reader) (cr_bytes reader) @ bs @
                 drop (cr_used reader + length bs) (cr_bytes reader),
      cr_used = cr_used reader + length bs\<rparr>"

text \<open>The last component of the result is the part of the script the call has not consumed.\<close>

fun storage_ipc_read_control_deadline ::
  "ipc_sizes \<Rightarrow> (u8 list \<Rightarrow> StorageControlMessage) \<Rightarrow> StorageControlReader \<Rightarrow> u64 \<Rightarrow>
   (read_call \<times> u64 \<times> poll_call) list \<Rightarrow>
   (int \<times> errno option \<times> StorageControlReader \<times> StorageControlMessage option \<times> (read_call \<times> u64 \<times> poll_call) list) option" where
  "storage_ipc_read_control_deadline sz dec reader deadline_us steps =
     (if unat (sz_control sz) \<le> cr_used reader
      then let msg = dec (take (unat (sz_control sz)) (cr_bytes reader));
               reader' = reader\<lparr>cr_used := 0\<rparr>
           in Some (if storage_ipc_control_valid sz msg then (0, None, reader', Some msg, steps)
                    else (-1, Some EPROTO, reader', Some msg, steps))
      else case steps of
             [] \<Rightarrow> None
           | (r, now_us, p) # steps' \<Rightarrow>
               (case r of
                  ReadBytes bs \<Rightarrow>
                    if bs \<noteq> [] then
                      storage_ipc_read_control_deadline sz dec (reader_store reader bs) deadline_us steps'
                    else if cr_used reader = 0 then Some (1, None, reader, None, steps')
                    else Some (-1, Some EPROTO, reader, None, steps')
                | ReadErr e \<Rightarrow>
                    if e = EINTR then storage_ipc_read_control_deadline sz dec reader deadline_us steps'
                    else if e \<noteq> EAGAIN then Some (-1, Some e, reader, None, steps')
                    else case storage_ipc_deadline_remaining_ms deadline_us now_us of
                           Inl err \<Rightarrow> Some (-1, Some err, reader, None, steps')
                         | Inr timeout_ms \<Rightarrow>
                             (case p of
                                PollReady \<Rightarrow>
                                  storage_ipc_read_control_deadline sz dec reader deadline_us steps'
                              | PollTimeout \<Rightarrow> Some (-1, Some ETIMEDOUT, reader, None, steps')
                              | PollErr pe \<Rightarrow>
                                  if pe \<noteq> EINTR then Some (-1, Some pe, reader, None, steps')
                                  else storage_ipc_read_control_deadline sz dec reader deadline_us steps')))"

declare storage_ipc_read_control_deadline.simps [simp del]

definition storage_ipc_write_event ::
  "ipc_sizes \<Rightarrow> StorageWorkerEvent \<Rightarrow> u8 list \<Rightarrow> write_call list \<Rightarrow> (int \<times> u8 list) option" where
  "storage_ipc_write_event sz e bytes calls =
     (if storage_ipc_validate_event sz e then storage_ipc_write_full [] bytes calls else Some (-1, []))"

text \<open>A full pipe drops the event and counts it in \<^verbatim>\<open>dropped_events\<close>, when there is a counter.\<close>

definition storage_ipc_try_write_event ::
  "ipc_sizes \<Rightarrow> StorageWorkerEvent \<Rightarrow> u32 \<Rightarrow> u64 option \<Rightarrow> write_call \<Rightarrow> int \<times> u64 option" where
  "storage_ipc_try_write_event sz e expected_type dropped w =
     (if \<not> storage_ipc_validate_event sz e \<or> ev_type e \<noteq> expected_type then (-1, dropped)
      else case w of
             WroteN n \<Rightarrow> (if n = unat (sz_event sz) then 0 else -1, dropped)
           | WriteErr err \<Rightarrow>
               if err = EAGAIN then (1, map_option (\<lambda>d. d + 1) dropped) else (-1, dropped))"

definition storage_ipc_try_write_perf ::
  "ipc_sizes \<Rightarrow> StorageWorkerEvent \<Rightarrow> u64 option \<Rightarrow> write_call \<Rightarrow> int \<times> u64 option" where
  "storage_ipc_try_write_perf sz e dropped w =
     storage_ipc_try_write_event sz e STORAGE_WORKER_PERF_SAMPLE dropped w"

definition storage_ipc_try_write_diag ::
  "ipc_sizes \<Rightarrow> StorageWorkerEvent \<Rightarrow> u64 option \<Rightarrow> write_call \<Rightarrow> int \<times> u64 option" where
  "storage_ipc_try_write_diag sz e dropped w =
     storage_ipc_try_write_event sz e STORAGE_WORKER_DIAG_EVENT dropped w"

definition storage_ipc_write_event_deadline ::
  "ipc_sizes \<Rightarrow> StorageWorkerEvent \<Rightarrow> u64 \<Rightarrow> (write_call \<times> u64 \<times> poll_call) list \<Rightarrow>
   (int \<times> errno option \<times> bool) option" where
  "storage_ipc_write_event_deadline sz e deadline_us steps =
     (if \<not> storage_ipc_validate_event sz e \<or> ev_type e = STORAGE_WORKER_PERF_SAMPLE
      then Some (-1, Some EINVAL, False)
      else write_deadline_loop (unat (sz_event sz)) deadline_us steps)"

definition storage_ipc_read_event_raw ::
  "ipc_sizes \<Rightarrow> (u8 list \<Rightarrow> StorageWorkerEvent) \<Rightarrow> read_call list \<Rightarrow> (int \<times> StorageWorkerEvent) option" where
  "storage_ipc_read_event_raw sz dec calls =
     map_option (\<lambda>(rc, bytes). (rc, dec bytes)) (storage_ipc_read_full (unat (sz_event sz)) [] calls)"

definition storage_ipc_read_event ::
  "ipc_sizes \<Rightarrow> (u8 list \<Rightarrow> StorageWorkerEvent) \<Rightarrow> read_call list \<Rightarrow> (int \<times> StorageWorkerEvent) option" where
  "storage_ipc_read_event sz dec calls =
     map_option (\<lambda>(rc, e). (if rc = 0 \<and> \<not> storage_ipc_validate_event sz e then -1 else rc, e))
       (storage_ipc_read_event_raw sz dec calls)"

section \<open>Facts\<close>

text \<open>What the kernel may answer: no more bytes than asked for.\<close>

fun write_calls_fit :: "nat \<Rightarrow> write_call list \<Rightarrow> bool" where
  "write_calls_fit n [] = True"
| "write_calls_fit n (WroteN k # cs) = (k \<le> n \<and> write_calls_fit (n - k) cs)"
| "write_calls_fit n (WriteErr e # cs) = write_calls_fit n cs"

lemma write_full_outcome:
  assumes "storage_ipc_write_full sent rest calls = Some (rc, out)"
  shows "(rc = 0 \<and> out = sent @ rest) \<or>
         (rc = -1 \<and> (\<exists>k<length rest. out = sent @ take k rest))"
  using assms
proof (induction calls arbitrary: sent rest)
  case Nil
  then show ?case by (auto simp: storage_ipc_write_full.simps split: if_splits)
next
  case (Cons c cs)
  show ?case
  proof (cases "rest = []")
    case True
    then show ?thesis using Cons.prems by (auto simp: storage_ipc_write_full.simps)
  next
    case False
    show ?thesis
    proof (cases c)
      case (WroteN n)
      show ?thesis
      proof (cases "0 < n")
        case True
        then have "storage_ipc_write_full (sent @ take n rest) (drop n rest) cs = Some (rc, out)"
          using Cons.prems False WroteN by (simp add: storage_ipc_write_full.simps [of sent rest])
        from Cons.IH [OF this] show ?thesis
        proof (elim disjE conjE exE)
          assume "rc = 0" "out = (sent @ take n rest) @ drop n rest"
          then show ?thesis by simp
        next
          fix k assume "rc = -1" "k < length (drop n rest)" "out = (sent @ take n rest) @ take k (drop n rest)"
          then show ?thesis by (auto simp: take_add [symmetric] intro!: exI [of _ "n + k"])
        qed
      next
        case n: False
        then show ?thesis using Cons.prems False WroteN
          by (auto simp: storage_ipc_write_full.simps [of sent rest] intro!: exI [of _ 0])
      qed
    next
      case (WriteErr e)
      then show ?thesis
        using Cons.prems False Cons.IH [of sent rest]
        by (auto simp: storage_ipc_write_full.simps [of sent rest] split: if_splits intro!: exI [of _ 0])
    qed
  qed
qed

text \<open>The bytes a reader holds of a message that is not complete yet.\<close>

definition reader_held :: "StorageControlReader \<Rightarrow> u8 list" where
  "reader_held reader = take (cr_used reader) (cr_bytes reader)"

definition reader_inv :: "ipc_sizes \<Rightarrow> StorageControlReader \<Rightarrow> bool" where
  "reader_inv sz reader \<longleftrightarrow>
     length (cr_bytes reader) = unat (sz_control sz) \<and> cr_used reader \<le> unat (sz_control sz)"

text \<open>
  What the kernel may answer to the reads: no more bytes than are missing to a frame of \<open>msize\<close> bytes, of
  which \<open>room\<close> are missing now; after a complete frame the next one is asked for.
\<close>

fun read_steps_fit :: "nat \<Rightarrow> nat \<Rightarrow> (read_call \<times> u64 \<times> poll_call) list \<Rightarrow> bool" where
  "read_steps_fit msize room [] = True"
| "read_steps_fit msize room ((ReadBytes bs, _, _) # steps) =
     (length bs \<le> room \<and> read_steps_fit msize (if length bs = room then msize else room - length bs) steps)"
| "read_steps_fit msize room ((ReadErr e, _, _) # steps) = read_steps_fit msize room steps"

definition reader_room :: "ipc_sizes \<Rightarrow> StorageControlReader \<Rightarrow> nat" where
  "reader_room sz reader =
     (if cr_used reader < unat (sz_control sz) then unat (sz_control sz) - cr_used reader else unat (sz_control sz))"

fun read_steps_bytes :: "(read_call \<times> u64 \<times> poll_call) list \<Rightarrow> u8 list" where
  "read_steps_bytes [] = []"
| "read_steps_bytes ((ReadBytes bs, _, _) # steps) = bs @ read_steps_bytes steps"
| "read_steps_bytes ((ReadErr e, _, _) # steps) = read_steps_bytes steps"

lemma reader_store_facts:
  assumes "reader_inv sz reader" and "cr_used reader + length bs \<le> unat (sz_control sz)"
  shows "reader_inv sz (reader_store reader bs)"
    "reader_held (reader_store reader bs) = reader_held reader @ bs"
    "cr_used (reader_store reader bs) = cr_used reader + length bs"
proof -
  from assms(2) obtain k where k: "unat (sz_control sz) = cr_used reader + length bs + k"
    using le_Suc_ex by blast
  show "reader_inv sz (reader_store reader bs)"
    "reader_held (reader_store reader bs) = reader_held reader @ bs"
    "cr_used (reader_store reader bs) = cr_used reader + length bs"
    using assms(1) by (simp_all add: reader_inv_def reader_store_def reader_held_def k)
qed

lemma reader_held_length: "reader_inv sz reader \<Longrightarrow> length (reader_held reader) = cr_used reader"
  by (simp add: reader_inv_def reader_held_def)

text \<open>
  One call of the control reader: with the bytes it received it either returns a message made of the held
  and the received bytes and holds nothing any more, or it holds all of them for the next call.
\<close>

definition reader_outcome ::
  "ipc_sizes \<Rightarrow> (u8 list \<Rightarrow> StorageControlMessage) \<Rightarrow> StorageControlReader \<Rightarrow> u8 list \<Rightarrow>
   int \<Rightarrow> StorageControlReader \<Rightarrow> StorageControlMessage option \<Rightarrow> bool" where
  "reader_outcome sz dec reader got rc reader' msg \<longleftrightarrow>
     reader_inv sz reader' \<and>
     (case msg of
        Some m \<Rightarrow> length (reader_held reader @ got) = unat (sz_control sz) \<and>
                  m = dec (reader_held reader @ got) \<and> reader_held reader' = [] \<and>
                  rc = (if storage_ipc_control_valid sz m then 0 else -1)
      | None \<Rightarrow> rc \<noteq> 0 \<and> reader_held reader' = reader_held reader @ got)"

text \<open>A call consumes a prefix of the script, and what is left fits again.\<close>

definition reader_call ::
  "ipc_sizes \<Rightarrow> (u8 list \<Rightarrow> StorageControlMessage) \<Rightarrow> StorageControlReader \<Rightarrow> (read_call \<times> u64 \<times> poll_call) list \<Rightarrow>
   int \<times> errno option \<times> StorageControlReader \<times> StorageControlMessage option \<times> (read_call \<times> u64 \<times> poll_call) list \<Rightarrow> bool" where
  "reader_call sz dec reader steps result \<longleftrightarrow>
     (case result of (rc, err, reader', msg, rest) \<Rightarrow>
        \<exists>used. steps = used @ rest \<and> reader_outcome sz dec reader (read_steps_bytes used) rc reader' msg \<and>
          read_steps_fit (unat (sz_control sz)) (reader_room sz reader') rest)"

lemma read_steps_bytes_append: "read_steps_bytes (xs @ ys) = read_steps_bytes xs @ read_steps_bytes ys"
  by (induction xs rule: read_steps_bytes.induct) simp_all

lemma reader_call_skip:
  assumes "reader_call sz dec reader steps result" "read_steps_bytes [step] = []"
  shows "reader_call sz dec reader (step # steps) result"
proof -
  obtain rc err reader' msg rest where r: "result = (rc, err, reader', msg, rest)" by (metis prod_cases5)
  from assms(1) obtain used where u: "steps = used @ rest" "reader_outcome sz dec reader (read_steps_bytes used) rc reader' msg"
      "read_steps_fit (unat (sz_control sz)) (reader_room sz reader') rest" by (auto simp: reader_call_def r)
  have "read_steps_bytes (step # used) = read_steps_bytes used"
    using assms(2) read_steps_bytes_append [of "[step]" used] by simp
  then show ?thesis using u unfolding reader_call_def r prod.case by (intro exI [of _ "step # used"]) simp
qed

lemma reader_call_store:
  assumes c: "reader_call sz dec (reader_store reader bs) steps result"
    and inv: "reader_inv sz reader" and fit: "cr_used reader + length bs \<le> unat (sz_control sz)"
  shows "reader_call sz dec reader ((ReadBytes bs, now, p) # steps) result"
proof -
  obtain rc err reader' msg rest where r: "result = (rc, err, reader', msg, rest)" by (metis prod_cases5)
  from c obtain used where u: "steps = used @ rest" "reader_outcome sz dec (reader_store reader bs) (read_steps_bytes used) rc reader' msg"
      "read_steps_fit (unat (sz_control sz)) (reader_room sz reader') rest" by (auto simp: reader_call_def r)
  have "reader_outcome sz dec reader (bs @ read_steps_bytes used) rc reader' msg"
    using u(2) reader_store_facts [OF inv fit] by (auto simp: reader_outcome_def split: option.splits)
  then show ?thesis using u(1,3) unfolding reader_call_def r by (auto intro!: exI [of _ "(ReadBytes bs, now, p) # used"])
qed

lemma reader_complete:
  assumes "reader_inv sz reader" and "unat (sz_control sz) \<le> cr_used reader"
    and "read_steps_fit (unat (sz_control sz)) (reader_room sz reader) steps"
    and "storage_ipc_read_control_deadline sz dec reader d steps = Some result"
  shows "reader_call sz dec reader steps result"
  using assms
  by (auto simp: storage_ipc_read_control_deadline.simps [of sz dec reader] reader_call_def reader_outcome_def
      reader_inv_def reader_held_def reader_room_def Let_def split: if_splits)

lemma read_control_outcome:
  assumes "reader_inv sz reader" and "read_steps_fit (unat (sz_control sz)) (reader_room sz reader) steps"
    and "storage_ipc_read_control_deadline sz dec reader d steps = Some result"
  shows "reader_call sz dec reader steps result"
  using assms
proof (induction steps arbitrary: reader)
  case Nil
  have "unat (sz_control sz) \<le> cr_used reader"
    using Nil.prems(3) by (simp add: storage_ipc_read_control_deadline.simps split: if_splits)
  then show ?case using reader_complete Nil.prems by blast
next
  case (Cons step steps)
  show ?case
  proof (cases "unat (sz_control sz) \<le> cr_used reader")
    case True
    then show ?thesis using reader_complete Cons.prems by blast
  next
    case False
    obtain r now p where step: "step = (r, now, p)" by (cases step)
    have room: "reader_room sz reader = unat (sz_control sz) - cr_used reader" using False by (simp add: reader_room_def)
    show ?thesis
    proof (cases r)
      case (ReadBytes bs)
      have fit: "cr_used reader + length bs \<le> unat (sz_control sz)"
        using Cons.prems(2) step ReadBytes False room by (simp, linarith)
      note store = reader_store_facts [OF Cons.prems(1) fit]
      have "reader_room sz (reader_store reader bs) =
          (if length bs = reader_room sz reader then unat (sz_control sz) else reader_room sz reader - length bs)"
        using fit False store(3) unfolding room by (simp add: reader_room_def) linarith
      then have rest: "read_steps_fit (unat (sz_control sz)) (reader_room sz (reader_store reader bs)) steps"
        using Cons.prems(2) step ReadBytes by simp
      show ?thesis
      proof (cases "bs = []")
        case True
        then have same: "reader_room sz (reader_store reader bs) = reader_room sz reader" using store(3) by (simp add: reader_room_def)
        then show ?thesis using Cons.prems False step ReadBytes True rest
          by (auto simp: storage_ipc_read_control_deadline.simps [of sz dec reader] reader_outcome_def reader_call_def
              split: if_splits intro!: exI [of _ "[step]"])
      next
        case ne: False
        have "storage_ipc_read_control_deadline sz dec (reader_store reader bs) d steps = Some result"
          using Cons.prems(3) False step ReadBytes ne
          by (simp add: storage_ipc_read_control_deadline.simps [of sz dec reader])
        from reader_call_store [OF Cons.IH [OF store(1) rest this] Cons.prems(1) fit] show ?thesis by (simp add: step ReadBytes)
      qed
    next
      case (ReadErr e)
      have fit: "read_steps_fit (unat (sz_control sz)) (reader_room sz reader) steps"
        using Cons.prems(2) step ReadErr by simp
      consider (again) "storage_ipc_read_control_deadline sz dec reader d steps = Some result"
        | (stop) rc err where "result = (rc, err, reader, None, steps)" "rc \<noteq> 0"
        using Cons.prems(3) False step ReadErr
        by (auto simp: storage_ipc_read_control_deadline.simps [of sz dec reader]
            split: if_splits sum.splits poll_call.splits)
      then show ?thesis
      proof cases
        case again
        then show ?thesis using Cons.IH [OF Cons.prems(1) fit] reader_call_skip step ReadErr by simp
      next
        case stop
        then show ?thesis using Cons.prems(1) fit step ReadErr
          by (auto simp: reader_call_def reader_outcome_def intro!: exI [of _ "[step]"])
      qed
    qed
  qed
qed

text \<open>Several calls in a row on the same pipe, each with its own deadline.\<close>

fun control_calls ::
  "ipc_sizes \<Rightarrow> (u8 list \<Rightarrow> StorageControlMessage) \<Rightarrow> StorageControlReader \<Rightarrow> u64 list \<Rightarrow> (read_call \<times> u64 \<times> poll_call) list \<Rightarrow>
   ((int \<times> StorageControlMessage option) list \<times> StorageControlReader \<times> (read_call \<times> u64 \<times> poll_call) list) option" where
  "control_calls sz dec reader [] steps = Some ([], reader, steps)"
| "control_calls sz dec reader (d # ds) steps =
     (case storage_ipc_read_control_deadline sz dec reader d steps of
        None \<Rightarrow> None
      | Some (rc, err, reader', msg, rest) \<Rightarrow>
          map_option (\<lambda>(rs, r, st). ((rc, msg) # rs, r, st)) (control_calls sz dec reader' ds rest))"

definition returned_messages :: "(int \<times> StorageControlMessage option) list \<Rightarrow> StorageControlMessage list" where
  "returned_messages rs = concat (map (\<lambda>(rc, msg). case msg of None \<Rightarrow> [] | Some m \<Rightarrow> [m]) rs)"

definition frames_cut ::
  "ipc_sizes \<Rightarrow> (u8 list \<Rightarrow> StorageControlMessage) \<Rightarrow> u8 list \<Rightarrow> (int \<times> StorageControlMessage option) list \<Rightarrow> u8 list \<Rightarrow> bool" where
  "frames_cut sz dec bytes rs held \<longleftrightarrow>
     (\<exists>frames. bytes = concat frames @ held \<and> list_all (\<lambda>f. length f = unat (sz_control sz)) frames \<and>
        returned_messages rs = map dec frames \<and>
        list_all (\<lambda>(rc, msg). rc = 0 \<longleftrightarrow> (\<exists>m. msg = Some m \<and> storage_ipc_control_valid sz m)) rs)"

lemma frames_cut_Cons:
  assumes o: "reader_outcome sz dec reader got rc reader' msg" and f: "frames_cut sz dec (reader_held reader' @ bytes) rs held"
  shows "frames_cut sz dec (reader_held reader @ got @ bytes) ((rc, msg) # rs) held"
proof (cases msg)
  case None
  then show ?thesis using o f by (simp add: reader_outcome_def frames_cut_def returned_messages_def)
next
  case (Some m)
  from f obtain frames where "reader_held reader' @ bytes = concat frames @ held" "list_all (\<lambda>f. length f = unat (sz_control sz)) frames"
      "returned_messages rs = map dec frames" "list_all (\<lambda>(rc, msg). rc = 0 \<longleftrightarrow> (\<exists>m. msg = Some m \<and> storage_ipc_control_valid sz m)) rs"
    by (auto simp: frames_cut_def)
  then show ?thesis using o Some
    by (auto simp: reader_outcome_def frames_cut_def returned_messages_def intro!: exI [of _ "(reader_held reader @ got) # frames"])
qed

lemma control_calls_cut:
  "reader_inv sz reader \<Longrightarrow> read_steps_fit (unat (sz_control sz)) (reader_room sz reader) steps \<Longrightarrow>
   control_calls sz dec reader ds steps = Some (rs, reader', rest) \<Longrightarrow>
     \<exists>used. steps = used @ rest \<and> frames_cut sz dec (reader_held reader @ read_steps_bytes used) rs (reader_held reader')"
proof (induction ds arbitrary: reader steps rs)
  case Nil
  then show ?case by (auto simp: frames_cut_def returned_messages_def intro!: exI [of _ "[]"])
next
  case (Cons d ds)
  from Cons.prems(3) obtain rc err r1 msg rest1 rs1 where
    c: "storage_ipc_read_control_deadline sz dec reader d steps = Some (rc, err, r1, msg, rest1)"
      "control_calls sz dec r1 ds rest1 = Some (rs1, reader', rest)" "rs = (rc, msg) # rs1"
    by (auto split: option.splits)
  from read_control_outcome [OF Cons.prems(1,2) c(1)] obtain used1 where
    u1: "steps = used1 @ rest1" "reader_outcome sz dec reader (read_steps_bytes used1) rc r1 msg"
      "read_steps_fit (unat (sz_control sz)) (reader_room sz r1) rest1" by (auto simp: reader_call_def)
  have "reader_inv sz r1" using u1(2) by (simp add: reader_outcome_def)
  from Cons.IH [OF this u1(3) c(2)] obtain used2 where
    "rest1 = used2 @ rest" "frames_cut sz dec (reader_held r1 @ read_steps_bytes used2) rs1 (reader_held reader')" by blast
  with frames_cut_Cons [OF u1(2)] u1(1) c(3) show ?case
    by (intro exI [of _ "used1 @ used2"]) (simp add: read_steps_bytes_append)
qed

text \<open>Arithmetic of the budgets.\<close>

lemma unat_saturating_add:
  "unat (storage_ipc_saturating_add_u64 a b) = min (unat a + unat b) (unat UINT64_MAX)"
proof (cases "UINT64_MAX - b < a")
  case True
  have "unat (UINT64_MAX - b) = 18446744073709551615 - unat b" by (simp add: unat_sub)
  then have "18446744073709551615 \<le> unat a + unat b"
    using True unfolding word_less_nat_alt by linarith
  then show ?thesis using True by (simp add: storage_ipc_saturating_add_u64_def)
next
  case False
  have "unat (UINT64_MAX - b) = 18446744073709551615 - unat b" by (simp add: unat_sub)
  then have "unat a + unat b \<le> 18446744073709551615"
    using False unat_u64_less [of b] unfolding word_less_nat_alt by linarith
  then show ?thesis using False
    by (simp add: storage_ipc_saturating_add_u64_def unat_add_le)
qed

lemma unat_saturating_mul:
  "unat (storage_ipc_saturating_mul_u64 a b) = min (unat a * unat b) (unat UINT64_MAX)"
proof (cases "a = 0 \<or> b = 0")
  case True
  then show ?thesis by (auto simp: storage_ipc_saturating_mul_u64_def)
next
  case False
  then have b: "0 < unat b" by simp
  have d: "unat (UINT64_MAX div b) = 18446744073709551615 div unat b" by (simp add: unat_div_distrib)
  show ?thesis
  proof (cases "UINT64_MAX div b < a")
    case True
    then have "18446744073709551615 div unat b < unat a" unfolding word_less_nat_alt d .
    then have "18446744073709551615 < unat a * unat b" using b by (simp add: div_less_iff_less_mult)
    then show ?thesis using True False by (simp add: storage_ipc_saturating_mul_u64_def)
  next
    case small: False
    then have "unat a \<le> 18446744073709551615 div unat b" unfolding word_less_nat_alt d by simp
    then have "unat a * unat b \<le> 18446744073709551615" using b by (simp add: less_eq_div_iff_mult_less_eq)
    then show ?thesis using small False
      by (simp add: storage_ipc_saturating_mul_u64_def unat_word_ariths)
  qed
qed

lemma ceil_milliseconds:
  fixes r :: int
  assumes "0 < r" and "m = (if r mod 1000 \<noteq> 0 then r div 1000 + 1 else r div 1000)"
  shows "1 \<le> m \<and> r \<le> 1000 * m \<and> 1000 * m < r + 1000"
proof -
  define q s where "q = r div 1000" and "s = r mod 1000"
  have "r = 1000 * q + s" "0 \<le> s" "s < 1000" by (simp_all add: q_def s_def)
  moreover have "m = (if s \<noteq> 0 then q + 1 else q)" using assms(2) by (simp add: q_def s_def)
  ultimately show ?thesis using assms(1) by (cases "s = 0") simp_all
qed

lemma deadline_remaining_exact:
  assumes "storage_ipc_deadline_remaining_ms d now = Inr ms"
  shows "now < d \<and> 1 \<le> ms \<and> ms \<le> INT_MAX \<and>
     (ms < INT_MAX \<longrightarrow> uint (d - now) \<le> 1000 * ms \<and> 1000 * ms < uint (d - now) + 1000)"
proof -
  have nd: "now < d" using assms by (auto simp: storage_ipc_deadline_remaining_ms_def Let_def not_le split: if_splits)
  let ?r = "d - now"
  let ?m = "if ?r mod 1000 \<noteq> 0 then ?r div 1000 + 1 else ?r div 1000"
  have ms: "ms = (if INT_MAX < uint ?m then INT_MAX else uint ?m)"
    using assms nd by (simp add: storage_ipc_deadline_remaining_ms_def Let_def split: if_splits)
  have "?r \<noteq> 0" using nd by auto
  then have r: "0 < uint ?r" by (metis order_less_le uint_ge_0 uint_0_iff)
  have lt: "uint ?r < 18446744073709551616" using uint_lt2p [of ?r] by simp
  have d: "uint (?r div 1000) = uint ?r div 1000" "uint (?r mod 1000) = uint ?r mod 1000"
    by (simp_all add: uint_div_distrib uint_mod_distrib)
  have "uint (?r div 1000) + 1 < 2 ^ LENGTH(64)" unfolding d using lt by simp
  then have inc: "uint (?r div 1000 + 1) = uint ?r div 1000 + 1"
    using d uint_plus_simple_iff [of "?r div 1000" 1]
    by (simp add: uint_word_ariths mod_pos_pos_trivial)
  have z: "?r mod 1000 = 0 \<longleftrightarrow> uint ?r mod 1000 = 0" by (metis d(2) uint_0_iff)
  have m: "uint ?m = (if uint ?r mod 1000 \<noteq> 0 then uint ?r div 1000 + 1 else uint ?r div 1000)"
    using inc d z by simp
  have "1 \<le> uint ?m \<and> uint ?r \<le> 1000 * uint ?m \<and> 1000 * uint ?m < uint ?r + 1000"
    by (rule ceil_milliseconds [OF r m])
  then show ?thesis using ms nd by (auto simp: INT_MAX_def)
qed

section \<open>Properties\<close>

text \<open>C28. The control reader never loses, repeats or reorders bytes. However the stream is cut into reads, interrupted,
  timed out or ended, and over any number of calls, the bytes the calls have taken from the pipe are the frames of the
  returned messages one after the other, each of exactly the size of a message, followed by the bytes the reader still
  holds; a call succeeds exactly when it returns a valid message.\<close>

theorem control_reader_keeps_bytes:
  assumes "control_calls sz dec (storage_ipc_control_reader_init sz) deadlines steps = Some (results, reader', rest)"
    and "read_steps_fit (unat (sz_control sz)) (unat (sz_control sz)) steps"
  shows "\<exists>used frames. steps = used @ rest \<and> read_steps_bytes used = concat frames @ reader_held reader' \<and>
     list_all (\<lambda>f. length f = unat (sz_control sz)) frames \<and> returned_messages results = map dec frames \<and>
     list_all (\<lambda>(rc, msg). rc = 0 \<longleftrightarrow> (\<exists>m. msg = Some m \<and> storage_ipc_control_valid sz m)) results"
proof -
  let ?r = "storage_ipc_control_reader_init sz"
  have "reader_inv sz ?r" "reader_room sz ?r = unat (sz_control sz)" "reader_held ?r = []"
    by (simp_all add: reader_inv_def reader_room_def reader_held_def storage_ipc_control_reader_init_def)
  then show ?thesis using control_calls_cut [OF _ _ assms(1)] assms(2) by (auto simp: frames_cut_def)
qed

definition demo_sizes :: ipc_sizes where
  "demo_sizes =
     \<lparr>sz_control = 32, sz_event = 720, sz_ready = 72, sz_drain_ready = 160, sz_fatal = 80, sz_final = 680,
      sz_perf = 240, sz_diag = 40, sz_phase = 88\<rparr>"

definition demo_reads :: "(read_call \<times> u64 \<times> poll_call) list" where
  "demo_reads = [(ReadBytes [1, 2, 3], 0, PollReady), (ReadErr EAGAIN, 50, PollTimeout), (ReadBytes [4], 60, PollReady),
     (ReadErr EAGAIN, 70, PollTimeout)]"

theorem control_reader_keeps_bytes_witness:
  "\<exists>results reader'. control_calls (demo_sizes\<lparr>sz_control := 4\<rparr>) (\<lambda>bs. storage_ipc_make_control demo_sizes (ucast (hd bs)) 0)
       (storage_ipc_control_reader_init (demo_sizes\<lparr>sz_control := 4\<rparr>)) [100, 100, 100] demo_reads = Some (results, reader', []) \<and>
     (\<exists>frames. concat frames @ reader_held reader' = [1, 2, 3, 4] \<and> list_all (\<lambda>f. length f = 4) frames)"
proof -
  let ?sz = "demo_sizes\<lparr>sz_control := 4\<rparr>" and ?dec = "\<lambda>bs :: u8 list. storage_ipc_make_control demo_sizes (ucast (hd bs)) 0"
  have "map_option (snd \<circ> snd) (control_calls ?sz ?dec (storage_ipc_control_reader_init ?sz) [100, 100, 100] demo_reads) = Some []"
    by code_simp
  then obtain results reader' where
    c: "control_calls ?sz ?dec (storage_ipc_control_reader_init ?sz) [100, 100, 100] demo_reads = Some (results, reader', [])" by auto
  have f: "read_steps_fit (unat (sz_control ?sz)) (unat (sz_control ?sz)) demo_reads" by (simp add: demo_reads_def)
  from control_reader_keeps_bytes [OF c f] obtain frames where
    "read_steps_bytes demo_reads = concat frames @ reader_held reader'" "list_all (\<lambda>f. length f = unat (sz_control ?sz)) frames" by auto
  then have "concat frames @ reader_held reader' = [1, 2, 3, 4] \<and> list_all (\<lambda>f. length f = 4) frames" by (simp add: demo_reads_def)
  then show ?thesis using c by blast
qed

text \<open>Writing a message in pieces either sends exactly its bytes and returns 0, or returns -1 with
  a proper prefix sent; interrupted calls are repeated.\<close>

lemma write_full_all_or_prefix:
  assumes "storage_ipc_write_full [] bytes calls = Some (rc, out)"
  shows "(rc = 0 \<and> out = bytes) \<or> (rc = -1 \<and> (\<exists>k<length bytes. out = take k bytes))"
  using write_full_outcome [OF assms] by simp

text \<open>The parent's stop deadline leaves room for every stage of a worker's stop: unless it is set
  explicitly it is the sum of the four stage budgets plus a margin of a tenth of the sum and at
  least five seconds, where every sum saturates instead of wrapping.\<close>

lemma parent_timeout_covers_stages:
  "let c = storage_ipc_parent_stop_timeout_config env default_us in
     unat (pt_stage_total_us c) =
       min (unat (pt_dma_quiesce_us c) + unat (pt_stop_harvest_us c) + unat (pt_writer_drain_us c) +
            unat (pt_nvme_abort_us c)) (unat UINT64_MAX) \<and>
     unat (pt_margin_us c) = max (unat (pt_stage_total_us c) div 10) 5000000 \<and>
     (pt_source c = STORAGE_PARENT_STOP_TIMEOUT_CALCULATED \<longrightarrow>
        unat (pt_parent_timeout_us c) =
          min (unat (pt_stage_total_us c) + unat (pt_margin_us c)) (unat UINT64_MAX))"
proof -
  let ?c = "storage_ipc_parent_stop_timeout_config env default_us"
  have stage: "pt_stage_total_us ?c = storage_ipc_saturating_add_u64
      (storage_ipc_saturating_add_u64 (storage_ipc_saturating_add_u64 (pt_dma_quiesce_us ?c)
         (pt_stop_harvest_us ?c)) (pt_writer_drain_us ?c)) (pt_nvme_abort_us ?c)"
    by (simp add: storage_ipc_parent_stop_timeout_config_def Let_def split_beta)
  have margin: "pt_margin_us ?c =
      (if pt_stage_total_us ?c div 10 < 5000000 then 5000000 else pt_stage_total_us ?c div 10)"
    by (simp add: storage_ipc_parent_stop_timeout_config_def Let_def split_beta)
  have timeout: "pt_source ?c = STORAGE_PARENT_STOP_TIMEOUT_CALCULATED \<Longrightarrow>
      pt_parent_timeout_us ?c = storage_ipc_saturating_add_u64 (pt_stage_total_us ?c) (pt_margin_us ?c)"
    by (auto simp: storage_ipc_parent_stop_timeout_config_def Let_def split_beta split: option.splits)
  have "unat (pt_margin_us ?c) = max (unat (pt_stage_total_us ?c) div 10) 5000000"
    unfolding margin by (simp add: word_less_nat_alt unat_div_distrib max_def)
  moreover have "unat (pt_stage_total_us ?c) =
      min (unat (pt_dma_quiesce_us ?c) + unat (pt_stop_harvest_us ?c) + unat (pt_writer_drain_us ?c) +
           unat (pt_nvme_abort_us ?c)) (unat UINT64_MAX)"
    unfolding stage unat_saturating_add by linarith
  moreover have "pt_source ?c = STORAGE_PARENT_STOP_TIMEOUT_CALCULATED \<Longrightarrow> unat (pt_parent_timeout_us ?c) =
      min (unat (pt_stage_total_us ?c) + unat (pt_margin_us ?c)) (unat UINT64_MAX)"
    by (simp only: timeout unat_saturating_add)
  ultimately show ?thesis unfolding Let_def by blast
qed

text \<open>The wait handed to \<^verbatim>\<open>poll\<close> for an absolute deadline is positive, fits an \<^verbatim>\<open>int\<close>, and is the time
  left rounded up to a millisecond, so a wait never ends before the deadline by rounding and
  never overshoots it by a millisecond; at or after the deadline the call times out.\<close>

lemma deadline_wait_exact:
  "storage_ipc_deadline_remaining_ms d now =
     (if d \<le> now then Inl ETIMEDOUT
      else Inr (projr (storage_ipc_deadline_remaining_ms d now))) \<and>
   (\<forall>ms. storage_ipc_deadline_remaining_ms d now = Inr ms \<longrightarrow>
      1 \<le> ms \<and> ms \<le> INT_MAX \<and>
      (ms < INT_MAX \<longrightarrow> uint (d - now) \<le> 1000 * ms \<and> 1000 * ms < uint (d - now) + 1000))"
  using deadline_remaining_exact [of d now]
  by (auto simp: storage_ipc_deadline_remaining_ms_def Let_def)

lemma deadline_wait_exact_witness:
  "storage_ipc_deadline_remaining_ms 10001 8000 = Inr 3 \<and> uint (10001 - 8000 :: u64) \<le> 1000 * 3"
proof -
  have r: "storage_ipc_deadline_remaining_ms 10001 8000 = Inr 3"
    by (simp add: storage_ipc_deadline_remaining_ms_def INT_MAX_def)
  then show ?thesis using deadline_wait_exact [of 10001 8000] by (auto simp: INT_MAX_def)
qed

end
