(* ===== verification/Storage_Supervisor.thy ===== *)
theory Storage_Supervisor
  imports Storage_Ipc
begin

text \<open>
  The parent's supervision of the channel workers, \<^verbatim>\<open>ccb_storage_supervisor.c\<close>: the per-channel
  progress masks, the order in which a worker's events are accepted, the stop and auto-drain
  bookkeeping, and the verdict over all channels. An event handler returns the status code and
  the new state.
\<close>

unbundle bit_operations_syntax

section \<open>State\<close>

datatype StorageTaskTerminal = STORAGE_TASK_ACTIVE | STORAGE_TASK_SUCCESS | STORAGE_TASK_FAILED

record StorageTaskSupervisor =
  sv_target_channel_mask :: u32
  sv_ready_mask :: u32
  sv_armed_mask :: u32
  sv_running_mask :: u32
  sv_drained_mask :: u32
  sv_final_seen_mask :: u32
  sv_idle_candidate_mask :: u32
  sv_auto_drain_sent_mask :: u32
  sv_fatal_seen_mask :: u32
  sv_unavailable_mask :: u32
  sv_worker_exited_mask :: u32
  sv_stop_requested_mask :: u32
  sv_stop_sent_mask :: u32
  sv_stop_failed_mask :: u32
  sv_stop_epoch :: u64
  sv_auto_drain_epoch :: u64
  sv_stop_phase :: "u32 list"
  sv_first_fatal :: bool
  sv_result_known_failed :: bool
  sv_aggregate_ready :: bool
  sv_auto_drain_triggered :: bool
  sv_primary_error :: StorageErrorCode
  sv_secondary_error :: StorageErrorCode
  sv_fatal_channel :: u32
  sv_fatal_reason :: string
  sv_secondary_reason :: string
  sv_final_result :: "WriteResult list"
  sv_drain_result :: "WorkerDrainReadyPayload list"
  sv_terminal :: StorageTaskTerminal

section \<open>Operations\<close>

definition channel_bit :: "u32 \<Rightarrow> u32" where
  "channel_bit ch = (if ch < NUM_CHANNELS then push_bit (unat ch) 1 else 0)"

definition text_or :: "string option \<Rightarrow> string \<Rightarrow> string" where
  "text_or reason fallback = (case reason of None \<Rightarrow> fallback | Some s \<Rightarrow> if s \<noteq> [] then s else fallback)"

definition supervisor_fail ::
  "StorageTaskSupervisor \<Rightarrow> u32 \<Rightarrow> StorageErrorCode \<Rightarrow> string option \<Rightarrow> StorageTaskSupervisor" where
  "supervisor_fail s ch code0 reason =
     (let failure_reason = text_or reason ''worker_fatal'';
          previous_primary = sv_primary_error s;
          previous_secondary = sv_secondary_error s;
          code = (if storage_error_class code0 \<noteq> STORAGE_ERROR_FATAL then STORAGE_ERR_INTERNAL else code0);
          (p, q) = storage_error_record (sv_primary_error s) (sv_secondary_error s) code;
          s1 = s\<lparr>sv_primary_error := p, sv_secondary_error := q\<rparr>;
          s2 = (if previous_primary = STORAGE_ERR_NONE \<and> sv_primary_error s1 \<noteq> STORAGE_ERR_NONE
                then s1\<lparr>sv_first_fatal := True, sv_fatal_channel := ch,
                        sv_fatal_reason := snprintf_s 64 failure_reason\<rparr>
                else if previous_secondary = STORAGE_ERR_NONE \<and> sv_secondary_error s1 \<noteq> STORAGE_ERR_NONE
                then s1\<lparr>sv_secondary_reason := snprintf_s 64 failure_reason\<rparr>
                else s1);
          s3 = s2\<lparr>sv_result_known_failed := True,
                  sv_stop_requested_mask := sv_stop_requested_mask s2 OR
                    (sv_target_channel_mask s2 AND NOT (sv_final_seen_mask s2))\<rparr>
      in if sv_aggregate_ready s3 then s3\<lparr>sv_terminal := STORAGE_TASK_FAILED\<rparr> else s3)"

definition fail_worker_exit_without_final :: "StorageTaskSupervisor \<Rightarrow> u32 \<Rightarrow> StorageTaskSupervisor" where
  "fail_worker_exit_without_final s ch =
     supervisor_fail s ch STORAGE_ERR_WORKER_EXIT (Some ''worker_exit_without_final'')"

definition fail_task_result ::
  "StorageTaskSupervisor \<Rightarrow> u32 \<Rightarrow> WriteResult \<Rightarrow> StorageErrorCode \<Rightarrow> string \<Rightarrow> StorageTaskSupervisor" where
  "fail_task_result s ch result fallback_code fallback_reason =
     (let primary = (if storage_error_code_valid (wres_primary_error result) \<and>
                        wres_primary_error result \<noteq> STORAGE_ERR_NONE
                     then wres_primary_error result else fallback_code);
          reason = (if wres_integrity_risk result \<noteq> [] then wres_integrity_risk result else fallback_reason);
          primary = (if \<not> storage_error_code_valid primary \<or> primary = STORAGE_ERR_NONE
                     then STORAGE_ERR_INTEGRITY else primary);
          (p, q) = storage_error_record (sv_primary_error s) (sv_secondary_error s) primary;
          (p, q) = (if storage_error_code_valid (wres_secondary_error result) \<and>
                       wres_secondary_error result \<noteq> STORAGE_ERR_NONE
                    then storage_error_record p q (wres_secondary_error result) else (p, q));
          s1 = s\<lparr>sv_primary_error := p, sv_secondary_error := q, sv_fatal_channel := ch,
                 sv_fatal_reason := snprintf_s 64 (if reason \<noteq> [] then reason else ''storage_integrity_failed'')\<rparr>;
          s2 = (if wres_secondary_reason result \<noteq> []
                then s1\<lparr>sv_secondary_reason := snprintf_s 64 (wres_secondary_reason result)\<rparr> else s1)
      in s2\<lparr>sv_result_known_failed := True, sv_terminal := STORAGE_TASK_FAILED\<rparr>)"

definition storage_supervisor_init :: "u32 \<Rightarrow> StorageTaskSupervisor" where
  "storage_supervisor_init target_mask =
     \<lparr>sv_target_channel_mask = target_mask, sv_ready_mask = 0, sv_armed_mask = 0, sv_running_mask = 0,
      sv_drained_mask = 0, sv_final_seen_mask = 0, sv_idle_candidate_mask = 0, sv_auto_drain_sent_mask = 0,
      sv_fatal_seen_mask = 0, sv_unavailable_mask = 0, sv_worker_exited_mask = 0,
      sv_stop_requested_mask = 0, sv_stop_sent_mask = 0, sv_stop_failed_mask = 0, sv_stop_epoch = 0,
      sv_auto_drain_epoch = 0, sv_stop_phase = [0, 0, 0], sv_first_fatal = False,
      sv_result_known_failed = False, sv_aggregate_ready = False, sv_auto_drain_triggered = False,
      sv_primary_error = STORAGE_ERR_NONE, sv_secondary_error = STORAGE_ERR_NONE, sv_fatal_channel = 0,
      sv_fatal_reason = [], sv_secondary_reason = [],
      sv_final_result = [write_result_zero, write_result_zero, write_result_zero],
      sv_drain_result = [drain_ready_zero, drain_ready_zero, drain_ready_zero],
      sv_terminal = STORAGE_TASK_ACTIVE\<rparr>"

definition storage_supervisor_protocol_fail ::
  "StorageTaskSupervisor \<Rightarrow> u32 \<Rightarrow> string option \<Rightarrow> StorageTaskSupervisor" where
  "storage_supervisor_protocol_fail s ch reason =
     supervisor_fail s ch STORAGE_ERR_IPC (Some (text_or reason ''event_protocol_invalid''))"

text \<open>The loop of \<^verbatim>\<open>storage_supervisor_result_status\<close>: the first target channel whose result fails a
  check, with the error code and reason of that check.\<close>

definition channel_fault :: "WriteResult \<Rightarrow> (StorageErrorCode \<times> string) option" where
  "channel_fault r =
     (if \<not> wres_receive_integrity_ok r then Some (STORAGE_ERR_INTEGRITY, ''receive_integrity_failed'')
      else if \<not> wres_data_persisted r \<or> \<not> wres_storage_integrity_ok r \<or> \<not> wres_integrity_ok r
      then Some (STORAGE_ERR_INTEGRITY, ''storage_integrity_failed'')
      else if wres_dma_received_bytes r \<noteq> wres_nvme_completed_bytes r
      then Some (STORAGE_ERR_BYTE_MISMATCH, ''dma_nvme_byte_mismatch'')
      else if wres_nvme_completed_bytes r \<noteq> wres_file_bytes r
      then Some (STORAGE_ERR_BYTE_MISMATCH, ''nvme_file_byte_mismatch'')
      else None)"

fun first_channel_fault ::
  "StorageTaskSupervisor \<Rightarrow> u32 list \<Rightarrow> (u32 \<times> StorageErrorCode \<times> string) option" where
  "first_channel_fault s [] = None"
| "first_channel_fault s (i # is) =
     (if sv_target_channel_mask s AND channel_bit i = 0 then first_channel_fault s is
      else case channel_fault (sv_final_result s ! unat i) of
             Some (code, reason) \<Rightarrow> Some (i, code, reason)
           | None \<Rightarrow> first_channel_fault s is)"

definition storage_supervisor_result_status ::
  "StorageTaskSupervisor \<Rightarrow> StorageTaskTerminal \<times> StorageTaskSupervisor" where
  "storage_supervisor_result_status s =
     (if sv_terminal s \<noteq> STORAGE_TASK_ACTIVE then (sv_terminal s, s)
      else if sv_final_seen_mask s OR sv_unavailable_mask s \<noteq> sv_target_channel_mask s
      then (STORAGE_TASK_ACTIVE, s)
      else let s1 = s\<lparr>sv_aggregate_ready := True\<rparr>
           in if sv_first_fatal s1 \<or> sv_unavailable_mask s1 \<noteq> 0
              then (STORAGE_TASK_FAILED, s1\<lparr>sv_terminal := STORAGE_TASK_FAILED\<rparr>)
              else case first_channel_fault s1 [0, 1, 2] of
                     Some (i, code, reason) \<Rightarrow>
                       let s2 = fail_task_result s1 i (sv_final_result s1 ! unat i) code reason
                       in (sv_terminal s2, s2)
                   | None \<Rightarrow>
                       if sv_target_channel_mask s1 AND 3 = 3 \<and>
                          wres_dma_received_bytes (sv_final_result s1 ! 0) \<noteq>
                            wres_dma_received_bytes (sv_final_result s1 ! 1)
                       then let s2 = fail_task_result s1 0 (sv_final_result s1 ! 0)
                                       STORAGE_ERR_BYTE_MISMATCH ''split_channel_byte_mismatch''
                            in (sv_terminal s2, s2)
                       else (STORAGE_TASK_SUCCESS, s1\<lparr>sv_terminal := STORAGE_TASK_SUCCESS\<rparr>))"

definition storage_supervisor_mark_unavailable ::
  "StorageTaskSupervisor \<Rightarrow> u32 \<Rightarrow> string option \<Rightarrow> StorageTaskSupervisor" where
  "storage_supervisor_mark_unavailable s ch reason =
     (let b = channel_bit ch
      in if b = 0 \<or> sv_target_channel_mask s AND b = 0 then s
         else let s1 = s\<lparr>sv_worker_exited_mask := sv_worker_exited_mask s OR b,
                         sv_unavailable_mask := sv_unavailable_mask s OR b\<rparr>;
                  s2 = supervisor_fail s1 ch STORAGE_ERR_WORKER_EXIT (Some (text_or reason ''worker_unavailable''))
              in snd (storage_supervisor_result_status s2))"

definition sequence_fail ::
  "StorageTaskSupervisor \<Rightarrow> u32 \<Rightarrow> string \<Rightarrow> int \<times> StorageTaskSupervisor" where
  "sequence_fail s ch reason = (-1, supervisor_fail s ch STORAGE_ERR_IPC_SEQUENCE (Some reason))"

text \<open>The branches of the event switch, in its order; \<open>b\<close> is the channel's bit.\<close>

definition handle_ready :: "StorageTaskSupervisor \<Rightarrow> u32 \<Rightarrow> u32 \<Rightarrow> int \<times> StorageTaskSupervisor" where
  "handle_ready s ch b =
     (if sv_ready_mask s AND b \<noteq> 0 \<or> sv_armed_mask s AND b \<noteq> 0 \<or> sv_running_mask s AND b \<noteq> 0
      then sequence_fail s ch ''invalid_ready_sequence''
      else (0, s\<lparr>sv_ready_mask := sv_ready_mask s OR b\<rparr>))"

definition handle_armed :: "StorageTaskSupervisor \<Rightarrow> u32 \<Rightarrow> u32 \<Rightarrow> int \<times> StorageTaskSupervisor" where
  "handle_armed s ch b =
     (if sv_ready_mask s AND b = 0 \<or> sv_armed_mask s AND b \<noteq> 0 \<or> sv_running_mask s AND b \<noteq> 0
      then sequence_fail s ch ''invalid_armed_sequence''
      else (0, s\<lparr>sv_armed_mask := sv_armed_mask s OR b\<rparr>))"

definition handle_running :: "StorageTaskSupervisor \<Rightarrow> u32 \<Rightarrow> u32 \<Rightarrow> int \<times> StorageTaskSupervisor" where
  "handle_running s ch b =
     (if sv_armed_mask s AND b = 0 \<or> sv_running_mask s AND b \<noteq> 0
      then sequence_fail s ch ''invalid_running_sequence''
      else (0, s\<lparr>sv_running_mask := sv_running_mask s OR b\<rparr>))"

definition handle_idle_candidate :: "StorageTaskSupervisor \<Rightarrow> u32 \<Rightarrow> u32 \<Rightarrow> int \<times> StorageTaskSupervisor" where
  "handle_idle_candidate s ch b =
     (if sv_running_mask s AND b = 0 \<or> sv_drained_mask s AND b \<noteq> 0 \<or> sv_final_seen_mask s AND b \<noteq> 0
      then sequence_fail s ch ''invalid_input_idle_sequence''
      else (0, s\<lparr>sv_idle_candidate_mask := sv_idle_candidate_mask s OR b\<rparr>))"

definition handle_input_active :: "StorageTaskSupervisor \<Rightarrow> u32 \<Rightarrow> u32 \<Rightarrow> int \<times> StorageTaskSupervisor" where
  "handle_input_active s ch b =
     (if sv_running_mask s AND b = 0 \<or> sv_drained_mask s AND b \<noteq> 0 \<or> sv_final_seen_mask s AND b \<noteq> 0 \<or>
         sv_auto_drain_triggered s
      then sequence_fail s ch ''invalid_input_active_sequence''
      else (0, s\<lparr>sv_idle_candidate_mask := sv_idle_candidate_mask s AND NOT b\<rparr>))"

definition handle_drain_ready ::
  "StorageTaskSupervisor \<Rightarrow> u32 \<Rightarrow> u32 \<Rightarrow> WorkerDrainReadyPayload \<Rightarrow> int \<times> StorageTaskSupervisor" where
  "handle_drain_ready s ch b d =
     (if sv_running_mask s AND b = 0 \<or> sv_drained_mask s AND b \<noteq> 0 \<or> sv_final_seen_mask s AND b \<noteq> 0 \<or>
         wd_drain_epoch d = 0
      then sequence_fail s ch ''invalid_drained_sequence''
      else let s1 = (if sv_stop_epoch s = 0 then s\<lparr>sv_stop_epoch := wd_drain_epoch d\<rparr> else s)
           in if sv_stop_epoch s1 \<noteq> wd_drain_epoch d then sequence_fail s1 ch ''drain_epoch_mismatch''
              else (0, s1\<lparr>sv_drained_mask := sv_drained_mask s1 OR b,
                          sv_drain_result := (sv_drain_result s1)[unat ch := d]\<rparr>))"

definition handle_fatal ::
  "StorageTaskSupervisor \<Rightarrow> u32 \<Rightarrow> u32 \<Rightarrow> WorkerFatalPayload \<Rightarrow> int \<times> StorageTaskSupervisor" where
  "handle_fatal s ch b f =
     (if sv_final_seen_mask s AND b \<noteq> 0 \<or> sv_fatal_seen_mask s AND b \<noteq> 0
      then sequence_fail s ch ''invalid_fatal_sequence''
      else (0, supervisor_fail (s\<lparr>sv_fatal_seen_mask := sv_fatal_seen_mask s OR b\<rparr>) ch
                 (wf_error_code f) (Some (wf_reason f))))"

definition handle_final ::
  "StorageTaskSupervisor \<Rightarrow> u32 \<Rightarrow> u32 \<Rightarrow> WriteResult \<Rightarrow> int \<times> StorageTaskSupervisor" where
  "handle_final s ch b r =
     (if sv_final_seen_mask s AND b \<noteq> 0 then sequence_fail s ch ''duplicate_final''
      else if sv_drained_mask s AND b = 0 \<and> sv_fatal_seen_mask s AND b = 0
      then sequence_fail s ch ''invalid_final_sequence''
      else (0, s\<lparr>sv_final_seen_mask := sv_final_seen_mask s OR b,
                 sv_final_result := (sv_final_result s)[unat ch := r]\<rparr>))"

definition handle_perf :: "StorageTaskSupervisor \<Rightarrow> u32 \<Rightarrow> u32 \<Rightarrow> int \<times> StorageTaskSupervisor" where
  "handle_perf s ch b =
     (if sv_running_mask s AND b = 0 \<or> sv_final_seen_mask s AND b \<noteq> 0
      then sequence_fail s ch ''invalid_perf_sequence'' else (0, s))"

definition handle_diag :: "StorageTaskSupervisor \<Rightarrow> u32 \<Rightarrow> u32 \<Rightarrow> int \<times> StorageTaskSupervisor" where
  "handle_diag s ch b =
     (if sv_running_mask s AND b = 0 \<and> sv_fatal_seen_mask s AND b = 0 \<and> sv_final_seen_mask s AND b = 0
      then sequence_fail s ch ''invalid_diag_sequence'' else (0, s))"

definition handle_stop_phase ::
  "StorageTaskSupervisor \<Rightarrow> u32 \<Rightarrow> u32 \<Rightarrow> WorkerPhasePayload \<Rightarrow> int \<times> StorageTaskSupervisor" where
  "handle_stop_phase s ch b p =
     (if sv_running_mask s AND b = 0 \<or> sv_final_seen_mask s AND b \<noteq> 0 \<or> wp_stop_epoch p = 0 \<or>
         wp_stop_phase p < STORAGE_WORKER_STOP_REQUESTED \<or> STORAGE_WORKER_FAILED_FATAL < wp_stop_phase p
      then sequence_fail s ch ''invalid_stop_phase_event''
      else let s1 = (if sv_stop_epoch s = 0 then s\<lparr>sv_stop_epoch := wp_stop_epoch p\<rparr> else s);
               current = sv_stop_phase s1 ! unat ch
           in if sv_stop_epoch s1 \<noteq> wp_stop_epoch p then sequence_fail s1 ch ''stop_epoch_mismatch''
              else if wp_stop_phase p = STORAGE_WORKER_FAILED_FATAL \<and> current = STORAGE_WORKER_FAILED_FATAL
              then sequence_fail s1 ch ''duplicate_stop_phase''
              else if wp_stop_phase p \<noteq> STORAGE_WORKER_FAILED_FATAL \<and>
                      wp_stop_phase p \<noteq> current + 1 \<and>
                      \<not> (current = STORAGE_WORKER_STOP_REQUESTED \<and>
                         wp_stop_phase p = STORAGE_WORKER_DMA_QUIESCED \<and>
                         wp_error_code p = STORAGE_ERR_STOP_BOUNDARY_TIMEOUT)
              then sequence_fail s1 ch ''invalid_stop_phase_sequence''
              else (0, s1\<lparr>sv_stop_phase := (sv_stop_phase s1)[unat ch := wp_stop_phase p]\<rparr>))"

definition dispatch_event ::
  "StorageTaskSupervisor \<Rightarrow> StorageWorkerEvent \<Rightarrow> u32 \<Rightarrow> int \<times> StorageTaskSupervisor" where
  "dispatch_event s e b =
     (let t = ev_type e; ch = ev_channel e
      in if t = STORAGE_WORKER_READY then handle_ready s ch b
         else if t = STORAGE_WORKER_ARMED then handle_armed s ch b
         else if t = STORAGE_WORKER_RUNNING then handle_running s ch b
         else if t = STORAGE_WORKER_INPUT_IDLE_CANDIDATE then handle_idle_candidate s ch b
         else if t = STORAGE_WORKER_INPUT_ACTIVE then handle_input_active s ch b
         else if t = STORAGE_WORKER_DRAIN_READY then handle_drain_ready s ch b (ev_drain_ready e)
         else if t = STORAGE_WORKER_FATAL then handle_fatal s ch b (ev_fatal e)
         else if t = STORAGE_WORKER_FINAL_RESULT then handle_final s ch b (wn_result (ev_final e))
         else if t = STORAGE_WORKER_PERF_SAMPLE then handle_perf s ch b
         else if t = STORAGE_WORKER_DIAG_EVENT then handle_diag s ch b
         else if t = STORAGE_WORKER_STOP_PHASE then handle_stop_phase s ch b (ev_phase e)
         else (-1, supervisor_fail s ch STORAGE_ERR_IPC (Some ''event_type_invalid'')))"

definition storage_supervisor_handle_event ::
  "StorageTaskSupervisor \<Rightarrow> StorageWorkerEvent \<Rightarrow> int \<times> StorageTaskSupervisor" where
  "storage_supervisor_handle_event s e =
     (let b = channel_bit (ev_channel e)
      in if b = 0 \<or> sv_target_channel_mask s AND b = 0 then (-1, s)
         else case dispatch_event s e b of
                (rc, s1) \<Rightarrow> if rc \<noteq> 0 then (rc, s1)
                             else (0, snd (storage_supervisor_result_status s1)))"

definition storage_supervisor_handle_event_for_channel ::
  "ipc_sizes \<Rightarrow> StorageTaskSupervisor \<Rightarrow> u32 \<Rightarrow> StorageWorkerEvent \<Rightarrow> int \<times> StorageTaskSupervisor" where
  "storage_supervisor_handle_event_for_channel sz s expected_channel e =
     (if \<not> storage_ipc_validate_event sz e
      then (-1, storage_supervisor_protocol_fail s expected_channel (Some ''event_protocol_invalid''))
      else if ev_channel e \<noteq> expected_channel
      then (-1, storage_supervisor_protocol_fail s expected_channel (Some ''event_channel_mismatch''))
      else storage_supervisor_handle_event s e)"

definition storage_supervisor_handle_worker_eof ::
  "StorageTaskSupervisor \<Rightarrow> u32 \<Rightarrow> int \<times> StorageTaskSupervisor" where
  "storage_supervisor_handle_worker_eof s ch =
     (let b = channel_bit ch
      in if b = 0 \<or> sv_target_channel_mask s AND b = 0 then (-1, s)
         else if sv_final_seen_mask s AND b \<noteq> 0 then (0, s)
         else let s1 = supervisor_fail s ch STORAGE_ERR_WORKER_EXIT (Some ''event_eof_without_final'');
                  s2 = s1\<lparr>sv_unavailable_mask := sv_unavailable_mask s1 OR b\<rparr>
              in (-1, snd (storage_supervisor_result_status s2)))"

definition storage_supervisor_handle_worker_exit ::
  "StorageTaskSupervisor \<Rightarrow> u32 \<Rightarrow> int \<Rightarrow> int \<times> StorageTaskSupervisor" where
  "storage_supervisor_handle_worker_exit s ch code =
     (let b = channel_bit ch
      in if b = 0 \<or> sv_target_channel_mask s AND b = 0 then (-1, s)
         else let s1 = s\<lparr>sv_worker_exited_mask := sv_worker_exited_mask s OR b\<rparr>
              in if sv_final_seen_mask s1 AND b = 0
                 then let s2 = (if code \<noteq> 0 then fail_worker_exit_without_final s1 ch
                                else supervisor_fail s1 ch STORAGE_ERR_WORKER_EXIT
                                       (Some ''event_eof_without_final''));
                          s3 = s2\<lparr>sv_unavailable_mask := sv_unavailable_mask s2 OR b\<rparr>
                      in (-1, snd (storage_supervisor_result_status s3))
                 else if code \<noteq> 0
                 then (-1, snd (storage_supervisor_result_status
                             (supervisor_fail s1 ch STORAGE_ERR_WORKER_EXIT (Some ''worker_exit_failed''))))
                 else (0, snd (storage_supervisor_result_status s1)))"

definition storage_supervisor_stop_mask :: "StorageTaskSupervisor \<Rightarrow> u32" where
  "storage_supervisor_stop_mask s = sv_stop_requested_mask s"

definition storage_supervisor_auto_drain_ready :: "StorageTaskSupervisor \<Rightarrow> bool" where
  "storage_supervisor_auto_drain_ready s \<longleftrightarrow>
     \<not> sv_auto_drain_triggered s \<and> sv_target_channel_mask s \<noteq> 0 \<and>
     sv_idle_candidate_mask s AND sv_target_channel_mask s = sv_target_channel_mask s"

definition storage_supervisor_begin_auto_drain ::
  "StorageTaskSupervisor \<Rightarrow> u64 \<Rightarrow> bool \<times> StorageTaskSupervisor" where
  "storage_supervisor_begin_auto_drain s drain_epoch =
     (if \<not> storage_supervisor_auto_drain_ready s \<or> drain_epoch = 0 then (False, s)
      else (True, s\<lparr>sv_auto_drain_triggered := True, sv_auto_drain_epoch := drain_epoch\<rparr>))"

definition storage_supervisor_auto_drain_pending_mask :: "StorageTaskSupervisor \<Rightarrow> u32" where
  "storage_supervisor_auto_drain_pending_mask s =
     (if sv_auto_drain_triggered s then sv_target_channel_mask s AND NOT (sv_auto_drain_sent_mask s) else 0)"

definition storage_supervisor_mark_auto_drain_sent ::
  "StorageTaskSupervisor \<Rightarrow> u32 \<Rightarrow> StorageTaskSupervisor" where
  "storage_supervisor_mark_auto_drain_sent s channel =
     (let b = channel_bit channel
      in if sv_auto_drain_triggered s \<and> sv_target_channel_mask s AND b \<noteq> 0
         then s\<lparr>sv_auto_drain_sent_mask := sv_auto_drain_sent_mask s OR b\<rparr> else s)"

definition storage_supervisor_request_stop :: "StorageTaskSupervisor \<Rightarrow> u32 \<Rightarrow> StorageTaskSupervisor" where
  "storage_supervisor_request_stop s channel_mask =
     s\<lparr>sv_stop_requested_mask := sv_stop_requested_mask s OR (channel_mask AND sv_target_channel_mask s)\<rparr>"

definition storage_supervisor_peek_stop_mask :: "StorageTaskSupervisor \<Rightarrow> u32" where
  "storage_supervisor_peek_stop_mask s = sv_stop_requested_mask s AND NOT (sv_stop_sent_mask s)"

definition storage_supervisor_mark_stop_sent :: "StorageTaskSupervisor \<Rightarrow> u32 \<Rightarrow> StorageTaskSupervisor" where
  "storage_supervisor_mark_stop_sent s ch =
     (let b = channel_bit ch
      in if sv_stop_requested_mask s AND b \<noteq> 0
         then s\<lparr>sv_stop_sent_mask := sv_stop_sent_mask s OR b,
                sv_stop_failed_mask := sv_stop_failed_mask s AND NOT b\<rparr> else s)"

definition storage_supervisor_mark_stop_failed :: "StorageTaskSupervisor \<Rightarrow> u32 \<Rightarrow> StorageTaskSupervisor" where
  "storage_supervisor_mark_stop_failed s ch =
     (let b = channel_bit ch
      in if sv_stop_requested_mask s AND b \<noteq> 0
         then s\<lparr>sv_stop_sent_mask := sv_stop_sent_mask s AND NOT b,
                sv_stop_failed_mask := sv_stop_failed_mask s OR b\<rparr> else s)"

definition storage_supervisor_is_terminal :: "StorageTaskSupervisor \<Rightarrow> bool" where
  "storage_supervisor_is_terminal s \<longleftrightarrow> sv_terminal s \<noteq> STORAGE_TASK_ACTIVE"

section \<open>Runs\<close>

datatype supervisor_op =
    WorkerEvent u32 StorageWorkerEvent
  | WorkerEof u32
  | WorkerExit u32 int
  | MarkUnavailable u32 "string option"
  | ProtocolFail u32 "string option"
  | BeginAutoDrain u64
  | AutoDrainSent u32
  | RequestStop u32
  | StopSent u32
  | StopFailed u32

primrec supervisor_step :: "ipc_sizes \<Rightarrow> StorageTaskSupervisor \<Rightarrow> supervisor_op \<Rightarrow> StorageTaskSupervisor" where
  "supervisor_step sz s (WorkerEvent ch e) = snd (storage_supervisor_handle_event_for_channel sz s ch e)"
| "supervisor_step sz s (WorkerEof ch) = snd (storage_supervisor_handle_worker_eof s ch)"
| "supervisor_step sz s (WorkerExit ch code) = snd (storage_supervisor_handle_worker_exit s ch code)"
| "supervisor_step sz s (MarkUnavailable ch reason) = storage_supervisor_mark_unavailable s ch reason"
| "supervisor_step sz s (ProtocolFail ch reason) = storage_supervisor_protocol_fail s ch reason"
| "supervisor_step sz s (BeginAutoDrain epoch) = snd (storage_supervisor_begin_auto_drain s epoch)"
| "supervisor_step sz s (AutoDrainSent ch) = storage_supervisor_mark_auto_drain_sent s ch"
| "supervisor_step sz s (RequestStop m) = storage_supervisor_request_stop s m"
| "supervisor_step sz s (StopSent ch) = storage_supervisor_mark_stop_sent s ch"
| "supervisor_step sz s (StopFailed ch) = storage_supervisor_mark_stop_failed s ch"

fun supervisor_run :: "ipc_sizes \<Rightarrow> StorageTaskSupervisor \<Rightarrow> supervisor_op list \<Rightarrow> StorageTaskSupervisor" where
  "supervisor_run sz s [] = s"
| "supervisor_run sz s (x # xs) = supervisor_run sz (supervisor_step sz s x) xs"

section \<open>Masks as sets of channels\<close>

definition mask_sub :: "u32 \<Rightarrow> u32 \<Rightarrow> bool" where
  "mask_sub m n \<longleftrightarrow> (\<forall>i. bit m i \<longrightarrow> bit n i)"

lemma bit_channel_bit: "bit (channel_bit ch) i \<longleftrightarrow> ch < NUM_CHANNELS \<and> i = unat ch"
proof (cases "ch < NUM_CHANNELS")
  case True
  then have "unat ch < 3" by (simp add: word_less_nat_alt)
  with True show ?thesis by (auto simp: channel_bit_def bit_simps)
qed (simp add: channel_bit_def)

lemma channel_bit_nz: "channel_bit ch \<noteq> 0 \<longleftrightarrow> ch < NUM_CHANNELS"
  by (metis bit_channel_bit bit_0_eq bot_apply bot_bool_def bit_eq_iff)

lemma and_channel_bit:
  assumes "channel_bit ch \<noteq> 0"
  shows "m AND channel_bit ch = 0 \<longleftrightarrow> \<not> bit m (unat ch)"
proof -
  have "m AND channel_bit ch = 0 \<longleftrightarrow> (\<forall>i. \<not> bit (m AND channel_bit ch) i)"
    by (metis bit_0_eq bit_eqI bot_apply bot_bool_def)
  also have "\<dots> \<longleftrightarrow> \<not> bit m (unat ch)"
    using assms by (auto simp: bit_and_iff bit_channel_bit channel_bit_nz)
  finally show ?thesis .
qed

lemma mask_sub_0 [simp]: "mask_sub 0 m"
  by (simp add: mask_sub_def)

lemma mask_sub_refl [simp]: "mask_sub m m"
  by (simp add: mask_sub_def)

lemma mask_sub_or: "mask_sub (m OR n) k \<longleftrightarrow> mask_sub m k \<and> mask_sub n k"
  by (auto simp: mask_sub_def bit_or_iff)

lemma mask_sub_or_right: "mask_sub m n \<Longrightarrow> mask_sub m (n OR k)" "mask_sub m n \<Longrightarrow> mask_sub m (k OR n)"
  by (auto simp: mask_sub_def bit_or_iff)

lemma mask_sub_and: "mask_sub m k \<Longrightarrow> mask_sub (m AND n) k" "mask_sub n k \<Longrightarrow> mask_sub (m AND n) k"
  by (auto simp: mask_sub_def bit_and_iff)

lemma mask_sub_trans: "mask_sub a b \<Longrightarrow> mask_sub b c \<Longrightarrow> mask_sub a c"
  by (auto simp: mask_sub_def)

lemma mask_sub_bit:
  assumes "channel_bit ch \<noteq> 0"
  shows "mask_sub (channel_bit ch) m \<longleftrightarrow> bit m (unat ch)"
  using assms by (auto simp: mask_sub_def bit_channel_bit channel_bit_nz)

lemma mask_sub_or_both: "mask_sub m n \<Longrightarrow> mask_sub (m OR b) (n OR b)"
  by (auto simp: mask_sub_def bit_or_iff)

section \<open>The order of a worker's events\<close>

text \<open>
  For every channel: armed only after ready, running only after armed, drained and idle only
  after running, a final result only after drained or fatal; stop bookkeeping stays inside the
  requested channels; nothing outside the target channels is ever recorded.
\<close>

definition mask_inv :: "StorageTaskSupervisor \<Rightarrow> bool" where
  "mask_inv s \<longleftrightarrow>
     mask_sub (sv_ready_mask s) (sv_target_channel_mask s) \<and>
     mask_sub (sv_armed_mask s) (sv_ready_mask s) \<and>
     mask_sub (sv_running_mask s) (sv_armed_mask s) \<and>
     mask_sub (sv_drained_mask s) (sv_running_mask s) \<and>
     mask_sub (sv_idle_candidate_mask s) (sv_running_mask s) \<and>
     mask_sub (sv_fatal_seen_mask s) (sv_target_channel_mask s) \<and>
     mask_sub (sv_final_seen_mask s) (sv_drained_mask s OR sv_fatal_seen_mask s) \<and>
     mask_sub (sv_unavailable_mask s) (sv_target_channel_mask s) \<and>
     mask_sub (sv_stop_requested_mask s) (sv_target_channel_mask s) \<and>
     mask_sub (sv_stop_sent_mask s) (sv_stop_requested_mask s) \<and>
     mask_sub (sv_stop_failed_mask s) (sv_stop_requested_mask s) \<and>
     sv_stop_sent_mask s AND sv_stop_failed_mask s = 0 \<and>
     mask_sub (sv_auto_drain_sent_mask s) (sv_target_channel_mask s)"

text \<open>What the failure path and the verdict leave alone.\<close>

lemma supervisor_fail_masks [simp]:
  "sv_target_channel_mask (supervisor_fail s ch c r) = sv_target_channel_mask s"
  "sv_ready_mask (supervisor_fail s ch c r) = sv_ready_mask s"
  "sv_armed_mask (supervisor_fail s ch c r) = sv_armed_mask s"
  "sv_running_mask (supervisor_fail s ch c r) = sv_running_mask s"
  "sv_drained_mask (supervisor_fail s ch c r) = sv_drained_mask s"
  "sv_final_seen_mask (supervisor_fail s ch c r) = sv_final_seen_mask s"
  "sv_idle_candidate_mask (supervisor_fail s ch c r) = sv_idle_candidate_mask s"
  "sv_auto_drain_sent_mask (supervisor_fail s ch c r) = sv_auto_drain_sent_mask s"
  "sv_fatal_seen_mask (supervisor_fail s ch c r) = sv_fatal_seen_mask s"
  "sv_unavailable_mask (supervisor_fail s ch c r) = sv_unavailable_mask s"
  "sv_stop_sent_mask (supervisor_fail s ch c r) = sv_stop_sent_mask s"
  "sv_stop_failed_mask (supervisor_fail s ch c r) = sv_stop_failed_mask s"
  "sv_stop_requested_mask (supervisor_fail s ch c r) =
     sv_stop_requested_mask s OR (sv_target_channel_mask s AND NOT (sv_final_seen_mask s))"
  by (simp_all add: supervisor_fail_def Let_def split_beta)

lemma supervisor_fail_verdict [simp]:
  "sv_final_result (supervisor_fail s ch c r) = sv_final_result s"
  "sv_stop_phase (supervisor_fail s ch c r) = sv_stop_phase s"
  "sv_stop_epoch (supervisor_fail s ch c r) = sv_stop_epoch s"
  "sv_aggregate_ready (supervisor_fail s ch c r) = sv_aggregate_ready s"
  "sv_result_known_failed (supervisor_fail s ch c r)"
  "sv_terminal (supervisor_fail s ch c r) =
     (if sv_aggregate_ready s then STORAGE_TASK_FAILED else sv_terminal s)"
  by (simp_all add: supervisor_fail_def Let_def split_beta)

lemma supervisor_fail_error [simp]:
  "sv_primary_error (supervisor_fail s ch c r) \<noteq> STORAGE_ERR_NONE"
  "sv_first_fatal (supervisor_fail s ch c r) \<longleftrightarrow>
     sv_first_fatal s \<or> sv_primary_error s = STORAGE_ERR_NONE"
  by (auto simp: supervisor_fail_def Let_def split_beta storage_error_record_def)

lemma fail_task_result_fields [simp]:
  "sv_target_channel_mask (fail_task_result s ch r c t) = sv_target_channel_mask s"
  "sv_ready_mask (fail_task_result s ch r c t) = sv_ready_mask s"
  "sv_armed_mask (fail_task_result s ch r c t) = sv_armed_mask s"
  "sv_running_mask (fail_task_result s ch r c t) = sv_running_mask s"
  "sv_drained_mask (fail_task_result s ch r c t) = sv_drained_mask s"
  "sv_final_seen_mask (fail_task_result s ch r c t) = sv_final_seen_mask s"
  "sv_idle_candidate_mask (fail_task_result s ch r c t) = sv_idle_candidate_mask s"
  "sv_auto_drain_sent_mask (fail_task_result s ch r c t) = sv_auto_drain_sent_mask s"
  "sv_fatal_seen_mask (fail_task_result s ch r c t) = sv_fatal_seen_mask s"
  "sv_unavailable_mask (fail_task_result s ch r c t) = sv_unavailable_mask s"
  "sv_stop_sent_mask (fail_task_result s ch r c t) = sv_stop_sent_mask s"
  "sv_stop_failed_mask (fail_task_result s ch r c t) = sv_stop_failed_mask s"
  "sv_stop_requested_mask (fail_task_result s ch r c t) = sv_stop_requested_mask s"
  "sv_aggregate_ready (fail_task_result s ch r c t) = sv_aggregate_ready s"
  "sv_final_result (fail_task_result s ch r c t) = sv_final_result s"
  "sv_stop_phase (fail_task_result s ch r c t) = sv_stop_phase s"
  "sv_result_known_failed (fail_task_result s ch r c t)"
  "sv_terminal (fail_task_result s ch r c t) = STORAGE_TASK_FAILED"
  by (simp_all add: fail_task_result_def Let_def split_beta)

lemma fail_task_result_error [simp]:
  "sv_primary_error (fail_task_result s ch r c t) \<noteq> STORAGE_ERR_NONE"
  by (auto simp: fail_task_result_def Let_def split_beta storage_error_record_def)

lemma result_status_masks [simp]:
  fixes s defines "s' \<equiv> snd (storage_supervisor_result_status s)"
  shows "sv_target_channel_mask s' = sv_target_channel_mask s" "sv_ready_mask s' = sv_ready_mask s"
    "sv_armed_mask s' = sv_armed_mask s" "sv_running_mask s' = sv_running_mask s"
    "sv_drained_mask s' = sv_drained_mask s" "sv_final_seen_mask s' = sv_final_seen_mask s"
    "sv_idle_candidate_mask s' = sv_idle_candidate_mask s"
    "sv_auto_drain_sent_mask s' = sv_auto_drain_sent_mask s"
    "sv_fatal_seen_mask s' = sv_fatal_seen_mask s" "sv_unavailable_mask s' = sv_unavailable_mask s"
    "sv_stop_sent_mask s' = sv_stop_sent_mask s" "sv_stop_failed_mask s' = sv_stop_failed_mask s"
    "sv_stop_requested_mask s' = sv_stop_requested_mask s"
    "sv_final_result s' = sv_final_result s" "sv_stop_phase s' = sv_stop_phase s"
  by (auto simp: s'_def storage_supervisor_result_status_def Let_def split: option.splits prod.splits)

lemma mask_inv_fail: "mask_inv s \<Longrightarrow> mask_inv (supervisor_fail s ch c r)"
  by (auto simp: mask_inv_def mask_sub_or intro: mask_sub_or_right mask_sub_and)

lemma mask_inv_status: "mask_inv (snd (storage_supervisor_result_status s)) = mask_inv s"
  by (simp add: mask_inv_def)

lemma mask_inv_init: "mask_inv (storage_supervisor_init m)"
  by (simp add: mask_inv_def storage_supervisor_init_def)

lemmas handler_defs =
  handle_ready_def handle_armed_def handle_running_def handle_idle_candidate_def handle_input_active_def
  handle_drain_ready_def handle_fatal_def handle_final_def handle_perf_def handle_diag_def
  handle_stop_phase_def sequence_fail_def Let_def

lemma mask_bits:
  assumes "channel_bit ch \<noteq> 0"
  shows "bit (m OR channel_bit ch) i \<longleftrightarrow> bit m i \<or> i = unat ch"
    and "bit (m AND NOT (channel_bit ch)) i \<longleftrightarrow> bit m i \<and> i \<noteq> unat ch"
proof -
  show "bit (m OR channel_bit ch) i \<longleftrightarrow> bit m i \<or> i = unat ch"
    using assms by (auto simp: bit_or_iff bit_channel_bit channel_bit_nz)
  show "bit (m AND NOT (channel_bit ch)) i \<longleftrightarrow> bit m i \<and> i \<noteq> unat ch"
    using assms by (auto simp: bit_and_iff bit_not_iff bit_channel_bit channel_bit_nz dest: bit_imp_le_length)
qed

lemma mask_disjoint: "m AND n = 0 \<longleftrightarrow> (\<forall>i. \<not> (bit m i \<and> bit (n::u32) i))"
proof
  assume "m AND n = 0"
  then have "\<not> bit (m AND n) i" for i by simp
  then show "\<forall>i. \<not> (bit m i \<and> bit n i)" by (simp add: bit_and_iff)
next
  assume "\<forall>i. \<not> (bit m i \<and> bit n i)"
  then show "m AND n = 0" by (intro bit_word_eqI) (simp add: bit_and_iff)
qed

lemma mask_inv_alt:
  "mask_inv s \<longleftrightarrow> (\<forall>i.
     (bit (sv_ready_mask s) i \<longrightarrow> bit (sv_target_channel_mask s) i) \<and>
     (bit (sv_armed_mask s) i \<longrightarrow> bit (sv_ready_mask s) i) \<and>
     (bit (sv_running_mask s) i \<longrightarrow> bit (sv_armed_mask s) i) \<and>
     (bit (sv_drained_mask s) i \<longrightarrow> bit (sv_running_mask s) i) \<and>
     (bit (sv_idle_candidate_mask s) i \<longrightarrow> bit (sv_running_mask s) i) \<and>
     (bit (sv_fatal_seen_mask s) i \<longrightarrow> bit (sv_target_channel_mask s) i) \<and>
     (bit (sv_final_seen_mask s) i \<longrightarrow> bit (sv_drained_mask s) i \<or> bit (sv_fatal_seen_mask s) i) \<and>
     (bit (sv_unavailable_mask s) i \<longrightarrow> bit (sv_target_channel_mask s) i) \<and>
     (bit (sv_stop_requested_mask s) i \<longrightarrow> bit (sv_target_channel_mask s) i) \<and>
     (bit (sv_stop_sent_mask s) i \<longrightarrow> bit (sv_stop_requested_mask s) i) \<and>
     (bit (sv_stop_failed_mask s) i \<longrightarrow> bit (sv_stop_requested_mask s) i) \<and>
     \<not> (bit (sv_stop_sent_mask s) i \<and> bit (sv_stop_failed_mask s) i) \<and>
     (bit (sv_auto_drain_sent_mask s) i \<longrightarrow> bit (sv_target_channel_mask s) i))"
  unfolding mask_inv_def mask_disjoint mask_sub_def bit_or_iff by blast

lemma mask_inv_sequence_fail: "mask_inv s \<Longrightarrow> mask_inv (snd (sequence_fail s ch r))"
  by (simp add: sequence_fail_def mask_inv_fail)

lemma mask_inv_epoch [simp]: "mask_inv (s\<lparr>sv_stop_epoch := e\<rparr>) = mask_inv s"
  by (simp add: mask_inv_def)

lemma mask_inv_phase [simp]:
  "mask_inv (s\<lparr>sv_stop_phase := p\<rparr>) = mask_inv s"
  "mask_inv (s\<lparr>sv_stop_epoch := e, sv_stop_phase := p\<rparr>) = mask_inv s"
  by (simp_all add: mask_inv_def)

lemma mask_inv_dispatch:
  assumes inv: "mask_inv s" and b: "channel_bit (ev_channel e) \<noteq> 0"
    and tgt: "sv_target_channel_mask s AND channel_bit (ev_channel e) \<noteq> 0"
  shows "mask_inv (snd (dispatch_event s e (channel_bit (ev_channel e))))"
proof -
  note bits = and_channel_bit [OF b] mask_bits [OF b]
  note t = tgt [unfolded and_channel_bit [OF b], simplified]
  note sf = mask_inv_sequence_fail [OF inv]
  have sfe: "mask_inv (snd (sequence_fail (s\<lparr>sv_stop_epoch := x\<rparr>) ch r))" for x ch r
    by (simp add: mask_inv_sequence_fail mask_inv_epoch inv)
  let ?b = "channel_bit (ev_channel e)" and ?ch = "ev_channel e"
  have "mask_inv (snd (handle_ready s ?ch ?b))" "mask_inv (snd (handle_armed s ?ch ?b))"
    "mask_inv (snd (handle_running s ?ch ?b))"
    using sf inv t by (auto simp: handle_ready_def handle_armed_def handle_running_def bits mask_inv_alt)
  moreover have "mask_inv (snd (handle_idle_candidate s ?ch ?b))" "mask_inv (snd (handle_input_active s ?ch ?b))"
    "mask_inv (snd (handle_perf s ?ch ?b))" "mask_inv (snd (handle_diag s ?ch ?b))"
    using sf inv t by (auto simp: handle_idle_candidate_def handle_input_active_def handle_perf_def
        handle_diag_def bits mask_inv_alt)
  moreover have "mask_inv (snd (handle_final s ?ch ?b (wn_result (ev_final e))))"
    using sf inv t by (auto simp: handle_final_def bits mask_inv_alt)
  moreover have "mask_inv (snd (handle_drain_ready s ?ch ?b (ev_drain_ready e)))"
    using sf sfe inv t by (auto simp: handle_drain_ready_def Let_def bits mask_inv_alt)
  moreover have "mask_inv (snd (handle_stop_phase s ?ch ?b (ev_phase e)))"
    using sf sfe by (auto simp: handle_stop_phase_def Let_def mask_inv_phase inv)
  moreover have "mask_inv (s\<lparr>sv_fatal_seen_mask := sv_fatal_seen_mask s OR ?b\<rparr>)"
    using inv t by (auto simp: bits mask_inv_alt)
  then have "mask_inv (snd (handle_fatal s ?ch ?b (ev_fatal e)))"
    using sf by (auto simp: handle_fatal_def mask_inv_fail)
  ultimately show ?thesis
    by (simp add: dispatch_event_def Let_def mask_inv_fail inv)
qed

lemma mask_inv_unavailable:
  assumes "mask_inv s" "channel_bit ch \<noteq> 0" "sv_target_channel_mask s AND channel_bit ch \<noteq> 0"
  shows "mask_inv (s\<lparr>sv_unavailable_mask := sv_unavailable_mask s OR channel_bit ch\<rparr>)"
  using assms by (auto simp: mask_inv_alt and_channel_bit mask_bits)

lemma mask_inv_exited [simp]: "mask_inv (s\<lparr>sv_worker_exited_mask := w\<rparr>) = mask_inv s"
  by (simp add: mask_inv_def)

lemma mask_inv_event:
  assumes "mask_inv s"
  shows "mask_inv (snd (storage_supervisor_handle_event s e))"
  using assms mask_inv_dispatch [OF assms]
  by (auto simp: storage_supervisor_handle_event_def Let_def split_beta mask_inv_status)

lemma mask_inv_fail_unavailable:
  assumes "mask_inv s" "channel_bit ch \<noteq> 0" "sv_target_channel_mask s AND channel_bit ch \<noteq> 0"
  shows "mask_inv ((supervisor_fail s ch' c r)\<lparr>sv_unavailable_mask := sv_unavailable_mask s OR channel_bit ch\<rparr>)"
  using mask_inv_unavailable [OF mask_inv_fail [OF assms(1)] assms(2)] assms(3) by simp

lemma mask_inv_worker_gone:
  assumes "mask_inv s"
  shows "mask_inv (snd (storage_supervisor_handle_worker_eof s ch))"
    and "mask_inv (snd (storage_supervisor_handle_worker_exit s ch code))"
    and "mask_inv (storage_supervisor_mark_unavailable s ch reason)"
proof -
  have w: "mask_inv (s\<lparr>sv_worker_exited_mask := w\<rparr>)" for w using assms by simp
  note uw = mask_inv_fail_unavailable [OF w, simplified]
  show "mask_inv (snd (storage_supervisor_handle_worker_eof s ch))"
    using assms mask_inv_fail_unavailable [OF assms]
    by (simp add: storage_supervisor_handle_worker_eof_def Let_def mask_inv_status)
  show "mask_inv (snd (storage_supervisor_handle_worker_exit s ch code))"
    using assms uw by (simp add: storage_supervisor_handle_worker_exit_def Let_def mask_inv_status
        fail_worker_exit_without_final_def mask_inv_fail)
  show "mask_inv (storage_supervisor_mark_unavailable s ch reason)"
    using assms mask_inv_fail [OF mask_inv_unavailable [OF w]]
    by (simp add: storage_supervisor_mark_unavailable_def Let_def mask_inv_status)
qed

lemma mask_inv_step:
  assumes "mask_inv s"
  shows "mask_inv (supervisor_step sz s x)"
proof (cases x)
  case (BeginAutoDrain e)
  with assms show ?thesis by (simp add: storage_supervisor_begin_auto_drain_def mask_inv_def)
next
  case (AutoDrainSent ch)
  with assms show ?thesis
    by (cases "channel_bit ch = 0")
      (auto simp: storage_supervisor_mark_auto_drain_sent_def Let_def and_channel_bit mask_bits mask_inv_alt)
next
  case (RequestStop m)
  with assms show ?thesis
    by (auto simp: storage_supervisor_request_stop_def mask_inv_alt bit_or_iff bit_and_iff)
next
  case (StopSent ch)
  with assms show ?thesis
    by (cases "channel_bit ch = 0")
      (auto simp: storage_supervisor_mark_stop_sent_def Let_def and_channel_bit mask_bits mask_inv_alt)
next
  case (StopFailed ch)
  with assms show ?thesis
    by (cases "channel_bit ch = 0")
      (auto simp: storage_supervisor_mark_stop_failed_def Let_def and_channel_bit mask_bits mask_inv_alt)
qed (use assms in \<open>auto simp: storage_supervisor_handle_event_for_channel_def mask_inv_event
    mask_inv_worker_gone storage_supervisor_protocol_fail_def mask_inv_fail\<close>)

lemma mask_inv_run: "mask_inv s \<Longrightarrow> mask_inv (supervisor_run sz s xs)"
  by (induction xs arbitrary: s) (simp_all add: mask_inv_step)

section \<open>The verdict\<close>

text \<open>Every target channel passed its checks, and the two halves of a split capture agree.\<close>

definition results_accepted :: "StorageTaskSupervisor \<Rightarrow> bool" where
  "results_accepted s \<longleftrightarrow>
     (\<forall>i<3. bit (sv_target_channel_mask s) i \<longrightarrow> channel_fault (sv_final_result s ! i) = None) \<and>
     (sv_target_channel_mask s AND 3 = 3 \<longrightarrow>
        wres_dma_received_bytes (sv_final_result s ! 0) = wres_dma_received_bytes (sv_final_result s ! 1))"

definition verdict_pre :: "StorageTaskSupervisor \<Rightarrow> bool" where
  "verdict_pre s \<longleftrightarrow>
     (sv_aggregate_ready s \<longleftrightarrow> sv_terminal s \<noteq> STORAGE_TASK_ACTIVE) \<and>
     (sv_result_known_failed s \<longleftrightarrow> sv_primary_error s \<noteq> STORAGE_ERR_NONE) \<and>
     (sv_first_fatal s \<longrightarrow> sv_result_known_failed s) \<and>
     (sv_result_known_failed s \<and> sv_terminal s = STORAGE_TASK_ACTIVE \<longrightarrow> sv_first_fatal s) \<and>
     (sv_terminal s = STORAGE_TASK_FAILED \<longrightarrow> sv_result_known_failed s) \<and>
     (sv_unavailable_mask s \<noteq> 0 \<longrightarrow> sv_result_known_failed s) \<and>
     (sv_terminal s \<noteq> STORAGE_TASK_ACTIVE \<longrightarrow>
        sv_final_seen_mask s OR sv_unavailable_mask s = sv_target_channel_mask s) \<and>
     (sv_terminal s = STORAGE_TASK_SUCCESS \<longrightarrow> \<not> sv_result_known_failed s \<and> results_accepted s) \<and>
     (sv_result_known_failed s \<longrightarrow>
        mask_sub (sv_target_channel_mask s AND NOT (sv_final_seen_mask s)) (sv_stop_requested_mask s))"

definition verdict_inv :: "StorageTaskSupervisor \<Rightarrow> bool" where
  "verdict_inv s \<longleftrightarrow> verdict_pre s \<and>
     (sv_terminal s = STORAGE_TASK_ACTIVE \<longrightarrow>
        sv_final_seen_mask s OR sv_unavailable_mask s \<noteq> sv_target_channel_mask s)"

lemma terminal_cases: "t \<noteq> STORAGE_TASK_ACTIVE \<Longrightarrow> t \<noteq> STORAGE_TASK_SUCCESS \<Longrightarrow> t = STORAGE_TASK_FAILED"
  by (cases t) simp_all

lemma mask_sub_or_left: "mask_sub m (m OR n)" "mask_sub n (m OR n)"
  by (simp_all add: mask_sub_def bit_or_iff)

lemma verdict_pre_fail: "verdict_pre s \<Longrightarrow> verdict_pre (supervisor_fail s ch c r)"
  using terminal_cases [of "sv_terminal s"]
  by (auto simp: verdict_pre_def mask_sub_or_left)

lemma verdict_inv_fail: "verdict_inv s \<Longrightarrow> verdict_inv (supervisor_fail s ch c r)"
  by (auto simp: verdict_inv_def verdict_pre_fail split: if_splits)

lemma first_channel_fault_None:
  "first_channel_fault s xs = None \<longleftrightarrow>
     (\<forall>i\<in>set xs. sv_target_channel_mask s AND channel_bit i \<noteq> 0 \<longrightarrow>
        channel_fault (sv_final_result s ! unat i) = None)"
  by (induction xs) (auto split: option.splits)

lemma all_channels: "(\<forall>i<3::nat. P i) \<longleftrightarrow> P 0 \<and> P 1 \<and> P 2"
  by (auto simp: numeral_3_eq_3 numeral_2_eq_2 less_Suc_eq)

lemma all_channel_faults_None:
  "first_channel_fault s [0, 1, 2] = None \<longleftrightarrow>
     (\<forall>i<3. bit (sv_target_channel_mask s) i \<longrightarrow> channel_fault (sv_final_result s ! i) = None)"
proof -
  have "channel_bit 0 \<noteq> 0" "channel_bit 1 \<noteq> 0" "channel_bit 2 \<noteq> 0"
    by (simp_all add: channel_bit_nz)
  then show ?thesis
    by (simp add: first_channel_fault_None all_channels and_channel_bit del: first_channel_fault.simps)
qed

lemma first_channel_fault_aggregate [simp]:
  "first_channel_fault (s\<lparr>sv_aggregate_ready := a\<rparr>) xs = first_channel_fault s xs"
  by (induction xs) (auto split: option.splits)

lemma verdict_pre_task_result:
  assumes "verdict_pre s" "sv_final_seen_mask s = sv_target_channel_mask s" "sv_unavailable_mask s = 0"
  shows "verdict_inv (fail_task_result (s\<lparr>sv_aggregate_ready := True\<rparr>) ch r c t)"
  using assms by (simp add: verdict_inv_def verdict_pre_def)

lemma verdict_pre_success:
  assumes "verdict_pre s" "sv_final_seen_mask s = sv_target_channel_mask s" "sv_unavailable_mask s = 0"
    "\<not> sv_result_known_failed s" "results_accepted s"
  shows "verdict_inv (s\<lparr>sv_aggregate_ready := True, sv_terminal := STORAGE_TASK_SUCCESS\<rparr>)"
  using assms by (simp add: verdict_inv_def verdict_pre_def results_accepted_def)

lemma verdict_of_reported:
  assumes "verdict_pre s" "sv_terminal s = STORAGE_TASK_ACTIVE"
    "sv_final_seen_mask s = sv_target_channel_mask s" "\<not> sv_first_fatal s" "sv_unavailable_mask s = 0"
  shows "verdict_inv (snd (storage_supervisor_result_status s))"
proof (cases "first_channel_fault s [0, 1, 2]")
  case None
  from assms have "\<not> sv_result_known_failed s" by (auto simp: verdict_pre_def)
  moreover from None have "(\<forall>i<3. bit (sv_target_channel_mask s) i \<longrightarrow> channel_fault (sv_final_result s ! i) = None)"
    by (simp only: all_channel_faults_None)
  ultimately show ?thesis
    using assms None verdict_pre_task_result [of s] verdict_pre_success [of s]
    by (simp add: storage_supervisor_result_status_def results_accepted_def Let_def
        del: first_channel_fault.simps)
next
  case (Some f)
  then show ?thesis using assms verdict_pre_task_result [of s]
    by (simp add: storage_supervisor_result_status_def Let_def split: prod.splits
        del: first_channel_fault.simps)
qed

lemma verdict_of_status:
  assumes "verdict_pre s"
  shows "verdict_inv (snd (storage_supervisor_result_status s))"
proof -
  consider (decided) "sv_terminal s \<noteq> STORAGE_TASK_ACTIVE"
    | (waiting) "sv_terminal s = STORAGE_TASK_ACTIVE"
        "sv_final_seen_mask s OR sv_unavailable_mask s \<noteq> sv_target_channel_mask s"
    | (failed) "sv_terminal s = STORAGE_TASK_ACTIVE"
        "sv_final_seen_mask s OR sv_unavailable_mask s = sv_target_channel_mask s"
        "sv_first_fatal s \<or> sv_unavailable_mask s \<noteq> 0"
    | (reported) "sv_terminal s = STORAGE_TASK_ACTIVE"
        "sv_final_seen_mask s = sv_target_channel_mask s"
        "\<not> sv_first_fatal s" "sv_unavailable_mask s = 0"
    by (metis or.right_neutral)
  then show ?thesis
  proof cases
    case reported
    then show ?thesis by (rule verdict_of_reported [OF assms])
  qed (use assms in \<open>auto simp: storage_supervisor_result_status_def verdict_inv_def verdict_pre_def\<close>)
qed

lemma verdict_frame [simp]:
  "verdict_pre (s\<lparr>sv_ready_mask := m\<rparr>) = verdict_pre s"
  "verdict_pre (s\<lparr>sv_armed_mask := m\<rparr>) = verdict_pre s"
  "verdict_pre (s\<lparr>sv_running_mask := m\<rparr>) = verdict_pre s"
  "verdict_pre (s\<lparr>sv_idle_candidate_mask := m\<rparr>) = verdict_pre s"
  "verdict_pre (s\<lparr>sv_fatal_seen_mask := m\<rparr>) = verdict_pre s"
  "verdict_pre (s\<lparr>sv_worker_exited_mask := m\<rparr>) = verdict_pre s"
  "verdict_pre (s\<lparr>sv_auto_drain_sent_mask := m\<rparr>) = verdict_pre s"
  "verdict_pre (s\<lparr>sv_auto_drain_triggered := t, sv_auto_drain_epoch := e\<rparr>) = verdict_pre s"
  "verdict_pre (s\<lparr>sv_stop_sent_mask := m, sv_stop_failed_mask := m'\<rparr>) = verdict_pre s"
  "verdict_pre (s\<lparr>sv_stop_epoch := e\<rparr>) = verdict_pre s"
  "verdict_pre (s\<lparr>sv_stop_phase := p\<rparr>) = verdict_pre s"
  "verdict_pre (s\<lparr>sv_drained_mask := m, sv_drain_result := d\<rparr>) = verdict_pre s"
  by (simp_all add: verdict_pre_def results_accepted_def)

lemma verdict_inv_frame [simp]:
  "verdict_inv (s\<lparr>sv_fatal_seen_mask := m\<rparr>) = verdict_inv s"
  "verdict_inv (s\<lparr>sv_worker_exited_mask := m\<rparr>) = verdict_inv s"
  "verdict_inv (s\<lparr>sv_auto_drain_sent_mask := m\<rparr>) = verdict_inv s"
  "verdict_inv (s\<lparr>sv_auto_drain_triggered := t, sv_auto_drain_epoch := e\<rparr>) = verdict_inv s"
  "verdict_inv (s\<lparr>sv_stop_sent_mask := m, sv_stop_failed_mask := m'\<rparr>) = verdict_inv s"
  "verdict_inv (s\<lparr>sv_stop_epoch := e\<rparr>) = verdict_inv s"
  by (simp_all add: verdict_inv_def)

lemma mask_absorb:
  "mask_sub b t \<Longrightarrow> m OR n = t \<Longrightarrow> (m OR b) OR n = t"
  "mask_sub b t \<Longrightarrow> m OR n = t \<Longrightarrow> m OR (n OR b) = t"
  by (auto simp: mask_sub_def bit_or_iff intro!: bit_word_eqI)

lemma mask_sub_mono_not: "mask_sub (t AND NOT f) k \<Longrightarrow> mask_sub (t AND NOT (f OR b)) k"
  by (auto simp: mask_sub_def bit_or_iff bit_and_iff bit_not_iff)

lemma verdict_pre_final:
  assumes v: "verdict_pre s" and b: "channel_bit ch \<noteq> 0"
    and t: "sv_target_channel_mask s AND channel_bit ch \<noteq> 0"
    and new: "sv_final_seen_mask s AND channel_bit ch = 0"
  shows "verdict_pre (s\<lparr>sv_final_seen_mask := sv_final_seen_mask s OR channel_bit ch,
                       sv_final_result := (sv_final_result s)[unat ch := r]\<rparr>)"
proof -
  have "mask_sub (channel_bit ch) (sv_target_channel_mask s)"
    using t by (simp add: mask_sub_bit [OF b] and_channel_bit [OF b])
  moreover have "sv_terminal s \<noteq> STORAGE_TASK_SUCCESS"
  proof
    assume "sv_terminal s = STORAGE_TASK_SUCCESS"
    with v have "sv_final_seen_mask s = sv_target_channel_mask s" by (auto simp: verdict_pre_def)
    with t new show False by simp
  qed
  ultimately show ?thesis
    using v mask_sub_mono_not [of "sv_target_channel_mask s" "sv_final_seen_mask s" "sv_stop_requested_mask s"]
    by (auto simp: verdict_pre_def mask_absorb)
qed

lemma verdict_pre_fail_unavailable:
  assumes v: "verdict_pre s" and b: "channel_bit ch \<noteq> 0"
    and t: "sv_target_channel_mask s AND channel_bit ch \<noteq> 0"
  shows "verdict_pre ((supervisor_fail s ch' c r)\<lparr>sv_unavailable_mask := sv_unavailable_mask s OR channel_bit ch\<rparr>)"
    and "verdict_pre (supervisor_fail (s\<lparr>sv_worker_exited_mask := w,
                        sv_unavailable_mask := sv_unavailable_mask s OR channel_bit ch\<rparr>) ch' c r)"
proof -
  have "mask_sub (channel_bit ch) (sv_target_channel_mask s)"
    using t by (simp add: mask_sub_bit [OF b] and_channel_bit [OF b])
  then show "verdict_pre ((supervisor_fail s ch' c r)\<lparr>sv_unavailable_mask := sv_unavailable_mask s OR channel_bit ch\<rparr>)"
    and "verdict_pre (supervisor_fail (s\<lparr>sv_worker_exited_mask := w,
                        sv_unavailable_mask := sv_unavailable_mask s OR channel_bit ch\<rparr>) ch' c r)"
    using v terminal_cases [of "sv_terminal s"]
    by (auto simp: verdict_pre_def mask_absorb mask_sub_or_left)
qed

lemma verdict_dispatch:
  assumes v: "verdict_inv s" and b: "channel_bit (ev_channel e) \<noteq> 0"
    and t: "sv_target_channel_mask s AND channel_bit (ev_channel e) \<noteq> 0"
    and d: "dispatch_event s e (channel_bit (ev_channel e)) = (rc, s1)"
  shows "(rc = 0 \<longrightarrow> verdict_pre s1) \<and> (rc \<noteq> 0 \<longrightarrow> verdict_inv s1)"
proof -
  have "verdict_pre s" using v by (simp add: verdict_inv_def)
  then show ?thesis
    using d v verdict_pre_final [OF _ b t]
    by (auto simp: dispatch_event_def handler_defs verdict_inv_fail verdict_pre_fail split: if_splits)
qed

lemma verdict_event:
  assumes "verdict_inv s"
  shows "verdict_inv (snd (storage_supervisor_handle_event s e))"
  using assms verdict_dispatch [OF assms, of e] verdict_of_status
  by (auto simp: storage_supervisor_handle_event_def Let_def split: prod.splits)

lemma verdict_worker_gone:
  assumes "verdict_inv s"
  shows "verdict_inv (snd (storage_supervisor_handle_worker_eof s ch))"
    and "verdict_inv (snd (storage_supervisor_handle_worker_exit s ch code))"
    and "verdict_inv (storage_supervisor_mark_unavailable s ch reason)"
proof -
  have v: "verdict_pre s" using assms by (simp add: verdict_inv_def)
  have w: "verdict_pre (s\<lparr>sv_worker_exited_mask := w\<rparr>)" for w using v by simp
  show "verdict_inv (snd (storage_supervisor_handle_worker_eof s ch))"
    using assms verdict_of_status [OF verdict_pre_fail_unavailable(1) [OF v]]
    by (simp add: storage_supervisor_handle_worker_eof_def Let_def)
  show "verdict_inv (snd (storage_supervisor_handle_worker_exit s ch code))"
    using assms verdict_of_status [OF w] verdict_of_status [OF verdict_pre_fail [OF w]]
      verdict_of_status [OF verdict_pre_fail_unavailable(1) [OF w, simplified]]
    by (simp add: storage_supervisor_handle_worker_exit_def Let_def fail_worker_exit_without_final_def)
  show "verdict_inv (storage_supervisor_mark_unavailable s ch reason)"
    using assms verdict_of_status [OF verdict_pre_fail_unavailable(2) [OF v]]
    by (simp add: storage_supervisor_mark_unavailable_def Let_def)
qed

lemma verdict_request_stop: "verdict_inv s \<Longrightarrow> verdict_inv (storage_supervisor_request_stop s m)"
  by (auto simp: storage_supervisor_request_stop_def verdict_inv_def verdict_pre_def results_accepted_def
      intro: mask_sub_or_right)

lemma verdict_step: "verdict_inv s \<Longrightarrow> verdict_inv (supervisor_step sz s x)"
  by (cases x)
    (auto simp: storage_supervisor_handle_event_for_channel_def verdict_event verdict_worker_gone
      storage_supervisor_protocol_fail_def verdict_inv_fail verdict_request_stop
      storage_supervisor_begin_auto_drain_def storage_supervisor_mark_auto_drain_sent_def
      storage_supervisor_mark_stop_sent_def storage_supervisor_mark_stop_failed_def Let_def)

lemma verdict_run: "verdict_inv s \<Longrightarrow> verdict_inv (supervisor_run sz s xs)"
  by (induction xs arbitrary: s) (simp_all add: verdict_step)

lemma verdict_init: "m \<noteq> 0 \<Longrightarrow> verdict_inv (storage_supervisor_init m)"
  by (auto simp: storage_supervisor_init_def verdict_inv_def verdict_pre_def)

text \<open>What no operation ever takes back.\<close>

lemma dispatch_frame:
  "sv_target_channel_mask (snd (dispatch_event s e b)) = sv_target_channel_mask s"
  "sv_result_known_failed s \<Longrightarrow> sv_result_known_failed (snd (dispatch_event s e b))"
  by (simp_all add: dispatch_event_def handler_defs)

lemma result_status_known_failed:
  "sv_result_known_failed s \<Longrightarrow> sv_result_known_failed (snd (storage_supervisor_result_status s))"
  by (auto simp: storage_supervisor_result_status_def Let_def split: option.splits prod.splits
      simp del: first_channel_fault.simps)

lemma event_frame:
  "sv_target_channel_mask (snd (storage_supervisor_handle_event s e)) = sv_target_channel_mask s"
  "sv_result_known_failed s \<Longrightarrow> sv_result_known_failed (snd (storage_supervisor_handle_event s e))"
  using dispatch_frame [of s e "channel_bit (ev_channel e)"]
  by (auto simp: storage_supervisor_handle_event_def Let_def result_status_known_failed split: prod.splits)

lemma worker_gone_frame:
  "sv_target_channel_mask (snd (storage_supervisor_handle_worker_eof s ch)) = sv_target_channel_mask s"
  "sv_target_channel_mask (snd (storage_supervisor_handle_worker_exit s ch code)) = sv_target_channel_mask s"
  "sv_target_channel_mask (storage_supervisor_mark_unavailable s ch reason) = sv_target_channel_mask s"
  "sv_result_known_failed s \<Longrightarrow> sv_result_known_failed (snd (storage_supervisor_handle_worker_eof s ch))"
  "sv_result_known_failed s \<Longrightarrow> sv_result_known_failed (snd (storage_supervisor_handle_worker_exit s ch code))"
  "sv_result_known_failed s \<Longrightarrow> sv_result_known_failed (storage_supervisor_mark_unavailable s ch reason)"
  by (simp_all add: storage_supervisor_handle_worker_eof_def storage_supervisor_handle_worker_exit_def
      storage_supervisor_mark_unavailable_def fail_worker_exit_without_final_def Let_def
      result_status_known_failed)

lemmas supervisor_frame = event_frame worker_gone_frame
  storage_supervisor_handle_event_for_channel_def storage_supervisor_protocol_fail_def
  storage_supervisor_request_stop_def storage_supervisor_begin_auto_drain_def
  storage_supervisor_mark_auto_drain_sent_def storage_supervisor_mark_stop_sent_def
  storage_supervisor_mark_stop_failed_def Let_def

lemma step_frame:
  "sv_target_channel_mask (supervisor_step sz s x) = sv_target_channel_mask s"
  "sv_result_known_failed s \<Longrightarrow> sv_result_known_failed (supervisor_step sz s x)"
  by (cases x; simp add: supervisor_frame)+

lemma run_frame:
  "sv_target_channel_mask (supervisor_run sz s xs) = sv_target_channel_mask s"
  "sv_result_known_failed s \<Longrightarrow> sv_result_known_failed (supervisor_run sz s xs)"
  by (induction xs arbitrary: s) (simp_all add: step_frame)

lemma target_init [simp]: "sv_target_channel_mask (storage_supervisor_init m) = m"
  by (simp add: storage_supervisor_init_def)

lemma mask_sub_andnot: "mask_sub (t AND NOT f) k \<longleftrightarrow> (\<forall>i. bit t i \<and> \<not> bit f i \<longrightarrow> bit k i)"
proof -
  have "bit t i \<Longrightarrow> i < 32" for i using bit_imp_le_length [of t i] by simp
  then show ?thesis by (auto simp: mask_sub_def bit_and_iff bit_not_iff)
qed

section \<open>Sample runs\<close>

text \<open>One channel from ready to a whole final result of 4096 bytes, and the same worker dying after
  it was armed.\<close>

definition example_sizes :: ipc_sizes where
  "example_sizes = \<lparr>sz_control = 40, sz_event = 1024, sz_ready = 72, sz_drain_ready = 200, sz_fatal = 80,
     sz_final = 800, sz_perf = 300, sz_diag = 120, sz_phase = 96\<rparr>"

definition example_event :: "u32 \<Rightarrow> StorageWorkerEvent" where
  "example_event type = storage_ipc_make_event example_sizes 1 type 0 STORAGE_ERR_NONE 4096 None"

definition example_result :: WriteResult where
  "example_result = write_result_zero\<lparr>wres_data_persisted := True, wres_receive_integrity_ok := True,
     wres_storage_integrity_ok := True, wres_integrity_ok := True, wres_dma_received_bytes := 4096,
     wres_nvme_completed_bytes := 4096, wres_file_bytes := 4096\<rparr>"

definition example_success :: "supervisor_op list" where
  "example_success =
     [WorkerEvent 0 (example_event STORAGE_WORKER_READY), WorkerEvent 0 (example_event STORAGE_WORKER_ARMED),
      WorkerEvent 0 (example_event STORAGE_WORKER_RUNNING),
      WorkerEvent 0 ((example_event STORAGE_WORKER_DRAIN_READY)
        \<lparr>ev_drain_ready := drain_ready_zero\<lparr>wd_drain_epoch := 7\<rparr>\<rparr>),
      WorkerEvent 0 ((example_event STORAGE_WORKER_FINAL_RESULT)
        \<lparr>ev_final := (ev_final worker_event_zero)\<lparr>wn_result := example_result\<rparr>\<rparr>)]"

definition example_crash :: "supervisor_op list" where
  "example_crash =
     [WorkerEvent 0 (example_event STORAGE_WORKER_READY), WorkerEvent 0 (example_event STORAGE_WORKER_ARMED),
      WorkerEof 0]"

section \<open>Properties\<close>

text \<open>C26. Whatever the workers send and in whatever order they stop, crash or are told to stop,
  a channel's recorded progress is a chain: armed only after ready, running only after armed, drained
  or idle only after running, a final result only after a drain report or a fatal report, all of it
  inside the target channels; and a stop command counts as sent or as failed only for a channel that
  was asked to stop, never as both.\<close>

theorem supervisor_event_order:
  fixes sz m xs i
  defines "s \<equiv> supervisor_run sz (storage_supervisor_init m) xs"
  shows "(bit (sv_ready_mask s) i \<longrightarrow> bit m i) \<and>
    (bit (sv_armed_mask s) i \<longrightarrow> bit (sv_ready_mask s) i) \<and>
    (bit (sv_running_mask s) i \<longrightarrow> bit (sv_armed_mask s) i) \<and>
    (bit (sv_drained_mask s) i \<or> bit (sv_idle_candidate_mask s) i \<longrightarrow> bit (sv_running_mask s) i) \<and>
    (bit (sv_final_seen_mask s) i \<longrightarrow> bit (sv_drained_mask s) i \<or> bit (sv_fatal_seen_mask s) i) \<and>
    (bit (sv_fatal_seen_mask s) i \<or> bit (sv_unavailable_mask s) i \<longrightarrow> bit m i) \<and>
    (bit (sv_stop_sent_mask s) i \<or> bit (sv_stop_failed_mask s) i \<longrightarrow> bit (sv_stop_requested_mask s) i) \<and>
    (bit (sv_stop_requested_mask s) i \<longrightarrow> bit m i) \<and>
    \<not> (bit (sv_stop_sent_mask s) i \<and> bit (sv_stop_failed_mask s) i)"
  using mask_inv_run [OF mask_inv_init, of sz m xs] run_frame(1) [of sz "storage_supervisor_init m" xs]
  unfolding s_def mask_inv_alt by simp

theorem supervisor_event_order_witness:
  "let s = supervisor_run example_sizes (storage_supervisor_init 1) example_success
   in bit (sv_final_seen_mask s) 0 \<and> (bit (sv_drained_mask s) 0 \<or> bit (sv_fatal_seen_mask s) 0)"
proof -
  have "bit (sv_final_seen_mask (supervisor_run example_sizes (storage_supervisor_init 1) example_success)) 0"
    by code_simp
  then show ?thesis
    using supervisor_event_order [of example_sizes 1 example_success 0] by (simp add: Let_def)
qed

text \<open>C15. The task is reported successful only if every target channel delivered a final result
  that is persisted and whole (received, storage and overall integrity, and DMA, NVMe and file bytes
  all equal), the two halves of a split capture received the same number of bytes, no worker was lost
  and no error was ever recorded.\<close>

theorem supervisor_success_sound:
  fixes sz m xs
  defines "s \<equiv> supervisor_run sz (storage_supervisor_init m) xs"
  assumes "m \<noteq> 0" and "sv_terminal s = STORAGE_TASK_SUCCESS"
  shows "sv_final_seen_mask s = m \<and> sv_unavailable_mask s = 0 \<and> \<not> sv_result_known_failed s \<and>
     sv_primary_error s = STORAGE_ERR_NONE \<and>
     (\<forall>i<3. bit m i \<longrightarrow>
        (let r = sv_final_result s ! i
         in wres_receive_integrity_ok r \<and> wres_data_persisted r \<and> wres_storage_integrity_ok r \<and>
            wres_integrity_ok r \<and> wres_dma_received_bytes r = wres_nvme_completed_bytes r \<and>
            wres_nvme_completed_bytes r = wres_file_bytes r)) \<and>
     (m AND 3 = 3 \<longrightarrow> wres_dma_received_bytes (sv_final_result s ! 0) =
                      wres_dma_received_bytes (sv_final_result s ! 1))"
proof -
  have "verdict_inv s" "sv_target_channel_mask s = m"
    using assms(2) by (simp_all add: s_def verdict_run verdict_init run_frame)
  moreover have "channel_fault r = None \<Longrightarrow>
      wres_receive_integrity_ok r \<and> wres_data_persisted r \<and> wres_storage_integrity_ok r \<and>
      wres_integrity_ok r \<and> wres_dma_received_bytes r = wres_nvme_completed_bytes r \<and>
      wres_nvme_completed_bytes r = wres_file_bytes r" for r
    by (auto simp: channel_fault_def split: if_splits)
  ultimately show ?thesis
    using assms(3) by (auto simp: verdict_inv_def verdict_pre_def results_accepted_def Let_def)
qed

theorem supervisor_success_sound_witness:
  "let s = supervisor_run example_sizes (storage_supervisor_init 1) example_success
   in sv_terminal s = STORAGE_TASK_SUCCESS \<and> sv_final_seen_mask s = 1 \<and>
      wres_data_persisted (sv_final_result s ! 0)"
proof -
  have "sv_terminal (supervisor_run example_sizes (storage_supervisor_init 1) example_success) =
      STORAGE_TASK_SUCCESS" by code_simp
  then show ?thesis
    using supervisor_success_sound [of 1 example_sizes example_success] by (auto simp: Let_def)
qed

text \<open>C27. The verdict comes exactly when every target channel has reported or is lost; a failed
  verdict always carries an error code; and once any error is known every target channel without a
  final result is asked to stop.\<close>

theorem supervisor_verdict_when_reported:
  fixes sz m xs
  defines "s \<equiv> supervisor_run sz (storage_supervisor_init m) xs"
  assumes "m \<noteq> 0"
  shows "(storage_supervisor_is_terminal s \<longleftrightarrow> sv_final_seen_mask s OR sv_unavailable_mask s = m) \<and>
     (sv_terminal s = STORAGE_TASK_FAILED \<longrightarrow> sv_primary_error s \<noteq> STORAGE_ERR_NONE) \<and>
     (sv_primary_error s \<noteq> STORAGE_ERR_NONE \<longrightarrow>
        (\<forall>i. bit m i \<and> \<not> bit (sv_final_seen_mask s) i \<longrightarrow> bit (storage_supervisor_stop_mask s) i))"
proof -
  have "verdict_inv s" "sv_target_channel_mask s = m"
    using assms(2) by (simp_all add: s_def verdict_run verdict_init run_frame)
  then show ?thesis
    by (auto simp: verdict_inv_def verdict_pre_def storage_supervisor_is_terminal_def
        storage_supervisor_stop_mask_def mask_sub_andnot)
qed

theorem supervisor_verdict_when_reported_witness:
  "let s = supervisor_run example_sizes (storage_supervisor_init 3) example_crash
   in sv_primary_error s \<noteq> STORAGE_ERR_NONE \<and> \<not> storage_supervisor_is_terminal s \<and>
      bit (storage_supervisor_stop_mask s) 1"
proof -
  let ?s = "supervisor_run example_sizes (storage_supervisor_init 3) example_crash"
  have "sv_primary_error ?s \<noteq> STORAGE_ERR_NONE" "sv_final_seen_mask ?s OR sv_unavailable_mask ?s \<noteq> 3"
    "bit (3 :: u32) 1" "\<not> bit (sv_final_seen_mask ?s) 1" by code_simp+
  then show ?thesis
    using supervisor_verdict_when_reported [of 3 example_sizes example_crash] by (simp add: Let_def)
qed

text \<open>A failure is final: after any error the task never becomes successful, whatever happens
  next.\<close>

lemma supervisor_failure_sticky:
  fixes sz m xs ys
  defines "s \<equiv> supervisor_run sz (storage_supervisor_init m) xs"
  assumes "m \<noteq> 0" and "sv_primary_error s \<noteq> STORAGE_ERR_NONE"
  shows "sv_terminal (supervisor_run sz s ys) \<noteq> STORAGE_TASK_SUCCESS"
proof -
  have v: "verdict_inv s" using assms(2) by (simp add: s_def verdict_run verdict_init)
  with assms(3) have "sv_result_known_failed s" by (simp add: verdict_inv_def verdict_pre_def)
  then have "sv_result_known_failed (supervisor_run sz s ys)" by (rule run_frame)
  with verdict_run [OF v] show ?thesis by (auto simp: verdict_inv_def verdict_pre_def)
qed

end
