(* ===== verification/Storage_Commit.thy ===== *)
theory Storage_Commit
  imports Metadata
begin

text \<open>
  The commit of a finished capture, \<^verbatim>\<open>ccb_storage_commit.c\<close>: one database transaction around the
  metadata tables, the file records and the task status, undone on the first failure, and after the
  commit the copy to flash with its durable pending marker. The function pointers of
  \<^verbatim>\<open>StorageCommitOps\<close> are functions on the context \<^typ>\<open>'c\<close>, \<^term>\<open>None\<close> for a null pointer; the array
  and its length are one list.
\<close>

section \<open>State\<close>

datatype TaskStatus = TASK_PENDING | TASK_RUNNING | TASK_COMPLETED | TASK_FAILED

record FileRecord =
  fr_id :: int
  fr_task_id :: string
  fr_overpass_time :: int
  fr_file_index :: int
  fr_file_type :: string
  fr_channel_id :: int
  fr_proto_file_type_code :: int
  fr_calibration_type :: int
  fr_start_sector :: u64
  fr_sector_count :: u64
  fr_file_size :: u64
  fr_filename :: string
  fr_created_at :: int

record StorageCommitItem =
  ci_channel :: u32
  ci_metadata_slot :: u32
  ci_metadata :: FileEntry
  ci_record :: FileRecord

record 'c StorageCommitOps =
  op_db_begin :: "('c \<Rightarrow> int \<times> 'c) option"
  op_record_exists :: "(FileRecord \<Rightarrow> 'c \<Rightarrow> int \<times> 'c) option"
  op_metadata_write :: "(StorageCommitItem \<Rightarrow> 'c \<Rightarrow> int \<times> 'c) option"
  op_metadata_rollback :: "(StorageCommitItem \<Rightarrow> 'c \<Rightarrow> int \<times> 'c) option"
  op_record_insert :: "(FileRecord \<Rightarrow> 'c \<Rightarrow> int \<times> 'c) option"
  op_record_count :: "(string \<Rightarrow> 'c \<Rightarrow> int \<times> int \<times> 'c) option"
  op_task_total_update :: "(string \<Rightarrow> int \<Rightarrow> 'c \<Rightarrow> int \<times> 'c) option"
  op_task_status_update :: "(string \<Rightarrow> TaskStatus \<Rightarrow> 'c \<Rightarrow> int \<times> 'c) option"
  op_db_commit :: "('c \<Rightarrow> int \<times> 'c) option"
  op_db_rollback :: "('c \<Rightarrow> int \<times> 'c) option"
  op_flash_sync :: "('c \<Rightarrow> int \<times> 'c) option"
  op_sync_mark_pending :: "(string \<Rightarrow> 'c \<Rightarrow> int \<times> 'c) option"
  op_sync_mark_complete :: "(string \<Rightarrow> 'c \<Rightarrow> int \<times> 'c) option"

record StorageCommitState =
  cs_attempted :: bool
  cs_success :: bool
  cs_sync_pending :: bool
  cs_reason :: string

section \<open>Operations\<close>

definition set_reason :: "StorageCommitState \<Rightarrow> string \<Rightarrow> StorageCommitState" where
  "set_reason st reason = st\<lparr>cs_reason := snprintf_s 64 reason\<rparr>"

definition storage_commit_state_reset :: StorageCommitState where
  "storage_commit_state_reset =
     set_reason \<lparr>cs_attempted = False, cs_success = False, cs_sync_pending = False, cs_reason = []\<rparr>
       ''not_attempted''"

text \<open>The loop that undoes the metadata writes; the list is the remaining items, last one first.
  The flag is \<^verbatim>\<open>metadata_rollback_failed\<close>.\<close>

fun metadata_undo :: "'c StorageCommitOps \<Rightarrow> StorageCommitItem list \<Rightarrow> bool \<Rightarrow> 'c \<Rightarrow> bool \<times> 'c" where
  "metadata_undo ops [] failed c = (failed, c)"
| "metadata_undo ops (i # is) failed c =
     (case op_metadata_rollback ops of
        None \<Rightarrow> metadata_undo ops is True c
      | Some f \<Rightarrow> (case f i c of (rc, c') \<Rightarrow> metadata_undo ops is (failed \<or> rc \<noteq> 0) c'))"

definition rollback_failure ::
  "StorageCommitState \<Rightarrow> string \<Rightarrow> StorageCommitItem list \<Rightarrow> nat \<Rightarrow> 'c StorageCommitOps \<Rightarrow> bool \<Rightarrow> string \<Rightarrow> 'c
     \<Rightarrow> int \<times> StorageCommitState \<times> 'c" where
  "rollback_failure st task_id items metadata_count ops transaction_open reason c =
     (let st1 = set_reason st reason;
          (st2, c2) = (case op_db_rollback ops of
                         Some f \<Rightarrow> if transaction_open
                                   then (case f c of (rc, c') \<Rightarrow>
                                           (if rc \<noteq> 0 then set_reason st1 ''db_rollback_failed'' else st1, c'))
                                   else (st1, c)
                       | None \<Rightarrow> (st1, c));
          (failed, c3) = metadata_undo ops (rev (take metadata_count items)) False c2;
          st3 = (if failed then set_reason st2 ''metadata_rollback_failed'' else st2);
          (rc, c4) = (case op_task_status_update ops of
                        Some f \<Rightarrow> f task_id TASK_FAILED c3 | None \<Rightarrow> (-1, c3));
          st4 = (if rc \<noteq> 0 \<and> \<not> failed then set_reason st3 ''task_failed_update_failed'' else st3)
      in (-1, st4\<lparr>cs_success := False\<rparr>, c4))"

definition commit_ops_complete :: "'c StorageCommitOps \<Rightarrow> bool" where
  "commit_ops_complete ops \<longleftrightarrow>
     op_db_begin ops \<noteq> None \<and> op_record_exists ops \<noteq> None \<and> op_metadata_write ops \<noteq> None \<and>
     op_record_insert ops \<noteq> None \<and> op_record_count ops \<noteq> None \<and> op_task_total_update ops \<noteq> None \<and>
     op_task_status_update ops \<noteq> None \<and> op_db_commit ops \<noteq> None \<and> op_db_rollback ops \<noteq> None"

text \<open>The three loops over the items. The first yields the result that ended it, the second the
  number of writes that were started and whether all succeeded.\<close>

fun exists_loop :: "'c StorageCommitOps \<Rightarrow> StorageCommitItem list \<Rightarrow> 'c \<Rightarrow> int \<times> 'c" where
  "exists_loop ops [] c = (0, c)"
| "exists_loop ops (i # is) c =
     (case the (op_record_exists ops) (ci_record i) c of
        (rc, c') \<Rightarrow> if rc \<noteq> 0 then (rc, c') else exists_loop ops is c')"

fun metadata_loop :: "'c StorageCommitOps \<Rightarrow> StorageCommitItem list \<Rightarrow> nat \<Rightarrow> 'c \<Rightarrow> nat \<times> bool \<times> 'c" where
  "metadata_loop ops [] n c = (n, True, c)"
| "metadata_loop ops (i # is) n c =
     (case the (op_metadata_write ops) i c of
        (rc, c') \<Rightarrow> if rc \<noteq> 0 then (n + 1, False, c') else metadata_loop ops is (n + 1) c')"

fun insert_loop :: "'c StorageCommitOps \<Rightarrow> StorageCommitItem list \<Rightarrow> 'c \<Rightarrow> bool \<times> 'c" where
  "insert_loop ops [] c = (True, c)"
| "insert_loop ops (i # is) c =
     (case the (op_record_insert ops) (ci_record i) c of
        (rc, c') \<Rightarrow> if rc \<noteq> 0 then (False, c') else insert_loop ops is c')"

text \<open>Everything after the commit of the transaction.\<close>

definition mark_pending ::
  "StorageCommitState \<Rightarrow> string \<Rightarrow> 'c StorageCommitOps \<Rightarrow> 'c \<Rightarrow> int \<times> StorageCommitState \<times> 'c" where
  "mark_pending st task_id ops c =
     (case op_sync_mark_pending ops of
        None \<Rightarrow> (-1, set_reason st ''sync_outbox_persist_failed'', c)
      | Some f \<Rightarrow>
          (case f task_id c of
             (rc, c') \<Rightarrow>
               if rc \<noteq> 0 then (-1, set_reason st ''sync_outbox_persist_failed'', c')
               else (0, set_reason (st\<lparr>cs_success := True, cs_sync_pending := True\<rparr>) ''sync_pending'', c')))"

definition after_commit ::
  "StorageCommitState \<Rightarrow> string \<Rightarrow> 'c StorageCommitOps \<Rightarrow> 'c \<Rightarrow> int \<times> StorageCommitState \<times> 'c" where
  "after_commit st task_id ops c =
     (let (rc, c1) = (case op_flash_sync ops of Some f \<Rightarrow> f c | None \<Rightarrow> (0, c))
      in if rc \<noteq> 0 then mark_pending st task_id ops c1
         else let (rc2, c2) = (case op_sync_mark_complete ops of Some f \<Rightarrow> f task_id c1 | None \<Rightarrow> (0, c1))
              in if rc2 \<noteq> 0 then mark_pending st task_id ops c2
                 else (0, set_reason (st\<lparr>cs_success := True\<rparr>) ''none'', c2))"

definition update_and_commit ::
  "StorageCommitState \<Rightarrow> string \<Rightarrow> StorageCommitItem list \<Rightarrow> nat \<Rightarrow> 'c StorageCommitOps \<Rightarrow> 'c
     \<Rightarrow> int \<times> StorageCommitState \<times> 'c" where
  "update_and_commit st task_id items n ops c =
     (let fail = rollback_failure st task_id items n ops True;
          (rc, total_files, c1) = the (op_record_count ops) task_id c
      in if rc \<noteq> 0 then fail ''db_count_failed'' c1
         else let (rc, c2) = the (op_task_total_update ops) task_id total_files c1
         in if rc \<noteq> 0 then fail ''total_files_update_failed'' c2
         else let (rc, c3) = the (op_task_status_update ops) task_id TASK_COMPLETED c2
         in if rc \<noteq> 0 then fail ''task_completed_update_failed'' c3
         else let (rc, c4) = the (op_db_commit ops) c3
         in if rc \<noteq> 0 then fail ''db_commit_failed'' c4
         else after_commit st task_id ops c4)"

definition commit_transaction ::
  "StorageCommitState \<Rightarrow> string \<Rightarrow> StorageCommitItem list \<Rightarrow> 'c StorageCommitOps \<Rightarrow> 'c
     \<Rightarrow> int \<times> StorageCommitState \<times> 'c" where
  "commit_transaction st task_id items ops c =
     (let (ex, c1) = exists_loop ops items c
      in if ex \<noteq> 0
         then rollback_failure st task_id items 0 ops True
                (if 0 < ex then ''duplicate_record'' else ''duplicate_check_failed'') c1
         else let (n, ok, c2) = metadata_loop ops items 0 c1
         in if \<not> ok then rollback_failure st task_id items n ops True ''metadata_write_failed'' c2
         else let (ok, c3) = insert_loop ops items c2
         in if \<not> ok then rollback_failure st task_id items n ops True ''db_insert_failed'' c3
         else update_and_commit st task_id items n ops c3)"

definition storage_commit_run_once ::
  "StorageCommitState \<Rightarrow> string option \<Rightarrow> StorageCommitItem list option \<Rightarrow> 'c StorageCommitOps option \<Rightarrow> 'c
     \<Rightarrow> int \<times> StorageCommitState \<times> 'c" where
  "storage_commit_run_once st task_id items ops c =
     (if cs_attempted st then (if cs_success st then 0 else -1, st, c)
      else let st1 = st\<lparr>cs_attempted := True, cs_success := False\<rparr>
           in case (task_id, items, ops) of
                (Some t, Some xs, Some f) \<Rightarrow>
                  if t = [] \<or> xs = [] \<or> 3 < length xs \<or> \<not> commit_ops_complete f
                  then (-1, set_reason st1 ''invalid_commit_input'', c)
                  else (case the (op_db_begin f) c of
                          (rc, c1) \<Rightarrow>
                            if rc \<noteq> 0
                            then (case the (op_task_status_update f) t TASK_FAILED c1 of
                                    (_, c2) \<Rightarrow> (-1, set_reason st1 ''db_begin_failed'', c2))
                            else commit_transaction st1 t xs f c1)
              | _ \<Rightarrow> (-1, set_reason st1 ''invalid_commit_input'', c))"

section \<open>Recorded runs\<close>

text \<open>
  The context that records: every operation appends itself to the history and answers what
  \<open>r\<close> decides from the history so far; \<open>t\<close> is the count the database reports. All behaviours of
  all operations are instances of it.
\<close>

datatype commit_call =
    CBegin | CExists FileRecord | CMetaWrite StorageCommitItem | CMetaRollback StorageCommitItem
  | CInsert FileRecord | CCount string | CTotal string int | CStatus string TaskStatus
  | CCommit | CRollback | CFlash | CPending string | CComplete string

type_synonym history = "commit_call list"

definition answer :: "(history \<Rightarrow> commit_call \<Rightarrow> int) \<Rightarrow> commit_call \<Rightarrow> history \<Rightarrow> int \<times> history" where
  "answer r x h = (r h x, h @ [x])"

definition recording_ops ::
  "(history \<Rightarrow> commit_call \<Rightarrow> int) \<Rightarrow> (history \<Rightarrow> int) \<Rightarrow> history StorageCommitOps" where
  "recording_ops r t =
     \<lparr>op_db_begin = Some (answer r CBegin),
      op_record_exists = Some (\<lambda>x. answer r (CExists x)),
      op_metadata_write = Some (\<lambda>x. answer r (CMetaWrite x)),
      op_metadata_rollback = Some (\<lambda>x. answer r (CMetaRollback x)),
      op_record_insert = Some (\<lambda>x. answer r (CInsert x)),
      op_record_count = Some (\<lambda>x h. (r h (CCount x), t h, h @ [CCount x])),
      op_task_total_update = Some (\<lambda>x n. answer r (CTotal x n)),
      op_task_status_update = Some (\<lambda>x n. answer r (CStatus x n)),
      op_db_commit = Some (answer r CCommit),
      op_db_rollback = Some (answer r CRollback),
      op_flash_sync = Some (answer r CFlash),
      op_sync_mark_pending = Some (\<lambda>x. answer r (CPending x)),
      op_sync_mark_complete = Some (\<lambda>x. answer r (CComplete x))\<rparr>"

lemma recording_ops_simps [simp]:
  "op_db_begin (recording_ops r t) = Some (answer r CBegin)"
  "op_record_exists (recording_ops r t) = Some (\<lambda>x. answer r (CExists x))"
  "op_metadata_write (recording_ops r t) = Some (\<lambda>x. answer r (CMetaWrite x))"
  "op_metadata_rollback (recording_ops r t) = Some (\<lambda>x. answer r (CMetaRollback x))"
  "op_record_insert (recording_ops r t) = Some (\<lambda>x. answer r (CInsert x))"
  "op_record_count (recording_ops r t) = Some (\<lambda>x h. (r h (CCount x), t h, h @ [CCount x]))"
  "op_task_total_update (recording_ops r t) = Some (\<lambda>x n. answer r (CTotal x n))"
  "op_task_status_update (recording_ops r t) = Some (\<lambda>x n. answer r (CStatus x n))"
  "op_db_commit (recording_ops r t) = Some (answer r CCommit)"
  "op_db_rollback (recording_ops r t) = Some (answer r CRollback)"
  "op_flash_sync (recording_ops r t) = Some (answer r CFlash)"
  "op_sync_mark_pending (recording_ops r t) = Some (\<lambda>x. answer r (CPending x))"
  "op_sync_mark_complete (recording_ops r t) = Some (\<lambda>x. answer r (CComplete x))"
  by (simp_all add: recording_ops_def)

lemma recording_ops_complete [simp]: "commit_ops_complete (recording_ops r t)"
  by (simp add: commit_ops_complete_def)

text \<open>The same with some of the pointers null that \<^verbatim>\<open>storage_commit_run_once\<close> does not insist on.\<close>

datatype absent_op = NoMetadataRollback | NoFlashSync | NoMarkPending | NoMarkComplete

definition partial_ops ::
  "absent_op set \<Rightarrow> (history \<Rightarrow> commit_call \<Rightarrow> int) \<Rightarrow> (history \<Rightarrow> int) \<Rightarrow> history StorageCommitOps" where
  "partial_ops N r t =
     (recording_ops r t)
       \<lparr>op_metadata_rollback := if NoMetadataRollback \<in> N then None else op_metadata_rollback (recording_ops r t),
        op_flash_sync := if NoFlashSync \<in> N then None else op_flash_sync (recording_ops r t),
        op_sync_mark_pending := if NoMarkPending \<in> N then None else op_sync_mark_pending (recording_ops r t),
        op_sync_mark_complete := if NoMarkComplete \<in> N then None else op_sync_mark_complete (recording_ops r t)\<rparr>"

lemma recording_is_partial: "recording_ops r t = partial_ops {} r t"
  by (simp add: partial_ops_def)

lemma partial_ops_simps [simp]:
  "op_db_begin (partial_ops N r t) = Some (answer r CBegin)"
  "op_record_exists (partial_ops N r t) = Some (\<lambda>x. answer r (CExists x))"
  "op_metadata_write (partial_ops N r t) = Some (\<lambda>x. answer r (CMetaWrite x))"
  "op_metadata_rollback (partial_ops N r t) = (if NoMetadataRollback \<in> N then None else Some (\<lambda>x. answer r (CMetaRollback x)))"
  "op_record_insert (partial_ops N r t) = Some (\<lambda>x. answer r (CInsert x))"
  "op_record_count (partial_ops N r t) = Some (\<lambda>x h. (r h (CCount x), t h, h @ [CCount x]))"
  "op_task_total_update (partial_ops N r t) = Some (\<lambda>x n. answer r (CTotal x n))"
  "op_task_status_update (partial_ops N r t) = Some (\<lambda>x n. answer r (CStatus x n))"
  "op_db_commit (partial_ops N r t) = Some (answer r CCommit)"
  "op_db_rollback (partial_ops N r t) = Some (answer r CRollback)"
  "op_flash_sync (partial_ops N r t) = (if NoFlashSync \<in> N then None else Some (answer r CFlash))"
  "op_sync_mark_pending (partial_ops N r t) = (if NoMarkPending \<in> N then None else Some (\<lambda>x. answer r (CPending x)))"
  "op_sync_mark_complete (partial_ops N r t) = (if NoMarkComplete \<in> N then None else Some (\<lambda>x. answer r (CComplete x)))"
  by (simp_all add: partial_ops_def recording_ops_def)

lemma partial_ops_complete [simp]: "commit_ops_complete (partial_ops N r t)"
  by (simp add: commit_ops_complete_def)

text \<open>Every call of a stretch of the history was answered with success.\<close>

fun all_succeed :: "(history \<Rightarrow> commit_call \<Rightarrow> int) \<Rightarrow> history \<Rightarrow> history \<Rightarrow> bool" where
  "all_succeed r h [] = True"
| "all_succeed r h (x # xs) \<longleftrightarrow> r h x = 0 \<and> all_succeed r (h @ [x]) xs"

lemma all_succeed_append:
  "all_succeed r h (xs @ ys) \<longleftrightarrow> all_succeed r h xs \<and> all_succeed r (h @ xs) ys"
  by (induction xs arbitrary: h) simp_all

abbreviation exists_calls :: "StorageCommitItem list \<Rightarrow> history" where
  "exists_calls xs \<equiv> map (\<lambda>i. CExists (ci_record i)) xs"
abbreviation insert_calls :: "StorageCommitItem list \<Rightarrow> history" where
  "insert_calls xs \<equiv> map (\<lambda>i. CInsert (ci_record i)) xs"

lemma exists_loop_history:
  "exists_loop (partial_ops N r t) xs h = (ex, h') \<Longrightarrow>
     \<exists>k \<le> length xs. h' = h @ exists_calls (take k xs) \<and>
        (ex = 0 \<longrightarrow> k = length xs \<and> all_succeed r h (exists_calls xs)) \<and>
        (ex \<noteq> 0 \<longrightarrow> \<not> all_succeed r h (exists_calls (take k xs)))"
proof (induction xs arbitrary: h)
  case (Cons i xs)
  show ?case
  proof (cases "r h (CExists (ci_record i)) = 0")
    case True
    with Cons.prems Cons.IH [of "h @ [CExists (ci_record i)]"] obtain k where "k \<le> length xs"
      "h' = h @ CExists (ci_record i) # exists_calls (take k xs)"
      "ex = 0 \<longrightarrow> k = length xs \<and> all_succeed r (h @ [CExists (ci_record i)]) (exists_calls xs)"
      "ex \<noteq> 0 \<longrightarrow> \<not> all_succeed r (h @ [CExists (ci_record i)]) (exists_calls (take k xs))"
      by (auto simp: answer_def)
    with True show ?thesis by (intro exI [of _ "Suc k"]) simp
  next
    case False
    with Cons.prems show ?thesis by (intro exI [of _ 1]) (auto simp: answer_def)
  qed
qed simp

lemma metadata_loop_history:
  "metadata_loop (partial_ops N r t) xs n h = (n', ok, h') \<Longrightarrow>
     \<exists>k \<le> length xs. n' = n + k \<and> h' = h @ map CMetaWrite (take k xs) \<and>
        (ok \<longrightarrow> k = length xs \<and> all_succeed r h (map CMetaWrite xs)) \<and>
        (\<not> ok \<longrightarrow> \<not> all_succeed r h (map CMetaWrite (take k xs)))"
proof (induction xs arbitrary: h n)
  case (Cons i xs)
  show ?case
  proof (cases "r h (CMetaWrite i) = 0")
    case True
    with Cons.prems Cons.IH [of "n + 1" "h @ [CMetaWrite i]"] obtain k where "k \<le> length xs" "n' = n + 1 + k"
      "h' = h @ CMetaWrite i # map CMetaWrite (take k xs)"
      "ok \<longrightarrow> k = length xs \<and> all_succeed r (h @ [CMetaWrite i]) (map CMetaWrite xs)"
      "\<not> ok \<longrightarrow> \<not> all_succeed r (h @ [CMetaWrite i]) (map CMetaWrite (take k xs))"
      by (auto simp: answer_def)
    with True show ?thesis by (intro exI [of _ "Suc k"]) simp
  next
    case False
    with Cons.prems show ?thesis by (intro exI [of _ 1]) (auto simp: answer_def)
  qed
qed simp

lemma insert_loop_history:
  "insert_loop (partial_ops N r t) xs h = (ok, h') \<Longrightarrow>
     \<exists>k \<le> length xs. h' = h @ insert_calls (take k xs) \<and>
        (ok \<longrightarrow> k = length xs \<and> all_succeed r h (insert_calls xs)) \<and>
        (\<not> ok \<longrightarrow> \<not> all_succeed r h (insert_calls (take k xs)))"
proof (induction xs arbitrary: h)
  case (Cons i xs)
  show ?case
  proof (cases "r h (CInsert (ci_record i)) = 0")
    case True
    with Cons.prems Cons.IH [of "h @ [CInsert (ci_record i)]"] obtain k where "k \<le> length xs"
      "h' = h @ CInsert (ci_record i) # insert_calls (take k xs)"
      "ok \<longrightarrow> k = length xs \<and> all_succeed r (h @ [CInsert (ci_record i)]) (insert_calls xs)"
      "\<not> ok \<longrightarrow> \<not> all_succeed r (h @ [CInsert (ci_record i)]) (insert_calls (take k xs))"
      by (auto simp: answer_def)
    with True show ?thesis by (intro exI [of _ "Suc k"]) simp
  next
    case False
    with Cons.prems show ?thesis by (intro exI [of _ 1]) (auto simp: answer_def)
  qed
qed simp

section \<open>Outcomes\<close>

text \<open>The calls of a run that commits, and the shape of the history of a run that is undone: the
  metadata writes of the body are undone in reverse order, then the task is marked failed.\<close>

definition body_calls :: "string \<Rightarrow> int \<Rightarrow> StorageCommitItem list \<Rightarrow> history" where
  "body_calls task n items =
     exists_calls items @ map CMetaWrite items @ insert_calls items @
     [CCount task, CTotal task n, CStatus task TASK_COMPLETED, CCommit]"

fun metadata_writes :: "history \<Rightarrow> StorageCommitItem list" where
  "metadata_writes [] = []"
| "metadata_writes (CMetaWrite i # xs) = i # metadata_writes xs"
| "metadata_writes (_ # xs) = metadata_writes xs"

definition undo_calls :: "absent_op set \<Rightarrow> string \<Rightarrow> StorageCommitItem list \<Rightarrow> history" where
  "undo_calls N task written =
     CRollback # (if NoMetadataRollback \<in> N then [] else map CMetaRollback (rev written)) @ [CStatus task TASK_FAILED]"

text \<open>Every undo step was made and succeeded, and the reasons that say otherwise.\<close>

definition undo_complete :: "absent_op set \<Rightarrow> (history \<Rightarrow> commit_call \<Rightarrow> int) \<Rightarrow> history \<Rightarrow> string \<Rightarrow> StorageCommitItem list \<Rightarrow> bool" where
  "undo_complete N r h task written \<longleftrightarrow>
     (NoMetadataRollback \<in> N \<longrightarrow> written = []) \<and> all_succeed r h (undo_calls N task written)"

definition undo_failures :: "string set" where
  "undo_failures = {''db_rollback_failed'', ''metadata_rollback_failed'', ''task_failed_update_failed''}"

definition undone ::
  "absent_op set \<Rightarrow> (history \<Rightarrow> commit_call \<Rightarrow> int) \<Rightarrow> history \<Rightarrow> string \<Rightarrow> StorageCommitState \<Rightarrow> history \<Rightarrow> bool" where
  "undone N r h task st' h' \<longleftrightarrow>
     (\<exists>body. \<not> all_succeed r h body \<and> h' = h @ body @ undo_calls N task (metadata_writes body) \<and>
        (cs_reason st' \<in> undo_failures \<longleftrightarrow> \<not> undo_complete N r (h @ body) task (metadata_writes body)))"

lemma metadata_undo_history:
  "metadata_undo (partial_ops N r t) xs failed h =
     (failed \<or> (if NoMetadataRollback \<in> N then xs \<noteq> [] else \<not> all_succeed r h (map CMetaRollback xs)),
      h @ (if NoMetadataRollback \<in> N then [] else map CMetaRollback xs))"
  by (induction xs arbitrary: failed h) (auto simp: answer_def)

lemma set_reason_sel [simp]:
  "cs_reason (set_reason st x) = snprintf_s 64 x" "cs_attempted (set_reason st x) = cs_attempted st"
  "cs_success (set_reason st x) = cs_success st"
  by (simp_all add: set_reason_def)

lemma rollback_failure_history:
  assumes run: "rollback_failure st task items n (partial_ops N r t) True reason h = (rc, st', h')"
    and step: "snprintf_s 64 reason \<notin> undo_failures"
  shows "rc = -1 \<and> \<not> cs_success st' \<and> h' = h @ undo_calls N task (take n items) \<and>
    (cs_reason st' \<in> undo_failures \<longleftrightarrow> \<not> undo_complete N r h task (take n items))"
proof -
  let ?h1 = "h @ [CRollback]" and ?meta = "if NoMetadataRollback \<in> N then [] else map CMetaRollback (rev (take n items))"
  let ?failed = "if NoMetadataRollback \<in> N then take n items \<noteq> [] else \<not> all_succeed r ?h1 (map CMetaRollback (rev (take n items)))"
  have h': "h' = h @ undo_calls N task (take n items)" "rc = -1" "\<not> cs_success st'"
    using run by (auto simp: rollback_failure_def Let_def answer_def undo_calls_def metadata_undo_history split: if_splits)
  have reason: "cs_reason st' = (if ?failed then ''metadata_rollback_failed''
      else if r (?h1 @ ?meta) (CStatus task TASK_FAILED) \<noteq> 0 then ''task_failed_update_failed''
      else if r h CRollback \<noteq> 0 then ''db_rollback_failed'' else snprintf_s 64 reason)"
    using run by (auto simp: rollback_failure_def Let_def answer_def metadata_undo_history snprintf_s_def split: if_splits)
  have "undo_complete N r h task (take n items) \<longleftrightarrow>
      r h CRollback = 0 \<and> \<not> ?failed \<and> r (?h1 @ ?meta) (CStatus task TASK_FAILED) = 0"
    by (auto simp: undo_complete_def undo_calls_def all_succeed_append)
  then show ?thesis using h' reason step by (simp add: undo_failures_def)
qed

definition committed ::
  "(history \<Rightarrow> commit_call \<Rightarrow> int) \<Rightarrow> history \<Rightarrow> string \<Rightarrow> StorageCommitItem list \<Rightarrow> history \<Rightarrow> history \<Rightarrow> bool" where
  "committed r h task items h' tail \<longleftrightarrow>
     (\<exists>n. all_succeed r h (body_calls task n items) \<and> h' = h @ body_calls task n items @ tail)"

lemma metadata_writes_append: "metadata_writes (xs @ ys) = metadata_writes xs @ metadata_writes ys"
  by (induction xs rule: metadata_writes.induct) simp_all

lemma metadata_writes_calls [simp]:
  "metadata_writes (exists_calls xs) = []"
  "metadata_writes (insert_calls xs) = []"
  "metadata_writes (map CMetaWrite xs) = xs"
  by (induction xs) simp_all

lemma rollback_failure_undone:
  assumes "rollback_failure st task items n (partial_ops N r t) True reason (h @ body) = (rc, st', h')"
    and "\<not> all_succeed r h body" and "metadata_writes body = take n items" and "snprintf_s 64 reason \<notin> undo_failures"
  shows "rc = -1 \<and> \<not> cs_success st' \<and> undone N r h task st' h'"
  using rollback_failure_history [OF assms(1,4)] assms(2,3) unfolding undone_def by (metis append.assoc)

lemma step_reasons [simp]:
  "snprintf_s 64 ''duplicate_record'' \<notin> undo_failures" "snprintf_s 64 ''duplicate_check_failed'' \<notin> undo_failures"
  "snprintf_s 64 ''metadata_write_failed'' \<notin> undo_failures" "snprintf_s 64 ''db_insert_failed'' \<notin> undo_failures"
  "snprintf_s 64 ''db_count_failed'' \<notin> undo_failures" "snprintf_s 64 ''total_files_update_failed'' \<notin> undo_failures"
  "snprintf_s 64 ''task_completed_update_failed'' \<notin> undo_failures" "snprintf_s 64 ''db_commit_failed'' \<notin> undo_failures"
  by (simp_all add: snprintf_s_def undo_failures_def)

lemma after_commit_history:
  assumes "after_commit st task (recording_ops r t) h = (rc, st', h')" "\<not> cs_success st"
  shows "(rc = 0 \<longleftrightarrow> cs_success st') \<and>
    (\<exists>tail. h' = h @ tail \<and>
       (rc = 0 \<and> (tail = [CFlash, CComplete task] \<and> all_succeed r h tail \<and> cs_sync_pending st' = cs_sync_pending st \<or>
           tail \<in> {[CFlash, CPending task], [CFlash, CComplete task, CPending task]} \<and> cs_sync_pending st' \<and>
             r (h @ butlast tail) (CPending task) = 0) \<or>
        rc = -1 \<and> tail \<in> {[CFlash, CPending task], [CFlash, CComplete task, CPending task]} \<and>
             r (h @ butlast tail) (CPending task) \<noteq> 0))"
  using assms
  by (cases "r h CFlash = 0"; cases "r (h @ [CFlash]) (CComplete task) = 0")
    (auto simp: recording_is_partial after_commit_def mark_pending_def answer_def set_reason_def split: if_splits)

lemma after_commit_marker_failed:
  assumes "after_commit st task (partial_ops N r t) h = (rc, st', h')" "\<not> cs_success st" "rc \<noteq> 0"
  shows "\<not> cs_success st' \<and> cs_reason st' = ''sync_outbox_persist_failed'' \<and>
    (\<exists>tail. h' = h @ tail \<and> (NoMarkPending \<in> N \<or> last tail = CPending task \<and> tail \<noteq> [] \<and> r (h @ butlast tail) (CPending task) \<noteq> 0))"
  using assms
  by (auto simp: after_commit_def mark_pending_def answer_def snprintf_s_def split: if_splits)

lemma update_and_commit_outcome:
  assumes "update_and_commit st task items n (partial_ops N r t) (h @ body) = (rc, st', h')"
    and "all_succeed r h body" and "metadata_writes body = take n items" and "\<not> cs_success st"
  shows "rc = -1 \<and> \<not> cs_success st' \<and> undone N r h task st' h' \<or>
    (\<exists>k h1. all_succeed r h (body @ [CCount task, CTotal task k, CStatus task TASK_COMPLETED, CCommit]) \<and>
       h1 = h @ body @ [CCount task, CTotal task k, CStatus task TASK_COMPLETED, CCommit] \<and>
       after_commit st task (partial_ops N r t) h1 = (rc, st', h'))"
proof -
  define k where "k = t (h @ body)"
  let ?b1 = "body @ [CCount task]" and ?b2 = "body @ [CCount task, CTotal task k]"
  let ?b3 = "body @ [CCount task, CTotal task k, CStatus task TASK_COMPLETED]"
  let ?b4 = "body @ [CCount task, CTotal task k, CStatus task TASK_COMPLETED, CCommit]"
  note fail = rollback_failure_undone [of st task items n N r t _ h _ rc st' h']
  show ?thesis
    using assms fail [of _ ?b1] fail [of _ ?b2] fail [of _ ?b3] fail [of _ ?b4]
    by (auto simp: update_and_commit_def Let_def answer_def k_def [symmetric] all_succeed_append
        metadata_writes_append split: if_splits)
qed

lemma insert_stage_outcome:
  assumes run: "(let (ok, c3) = insert_loop (partial_ops N r t) items (h @ body)
      in if \<not> ok then rollback_failure st task items n (partial_ops N r t) True ''db_insert_failed'' c3
         else update_and_commit st task items n (partial_ops N r t) c3) = (rc, st', h')"
    and st: "\<not> cs_success st" and succ: "all_succeed r h body" and mw: "metadata_writes body = take n items"
  shows "rc = -1 \<and> \<not> cs_success st' \<and> undone N r h task st' h' \<or>
    (\<exists>k. let b = body @ insert_calls items @ [CCount task, CTotal task k, CStatus task TASK_COMPLETED, CCommit]
         in all_succeed r h b \<and> after_commit st task (partial_ops N r t) (h @ b) = (rc, st', h'))"
proof -
  obtain ok h3 where ins: "insert_loop (partial_ops N r t) items (h @ body) = (ok, h3)" by fastforce
  obtain j where j: "h3 = h @ (body @ insert_calls (take j items))" "ok \<Longrightarrow> j = length items"
    "ok \<Longrightarrow> all_succeed r (h @ body) (insert_calls items)"
    "\<not> ok \<Longrightarrow> \<not> all_succeed r (h @ body) (insert_calls (take j items))"
    using insert_loop_history [OF ins] by auto
  show ?thesis
  proof (cases ok)
    case False
    with run j(1) have "rollback_failure st task items n (partial_ops N r t) True ''db_insert_failed''
        (h @ (body @ insert_calls (take j items))) = (rc, st', h')" by (simp add: ins)
    from rollback_failure_undone [OF this] j(4) False mw show ?thesis
      by (simp add: all_succeed_append metadata_writes_append)
  next
    case True
    with run j have "update_and_commit st task items n (partial_ops N r t)
        (h @ (body @ insert_calls items)) = (rc, st', h')" by (simp add: ins)
    from update_and_commit_outcome [OF this] j(3) True succ mw st show ?thesis
      by (auto simp: all_succeed_append metadata_writes_append Let_def)
  qed
qed

lemma commit_transaction_outcome:
  assumes run: "commit_transaction st task items (partial_ops N r t) h = (rc, st', h')"
    and st: "\<not> cs_success st"
  shows "rc = -1 \<and> \<not> cs_success st' \<and> undone N r h task st' h' \<or>
    (\<exists>k. all_succeed r h (body_calls task k items) \<and>
       after_commit st task (partial_ops N r t) (h @ body_calls task k items) = (rc, st', h'))"
proof -
  obtain ex h1 where ex: "exists_loop (partial_ops N r t) items h = (ex, h1)" by fastforce
  obtain k where k: "h1 = h @ exists_calls (take k items)"
    "ex = 0 \<Longrightarrow> k = length items" "ex = 0 \<Longrightarrow> all_succeed r h (exists_calls items)"
    "ex \<noteq> 0 \<Longrightarrow> \<not> all_succeed r h (exists_calls (take k items))"
    using exists_loop_history [OF ex] by blast
  obtain n ok h2 where me: "metadata_loop (partial_ops N r t) items 0 h1 = (n, ok, h2)"
    by (metis prod_cases3)
  have n: "h2 = h1 @ map CMetaWrite (take n items)" "ok \<Longrightarrow> n = length items"
    "ok \<Longrightarrow> all_succeed r h1 (map CMetaWrite items)"
    "\<not> ok \<Longrightarrow> \<not> all_succeed r h1 (map CMetaWrite (take n items))"
    using metadata_loop_history [OF me] by auto
  let ?body = "exists_calls items @ map CMetaWrite (take n items)"
  have h2: "ex = 0 \<Longrightarrow> h2 = h @ ?body" using k n(1) by simp
  consider (dup) "ex \<noteq> 0" | (meta) "ex = 0" "\<not> ok" | (ok) "ex = 0" ok by blast
  then show ?thesis
  proof cases
    case dup
    then show ?thesis
      using run k(1) rollback_failure_undone [OF _ k(4), of st task items 0 N t _ rc st' h']
      by (auto simp: commit_transaction_def ex)
  next
    case meta
    then have "rollback_failure st task items n (partial_ops N r t) True ''metadata_write_failed'' h2 = (rc, st', h')"
      using run by (simp add: commit_transaction_def ex me)
    from rollback_failure_undone [OF this [unfolded h2 [OF meta(1)]]] n(4) k meta show ?thesis
      by (simp add: all_succeed_append metadata_writes_append)
  next
    case ok
    have "(let (ok, c3) = insert_loop (partial_ops N r t) items (h @ ?body)
        in if \<not> ok then rollback_failure st task items n (partial_ops N r t) True ''db_insert_failed'' c3
           else update_and_commit st task items n (partial_ops N r t) c3) = (rc, st', h')"
      using run ok by (simp add: commit_transaction_def ex me h2)
    from insert_stage_outcome [OF this st] k n ok show ?thesis
      by (auto simp: all_succeed_append metadata_writes_append body_calls_def Let_def)
  qed
qed

section \<open>Properties\<close>

text \<open>C17. A commit that reports success ran every step once and in order: no record existed before,
  every metadata entry was written, every record inserted, the file count and the completed status
  stored and the transaction committed, each of them successfully; and afterwards the flash copy was
  made and acknowledged, or a durable pending marker was written.\<close>

theorem commit_success_complete:
  assumes "storage_commit_run_once st (Some task) (Some items) (Some (recording_ops r t)) [] = (0, st', h)"
    and "\<not> cs_attempted st"
  shows "\<exists>n tail. h = CBegin # body_calls task n items @ tail \<and>
      all_succeed r [] (CBegin # body_calls task n items) \<and> cs_success st' \<and>
      (tail = [CFlash, CComplete task] \<and> all_succeed r (CBegin # body_calls task n items) tail \<or>
       cs_sync_pending st' \<and> last tail = CPending task \<and>
         tail \<in> {[CFlash, CPending task], [CFlash, CComplete task, CPending task]} \<and>
         r (CBegin # body_calls task n items @ butlast tail) (CPending task) = 0)"
proof -
  let ?st = "st\<lparr>cs_attempted := True, cs_success := False\<rparr>"
  from assms have "r [] CBegin = 0"
    and "commit_transaction ?st task items (recording_ops r t) [CBegin] = (0, st', h)"
    by (auto simp: storage_commit_run_once_def answer_def Let_def split: if_splits)
  with commit_transaction_outcome [of ?st task items "{}" r t "[CBegin]" 0 st' h, folded recording_is_partial] obtain n where
    n: "all_succeed r [] (CBegin # body_calls task n items)"
    and ac: "after_commit ?st task (recording_ops r t) (CBegin # body_calls task n items) = (0, st', h)"
    by auto
  from after_commit_history [OF ac] n show ?thesis by (intro exI [of _ n]) auto
qed

definition example_entry :: FileEntry where
  "example_entry = file_entry_zero\<lparr>fe_start_lba := 1000, fe_sector_count := 8, fe_valid := 1\<rparr>"

definition example_item :: StorageCommitItem where
  "example_item =
     \<lparr>ci_channel = 0, ci_metadata_slot = 2, ci_metadata = example_entry,
      ci_record = \<lparr>fr_id = 0, fr_task_id = ''T1'', fr_overpass_time = 5, fr_file_index = 1,
        fr_file_type = ''HIGH_I'', fr_channel_id = 0, fr_proto_file_type_code = 1, fr_calibration_type = 0,
        fr_start_sector = 1000, fr_sector_count = 8, fr_file_size = 4096, fr_filename = ''T1_HIGH_I_1.bin'',
        fr_created_at = 0\<rparr>\<rparr>"

theorem commit_success_complete_witness:
  "\<exists>st' h n tail. storage_commit_run_once storage_commit_state_reset (Some ''T1'') (Some [example_item])
      (Some (recording_ops (\<lambda>h x. if x = CFlash then -1 else 0) (\<lambda>h. 1))) [] = (0, st', h) \<and>
     h = CBegin # body_calls ''T1'' n [example_item] @ tail \<and> cs_success st'"
proof -
  let ?ops = "recording_ops (\<lambda>h x. if x = CFlash then -1 else 0) (\<lambda>h. 1)"
  obtain rc st' h where run: "storage_commit_run_once storage_commit_state_reset (Some ''T1'')
      (Some [example_item]) (Some ?ops) [] = (rc, st', h)" by (metis prod_cases3)
  have rc: "rc = 0" using run
    by (simp add: storage_commit_run_once_def storage_commit_state_reset_def set_reason_def answer_def
        commit_transaction_def update_and_commit_def after_commit_def mark_pending_def)
  from commit_success_complete [OF run [unfolded rc]] run rc show ?thesis
    by (force simp: storage_commit_state_reset_def set_reason_def)
qed

text \<open>C16. A commit that reports failure, with or without the operations that may be null, ends in one of three ways. The
  transaction could not begin. Or a step failed, and then the rollback of the transaction, the undoing of every
  started metadata write in reverse order and the marking of the task as failed were all attempted; the recorded reason
  names a failed undo exactly when one of these calls failed or metadata had to be undone without an operation for it,
  so with any other reason everything was undone. Or everything was committed and only the durable marker for the
  outstanding flash copy could not be stored, and the reason says so.\<close>

theorem commit_failure_undone:
  assumes "storage_commit_run_once st (Some task) (Some items) (Some (partial_ops N r t)) [] = (rc, st', h)"
    and "rc \<noteq> 0" and "\<not> cs_attempted st"
    and "task \<noteq> []" and "items \<noteq> []" and "length items \<le> 3"
  shows "\<not> cs_success st' \<and>
     (r [] CBegin \<noteq> 0 \<and> h = [CBegin, CStatus task TASK_FAILED] \<and> cs_reason st' = ''db_begin_failed'' \<or>
      (\<exists>body. \<not> all_succeed r [CBegin] body \<and>
         h = CBegin # body @ undo_calls N task (metadata_writes body) \<and>
         (cs_reason st' \<in> {''db_rollback_failed'', ''metadata_rollback_failed'', ''task_failed_update_failed''} \<longleftrightarrow>
            \<not> undo_complete N r (CBegin # body) task (metadata_writes body))) \<or>
      (\<exists>n tail. h = CBegin # body_calls task n items @ tail \<and> all_succeed r [] (CBegin # body_calls task n items) \<and>
         (NoMarkPending \<in> N \<or> last tail = CPending task \<and> tail \<noteq> [] \<and> r (butlast h) (CPending task) \<noteq> 0) \<and>
         cs_reason st' = ''sync_outbox_persist_failed''))"
proof (cases "r [] CBegin = 0")
  case False
  with assms show ?thesis by (auto simp: storage_commit_run_once_def answer_def set_reason_def snprintf_s_def Let_def)
next
  case True
  let ?st = "st\<lparr>cs_attempted := True, cs_success := False\<rparr>"
  from assms True have "commit_transaction ?st task items (partial_ops N r t) [CBegin] = (rc, st', h)"
    by (auto simp: storage_commit_run_once_def answer_def Let_def split: if_splits)
  from commit_transaction_outcome [OF this] consider
      (undone) "\<not> cs_success st'" "undone N r [CBegin] task st' h"
    | (marker) n where "all_succeed r [CBegin] (body_calls task n items)"
        "after_commit ?st task (partial_ops N r t) (CBegin # body_calls task n items) = (rc, st', h)" by auto
  then show ?thesis
  proof cases
    case undone
    then show ?thesis by (auto simp: undone_def undo_failures_def)
  next
    case marker
    from after_commit_marker_failed [OF marker(2)] \<open>rc \<noteq> 0\<close> obtain tail where "\<not> cs_success st'"
      "cs_reason st' = ''sync_outbox_persist_failed''" "h = CBegin # body_calls task n items @ tail"
      "NoMarkPending \<in> N \<or> last tail = CPending task \<and> tail \<noteq> [] \<and>
         r ((CBegin # body_calls task n items) @ butlast tail) (CPending task) \<noteq> 0" by auto
    moreover from this have "\<exists>n tail. h = CBegin # body_calls task n items @ tail \<and> all_succeed r [] (CBegin # body_calls task n items) \<and>
         (NoMarkPending \<in> N \<or> last tail = CPending task \<and> tail \<noteq> [] \<and> r (butlast h) (CPending task) \<noteq> 0) \<and>
         cs_reason st' = ''sync_outbox_persist_failed''"
      using marker(1) True by (intro exI [of _ n] exI [of _ tail]) (auto simp: butlast_append)
    ultimately show ?thesis by blast
  qed
qed

theorem commit_failure_undone_witness:
  "\<exists>st' h. storage_commit_run_once storage_commit_state_reset (Some ''T1'') (Some [example_item])
      (Some (partial_ops {NoMetadataRollback} (\<lambda>h x. if x = CCommit then -1 else 0) (\<lambda>h. 1))) [] = (-1, st', h) \<and>
     \<not> cs_success st' \<and> cs_reason st' = ''metadata_rollback_failed'' \<and> last h = CStatus ''T1'' TASK_FAILED"
proof -
  let ?r = "\<lambda>(h :: history) x. if x = CCommit then -1 else 0 :: int"
  let ?ops = "partial_ops {NoMetadataRollback} ?r (\<lambda>h. 1)"
  obtain rc st' h where run: "storage_commit_run_once storage_commit_state_reset (Some ''T1'')
      (Some [example_item]) (Some ?ops) [] = (rc, st', h)" by (metis prod_cases3)
  have rc: "rc = -1" and reason: "cs_reason st' = ''metadata_rollback_failed''" using run
    by (auto simp: storage_commit_run_once_def storage_commit_state_reset_def answer_def snprintf_s_def
        commit_transaction_def update_and_commit_def rollback_failure_def)
  from commit_failure_undone [OF run] rc reason have "\<not> cs_success st'" "last h = CStatus ''T1'' TASK_FAILED"
    by (auto simp: storage_commit_state_reset_def set_reason_def undo_calls_def)
  with run rc reason show ?thesis by blast
qed

text \<open>For any operations at all, the state a run leaves records that it ran and how it ended.\<close>

definition recorded :: "int \<times> StorageCommitState \<times> 'c \<Rightarrow> bool" where
  "recorded out \<longleftrightarrow> (case out of (rc, st, c) \<Rightarrow> cs_attempted st \<and> rc = (if cs_success st then 0 else -1))"

lemma recorded_simps [simp]:
  "recorded (rc, st, c) \<longleftrightarrow> cs_attempted st \<and> rc = (if cs_success st then 0 else -1)"
  by (simp add: recorded_def)

lemma rollback_failure_recorded:
  "cs_attempted st \<Longrightarrow> recorded (rollback_failure st task items n ops opened reason c)"
  by (auto simp: recorded_def rollback_failure_def Let_def split: prod.splits option.splits if_splits)

lemma after_commit_recorded:
  "cs_attempted st \<Longrightarrow> \<not> cs_success st \<Longrightarrow> recorded (after_commit st task ops c)"
  by (auto simp: recorded_def after_commit_def mark_pending_def Let_def split: prod.splits option.splits)

lemma commit_transaction_recorded:
  "cs_attempted st \<Longrightarrow> \<not> cs_success st \<Longrightarrow> recorded (commit_transaction st task items ops c)"
  by (simp add: commit_transaction_def update_and_commit_def Let_def rollback_failure_recorded
      after_commit_recorded split: prod.splits)

text \<open>A capture is committed at most once: whatever the operations do, a second call with any
  arguments repeats the first verdict and touches neither the recorded state nor the database.\<close>

lemma commit_runs_once:
  assumes "storage_commit_run_once st task items ops c = (rc, st', c')"
  shows "storage_commit_run_once st' task2 items2 ops2 d = (rc, st', d)"
proof -
  have "recorded (storage_commit_run_once st task items ops c)"
    by (simp add: storage_commit_run_once_def Let_def commit_transaction_recorded split: prod.split option.split)
  with assms show ?thesis by (auto simp: recorded_def storage_commit_run_once_def)
qed

end
