(* ===== verification/Sync_Outbox.thy ===== *)
theory Sync_Outbox
  imports Metadata
begin

text \<open>
  The outbox of pending flash copies, \<^verbatim>\<open>ccb_storage_sync_outbox.c\<close>: one marker file per task, written
  to a temporary file, flushed, renamed into place and made durable by flushing the directory. The
  system calls are the operations of \<^verbatim>\<open>StorageSyncOutboxOps\<close>, functions on a context \<^typ>\<open>'c\<close> that
  return an error number or a result, \<^term>\<open>None\<close> for a null pointer. The process id is an argument.
  The open flags, which are constant, are not part of the calls.
\<close>

section \<open>Operations\<close>

datatype file_errno = F_EINVAL | F_EIO | F_EINTR | F_EEXIST | F_ENOENT | F_ENAMETOOLONG | F_EOTHER

type_synonym 'c syscall = "'c \<Rightarrow> (file_errno + int) \<times> 'c"

record 'c StorageSyncOutboxOps =
  ob_mkdir_path :: "(string \<Rightarrow> 'c syscall) option"
  ob_open_file :: "(string \<Rightarrow> 'c syscall) option"
  ob_open_directory :: "(string \<Rightarrow> 'c syscall) option"
  ob_write_file :: "(int \<Rightarrow> string \<Rightarrow> 'c syscall) option"
  ob_fsync_fd :: "(int \<Rightarrow> 'c syscall) option"
  ob_close_fd :: "(int \<Rightarrow> 'c syscall) option"
  ob_rename_path :: "(string \<Rightarrow> string \<Rightarrow> 'c syscall) option"
  ob_unlink_path :: "(string \<Rightarrow> 'c syscall) option"

abbreviation PATH_MAX :: nat where "PATH_MAX \<equiv> 4096"
abbreviation STORAGE_SYNC_OUTBOX_TEMP_ATTEMPTS :: nat where "STORAGE_SYNC_OUTBOX_TEMP_ATTEMPTS \<equiv> 64"

definition outbox_ops_valid :: "'c StorageSyncOutboxOps \<Rightarrow> bool" where
  "outbox_ops_valid ops \<longleftrightarrow>
     ob_mkdir_path ops \<noteq> None \<and> ob_open_file ops \<noteq> None \<and> ob_open_directory ops \<noteq> None \<and>
     ob_write_file ops \<noteq> None \<and> ob_fsync_fd ops \<noteq> None \<and> ob_close_fd ops \<noteq> None \<and>
     ob_rename_path ops \<noteq> None \<and> ob_unlink_path ops \<noteq> None"

definition outbox_ops :: "'c StorageSyncOutboxOps \<Rightarrow> 'c StorageSyncOutboxOps option \<Rightarrow> 'c StorageSyncOutboxOps" where
  "outbox_ops g_default_ops ops = (case ops of Some f \<Rightarrow> f | None \<Rightarrow> g_default_ops)"

definition outbox_char_valid :: "char \<Rightarrow> bool" where
  "outbox_char_valid ch \<longleftrightarrow>
     (let n = of_char ch :: nat
      in 65 \<le> n \<and> n \<le> 90 \<or> 97 \<le> n \<and> n \<le> 122 \<or> 48 \<le> n \<and> n \<le> 57 \<or> ch = CHR ''_'' \<or> ch = CHR ''-'')"

definition outbox_task_id_valid :: "string option \<Rightarrow> bool" where
  "outbox_task_id_valid task_id \<longleftrightarrow>
     (case task_id of None \<Rightarrow> False | Some s \<Rightarrow> s \<noteq> [] \<and> list_all outbox_char_valid s)"

definition outbox_marker_path :: "string option \<Rightarrow> string option \<Rightarrow> nat \<Rightarrow> file_errno + string" where
  "outbox_marker_path outbox_dir task_id path_size =
     (case (outbox_dir, task_id) of
        (Some d, Some t) \<Rightarrow>
          if d = [] \<or> \<not> outbox_task_id_valid (Some t) then Inl F_EINVAL
          else let path = d @ ''/'' @ t @ ''.pending''
               in if length path < path_size then Inr path else Inl F_ENAMETOOLONG
      | _ \<Rightarrow> Inl F_EINVAL)"

text \<open>The loop ends when everything is written or a call fails; a call that is interrupted for ever
  makes it run for ever, which is \<^term>\<open>None\<close>.\<close>

partial_function (option) outbox_write_all ::
  "'c StorageSyncOutboxOps \<Rightarrow> int \<Rightarrow> string \<Rightarrow> 'c \<Rightarrow> (file_errno option \<times> 'c) option" where
  "outbox_write_all ops fd bytes c =
     (if bytes = [] then Some (None, c)
      else case the (ob_write_file ops) fd bytes c of
             (Inr n, c') \<Rightarrow> if 0 < n then outbox_write_all ops fd (drop (nat n) bytes) c'
                            else Some (Some F_EIO, c')
           | (Inl e, c') \<Rightarrow> if e = F_EINTR then outbox_write_all ops fd bytes c' else Some (Some e, c'))"

definition outbox_fsync_directory :: "string \<Rightarrow> 'c StorageSyncOutboxOps \<Rightarrow> 'c \<Rightarrow> file_errno option \<times> 'c" where
  "outbox_fsync_directory path ops c =
     (case the (ob_open_directory ops) path c of
        (Inl e, c1) \<Rightarrow> (Some e, c1)
      | (Inr fd, c1) \<Rightarrow>
          (case the (ob_fsync_fd ops) fd c1 of
             (Inl e, c2) \<Rightarrow> (Some e, snd (the (ob_close_fd ops) fd c2))
           | (Inr _, c2) \<Rightarrow>
               (case the (ob_close_fd ops) fd c2 of
                  (Inl e, c3) \<Rightarrow> (Some e, c3)
                | (Inr _, c3) \<Rightarrow> (None, c3))))"

definition outbox_make_temp_path :: "string \<Rightarrow> string \<Rightarrow> nat \<Rightarrow> nat \<Rightarrow> nat \<Rightarrow> string option" where
  "outbox_make_temp_path outbox_dir task_id pid attempt path_size =
     (let path = outbox_dir @ ''/.'' @ task_id @ ''.pending.tmp.'' @ decimal pid @ ''.'' @ decimal attempt
      in if length path < path_size then Some path else None)"

text \<open>The loop over the attempts from \<open>attempt\<close> on, \<open>n\<close> of them left.\<close>

fun open_temp ::
  "'c StorageSyncOutboxOps \<Rightarrow> string \<Rightarrow> string \<Rightarrow> nat \<Rightarrow> nat \<Rightarrow> nat \<Rightarrow> 'c \<Rightarrow> (file_errno + string \<times> int) \<times> 'c" where
  "open_temp ops outbox_dir task_id pid attempt 0 c = (Inl F_EEXIST, c)"
| "open_temp ops outbox_dir task_id pid attempt (Suc n) c =
     (case outbox_make_temp_path outbox_dir task_id pid attempt PATH_MAX of
        None \<Rightarrow> (Inl F_ENAMETOOLONG, c)
      | Some temp_path \<Rightarrow>
          (case the (ob_open_file ops) temp_path c of
             (Inr fd, c1) \<Rightarrow> (Inr (temp_path, fd), c1)
           | (Inl e, c1) \<Rightarrow>
               if e \<noteq> F_EEXIST then (Inl e, c1)
               else open_temp ops outbox_dir task_id pid (attempt + 1) n c1))"

text \<open>The task id, a newline and the flush; \<^term>\<open>Some None\<close> when all three succeeded.\<close>

definition write_marker ::
  "'c StorageSyncOutboxOps \<Rightarrow> int \<Rightarrow> string \<Rightarrow> 'c \<Rightarrow> (file_errno option \<times> 'c) option" where
  "write_marker ops fd task_id c =
     (case outbox_write_all ops fd task_id c of
        None \<Rightarrow> None
      | Some (Some e, c1) \<Rightarrow> Some (Some e, c1)
      | Some (None, c1) \<Rightarrow>
          (case outbox_write_all ops fd [CHR 0x0A] c1 of
             None \<Rightarrow> None
           | Some (Some e, c2) \<Rightarrow> Some (Some e, c2)
           | Some (None, c2) \<Rightarrow>
               (case the (ob_fsync_fd ops) fd c2 of
                  (Inl e, c3) \<Rightarrow> Some (Some e, c3)
                | (Inr _, c3) \<Rightarrow> Some (None, c3))))"

text \<open>Closing, renaming and flushing the directory, with the temporary file removed on an error.\<close>

definition publish_marker ::
  "'c StorageSyncOutboxOps \<Rightarrow> string \<Rightarrow> string \<Rightarrow> string \<Rightarrow> int \<Rightarrow> 'c \<Rightarrow> file_errno option \<times> 'c" where
  "publish_marker ops outbox_dir temp_path final_path fd c =
     (case the (ob_close_fd ops) fd c of
        (Inl e, c1) \<Rightarrow> (Some e, snd (the (ob_unlink_path ops) temp_path c1))
      | (Inr _, c1) \<Rightarrow>
          (case the (ob_rename_path ops) temp_path final_path c1 of
             (Inl e, c2) \<Rightarrow> (Some e, snd (the (ob_unlink_path ops) temp_path c2))
           | (Inr _, c2) \<Rightarrow> outbox_fsync_directory outbox_dir ops c2))"

definition mark_pending_prepared ::
  "'c StorageSyncOutboxOps \<Rightarrow> string \<Rightarrow> string \<Rightarrow> string \<Rightarrow> nat \<Rightarrow> 'c \<Rightarrow> (file_errno option \<times> 'c) option" where
  "mark_pending_prepared ops outbox_dir task_id final_path pid c =
     (case open_temp ops outbox_dir task_id pid 0 STORAGE_SYNC_OUTBOX_TEMP_ATTEMPTS c of
        (Inl e, c1) \<Rightarrow> Some (Some e, c1)
      | (Inr (temp_path, fd), c1) \<Rightarrow>
          (case write_marker ops fd task_id c1 of
             None \<Rightarrow> None
           | Some (Some e, c2) \<Rightarrow>
               Some (Some e, snd (the (ob_unlink_path ops) temp_path (snd (the (ob_close_fd ops) fd c2))))
           | Some (None, c2) \<Rightarrow> Some (publish_marker ops outbox_dir temp_path final_path fd c2)))"

text \<open>The result is the error number, or \<^term>\<open>None\<close> for the return value 0. With incomplete operations
  the source leaves \<^verbatim>\<open>errno\<close> as it was; that unknown number is \<^term>\<open>F_EOTHER\<close>.\<close>

definition storage_sync_outbox_mark_pending_with_ops ::
  "'c StorageSyncOutboxOps \<Rightarrow> nat \<Rightarrow> string option \<Rightarrow> string option \<Rightarrow> 'c StorageSyncOutboxOps option \<Rightarrow> 'c
     \<Rightarrow> (file_errno option \<times> 'c) option" where
  "storage_sync_outbox_mark_pending_with_ops g_default_ops pid outbox_dir task_id custom_ops c =
     (let ops = outbox_ops g_default_ops custom_ops
      in if \<not> outbox_ops_valid ops then Some (Some F_EOTHER, c)
         else case outbox_marker_path outbox_dir task_id PATH_MAX of
                Inl e \<Rightarrow> Some (Some e, c)
              | Inr final_path \<Rightarrow>
                  (case the (ob_mkdir_path ops) (the outbox_dir) c of
                     (rc, c1) \<Rightarrow>
                       (case rc of
                          Inl e \<Rightarrow> if e \<noteq> F_EEXIST then Some (Some e, c1)
                                   else mark_pending_prepared ops (the outbox_dir) (the task_id) final_path pid c1
                        | Inr _ \<Rightarrow> mark_pending_prepared ops (the outbox_dir) (the task_id) final_path pid c1)))"

definition storage_sync_outbox_mark_pending ::
  "'c StorageSyncOutboxOps \<Rightarrow> nat \<Rightarrow> string option \<Rightarrow> string option \<Rightarrow> 'c \<Rightarrow> (file_errno option \<times> 'c) option" where
  "storage_sync_outbox_mark_pending g_default_ops pid outbox_dir task_id c =
     storage_sync_outbox_mark_pending_with_ops g_default_ops pid outbox_dir task_id None c"

definition storage_sync_outbox_mark_complete_with_ops ::
  "'c StorageSyncOutboxOps \<Rightarrow> string option \<Rightarrow> string option \<Rightarrow> 'c StorageSyncOutboxOps option \<Rightarrow> 'c
     \<Rightarrow> file_errno option \<times> 'c" where
  "storage_sync_outbox_mark_complete_with_ops g_default_ops outbox_dir task_id custom_ops c =
     (let ops = outbox_ops g_default_ops custom_ops
      in if \<not> outbox_ops_valid ops then (Some F_EOTHER, c)
         else case outbox_marker_path outbox_dir task_id PATH_MAX of
                Inl e \<Rightarrow> (Some e, c)
              | Inr final_path \<Rightarrow>
                  (case the (ob_unlink_path ops) final_path c of
                     (Inl e, c1) \<Rightarrow> if e = F_ENOENT then (None, c1) else (Some e, c1)
                   | (Inr _, c1) \<Rightarrow> outbox_fsync_directory (the outbox_dir) ops c1))"

definition storage_sync_outbox_mark_complete ::
  "'c StorageSyncOutboxOps \<Rightarrow> string option \<Rightarrow> string option \<Rightarrow> 'c \<Rightarrow> file_errno option \<times> 'c" where
  "storage_sync_outbox_mark_complete g_default_ops outbox_dir task_id c =
     storage_sync_outbox_mark_complete_with_ops g_default_ops outbox_dir task_id None c"

section \<open>Recorded runs\<close>

text \<open>The context that records every call; \<open>r\<close> answers a call from the history so far.\<close>

datatype outbox_call =
    OMkdir string | OOpen string | OOpenDir string | OWrite int string | OFsync int | OClose int
  | ORename string string | OUnlink string

type_synonym outbox_history = "outbox_call list"
type_synonym outbox_answers = "outbox_history \<Rightarrow> outbox_call \<Rightarrow> file_errno + int"

definition outbox_answer :: "outbox_answers \<Rightarrow> outbox_call \<Rightarrow> outbox_history syscall" where
  "outbox_answer r x h = (r h x, h @ [x])"

definition recording_outbox :: "outbox_answers \<Rightarrow> outbox_history StorageSyncOutboxOps" where
  "recording_outbox r =
     \<lparr>ob_mkdir_path = Some (\<lambda>p. outbox_answer r (OMkdir p)),
      ob_open_file = Some (\<lambda>p. outbox_answer r (OOpen p)),
      ob_open_directory = Some (\<lambda>p. outbox_answer r (OOpenDir p)),
      ob_write_file = Some (\<lambda>fd b. outbox_answer r (OWrite fd b)),
      ob_fsync_fd = Some (\<lambda>fd. outbox_answer r (OFsync fd)),
      ob_close_fd = Some (\<lambda>fd. outbox_answer r (OClose fd)),
      ob_rename_path = Some (\<lambda>p q. outbox_answer r (ORename p q)),
      ob_unlink_path = Some (\<lambda>p. outbox_answer r (OUnlink p))\<rparr>"

lemma recording_outbox_simps [simp]:
  "ob_mkdir_path (recording_outbox r) = Some (\<lambda>p. outbox_answer r (OMkdir p))"
  "ob_open_file (recording_outbox r) = Some (\<lambda>p. outbox_answer r (OOpen p))"
  "ob_open_directory (recording_outbox r) = Some (\<lambda>p. outbox_answer r (OOpenDir p))"
  "ob_write_file (recording_outbox r) = Some (\<lambda>fd b. outbox_answer r (OWrite fd b))"
  "ob_fsync_fd (recording_outbox r) = Some (\<lambda>fd. outbox_answer r (OFsync fd))"
  "ob_close_fd (recording_outbox r) = Some (\<lambda>fd. outbox_answer r (OClose fd))"
  "ob_rename_path (recording_outbox r) = Some (\<lambda>p q. outbox_answer r (ORename p q))"
  "ob_unlink_path (recording_outbox r) = Some (\<lambda>p. outbox_answer r (OUnlink p))"
  by (simp_all add: recording_outbox_def)

lemma recording_outbox_valid [simp]: "outbox_ops_valid (recording_outbox r)"
  by (simp add: outbox_ops_valid_def)

text \<open>The bytes the answers accepted of a stretch of calls, and whether all of them succeeded.\<close>

fun delivered :: "outbox_answers \<Rightarrow> outbox_history \<Rightarrow> outbox_history \<Rightarrow> string" where
  "delivered r h [] = []"
| "delivered r h (x # xs) =
     (case x of OWrite fd b \<Rightarrow> (case r h x of Inr n \<Rightarrow> take (nat n) b | Inl _ \<Rightarrow> []) | _ \<Rightarrow> []) @
     delivered r (h @ [x]) xs"

fun all_ok :: "outbox_answers \<Rightarrow> outbox_history \<Rightarrow> outbox_history \<Rightarrow> bool" where
  "all_ok r h [] = True"
| "all_ok r h (x # xs) \<longleftrightarrow> (\<exists>v. r h x = Inr v) \<and> all_ok r (h @ [x]) xs"

definition writes_to :: "int \<Rightarrow> outbox_history \<Rightarrow> bool" where
  "writes_to fd calls \<longleftrightarrow> (\<forall>x\<in>set calls. \<exists>b. x = OWrite fd b)"

lemma delivered_append: "delivered r h (xs @ ys) = delivered r h xs @ delivered r (h @ xs) ys"
  by (induction xs arbitrary: h) simp_all

lemma writes_to_simps [simp]:
  "writes_to fd []" "writes_to fd (OWrite fd b # xs) = writes_to fd xs"
  "writes_to fd (xs @ ys) \<longleftrightarrow> writes_to fd xs \<and> writes_to fd ys"
  by (auto simp: writes_to_def)

lemma write_all_history:
  assumes run: "outbox_write_all (recording_outbox r) fd bytes h = Some out"
  shows "\<exists>calls. snd out = h @ calls \<and> writes_to fd calls \<and> (fst out = None \<longrightarrow> delivered r h calls = bytes)"
proof -
  have "ops = recording_outbox r \<longrightarrow> (\<exists>calls. snd out = h @ calls \<and> writes_to fd calls \<and>
      (fst out = None \<longrightarrow> delivered r h calls = bytes))"
    if "outbox_write_all ops fd bytes h = Some out" for ops
  proof (rule outbox_write_all.raw_induct [where P = "\<lambda>ops fd bytes h out. ops = recording_outbox r \<longrightarrow>
      (\<exists>calls. snd out = h @ calls \<and> writes_to fd calls \<and> (fst out = None \<longrightarrow> delivered r h calls = bytes))",
      OF _ that], intro impI)
    fix f ops fd bytes h out
    assume IH: "\<And>ops fd bytes h out. f ops fd bytes h = Some out \<Longrightarrow> ops = recording_outbox r \<longrightarrow>
        (\<exists>calls. snd out = h @ calls \<and> writes_to fd calls \<and> (fst out = None \<longrightarrow> delivered r h calls = bytes))"
      and run: "(if bytes = [] then Some (None, h)
        else case the (ob_write_file ops) fd bytes h of
             (Inr n, c') \<Rightarrow> if 0 < n then f ops fd (drop (nat n) bytes) c' else Some (Some F_EIO, c')
           | (Inl e, c') \<Rightarrow> if e = F_EINTR then f ops fd bytes c' else Some (Some e, c')) = Some out"
      and ops: "ops = recording_outbox r"
    let ?x = "OWrite fd bytes"
    show "\<exists>calls. snd out = h @ calls \<and> writes_to fd calls \<and> (fst out = None \<longrightarrow> delivered r h calls = bytes)"
    proof (cases "r h ?x")
      case (Inl e)
      with run ops IH [of ops fd bytes "h @ [?x]" out] show ?thesis
        by (fastforce simp: outbox_answer_def split: if_splits intro: exI [of _ "[]"] exI [of _ "?x # _"])
    next
      case (Inr n)
      with run ops IH [of ops fd "drop (nat n) bytes" "h @ [?x]" out] show ?thesis
        by (fastforce simp: outbox_answer_def split: if_splits intro: exI [of _ "[]"] exI [of _ "?x # _"])
    qed
  qed
  with run show ?thesis by blast
qed

lemma write_all_returns:
  assumes "\<forall>h x. r h x \<noteq> Inl F_EINTR"
  shows "\<exists>out. outbox_write_all (recording_outbox r) fd bytes h = Some out"
proof (induction "length bytes" arbitrary: bytes h rule: less_induct)
  case less
  then show ?case
  proof (cases "r h (OWrite fd bytes)")
    case (Inl e)
    with assms have "e \<noteq> F_EINTR" by auto
    with Inl show ?thesis by (subst outbox_write_all.simps) (simp add: outbox_answer_def)
  next
    case (Inr n)
    with less show ?thesis by (subst outbox_write_all.simps) (simp add: outbox_answer_def)
  qed
qed

fun all_fail :: "outbox_answers \<Rightarrow> outbox_history \<Rightarrow> outbox_history \<Rightarrow> bool" where
  "all_fail r h [] = True"
| "all_fail r h (x # xs) \<longleftrightarrow> (\<exists>e. r h x = Inl e) \<and> all_fail r (h @ [x]) xs"

lemma open_temp_history:
  assumes "open_temp (recording_outbox r) d t pid k n h = (res, h')"
  shows "\<exists>pre. all_fail r h pre \<and> list_all (\<lambda>x. \<exists>p. x = OOpen p) pre \<and>
    (case res of
       Inl _ \<Rightarrow> h' = h @ pre
     | Inr (temp, fd) \<Rightarrow> h' = h @ pre @ [OOpen temp] \<and> r (h @ pre) (OOpen temp) = Inr fd \<and>
         (\<exists>k'. outbox_make_temp_path d t pid k' PATH_MAX = Some temp))"
  using assms
proof (induction n arbitrary: k h)
  case (Suc n)
  show ?case
  proof (cases "outbox_make_temp_path d t pid k PATH_MAX")
    case None
    with Suc.prems show ?thesis by (intro exI [of _ "[]"]) auto
  next
    case (Some temp)
    show ?thesis
    proof (cases "r h (OOpen temp)")
      case (Inr fd)
      with Suc.prems Some show ?thesis
        by (intro exI [of _ "[]"]) (auto simp: outbox_answer_def)
    next
      case (Inl e)
      show ?thesis
      proof (cases "e = F_EEXIST")
        case True
        with Suc.prems Some Inl Suc.IH [of "k + 1" "h @ [OOpen temp]"] obtain pre where
          "all_fail r (h @ [OOpen temp]) pre" "list_all (\<lambda>x. \<exists>p. x = OOpen p) pre"
          "case res of Inl _ \<Rightarrow> h' = (h @ [OOpen temp]) @ pre
           | Inr (temp', fd) \<Rightarrow> h' = (h @ [OOpen temp]) @ pre @ [OOpen temp'] \<and>
               r ((h @ [OOpen temp]) @ pre) (OOpen temp') = Inr fd \<and>
               (\<exists>k'. outbox_make_temp_path d t pid k' PATH_MAX = Some temp')"
          by (auto simp: outbox_answer_def)
        with Inl show ?thesis
          by (intro exI [of _ "OOpen temp # pre"]) (auto split: sum.splits)
      next
        case False
        with Suc.prems Some Inl show ?thesis
          by (intro exI [of _ "[OOpen temp]"]) (auto simp: outbox_answer_def)
      qed
    qed
  qed
qed (auto intro: exI [of _ "[]"])

lemma write_marker_history:
  assumes "write_marker (recording_outbox r) fd t h = Some (e, h')"
  shows "\<exists>calls. h' = h @ calls \<and>
    (e = None \<longrightarrow> (\<exists>ws. calls = ws @ [OFsync fd] \<and> writes_to fd ws \<and> delivered r h ws = t @ [CHR 0x0A] \<and>
        (\<exists>v. r (h @ ws) (OFsync fd) = Inr v)))"
proof -
  from assms obtain e1 h1 where w1: "outbox_write_all (recording_outbox r) fd t h = Some (e1, h1)"
    by (auto simp: write_marker_def split: option.splits)
  from write_all_history [OF w1] obtain c1 where c1: "h1 = h @ c1" "writes_to fd c1"
    "e1 = None \<Longrightarrow> delivered r h c1 = t" by auto
  show ?thesis
  proof (cases e1)
    case (Some x)
    with assms w1 c1 show ?thesis by (auto simp: write_marker_def)
  next
    case None
    with assms w1 obtain e2 h2 where
      w2: "outbox_write_all (recording_outbox r) fd [CHR 0x0A] h1 = Some (e2, h2)"
      by (auto simp: write_marker_def split: option.splits)
    from write_all_history [OF w2] obtain c2 where c2: "h2 = h1 @ c2" "writes_to fd c2"
      "e2 = None \<Longrightarrow> delivered r h1 c2 = [CHR 0x0A]" by auto
    show ?thesis
    proof (cases e2)
      case (Some x)
      with assms w1 w2 c1 c2 None show ?thesis by (auto simp: write_marker_def)
    next
      case e2: None
      with assms w1 w2 c1 c2 None show ?thesis
        by (intro exI [of _ "c1 @ c2 @ [OFsync fd]"])
          (auto simp: write_marker_def outbox_answer_def delivered_append split: sum.splits
            intro!: exI [of _ "c1 @ c2"])
    qed
  qed
qed

lemma publish_marker_history:
  assumes "publish_marker (recording_outbox r) d temp final fd h = (e, h')"
  shows "(e = None \<longrightarrow> (\<exists>dfd. let calls = [OClose fd, ORename temp final, OOpenDir d, OFsync dfd, OClose dfd]
             in h' = h @ calls \<and> all_ok r h calls)) \<and>
         (e \<noteq> None \<longrightarrow> (\<exists>calls. h' = h @ calls \<and>
             (last calls = OUnlink temp \<and> calls \<noteq> [] \<or>
              (\<exists>post v. calls = OClose fd # ORename temp final # post \<and>
                 r (h @ [OClose fd]) (ORename temp final) = Inr v))))"
  using assms
  by (cases "r h (OClose fd)"; cases "r (h @ [OClose fd]) (ORename temp final)")
    (auto simp: publish_marker_def outbox_fsync_directory_def outbox_answer_def Let_def split: sum.splits)

text \<open>How a run of the marker writer can go: no temporary file was created; the content could not be
  written and the file was removed; or the file was published.\<close>

lemma mark_pending_cases:
  assumes "mark_pending_prepared (recording_outbox r) d t final pid h = Some (e, h')"
  obtains (not_created) pre where "e \<noteq> None" "h' = h @ pre" "all_fail r h pre" "list_all (\<lambda>x. \<exists>p. x = OOpen p) pre"
  | (removed) pre temp fd post where "e \<noteq> None" "h' = h @ pre @ OOpen temp # post @ [OUnlink temp]"
      "r (h @ pre) (OOpen temp) = Inr fd"
  | (published) pre temp fd ws k h1 where "h1 = h @ pre @ OOpen temp # ws @ [OFsync fd]"
      "r (h @ pre) (OOpen temp) = Inr fd" "writes_to fd ws" "outbox_make_temp_path d t pid k PATH_MAX = Some temp"
      "delivered r (h @ pre @ [OOpen temp]) ws = t @ [CHR 0x0A]"
      "\<exists>v. r (h @ pre @ OOpen temp # ws) (OFsync fd) = Inr v"
      "publish_marker (recording_outbox r) d temp final fd h1 = (e, h')"
proof -
  obtain res h1 where o: "open_temp (recording_outbox r) d t pid 0 STORAGE_SYNC_OUTBOX_TEMP_ATTEMPTS h = (res, h1)"
    by fastforce
  from open_temp_history [OF o] obtain pre where pre: "all_fail r h pre" "list_all (\<lambda>x. \<exists>p. x = OOpen p) pre"
    "case res of Inl _ \<Rightarrow> h1 = h @ pre | Inr (temp, fd) \<Rightarrow> h1 = h @ pre @ [OOpen temp] \<and>
       r (h @ pre) (OOpen temp) = Inr fd \<and> (\<exists>k'. outbox_make_temp_path d t pid k' PATH_MAX = Some temp)" by auto
  show thesis
  proof (cases res)
    case (Inl x)
    with assms o pre show thesis by (intro not_created [of pre]) (auto simp: mark_pending_prepared_def)
  next
    case (Inr tf)
    then obtain temp fd k where tf: "res = Inr (temp, fd)" and h1: "h1 = h @ pre @ [OOpen temp]"
      and r: "r (h @ pre) (OOpen temp) = Inr fd" and k: "outbox_make_temp_path d t pid k PATH_MAX = Some temp"
      using pre(3) by (cases tf) auto
    with assms o obtain e2 h2 where w: "write_marker (recording_outbox r) fd t h1 = Some (e2, h2)"
      by (auto simp: mark_pending_prepared_def split: option.splits)
    from write_marker_history [OF w] obtain calls where calls: "h2 = h1 @ calls"
      "e2 = None \<Longrightarrow> \<exists>ws. calls = ws @ [OFsync fd] \<and> writes_to fd ws \<and> delivered r h1 ws = t @ [CHR 0x0A] \<and>
         (\<exists>v. r (h1 @ ws) (OFsync fd) = Inr v)" by auto
    show thesis
    proof (cases e2)
      case (Some x)
      with assms o tf w calls h1 r show thesis
        by (intro removed [of pre temp "calls @ [OClose fd]"]) (auto simp: mark_pending_prepared_def outbox_answer_def)
    next
      case None
      with calls obtain ws where "calls = ws @ [OFsync fd]" "writes_to fd ws"
        "delivered r h1 ws = t @ [CHR 0x0A]" "\<exists>v. r (h1 @ ws) (OFsync fd) = Inr v" by blast
      with assms o tf w calls h1 r k None show thesis
        by (intro published [of h2 pre temp ws fd k]) (auto simp: mark_pending_prepared_def)
    qed
  qed
qed

lemma marker_path_form:
  "outbox_marker_path (Some d) (Some t) PATH_MAX = Inr p \<Longrightarrow> p = d @ ''/'' @ t @ ''.pending''"
  by (auto simp: outbox_marker_path_def Let_def split: if_splits)

section \<open>Properties\<close>

text \<open>C29. When the pending marker is reported stored, the whole content (task id and newline) was
  written to a temporary file and flushed before the file was closed and renamed to the marker, and the
  directory was flushed after the rename; each of these calls succeeded.\<close>

theorem outbox_pending_durable:
  assumes "storage_sync_outbox_mark_pending_with_ops g pid (Some d) (Some t) (Some (recording_outbox r)) [] =
     Some (None, h)"
  shows "\<exists>pre temp fd ws dfd k.
     (let h1 = OMkdir d # pre @ [OOpen temp];
          flush = [OFsync fd, OClose fd, ORename temp (d @ ''/'' @ t @ ''.pending''), OOpenDir d,
                   OFsync dfd, OClose dfd]
      in h = h1 @ ws @ flush \<and> r (OMkdir d # pre) (OOpen temp) = Inr fd \<and>
         writes_to fd ws \<and> delivered r h1 ws = t @ [CHR 0x0A] \<and> all_ok r (h1 @ ws) flush \<and>
         outbox_make_temp_path d t pid k PATH_MAX = Some temp)"
proof -
  from assms obtain p where p: "outbox_marker_path (Some d) (Some t) PATH_MAX = Inr p"
    and run: "mark_pending_prepared (recording_outbox r) d t p pid [OMkdir d] = Some (None, h)"
    by (auto simp: storage_sync_outbox_mark_pending_with_ops_def outbox_ops_def outbox_answer_def Let_def
        split: sum.splits if_splits)
  from run show ?thesis
  proof (cases rule: mark_pending_cases)
    case (published pre temp fd ws k h1)
    from publish_marker_history [OF published(7)] obtain dfd where
      "h = h1 @ [OClose fd, ORename temp p, OOpenDir d, OFsync dfd, OClose dfd]"
      "all_ok r h1 [OClose fd, ORename temp p, OOpenDir d, OFsync dfd, OClose dfd]"
      by (auto simp: Let_def)
    with published marker_path_form [OF p] show ?thesis
      by (intro exI [of _ pre] exI [of _ temp] exI [of _ fd] exI [of _ ws] exI [of _ dfd] exI [of _ k])
        (simp add: Let_def)
  qed simp_all
qed

definition sample_answers :: outbox_answers where
  "sample_answers h x = (case x of OMkdir _ \<Rightarrow> Inl F_EEXIST | OWrite _ b \<Rightarrow> Inr (int (length b)) | _ \<Rightarrow> Inr 7)"

lemma sample_run:
  "storage_sync_outbox_mark_pending_with_ops (recording_outbox sample_answers) 1 (Some ''/o'') (Some ''T1'')
     (Some (recording_outbox sample_answers)) [] =
   Some (None, [OMkdir ''/o'', OOpen ''/o/.T1.pending.tmp.1.0'', OWrite 7 ''T1'', OWrite 7 [CHR 0x0A], OFsync 7,
     OClose 7, ORename ''/o/.T1.pending.tmp.1.0'' ''/o/T1.pending'', OOpenDir ''/o'', OFsync 7, OClose 7])"
proof -
  have "outbox_marker_path (Some ''/o'') (Some ''T1'') PATH_MAX = Inr ''/o/T1.pending''"
    "outbox_make_temp_path ''/o'' ''T1'' 1 0 PATH_MAX = Some ''/o/.T1.pending.tmp.1.0''" by code_simp+
  moreover have "open_temp ops d t pid k STORAGE_SYNC_OUTBOX_TEMP_ATTEMPTS c = open_temp ops d t pid k (Suc 63) c"
    for ops :: "outbox_history StorageSyncOutboxOps" and d t pid k c by simp
  ultimately show ?thesis
    by (simp add: storage_sync_outbox_mark_pending_with_ops_def mark_pending_prepared_def outbox_ops_def
        sample_answers_def outbox_answer_def write_marker_def publish_marker_def outbox_fsync_directory_def
        outbox_write_all.simps del: Suc_numeral)
qed

theorem outbox_pending_durable_witness:
  "\<exists>h pre temp fd ws. storage_sync_outbox_mark_pending_with_ops (recording_outbox sample_answers) 1 (Some ''/o'')
       (Some ''T1'') (Some (recording_outbox sample_answers)) [] = Some (None, h) \<and>
     delivered sample_answers (OMkdir ''/o'' # pre @ [OOpen temp]) ws = ''T1'' @ [CHR 0x0A] \<and> writes_to fd ws"
  using outbox_pending_durable [OF sample_run] sample_run unfolding Let_def by blast

lemma write_marker_returns:
  assumes "\<forall>h x. r h x \<noteq> Inl F_EINTR"
  shows "\<exists>out. write_marker (recording_outbox r) fd t h = Some out"
proof -
  obtain e1 h1 where w1: "outbox_write_all (recording_outbox r) fd t h = Some (e1, h1)"
    using write_all_returns [OF assms] by fastforce
  obtain e2 h2 where w2: "outbox_write_all (recording_outbox r) fd [CHR 0x0A] h1 = Some (e2, h2)"
    using write_all_returns [OF assms] by fastforce
  show ?thesis by (cases e1; cases e2) (simp_all add: write_marker_def w1 w2 split: prod.split sum.split)
qed

lemma mark_pending_returns:
  assumes "\<forall>h x. r h x \<noteq> Inl F_EINTR"
  shows "\<exists>e h'. mark_pending_prepared (recording_outbox r) d t final pid h = Some (e, h')"
  using write_marker_returns [OF assms]
  by (simp add: mark_pending_prepared_def split: prod.split sum.split option.split) (metis not_None_eq)

text \<open>If the system calls are not interrupted for ever, storing the marker returns; and when it
  reports an error it leaves no temporary file: none was created, or it was removed again, or it
  became the marker and only the flush of the directory failed.\<close>

lemma outbox_failure_clean:
  assumes "\<forall>h x. r h x \<noteq> Inl F_EINTR"
    and "outbox_marker_path (Some d) (Some t) PATH_MAX = Inr marker"
  shows "\<exists>e h. storage_sync_outbox_mark_pending_with_ops g pid (Some d) (Some t) (Some (recording_outbox r)) [] =
       Some (e, h) \<and>
     (e \<noteq> None \<longrightarrow>
        (\<exists>pre. h = OMkdir d # pre \<and> list_all (\<lambda>x. \<exists>p. x = OOpen p) pre \<and> all_fail r [OMkdir d] pre) \<or>
        (\<exists>temp. OOpen temp \<in> set h \<and> last h = OUnlink temp) \<or>
        (\<exists>pre temp post v. h = pre @ ORename temp marker # post \<and> r pre (ORename temp marker) = Inr v))"
proof -
  obtain e h where run: "mark_pending_prepared (recording_outbox r) d t marker pid [OMkdir d] = Some (e, h)"
    using mark_pending_returns [OF assms(1)] by blast
  have "e \<noteq> None \<longrightarrow>
      (\<exists>pre. h = OMkdir d # pre \<and> list_all (\<lambda>x. \<exists>p. x = OOpen p) pre \<and> all_fail r [OMkdir d] pre) \<or>
      (\<exists>temp. OOpen temp \<in> set h \<and> last h = OUnlink temp) \<or>
      (\<exists>pre temp post v. h = pre @ ORename temp marker # post \<and> r pre (ORename temp marker) = Inr v)"
    using run
  proof (cases rule: mark_pending_cases)
    case (removed pre temp fd post)
    then show ?thesis by (auto simp: last_append)
  next
    case (published pre temp fd ws k h1)
    show ?thesis
    proof
      assume "e \<noteq> None"
      with publish_marker_history [OF published(7)] consider
          calls where "h = h1 @ calls" "calls \<noteq> []" "last calls = OUnlink temp"
        | post v where "h = (h1 @ [OClose fd]) @ ORename temp marker # post"
            "r (h1 @ [OClose fd]) (ORename temp marker) = Inr v" by auto
      then show "(\<exists>pre. h = OMkdir d # pre \<and> list_all (\<lambda>x. \<exists>p. x = OOpen p) pre \<and> all_fail r [OMkdir d] pre) \<or>
          (\<exists>temp. OOpen temp \<in> set h \<and> last h = OUnlink temp) \<or>
          (\<exists>pre temp post v. h = pre @ ORename temp marker # post \<and> r pre (ORename temp marker) = Inr v)"
      proof cases
        case 1
        with published(1) have "OOpen temp \<in> set h" "last h = OUnlink temp" by (simp_all add: last_append)
        then show ?thesis by blast
      qed blast
    qed
  qed auto
  with run assms(2) show ?thesis
    by (auto simp: storage_sync_outbox_mark_pending_with_ops_def outbox_ops_def outbox_answer_def Let_def
        intro: exI [of _ "[]"] split: sum.splits)
qed

text \<open>A full disk: every write fails, and the temporary file is removed.\<close>

lemma valid_task_no_slash: "outbox_task_id_valid (Some t) \<Longrightarrow> CHR ''/'' \<notin> set t \<and> CHR ''.'' \<notin> set t"
  by (auto simp: outbox_task_id_valid_def list_all_iff outbox_char_valid_def Let_def)

text \<open>A marker lies directly in the outbox directory (no task id leads out of it), two tasks never
  share a marker, and a temporary file is never taken for a marker.\<close>

lemma outbox_marker_confined:
  assumes "outbox_marker_path (Some d) (Some t) n = Inr p"
  shows "\<exists>name. p = d @ ''/'' @ name \<and> CHR ''/'' \<notin> set name \<and>
     (\<forall>u m. outbox_marker_path (Some d) (Some u) m = Inr p \<longrightarrow> u = t) \<and>
     (\<forall>u pid k m. outbox_make_temp_path d u pid k m \<noteq> Some p)"
proof -
  from assms have p: "p = d @ ''/'' @ t @ ''.pending''" and t: "CHR ''/'' \<notin> set t" "CHR ''.'' \<notin> set t" "t \<noteq> []"
    using valid_task_no_slash [of t]
    by (auto simp: outbox_marker_path_def outbox_task_id_valid_def Let_def split: if_splits)
  moreover have "u = t" if "outbox_marker_path (Some d) (Some u) m = Inr p" for u m
    using that p by (auto simp: outbox_marker_path_def Let_def split: if_splits)
  moreover have "outbox_make_temp_path d u pid k m \<noteq> Some p" for u pid k m
    using p t(2,3) by (cases t) (auto simp: outbox_make_temp_path_def Let_def)
  ultimately show ?thesis by (intro exI [of _ "t @ ''.pending''"]) auto
qed

lemma outbox_marker_confined_witness:
  "\<exists>name. ''/o/T1.pending'' = ''/o'' @ ''/'' @ name \<and> CHR ''/'' \<notin> set name"
proof -
  have "outbox_marker_path (Some ''/o'') (Some ''T1'') PATH_MAX = Inr ''/o/T1.pending''" by code_simp
  from outbox_marker_confined [OF this] show ?thesis by blast
qed

end
