(* ===== verification/Storage_Health.thy ===== *)
theory Storage_Health
  imports Storage_Error
begin

text \<open>
  The health service, \<^verbatim>\<open>storage_health.c\<close>: a thread that probes the three channels and publishes
  one snapshot per channel, and the calls that read and control it. The mutex makes every call and
  every locked section of the thread one step; the thread is a program counter. What a probe reports
  and the clock shows are inputs of the thread's steps. Creation of the mutex, the condition variable
  and the thread succeed or fail by a parameter.
\<close>

section \<open>State\<close>

record StorageHealthSnapshot =
  hs_channel :: u32
  hs_pcie_link :: bool
  hs_nvme_ready :: bool
  hs_capacity_valid :: bool
  hs_checked_us :: u64
  hs_error :: StorageErrorCode

datatype StorageHealthResult = STORAGE_HEALTH_RETRYING | STORAGE_HEALTH_OK | STORAGE_HEALTH_FAILED

record StorageHealthService =
  sh_snapshots :: "StorageHealthSnapshot list"
  sh_refresh_interval_ms :: u32
  sh_initialized :: bool
  sh_running :: bool
  sh_stop :: bool
  sh_busy :: bool
  sh_refresh_requested :: bool

abbreviation STORAGE_HEALTH_CHANNELS :: nat where "STORAGE_HEALTH_CHANNELS \<equiv> 3"

definition snapshot_zero :: StorageHealthSnapshot where
  "snapshot_zero = \<lparr>hs_channel = 0, hs_pcie_link = False, hs_nvme_ready = False, hs_capacity_valid = False,
     hs_checked_us = 0, hs_error = STORAGE_ERR_NONE\<rparr>"

definition health_zero :: StorageHealthService where
  "health_zero = \<lparr>sh_snapshots = replicate STORAGE_HEALTH_CHANNELS snapshot_zero, sh_refresh_interval_ms = 0,
     sh_initialized = False, sh_running = False, sh_stop = False, sh_busy = False, sh_refresh_requested = False\<rparr>"

section \<open>The thread\<close>

text \<open>One round of probes: what \<^verbatim>\<open>probe\<close> does to the cleared snapshot of each channel, and the time
  read after it.\<close>

record probe_round =
  pr_probe :: "u32 \<Rightarrow> StorageHealthSnapshot \<Rightarrow> StorageErrorCode \<times> StorageHealthSnapshot"
  pr_clock :: "u32 \<Rightarrow> u64"

definition refreshed_snapshot :: "probe_round \<Rightarrow> u32 \<Rightarrow> StorageHealthSnapshot" where
  "refreshed_snapshot p channel =
     (case pr_probe p channel (snapshot_zero\<lparr>hs_channel := channel\<rparr>) of
        (error, snapshot) \<Rightarrow> snapshot\<lparr>hs_error := error, hs_checked_us := pr_clock p channel\<rparr>)"

datatype health_pc = AtTop | Probing bool | Publishing "StorageHealthSnapshot list" | Waiting | Exited

text \<open>The step from each program point to the next lock or unlock; \<open>timed_out\<close> is the result of the
  timed wait.\<close>

fun storage_health_thread ::
  "probe_round \<Rightarrow> bool \<Rightarrow> StorageHealthService \<times> health_pc \<Rightarrow> StorageHealthService \<times> health_pc" where
  "storage_health_thread p timed_out (s, AtTop) =
     (if sh_stop s then (s, Exited) else (s\<lparr>sh_refresh_requested := False\<rparr>, Probing (sh_busy s)))"
| "storage_health_thread p timed_out (s, Probing busy) =
     (if busy then (s, Waiting) else (s, Publishing (map (refreshed_snapshot p) [0, 1, 2])))"
| "storage_health_thread p timed_out (s, Publishing refreshed) = (s\<lparr>sh_snapshots := refreshed\<rparr>, Waiting)"
| "storage_health_thread p timed_out (s, Waiting) =
     (if \<not> sh_stop s \<and> \<not> sh_refresh_requested s \<and> \<not> timed_out then (s, Waiting) else (s, AtTop))"
| "storage_health_thread p timed_out (s, Exited) = (s, Exited)"

section \<open>Calls\<close>

definition storage_health_start ::
  "bool \<Rightarrow> bool \<Rightarrow> bool \<Rightarrow> bool \<Rightarrow> u32 \<Rightarrow> StorageHealthService \<times> health_pc \<Rightarrow> int \<times> StorageHealthService \<times> health_pc" where
  "storage_health_start has_probe mutex_ok cond_ok thread_ok refresh_interval_ms sp =
     (if \<not> has_probe \<or> refresh_interval_ms = 0 \<or> sh_initialized (fst sp) then (-1, sp)
      else let s = health_zero
           in if \<not> mutex_ok \<or> \<not> cond_ok then (-1, s, Exited)
              else let s1 = s\<lparr>sh_snapshots := map (\<lambda>i. snapshot_zero\<lparr>hs_channel := i\<rparr>) [0, 1, 2],
                              sh_refresh_interval_ms := refresh_interval_ms,
                              sh_initialized := True, sh_running := True\<rparr>
                   in if \<not> thread_ok then (-1, s1\<lparr>sh_running := False, sh_initialized := False\<rparr>, Exited)
                      else (0, s1, AtTop))"

text \<open>The join waits until the thread has left its loop; nothing of it remains.\<close>

definition storage_health_stop :: "StorageHealthService \<times> health_pc \<Rightarrow> StorageHealthService \<times> health_pc" where
  "storage_health_stop sp = (if \<not> sh_initialized (fst sp) then sp else (health_zero, Exited))"

definition storage_health_set_busy :: "bool \<Rightarrow> StorageHealthService \<Rightarrow> StorageHealthService" where
  "storage_health_set_busy busy s =
     (if \<not> sh_initialized s then s
      else let was_busy = sh_busy s; s1 = s\<lparr>sh_busy := busy\<rparr>
           in if was_busy \<and> \<not> busy then s1\<lparr>sh_refresh_requested := True\<rparr> else s1)"

definition storage_health_request_refresh :: "StorageHealthService \<Rightarrow> StorageHealthService" where
  "storage_health_request_refresh s = (if \<not> sh_initialized s then s else s\<lparr>sh_refresh_requested := True\<rparr>)"

definition snapshot_stale :: "u64 \<Rightarrow> u64 \<Rightarrow> StorageHealthSnapshot \<Rightarrow> bool" where
  "snapshot_stale now_us max_age_us x \<longleftrightarrow>
     hs_checked_us x = 0 \<or> now_us < hs_checked_us x \<or> max_age_us < now_us - hs_checked_us x"

definition snapshot_failed :: "StorageHealthSnapshot \<Rightarrow> bool" where
  "snapshot_failed x \<longleftrightarrow>
     hs_error x \<noteq> STORAGE_ERR_NONE \<or> \<not> hs_pcie_link x \<or> \<not> hs_nvme_ready x \<or> \<not> hs_capacity_valid x"

text \<open>The loop over the snapshots: the flags \<^verbatim>\<open>stale\<close>, \<^verbatim>\<open>failed\<close> and the request for a refresh.\<close>

fun query_loop :: "u64 \<Rightarrow> u64 \<Rightarrow> StorageHealthSnapshot list \<Rightarrow> bool \<Rightarrow> bool \<Rightarrow> bool \<Rightarrow> bool \<times> bool \<times> bool" where
  "query_loop now_us max_age_us [] stale failed refresh = (stale, failed, refresh)"
| "query_loop now_us max_age_us (x # xs) stale failed refresh =
     (if snapshot_stale now_us max_age_us x then query_loop now_us max_age_us xs True failed True
      else query_loop now_us max_age_us xs stale (failed \<or> snapshot_failed x) refresh)"

text \<open>The result and the copied snapshots, \<^term>\<open>None\<close> when nothing is copied.\<close>

definition storage_health_query ::
  "u64 \<Rightarrow> u64 \<Rightarrow> StorageHealthService
     \<Rightarrow> StorageHealthResult \<times> StorageHealthSnapshot list option \<times> StorageHealthService" where
  "storage_health_query now_us max_age_us s =
     (if \<not> sh_initialized s \<or> max_age_us = 0 then (STORAGE_HEALTH_RETRYING, None, s)
      else case query_loop now_us max_age_us (sh_snapshots s) False False (sh_refresh_requested s) of
             (stale, failed, refresh) \<Rightarrow>
               (if stale then STORAGE_HEALTH_RETRYING
                else if failed then STORAGE_HEALTH_FAILED else STORAGE_HEALTH_OK,
                Some (sh_snapshots s), s\<lparr>sh_refresh_requested := refresh\<rparr>))"

section \<open>Runs\<close>

datatype health_event =
    ThreadStep probe_round bool
  | Start bool bool bool bool u32
  | Stop
  | SetBusy bool
  | RequestRefresh
  | Query u64 u64

primrec health_step :: "StorageHealthService \<times> health_pc \<Rightarrow> health_event \<Rightarrow> StorageHealthService \<times> health_pc" where
  "health_step sp (ThreadStep p timed_out) = storage_health_thread p timed_out sp"
| "health_step sp (Start hp m c t i) = snd (storage_health_start hp m c t i sp)"
| "health_step sp Stop = storage_health_stop sp"
| "health_step sp (SetBusy b) = (storage_health_set_busy b (fst sp), snd sp)"
| "health_step sp RequestRefresh = (storage_health_request_refresh (fst sp), snd sp)"
| "health_step sp (Query now age) = (snd (snd (storage_health_query now age (fst sp))), snd sp)"

definition health_run :: "health_event list \<Rightarrow> StorageHealthService \<times> health_pc" where
  "health_run evs = foldl health_step (health_zero, Exited) evs"

section \<open>Where a snapshot comes from\<close>

definition rounds :: "health_event list \<Rightarrow> probe_round set" where
  "rounds evs = {p. \<exists>t. ThreadStep p t \<in> set evs}"

definition probed :: "health_event list \<Rightarrow> StorageHealthSnapshot list \<Rightarrow> bool" where
  "probed evs xs \<longleftrightarrow> (\<exists>p\<in>rounds evs. xs = map (refreshed_snapshot p) [0, 1, 2])"

definition health_inv :: "health_event list \<Rightarrow> StorageHealthService \<times> health_pc \<Rightarrow> bool" where
  "health_inv evs sp \<longleftrightarrow>
     (length (sh_snapshots (fst sp)) = STORAGE_HEALTH_CHANNELS \<and>
        list_all (\<lambda>x. hs_checked_us x = 0) (sh_snapshots (fst sp)) \<or> probed evs (sh_snapshots (fst sp))) \<and>
     (\<forall>r. snd sp = Publishing r \<longrightarrow> probed evs r)"

lemma probed_mono: "probed evs xs \<Longrightarrow> probed (evs @ [e]) xs"
  by (auto simp: probed_def rounds_def)

lemma probed_round: "probed (evs @ [ThreadStep p t]) (map (refreshed_snapshot p) [0, 1, 2])"
  by (auto simp: probed_def rounds_def)

lemma health_inv_zero: "health_inv evs (health_zero, Exited)"
  by (simp add: health_inv_def health_zero_def snapshot_zero_def list_all_iff)

lemma query_frame [simp]: "sh_snapshots (snd (snd (storage_health_query now age s))) = sh_snapshots s"
  by (simp add: storage_health_query_def split: prod.split)

lemma health_inv_step:
  assumes "health_inv evs sp"
  shows "health_inv (evs @ [e]) (health_step sp e)"
proof (cases e)
  case (ThreadStep p t)
  obtain s pc where sp: "sp = (s, pc)" by fastforce
  show ?thesis
  proof (cases pc)
    case (Probing b)
    with assms ThreadStep sp show ?thesis
      using probed_round [of evs p t] by (auto simp: health_inv_def dest: probed_mono)
  qed (use assms ThreadStep sp in \<open>auto simp: health_inv_def dest: probed_mono\<close>)
next
  case (Start hp m c t i)
  with assms show ?thesis
    by (auto simp: health_inv_def storage_health_start_def Let_def health_zero_def snapshot_zero_def
        list_all_iff dest: probed_mono)
next
  case Stop
  with assms health_inv_zero show ?thesis
    by (auto simp: storage_health_stop_def health_inv_def dest: probed_mono)
qed (use assms in \<open>auto simp: health_inv_def storage_health_set_busy_def storage_health_request_refresh_def
      Let_def dest: probed_mono\<close>)

lemma health_inv_run: "health_inv evs (health_run evs)"
  unfolding health_run_def
  by (induction evs rule: rev_induct) (simp_all add: health_inv_zero health_inv_step)

lemma query_loop_exact:
  "query_loop now age xs a b c =
     (a \<or> list_ex (snapshot_stale now age) xs,
      b \<or> list_ex (\<lambda>x. \<not> snapshot_stale now age x \<and> snapshot_failed x) xs,
      c \<or> list_ex (snapshot_stale now age) xs)"
  by (induction xs arbitrary: a b c) auto

section \<open>Properties\<close>

text \<open>The query's answer is exact: retrying when the service is not started or some snapshot is
  missing, from the future or older than the limit (and then a refresh is requested), failed when all
  are fresh and one of them shows an error, a lost link, a drive that is not ready or an invalid
  capacity, and ok otherwise. The snapshots are copied out whole.\<close>

lemma health_query_exact:
  fixes now age s
  defines "q \<equiv> storage_health_query now age s"
  assumes "sh_initialized s" and "age \<noteq> 0"
  shows "fst q = (if \<exists>x\<in>set (sh_snapshots s). snapshot_stale now age x then STORAGE_HEALTH_RETRYING
                  else if \<exists>x\<in>set (sh_snapshots s). snapshot_failed x then STORAGE_HEALTH_FAILED
                  else STORAGE_HEALTH_OK) \<and>
     fst (snd q) = Some (sh_snapshots s) \<and>
     snd (snd q) = s\<lparr>sh_refresh_requested := sh_refresh_requested s \<or>
                       (\<exists>x\<in>set (sh_snapshots s). snapshot_stale now age x)\<rparr>"
  using assms by (auto simp: storage_health_query_def query_loop_exact list_ex_iff)

text \<open>C30. In every run of the thread and its callers, an ok answer rests on one complete round of
  probes: there is a round in which all three channels were probed, each without an error, with the
  link up, the drive ready and the capacity valid, and each within the age limit of the query.\<close>

theorem health_ok_is_probed:
  assumes "fst (storage_health_query now age (fst (health_run evs))) = STORAGE_HEALTH_OK"
  shows "\<exists>p\<in>rounds evs. \<forall>ch\<in>{0, 1, 2}.
     (case pr_probe p ch (snapshot_zero\<lparr>hs_channel := ch\<rparr>) of
        (error, x) \<Rightarrow> error = STORAGE_ERR_NONE \<and> hs_pcie_link x \<and> hs_nvme_ready x \<and> hs_capacity_valid x) \<and>
     pr_clock p ch \<noteq> 0 \<and> pr_clock p ch \<le> now \<and> now - pr_clock p ch \<le> age"
proof -
  let ?xs = "sh_snapshots (fst (health_run evs))"
  from assms have fresh: "\<forall>x\<in>set ?xs. \<not> snapshot_stale now age x \<and> \<not> snapshot_failed x"
    by (auto simp: storage_health_query_def query_loop_exact list_ex_iff split: if_splits)
  moreover from fresh have "\<not> (length ?xs = STORAGE_HEALTH_CHANNELS \<and> list_all (\<lambda>x. hs_checked_us x = 0) ?xs)"
    by (cases ?xs) (auto simp: snapshot_stale_def)
  then obtain p where p: "p \<in> rounds evs" "?xs = map (refreshed_snapshot p) [0, 1, 2]"
    using health_inv_run [of evs] by (auto simp: health_inv_def probed_def)
  ultimately have "\<forall>ch\<in>{0, 1, 2}. \<not> snapshot_stale now age (refreshed_snapshot p ch) \<and>
      \<not> snapshot_failed (refreshed_snapshot p ch)" by simp
  then show ?thesis
    by (intro bexI [OF _ p(1)]) (auto simp: refreshed_snapshot_def snapshot_stale_def snapshot_failed_def
        not_less split: prod.splits)
qed

definition sample_round :: probe_round where
  "sample_round = \<lparr>pr_probe = \<lambda>ch x. (STORAGE_ERR_NONE, x\<lparr>hs_pcie_link := True, hs_nvme_ready := True,
                                       hs_capacity_valid := True\<rparr>), pr_clock = \<lambda>ch. 100\<rparr>"

theorem health_ok_is_probed_witness:
  "\<exists>p. p \<in> rounds (Start True True True True 1000 # replicate 3 (ThreadStep sample_round False)) \<and>
     pr_clock p 2 \<le> 105"
proof -
  let ?evs = "Start True True True True 1000 # replicate 3 (ThreadStep sample_round False)"
  have "fst (storage_health_query 105 10 (fst (health_run ?evs))) = STORAGE_HEALTH_OK"
    by (simp add: health_run_def numeral_3_eq_3 storage_health_start_def health_zero_def snapshot_zero_def
        refreshed_snapshot_def sample_round_def storage_health_query_def snapshot_stale_def snapshot_failed_def)
  from health_ok_is_probed [OF this] show ?thesis by auto
qed

end
