(* ===== verification/Event_Ring.thy ===== *)
theory Event_Ring
  imports Ccb_Prelude
begin

text \<open>
  The diagnostic event ring, \<^verbatim>\<open>ccb_storage_diag.c\<close>: the last events of a worker by sequence number,
  with the first fatal event kept aside. One pusher at a time is modelled, so an atomic access is a
  plain one; the zeroed allocation succeeds or fails by a parameter.
\<close>

section \<open>State\<close>

record StorageEventRecord =
  er_timestamp_us :: u64
  er_event_id :: u32
  er_channel :: u16
  er_flags :: u16
  er_arg0 :: u64
  er_arg1 :: u64
  er_sequence :: u64

record StorageEventRing =
  rg_records :: "StorageEventRecord list"
  rg_capacity :: u32
  rg_next_sequence :: u64
  rg_overwrite_count :: u64
  rg_fatal_sequence :: u64
  rg_fatal :: StorageEventRecord

definition event_zero :: StorageEventRecord where
  "event_zero = \<lparr>er_timestamp_us = 0, er_event_id = 0, er_channel = 0, er_flags = 0, er_arg0 = 0, er_arg1 = 0,
     er_sequence = 0\<rparr>"

section \<open>Operations\<close>

definition ring_zero :: StorageEventRing where
  "ring_zero = \<lparr>rg_records = [], rg_capacity = 0, rg_next_sequence = 0, rg_overwrite_count = 0,
     rg_fatal_sequence = 0, rg_fatal = event_zero\<rparr>"

definition storage_event_ring_init :: "bool \<Rightarrow> u32 \<Rightarrow> StorageEventRing option" where
  "storage_event_ring_init calloc_ok capacity =
     (if capacity = 0 \<or> \<not> calloc_ok then None
      else Some (ring_zero\<lparr>rg_records := replicate (unat capacity) event_zero, rg_capacity := capacity\<rparr>))"

definition storage_event_ring_destroy :: "StorageEventRing \<Rightarrow> StorageEventRing" where
  "storage_event_ring_destroy ring = ring_zero"

definition storage_event_ring_push :: "StorageEventRing \<Rightarrow> StorageEventRecord \<Rightarrow> bool \<Rightarrow> StorageEventRing" where
  "storage_event_ring_push ring record_in fatal =
     (if rg_records ring = [] then ring
      else let seq = rg_next_sequence ring + 1;
               ring1 = ring\<lparr>rg_next_sequence := seq\<rparr>;
               ring2 = (if ucast (rg_capacity ring) < seq
                        then ring1\<lparr>rg_overwrite_count := rg_overwrite_count ring1 + 1\<rparr> else ring1);
               copy = record_in\<lparr>er_sequence := 0\<rparr>;
               ring3 = ring2\<lparr>rg_records := (rg_records ring2)
                               [unat (seq mod ucast (rg_capacity ring)) := copy\<lparr>er_sequence := seq\<rparr>]\<rparr>
           in if fatal \<and> rg_fatal_sequence ring3 = 0
              then ring3\<lparr>rg_fatal := copy\<lparr>er_sequence := seq\<rparr>, rg_fatal_sequence := seq\<rparr>
              else ring3)"

text \<open>
  The collecting loop. It visits at most \<open>capacity\<close> sequence numbers, so \<open>capacity + 1\<close> rounds of fuel
  are enough unless the 64-bit counter has reached its last value; running out is \<^term>\<open>None\<close>.
\<close>

fun collect ::
  "nat \<Rightarrow> StorageEventRing \<Rightarrow> u64 \<Rightarrow> u64 \<Rightarrow> nat \<Rightarrow> StorageEventRecord list \<Rightarrow> StorageEventRecord list option" where
  "collect 0 ring seq last_seq max_n out = None"
| "collect (Suc fuel) ring seq last_seq max_n out =
     (if seq \<le> last_seq \<and> length out < max_n
      then let r = rg_records ring ! unat (seq mod ucast (rg_capacity ring))
           in collect fuel ring (seq + 1) last_seq max_n (if er_sequence r = seq then out @ [r] else out)
      else Some out)"

text \<open>The inner loop of the insertion sort and the outer loop from index \<open>i\<close> on, on the array \<open>out\<close>.\<close>

fun shift_loop :: "StorageEventRecord list \<Rightarrow> nat \<Rightarrow> StorageEventRecord \<Rightarrow> StorageEventRecord list" where
  "shift_loop out 0 v = out[0 := v]"
| "shift_loop out (Suc j) v =
     (if er_sequence v < er_sequence (out ! j) then shift_loop (out[Suc j := out ! j]) j v
      else out[Suc j := v])"

definition sort_records :: "StorageEventRecord list \<Rightarrow> StorageEventRecord list" where
  "sort_records out = fold (\<lambda>i xs. shift_loop xs i (xs ! i)) [1..<length out] out"

definition storage_event_ring_copy :: "StorageEventRing \<Rightarrow> nat \<Rightarrow> StorageEventRecord list option" where
  "storage_event_ring_copy ring max_n =
     (if max_n = 0 then Some []
      else let last_seq = rg_next_sequence ring;
               cap = ucast (rg_capacity ring);
               first_seq = (if cap < last_seq then last_seq - cap + 1 else 1)
           in case collect (unat (rg_capacity ring) + 1) ring first_seq last_seq max_n [] of
                None \<Rightarrow> None
              | Some out \<Rightarrow>
                  let out1 = (if rg_fatal_sequence ring \<noteq> 0 \<and> length out < max_n \<and>
                                 \<not> list_ex (\<lambda>r. er_sequence r = er_sequence (rg_fatal ring)) out
                              then out @ [rg_fatal ring] else out)
                  in Some (sort_records out1))"

definition storage_event_ring_should_dump :: "bool \<Rightarrow> bool \<Rightarrow> bool \<Rightarrow> bool \<Rightarrow> bool" where
  "storage_event_ring_should_dump is_error stopped dump_on_error dump_on_stop \<longleftrightarrow>
     is_error \<and> dump_on_error \<or> stopped \<and> dump_on_stop"

definition push_all :: "StorageEventRing \<Rightarrow> (StorageEventRecord \<times> bool) list \<Rightarrow> StorageEventRing" where
  "push_all ring es = foldl (\<lambda>r (x, fatal). storage_event_ring_push r x fatal) ring es"

section \<open>The insertion sort\<close>

fun insert_right :: "StorageEventRecord list \<Rightarrow> StorageEventRecord \<Rightarrow> StorageEventRecord list" where
  "insert_right [] v = [v]"
| "insert_right (x # xs) v = (if er_sequence v < er_sequence x then x # insert_right xs v else v # x # xs)"

text \<open>The sorted part is kept in reverse. On the array with a hole at the end of it, the inner loop
  inserts into it; the outer loop inserts the rest one by one.\<close>

lemma shift_loop_insert:
  "shift_loop (rev rxs @ y # zs) (length rxs) v = rev (insert_right rxs v) @ zs"
  by (induction rxs arbitrary: y zs) (simp_all add: nth_append list_update_append)

lemma insert_right_length [simp]: "length (insert_right rxs v) = Suc (length rxs)"
  by (induction rxs) simp_all

lemma insert_right_set [simp]: "set (insert_right rxs v) = insert v (set rxs)"
  by (induction rxs) auto

abbreviation descending :: "StorageEventRecord list \<Rightarrow> bool" where
  "descending \<equiv> sorted_wrt (\<lambda>a b. er_sequence b \<le> er_sequence a)"

lemma insert_right_sorted: "descending rxs \<Longrightarrow> descending (insert_right rxs v)"
  by (induction rxs) auto

lemma sort_outer:
  "fold (\<lambda>i xs. shift_loop xs i (xs ! i)) [length rxs..<length rxs + length zs] (rev rxs @ zs) =
     rev (foldl insert_right rxs zs)"
proof (induction zs arbitrary: rxs)
  case (Cons z zs)
  have "[length rxs..<length rxs + length (z # zs)] =
      length rxs # [length (insert_right rxs z)..<length (insert_right rxs z) + length zs]"
    using upt_conv_Cons [of "length rxs" "length rxs + length (z # zs)"] by simp
  with Cons [of "insert_right rxs z"] show ?case by (simp add: shift_loop_insert nth_append)
qed simp

lemma sort_records_insert: "sort_records out = rev (foldl insert_right [] out)"
proof (cases out)
  case (Cons x xs)
  then show ?thesis using sort_outer [of "[x]" xs] by (simp add: sort_records_def)
qed (simp add: sort_records_def)

lemma foldl_insert_right:
  "descending rxs \<Longrightarrow> descending (foldl insert_right rxs zs) \<and> set (foldl insert_right rxs zs) = set rxs \<union> set zs \<and>
     length (foldl insert_right rxs zs) = length rxs + length zs"
  by (induction zs arbitrary: rxs) (simp_all add: insert_right_sorted)

lemma sort_records_correct:
  "sorted_wrt (\<lambda>a b. er_sequence a \<le> er_sequence b) (sort_records out)"
  "set (sort_records out) = set out" "length (sort_records out) = length out"
  using foldl_insert_right [of "[]" out] by (simp_all add: sort_records_insert sorted_wrt_rev)

lemma sort_records_unique:
  assumes "sorted_wrt (\<lambda>a b. er_sequence a < er_sequence b) xs" "set xs = set out" "length out = length xs"
  shows "sort_records out = xs"
proof (rule map_sorted_distinct_set_unique)
  have d: "distinct (map er_sequence xs)"
    using assms(1) strict_sorted_iff [of "map er_sequence xs"] by (simp add: sorted_wrt_map)
  show "inj_on er_sequence (set (sort_records out) \<union> set xs)"
    using d assms by (simp add: sort_records_correct distinct_map)
  show "sorted (map er_sequence (sort_records out))"
    using sort_records_correct(1) by (simp add: sorted_wrt_map)
  show "sorted (map er_sequence xs)" "distinct (map er_sequence xs)"
    using assms(1) strict_sorted_iff [of "map er_sequence xs"] by (simp_all add: sorted_wrt_map)
  have "card (set (map er_sequence (sort_records out))) = length xs"
    using distinct_card [OF d] assms by (simp add: sort_records_correct)
  then show "distinct (map er_sequence (sort_records out))"
    using assms(3) by (intro card_distinct) (simp add: sort_records_correct)
  show "set (sort_records out) = set xs" using assms by (simp add: sort_records_correct)
qed

section \<open>What the ring holds\<close>

text \<open>The \<open>k\<close>-th event pushed, counted from one, and the number of the first fatal one.\<close>

definition event_at :: "(StorageEventRecord \<times> bool) list \<Rightarrow> nat \<Rightarrow> StorageEventRecord" where
  "event_at es k = (fst (es ! (k - 1)))\<lparr>er_sequence := of_nat k\<rparr>"

definition first_fatal :: "(StorageEventRecord \<times> bool) list \<Rightarrow> nat option" where
  "first_fatal es = (if list_ex snd es then Some (Suc (length (takeWhile (\<lambda>e. \<not> snd e) es))) else None)"

lemma first_fatal_snoc:
  "first_fatal (es @ [e]) =
     (case first_fatal es of Some k \<Rightarrow> Some k | None \<Rightarrow> if snd e then Some (Suc (length es)) else None)"
proof (cases "list_ex snd es")
  case True
  then obtain x where "x \<in> set es" "snd x" by (auto simp: list_ex_iff)
  then show ?thesis using True by (simp add: first_fatal_def takeWhile_append1)
next
  case False
  then have "takeWhile (\<lambda>e. \<not> snd e) (es @ xs) = es @ takeWhile (\<lambda>e. \<not> snd e) xs" for xs
    by (intro takeWhile_append2) (auto simp: list_ex_iff)
  with False this [of "[]"] show ?thesis by (simp add: first_fatal_def)
qed

lemma first_fatal_bound: "first_fatal es = Some k \<Longrightarrow> 1 \<le> k \<and> k \<le> length es"
proof (induction es arbitrary: k rule: rev_induct)
  case (snoc e es)
  then show ?case by (fastforce simp: first_fatal_snoc split: option.splits if_splits)
qed (simp add: first_fatal_def)

lemma event_at_snoc [simp]:
  "1 \<le> k \<Longrightarrow> k \<le> length es \<Longrightarrow> event_at (es @ [e]) k = event_at es k"
  "event_at (es @ [e]) (Suc (length es)) = (fst e)\<lparr>er_sequence := of_nat (Suc (length es))\<rparr>"
  by (auto simp: event_at_def nth_append)

definition ring_holds :: "StorageEventRing \<Rightarrow> u32 \<Rightarrow> (StorageEventRecord \<times> bool) list \<Rightarrow> bool" where
  "ring_holds ring c es \<longleftrightarrow>
     rg_capacity ring = c \<and> length (rg_records ring) = unat c \<and> rg_next_sequence ring = of_nat (length es) \<and>
     rg_overwrite_count ring = of_nat (length es - unat c) \<and>
     (\<forall>k. 1 \<le> k \<and> k \<le> length es \<and> length es < k + unat c \<longrightarrow>
        rg_records ring ! (k mod unat c) = event_at es k) \<and>
     (case first_fatal es of
        None \<Rightarrow> rg_fatal_sequence ring = 0
      | Some k \<Rightarrow> rg_fatal_sequence ring = of_nat k \<and> rg_fatal ring = event_at es k)"

lemma of_nat_u64_eq: "m < 2 ^ 64 \<Longrightarrow> n < 2 ^ 64 \<Longrightarrow> of_nat m = (of_nat n :: u64) \<longleftrightarrow> m = n"
  by (simp add: word_of_nat_eq_iff take_bit_nat_eq_self)

lemma unat_u64: "m < 2 ^ 64 \<Longrightarrow> unat (of_nat m :: u64) = m"
  by (simp add: unat_of_nat take_bit_nat_eq_self)

lemma slot_index: "m < 2 ^ 64 \<Longrightarrow> unat (of_nat m mod ucast c :: u64) = m mod unat (c :: u32)"
  by (simp add: unat_mod unat_u64 unat_ucast_u32)

lemma mod_differs:
  fixes a b c :: nat
  assumes "a < b" "b < a + c"
  shows "a mod c \<noteq> b mod c"
proof
  assume "a mod c = b mod c"
  then have "c dvd b - a" using assms(1) by (metis less_imp_le mod_eq_dvd_iff_nat)
  with assms show False by (auto dest: dvd_imp_le)
qed

lemma ring_push_holds:
  assumes R: "ring_holds ring c es" and c: "c \<noteq> 0" and n: "length es + 1 < 2 ^ 64"
  shows "ring_holds (storage_event_ring_push ring x fatal) c (es @ [(x, fatal)])"
proof -
  let ?n = "length es" and ?cap = "unat c"
  have cap: "0 < ?cap" using c by (simp add: unat_gt_0)
  have records: "rg_records ring \<noteq> []" and next_seq: "rg_next_sequence ring + 1 = of_nat (Suc ?n)"
    using R cap by (auto simp: ring_holds_def)
  have over: "ucast c < (of_nat (Suc ?n) :: u64) \<longleftrightarrow> ?cap < Suc ?n"
    using n by (simp add: word_less_nat_alt unat_u64 del: of_nat_Suc)
  have index: "unat (of_nat (Suc ?n) mod ucast c :: u64) = Suc ?n mod ?cap"
    using n by (simp add: slot_index del: of_nat_Suc)
  have slot: "Suc ?n mod ?cap < length (rg_records ring)" using R cap by (simp add: ring_holds_def)
  have count: "of_nat (Suc ?n - ?cap) = (if ?cap < Suc ?n then rg_overwrite_count ring + 1 else rg_overwrite_count ring)"
    using R by (auto simp: ring_holds_def Suc_diff_le)
  have kept: "(rg_records ring)[Suc ?n mod ?cap := x\<lparr>er_sequence := of_nat (Suc ?n)\<rparr>] ! (k mod ?cap) =
      event_at (es @ [(x, fatal)]) k" if "1 \<le> k" "k \<le> Suc ?n" "Suc ?n < k + ?cap" for k
  proof (cases "k = Suc ?n")
    case True
    with slot show ?thesis by simp
  next
    case False
    with that have "k \<le> ?n" "?n < k + ?cap" by simp_all
    with R that(1) mod_differs [of k "Suc ?n" ?cap] that(3) show ?thesis
      by (simp add: ring_holds_def)
  qed
  have nz: "(of_nat k :: u64) \<noteq> 0" if "first_fatal es = Some k" for k
    using first_fatal_bound [OF that] n of_nat_u64_eq [of k 0] by simp
  have ff: "event_at (es @ [(x, fatal)]) k = event_at es k" if "first_fatal es = Some k" for k
    using first_fatal_bound [OF that] by simp
  show ?thesis
    using R records next_seq over index count kept nz ff slot
    by (auto simp: storage_event_ring_push_def Let_def ring_holds_def first_fatal_snoc
        simp del: of_nat_Suc split: option.splits)
qed

lemma ring_init_holds:
  "storage_event_ring_init True c = Some ring \<Longrightarrow> ring_holds ring c []"
  by (auto simp: storage_event_ring_init_def ring_zero_def ring_holds_def first_fatal_def split: if_splits)

lemma push_all_holds:
  assumes "storage_event_ring_init True c = Some ring" and "length es < 2 ^ 64"
  shows "ring_holds (push_all ring es) c es"
  using assms(2)
proof (induction es rule: rev_induct)
  case (snoc e es)
  obtain x f where e: "e = (x, f)" by fastforce
  have "c \<noteq> 0" using assms(1) by (auto simp: storage_event_ring_init_def)
  with snoc ring_push_holds [of "push_all ring es" c es x f] show ?case by (simp add: push_all_def e)
qed (simp add: push_all_def ring_init_holds [OF assms(1)])

lemma collect_holds:
  assumes R: "ring_holds ring c es" and n: "length es + 1 < 2 ^ 64" and c: "c \<noteq> 0"
  shows "1 \<le> a \<Longrightarrow> a \<le> Suc (length es) \<Longrightarrow> length es < a + unat c \<Longrightarrow> Suc (length es) - a < fuel \<Longrightarrow>
    length out + (Suc (length es) - a) \<le> m \<Longrightarrow>
    collect fuel ring (of_nat a) (of_nat (length es)) m out = Some (out @ map (event_at es) [a..<Suc (length es)])"
proof (induction fuel arbitrary: a out)
  case (Suc fuel)
  have le: "(of_nat a :: u64) \<le> of_nat (length es) \<longleftrightarrow> a \<le> length es"
    using n Suc.prems by (simp add: word_le_nat_alt unat_u64)
  show ?case
  proof (cases "a \<le> length es")
    case True
    let ?r = "rg_records ring ! unat (of_nat a mod ucast (rg_capacity ring) :: u64)"
    have r: "?r = event_at es a" using R n Suc.prems True by (simp add: ring_holds_def slot_index)
    have "collect fuel ring (of_nat (Suc a)) (of_nat (length es)) m (out @ [?r]) =
        Some ((out @ [?r]) @ map (event_at es) [Suc a..<Suc (length es)])"
      using Suc.prems True by (intro Suc.IH) simp_all
    moreover have "er_sequence ?r = of_nat a" by (simp add: r event_at_def)
    moreover have "[a..<Suc (length es)] = a # [Suc a..<Suc (length es)]"
      using True upt_conv_Cons [of a "Suc (length es)"] by simp
    ultimately show ?thesis using Suc.prems True le r by (simp add: Let_def add.commute)
  next
    case False
    with le Suc.prems show ?thesis by simp
  qed
qed simp

text \<open>What a dump shows: the first fatal event if it has been overwritten, then the newest events.\<close>

definition dump_of :: "u32 \<Rightarrow> (StorageEventRecord \<times> bool) list \<Rightarrow> StorageEventRecord list" where
  "dump_of c es =
     (let kept = map (event_at es) [Suc (length es - unat c)..<Suc (length es)]
      in case first_fatal es of
           Some k \<Rightarrow> if k \<le> length es - unat c then event_at es k # kept else kept
         | None \<Rightarrow> kept)"

lemma event_at_ascending:
  assumes "length es < 2 ^ 64" "b \<le> Suc (length es)"
  shows "sorted_wrt (\<lambda>x y. er_sequence x < er_sequence y) (map (event_at es) [a..<b])"
proof -
  have "(of_nat i :: u64) < of_nat j" if "i < j" "j \<le> length es" for i j
    using that assms(1) by (simp add: word_less_nat_alt unat_u64)
  then show ?thesis
    using assms(2) by (auto simp: sorted_wrt_map event_at_def intro!: sorted_wrt_mono_rel [OF _ sorted_wrt_upt])
qed

lemma copy_holds:
  assumes R: "ring_holds ring c es" and n: "length es + 1 < 2 ^ 64" and c: "c \<noteq> 0" and m: "unat c < m"
  shows "storage_event_ring_copy ring m = Some (dump_of c es)"
proof -
  let ?n = "length es" and ?cap = "unat c" and ?a = "Suc (length es - unat c)"
  define kept where "kept = map (event_at es) [?a..<Suc ?n]"
  have cap: "rg_capacity ring = c" "0 < ?cap" using R c by (simp_all add: ring_holds_def unat_gt_0)
  have last_seq: "rg_next_sequence ring = of_nat ?n" using R by (simp add: ring_holds_def)
  have first_seq: "(if ucast c < (of_nat ?n :: u64) then of_nat ?n - ucast c + 1 else 1) = of_nat ?a"
    using n by (simp add: word_less_nat_alt unat_u64 of_nat_diff)
  have coll: "collect (?cap + 1) ring (of_nat ?a) (of_nat ?n) m [] = Some kept"
    using collect_holds [OF R n c, of ?a "?cap + 1" "[]" m] cap(2) m by (simp add: kept_def)
  have asc: "sorted_wrt (\<lambda>x y. er_sequence x < er_sequence y) kept"
    unfolding kept_def using n by (intro event_at_ascending) simp_all
  have "length kept = Suc ?n - ?a" unfolding kept_def by (simp only: length_map length_upt)
  with m have len: "length kept < m" by linarith
  have copy: "storage_event_ring_copy ring m = Some (sort_records
      (if rg_fatal_sequence ring \<noteq> 0 \<and> length kept < m \<and>
          \<not> list_ex (\<lambda>r. er_sequence r = er_sequence (rg_fatal ring)) kept
       then kept @ [rg_fatal ring] else kept))"
    using m coll unfolding storage_event_ring_copy_def Let_def cap last_seq first_seq
    by (simp del: collect.simps)
  have sorted_kept: "sort_records kept = kept" by (rule sort_records_unique [OF asc]) simp_all
  show ?thesis
  proof (cases "first_fatal es")
    case None
    with R have "rg_fatal_sequence ring = 0" by (simp add: ring_holds_def)
    with None sorted_kept show ?thesis unfolding copy dump_of_def kept_def [symmetric] by simp
  next
    case (Some k)
    note k = first_fatal_bound [OF Some]
    have f: "rg_fatal_sequence ring = of_nat k" "rg_fatal ring = event_at es k" "(of_nat k :: u64) \<noteq> 0"
      using R Some k n of_nat_u64_eq [of k 0] by (simp_all add: ring_holds_def)
    have present: "list_ex (\<lambda>r. er_sequence r = er_sequence (event_at es k)) kept \<longleftrightarrow> \<not> k \<le> ?n - ?cap"
      using k n by (auto simp: list_ex_iff kept_def event_at_def of_nat_u64_eq intro!: exI [of _ k])
    have "sorted_wrt (\<lambda>x y. er_sequence x < er_sequence y) (event_at es k # kept)" if "k \<le> ?n - ?cap"
      using event_at_ascending [of es "Suc ?n" k] asc that k n
      by (auto simp: kept_def event_at_def word_less_nat_alt unat_u64)
    then have "sort_records (kept @ [event_at es k]) = event_at es k # kept" if "k \<le> ?n - ?cap"
      using that by (intro sort_records_unique) auto
    with Some sorted_kept present f len show ?thesis
      unfolding copy dump_of_def kept_def [symmetric] by simp
  qed
qed

section \<open>Properties\<close>

text \<open>C31. A dump into a buffer larger than the ring returns, in the order they were pushed, exactly the
  newest events the ring has room for, with their sequence numbers, and before them the first fatal
  event if newer events have overwritten it; the overwrite counter is the number of events lost.\<close>

theorem event_ring_dump_exact:
  assumes "storage_event_ring_init True c = Some ring" and "length es + 1 < 2 ^ 64" and "unat c < m"
  shows "storage_event_ring_copy (push_all ring es) m = Some (dump_of c es) \<and>
     rg_overwrite_count (push_all ring es) = of_nat (length es - unat c)"
proof -
  have "ring_holds (push_all ring es) c es" using assms by (intro push_all_holds) simp_all
  moreover have "c \<noteq> 0" using assms(1) by (auto simp: storage_event_ring_init_def)
  ultimately show ?thesis using copy_holds [of _ c es m] assms(2,3) by (auto simp: ring_holds_def)
qed

theorem event_ring_dump_exact_witness:
  "storage_event_ring_copy
     (push_all (the (storage_event_ring_init True 2))
        [(event_zero\<lparr>er_arg0 := 7\<rparr>, True), (event_zero, False), (event_zero, False)]) 4 =
   Some [event_zero\<lparr>er_arg0 := 7, er_sequence := 1\<rparr>, event_zero\<lparr>er_sequence := 2\<rparr>, event_zero\<lparr>er_sequence := 3\<rparr>]"
proof -
  let ?es = "[(event_zero\<lparr>er_arg0 := 7\<rparr>, True), (event_zero, False), (event_zero, False)]"
  have "storage_event_ring_init True 2 = Some (the (storage_event_ring_init True 2))"
    by (simp add: storage_event_ring_init_def)
  from event_ring_dump_exact [OF this, of ?es 4] show ?thesis
    by (simp add: dump_of_def first_fatal_def event_at_def event_zero_def numeral_3_eq_3 upt_rec)
qed

end
