(* ===== verification/Storage_Task.thy ===== *)
theory Storage_Task
  imports Storage_Ipc
begin

text \<open>
  The parent's record of a worker, \<^verbatim>\<open>ccb_storage_task.c\<close>, and the two process calls of
  \<^verbatim>\<open>storage_process.c\<close>. The descriptors a function closes are its second result, in the order of the
  calls; \<^verbatim>\<open>close\<close>, \<^verbatim>\<open>waitpid\<close> and \<^verbatim>\<open>kill\<close> themselves are outside, their results are arguments.
\<close>

section \<open>State\<close>

datatype TaskState = IDLE | RUNNING | ERROR

record PlannedFile =
  pf_channel_id :: int
  pf_proto_file_type_code :: int
  pf_file_type_name :: "string option"
  pf_size_bytes :: u64
  pf_file_index :: int
  pf_start_lba :: u64
  pf_sector_count :: u64
  pf_calibration_type :: u8

definition planned_file_zero :: PlannedFile where
  "planned_file_zero = \<lparr>pf_channel_id = 0, pf_proto_file_type_code = 0, pf_file_type_name = None,
     pf_size_bytes = 0, pf_file_index = 0, pf_start_lba = 0, pf_sector_count = 0, pf_calibration_type = 0\<rparr>"

record Task =
  tk_pid :: int
  tk_start_time :: int
  tk_state :: TaskState
  tk_name :: string
  tk_output_fd :: int
  tk_control_fd :: int
  tk_event_fd :: int
  tk_stop_send_attempts :: u32
  tk_worker_event :: StorageWorkerEvent
  tk_first_fatal :: StorageWorkerEvent
  tk_final_result :: WriteResult
  tk_worker_phase :: u32
  tk_ready_seen :: bool
  tk_armed_seen :: bool
  tk_running_seen :: bool
  tk_drained_seen :: bool
  tk_fatal_seen :: bool
  tk_output :: string
  tk_echo_line :: string
  tk_final_result_seen :: bool
  tk_final_data_persisted :: bool
  tk_final_integrity_ok :: bool
  tk_final_status_success :: bool
  tk_final_receive_seen :: bool
  tk_split_mismatch_reported :: bool
  tk_final_dma_received_bytes :: u64
  tk_planned_file :: PlannedFile
  tk_has_planned_file :: bool
  tk_task_id :: string
  tk_overpass_time :: int
  tk_timeout_seconds :: int

section \<open>Operations\<close>

definition storage_fd_is_kept :: "int \<Rightarrow> int list \<Rightarrow> bool" where
  "storage_fd_is_kept fd keep_fds \<longleftrightarrow> list_ex (\<lambda>k. fd = k) keep_fds"

definition open_fds :: "Task \<Rightarrow> int list" where
  "open_fds task = filter (\<lambda>fd. 0 \<le> fd) [tk_output_fd task, tk_control_fd task, tk_event_fd task]"

definition storage_task_close_fds :: "Task \<Rightarrow> Task \<times> int list" where
  "storage_task_close_fds task =
     (task\<lparr>tk_output_fd := -1, tk_control_fd := -1, tk_event_fd := -1\<rparr>, open_fds task)"

text \<open>The text buffers and their lengths are one string each, emptied here.\<close>

definition storage_task_reset_runtime :: "Task \<Rightarrow> Task \<times> int list" where
  "storage_task_reset_runtime task =
     (case storage_task_close_fds task of
        (t, closed) \<Rightarrow>
          (t\<lparr>tk_pid := -1, tk_start_time := 0, tk_state := IDLE, tk_stop_send_attempts := 0,
             tk_worker_event := worker_event_zero, tk_first_fatal := worker_event_zero,
             tk_final_result := write_result_zero, tk_worker_phase := 0, tk_ready_seen := False,
             tk_armed_seen := False, tk_running_seen := False, tk_drained_seen := False,
             tk_fatal_seen := False, tk_output := [], tk_echo_line := [], tk_final_result_seen := False,
             tk_final_data_persisted := False, tk_final_integrity_ok := False,
             tk_final_status_success := False, tk_final_receive_seen := False,
             tk_split_mismatch_reported := False, tk_final_dma_received_bytes := 0,
             tk_planned_file := planned_file_zero, tk_has_planned_file := False, tk_task_id := [],
             tk_overpass_time := 0\<rparr>, closed))"

text \<open>One descriptor of the inner loop: the new value and what is closed.\<close>

definition close_unless_kept :: "int list \<Rightarrow> int \<Rightarrow> int \<times> int list" where
  "close_unless_kept keep_fds fd =
     (if 0 \<le> fd \<and> \<not> storage_fd_is_kept fd keep_fds then (-1, [fd]) else (fd, []))"

fun storage_child_close_inherited_fds :: "Task list \<Rightarrow> int list \<Rightarrow> Task list \<times> int list" where
  "storage_child_close_inherited_fds [] keep_fds = ([], [])"
| "storage_child_close_inherited_fds (t # ts) keep_fds =
     (let (o_fd, c1) = close_unless_kept keep_fds (tk_output_fd t);
          (c_fd, c2) = close_unless_kept keep_fds (tk_control_fd t);
          (e_fd, c3) = close_unless_kept keep_fds (tk_event_fd t);
          (ts', cs) = storage_child_close_inherited_fds ts keep_fds
      in (t\<lparr>tk_output_fd := o_fd, tk_control_fd := c_fd, tk_event_fd := e_fd\<rparr> # ts', c1 @ c2 @ c3 @ cs))"

text \<open>\<open>waited\<close> is the result of \<^verbatim>\<open>waitpid\<close>: the pid it returned or the error number.\<close>

definition storage_process_poll :: "int \<Rightarrow> errno + int \<Rightarrow> int" where
  "storage_process_poll pid waited =
     (if pid \<le> 0 then -1
      else case waited of
             Inr result \<Rightarrow> if result = pid then 1 else if result = 0 then 0 else -1
           | Inl e \<Rightarrow> if e = EINTR then 0 else -1)"

definition storage_process_signal :: "int \<Rightarrow> int \<Rightarrow> int \<Rightarrow> int" where
  "storage_process_signal pid signal_number kill_result =
     (if pid \<le> 0 \<or> signal_number \<le> 0 then -1 else kill_result)"

section \<open>Properties\<close>

definition open_fd :: "int \<Rightarrow> int list" where
  "open_fd fd = (if 0 \<le> fd then [fd] else [])"

lemma open_fds_split: "open_fds t = open_fd (tk_output_fd t) @ open_fd (tk_control_fd t) @ open_fd (tk_event_fd t)"
  by (simp add: open_fds_def open_fd_def)

lemma close_one:
  "snd (close_unless_kept keep fd) = filter (\<lambda>fd. \<not> storage_fd_is_kept fd keep) (open_fd fd)"
  "open_fd (fst (close_unless_kept keep fd)) = filter (\<lambda>fd. storage_fd_is_kept fd keep) (open_fd fd)"
  by (auto simp: close_unless_kept_def open_fd_def)

lemma child_close_lists:
  "snd (storage_child_close_inherited_fds ts keep) =
     filter (\<lambda>fd. \<not> storage_fd_is_kept fd keep) (concat (map open_fds ts))"
  "concat (map open_fds (fst (storage_child_close_inherited_fds ts keep))) =
     filter (\<lambda>fd. storage_fd_is_kept fd keep) (concat (map open_fds ts))"
proof (induction ts)
  case (Cons t ts)
  {
    case 1
    show ?case using Cons by (simp add: Let_def split_beta open_fds_split close_one)
  next
    case 2
    show ?case using Cons by (simp add: Let_def split_beta open_fds_split close_one)
  }
qed simp_all

text \<open>A forked worker keeps exactly the descriptors it was told to keep: of all descriptors of all
  tasks that are open, those not in the list are closed, each once and in order, and marked closed, and
  those in the list stay as they are.\<close>

lemma child_keeps_only_allowed:
  fixes ts keep
  defines "out \<equiv> storage_child_close_inherited_fds ts keep"
  shows "snd out = filter (\<lambda>fd. fd \<notin> set keep) (concat (map open_fds ts)) \<and>
     concat (map open_fds (fst out)) = filter (\<lambda>fd. fd \<in> set keep) (concat (map open_fds ts))"
proof -
  have "storage_fd_is_kept fd keep \<longleftrightarrow> fd \<in> set keep" for fd
    by (auto simp: storage_fd_is_kept_def list_ex_iff)
  then show ?thesis by (simp add: out_def child_close_lists)
qed

lemma reset_closes_all:
  "open_fds (fst (storage_task_reset_runtime t)) = []"
  "snd (storage_task_reset_runtime t) = open_fds t"
  by (simp_all add: storage_task_reset_runtime_def storage_task_close_fds_def open_fds_def)

end
