(* ===== verification/Dma_Ring.thy ===== *)
theory Dma_Ring
  imports Slot_Table
begin

text \<open>
  The S2MM descriptor ring of a channel, the DMA section of \<^verbatim>\<open>ccb_hw.c\<close>: building and starting the
  ring, harvesting completed descriptors in order, handing them back, the stop latch, and the
  ownership snapshots. The register values a function reads are its inputs, the registers it writes
  its output, and what the hardware writes into the descriptors between two looks of the software is
  an input of the loop that looks. The runtime keeps the fields of \<^verbatim>\<open>ChannelRuntime\<close> and
  \<^verbatim>\<open>ChannelConfig\<close> these functions use; log lines are left out. The writer thread hands a descriptor
  back between two calls of the producer, not inside one.
\<close>

unbundle bit_operations_syntax

section \<open>State\<close>

abbreviation DESC_STS_CMPLT :: u32 where "DESC_STS_CMPLT \<equiv> 0x80000000"
abbreviation DESC_STS_ERROR_MASK :: u32 where "DESC_STS_ERROR_MASK \<equiv> 0x70000000"
abbreviation DESC_STS_RXSOF :: u32 where "DESC_STS_RXSOF \<equiv> 0x08000000"
abbreviation DESC_STS_RXEOF :: u32 where "DESC_STS_RXEOF \<equiv> 0x04000000"
abbreviation DESC_STS_LEN_MASK :: u32 where "DESC_STS_LEN_MASK \<equiv> 0x03FFFFFF"
abbreviation DMA_ERROR_MASK_S2MM :: u32 where "DMA_ERROR_MASK_S2MM \<equiv> 0x00004770"
abbreviation DMA_SR_HALT_BIT :: u32 where "DMA_SR_HALT_BIT \<equiv> 1"
abbreviation DMA_CR_RESET_BIT :: u32 where "DMA_CR_RESET_BIT \<equiv> 4"
abbreviation DMA_CR_RS_BIT :: u32 where "DMA_CR_RS_BIT \<equiv> 1"
abbreviation DMA_IRQ_STATUS_MASK :: u32 where "DMA_IRQ_STATUS_MASK \<equiv> 0x00007000"
abbreviation DESC_SIZE :: u64 where "DESC_SIZE \<equiv> 64"

datatype dma_register = MM2S_DMACR | S2MM_DMACR | S2MM_DMASR | S2MM_CURDESC | S2MM_CURDESC_MSB | S2MM_TAILDESC | S2MM_TAILDESC_MSB

type_synonym register_writes = "(dma_register \<times> u32) list"

record DmaSgDesc =
  sg_next_desc :: u32
  sg_next_desc_msb :: u32
  sg_buffer_addr :: u32
  sg_buffer_addr_msb :: u32
  sg_control :: u32
  sg_status :: u32

record ChannelRuntime =
  rt_desc_dma_base :: u64
  rt_desc_cpu_size :: u64
  rt_ddr_hw_base :: u64
  rt_dry_run :: bool
  rt_desc_valid :: bool
  rt_desc :: "DmaSgDesc list"
  rt_next_harvest_bd :: u32
  rt_dma_desc_bytes :: u32
  rt_dma_ring_bytes :: u64
  rt_dma_desc_count :: u32
  rt_dma_hw_desc_count :: u32
  rt_dma_last_completed_bd :: u32
  rt_dma_last_completed_status :: u32
  rt_dma_harvest_sequence :: u64
  rt_dma_rxsof_count :: u64
  rt_dma_rxeof_count :: u64
  rt_dma_rx_packet_open :: bool
  rt_dma_stop_latched :: bool
  rt_dma_requeue_enabled :: bool
  rt_dma_requeue_after_stop_count :: u64

record DmaHarvestItem =
  hi_slot :: u32
  hi_actual_bytes :: u32
  hi_descriptor_status :: u32
  hi_submission_sequence :: u64

record DmaBdSnapshot =
  bs_total_slots :: u32
  bs_dma_writable :: u32
  bs_completed_unharvested :: u32
  bs_ready_slots :: u32
  bs_nvme_busy_slots :: u32
  bs_requeue_pending :: u32
  bs_free_slots :: u32
  bs_curdesc_index :: u32
  bs_taildesc_index :: u32
  bs_curdesc_addr :: u64
  bs_taildesc_addr :: u64
  bs_s2mm_dmasr :: u32
  bs_s2mm_dmacr :: u32
  bs_occupied_bytes_est :: u64

section \<open>Building and starting the ring\<close>

definition low_word :: "u64 \<Rightarrow> u32" where "low_word a = ucast a"
definition high_word :: "u64 \<Rightarrow> u32" where "high_word a = ucast (drop_bit 32 a)"

definition desc_address :: "ChannelRuntime \<Rightarrow> u32 \<Rightarrow> u64" where
  "desc_address rt i = rt_desc_dma_base rt + ucast i * DESC_SIZE"

definition buffer_address :: "ChannelRuntime \<Rightarrow> u32 \<Rightarrow> u64" where
  "buffer_address rt i = rt_ddr_hw_base rt + ucast i * ucast (rt_dma_desc_bytes rt)"

definition build_desc :: "ChannelRuntime \<Rightarrow> nat \<Rightarrow> DmaSgDesc" where
  "build_desc rt i =
     (let nxt = (of_nat i + 1) mod rt_dma_desc_count rt
      in \<lparr>sg_next_desc = low_word (desc_address rt nxt), sg_next_desc_msb = high_word (desc_address rt nxt),
          sg_buffer_addr = low_word (buffer_address rt (of_nat i)),
          sg_buffer_addr_msb = high_word (buffer_address rt (of_nat i)),
          sg_control = rt_dma_desc_bytes rt, sg_status = 0\<rparr>)"

text \<open>The validation of descriptor \<open>i\<close> after the ring was written.\<close>

definition desc_valid :: "ChannelRuntime \<Rightarrow> nat \<Rightarrow> bool" where
  "desc_valid rt i \<longleftrightarrow>
     (let d = rt_desc rt ! i;
          nxt = (of_nat i + 1) mod rt_dma_desc_count rt;
          expected_next = desc_address rt nxt;
          expected_buffer = buffer_address rt (of_nat i);
          buffer_end = expected_buffer + ucast (rt_dma_desc_bytes rt)
      in sg_next_desc d = low_word expected_next \<and> sg_next_desc_msb d = high_word expected_next \<and>
         sg_buffer_addr d = low_word expected_buffer \<and> sg_buffer_addr_msb d = high_word expected_buffer \<and>
         sg_control d = rt_dma_desc_bytes rt \<and> sg_status d = 0 \<and>
         \<not> expected_buffer < rt_ddr_hw_base rt \<and>
         \<not> rt_ddr_hw_base rt + rt_dma_ring_bytes rt < buffer_end)"

text \<open>What the reset of both halves of the engine sees: the two control registers before it, and whether the
  wait for each reset bit to clear succeeds.\<close>

record reset_view =
  rv_mm2s_cr :: u32
  rv_s2mm_cr :: u32
  rv_mm2s_ok :: bool
  rv_s2mm_ok :: bool

definition dma_reset_full :: "reset_view \<Rightarrow> ChannelRuntime \<Rightarrow> int \<times> register_writes" where
  "dma_reset_full rv rt =
     (if rt_dry_run rt then (0, [])
      else if (rv_mm2s_cr rv OR rv_s2mm_cr rv) AND DMA_CR_RESET_BIT \<noteq> 0 then (-1, [])
      else (if \<not> rv_mm2s_ok rv \<or> \<not> rv_s2mm_ok rv then -1 else 0,
            [(MM2S_DMACR, DMA_CR_RESET_BIT), (S2MM_DMACR, DMA_CR_RESET_BIT)]))"

text \<open>
  A descriptor size of zero divides by zero, which is \<^term>\<open>None\<close>. The result is the return value, the
  runtime and the registers written.
\<close>

definition dma_prepare_s2mm_ring ::
  "reset_view \<Rightarrow> ChannelRuntime \<Rightarrow> u32 \<Rightarrow> (int \<times> ChannelRuntime \<times> register_writes) option" where
  "dma_prepare_s2mm_ring rv rt dma_desc_bytes =
     (if dma_desc_bytes = 0 then None
      else let desc_count = ucast (rt_dma_ring_bytes rt div ucast dma_desc_bytes) :: u32;
               desc_capacity = ucast (rt_desc_cpu_size rt div DESC_SIZE) :: u32
           in if rt_dma_ring_bytes rt = 0 \<or> rt_dma_ring_bytes rt mod ucast dma_desc_bytes \<noteq> 0 \<or>
                 desc_count = 0 \<or> desc_capacity = 0 \<or> desc_capacity < desc_count
              then Some (-1, rt, [])
              else let rt1 = rt\<lparr>rt_dma_desc_bytes := dma_desc_bytes, rt_dma_desc_count := desc_count,
                                rt_dma_rx_packet_open := False, rt_dma_last_completed_bd := UINT32_MAX,
                                rt_dma_last_completed_status := 0, rt_dma_rxsof_count := 0,
                                rt_dma_rxeof_count := 0, rt_dma_stop_latched := False,
                                rt_dma_requeue_enabled := True, rt_dma_requeue_after_stop_count := 0,
                                rt_dma_hw_desc_count := desc_count\<rparr>
                   in if rt_dry_run rt1 then Some (0, rt1\<lparr>rt_next_harvest_bd := 0\<rparr>, [])
                      else let rt2 = rt1\<lparr>rt_desc := map (build_desc rt1) [0..<unat desc_count]\<rparr>
                           in if \<not> list_all (desc_valid rt2) [0..<unat desc_count] then Some (-1, rt2, [])
                              else case dma_reset_full rv rt2 of
                                     (rc, ws) \<Rightarrow>
                                       if rc \<noteq> 0 then Some (-1, rt2, ws)
                                       else Some (0, rt2, ws @ [(S2MM_DMASR, DMA_IRQ_STATUS_MASK),
                                                                (S2MM_CURDESC, low_word (rt_desc_dma_base rt2)),
                                                                (S2MM_CURDESC_MSB, high_word (rt_desc_dma_base rt2))]))"

text \<open>\<open>left_halt\<close> is whether the wait for the halted bit to clear succeeds, \<open>cr\<close> and \<open>sr\<close> are read after it.
  The low word of the tail pointer is the same whether the offset is computed in 32 or in 64 bits.\<close>

definition dma_start_s2mm_ring ::
  "bool \<Rightarrow> u32 \<Rightarrow> u32 \<Rightarrow> ChannelRuntime \<Rightarrow> int \<times> ChannelRuntime \<times> register_writes" where
  "dma_start_s2mm_ring left_halt cr sr rt =
     (if rt_dma_desc_count rt = 0 then (-1, rt, [])
      else if rt_dry_run rt then (0, rt, [])
      else let last_index = rt_dma_desc_count rt - 1;
               ws = [(S2MM_DMACR, DMA_CR_RS_BIT OR 0x1000),
                     (S2MM_TAILDESC, low_word (desc_address rt last_index)),
                     (S2MM_TAILDESC_MSB, high_word (desc_address rt last_index))]
           in if \<not> left_halt then (-1, rt, ws)
              else if cr AND DMA_CR_RS_BIT = 0 \<or> sr AND DMA_ERROR_MASK_S2MM \<noteq> 0 then (-1, rt, ws)
              else (0, rt\<lparr>rt_dma_hw_desc_count := rt_dma_desc_count rt, rt_next_harvest_bd := 0,
                          rt_dma_harvest_sequence := 0, rt_dma_stop_latched := False,
                          rt_dma_requeue_enabled := True\<rparr>, ws))"

definition dma_init_s2mm_ring ::
  "reset_view \<Rightarrow> bool \<Rightarrow> u32 \<Rightarrow> u32 \<Rightarrow> ChannelRuntime \<Rightarrow> u32 \<Rightarrow> (int \<times> ChannelRuntime \<times> register_writes) option" where
  "dma_init_s2mm_ring rv left_halt cr sr rt dma_desc_bytes =
     (case dma_prepare_s2mm_ring rv rt dma_desc_bytes of
        None \<Rightarrow> None
      | Some (rc, rt1, ws) \<Rightarrow>
          if rc \<noteq> 0 then Some (-1, rt1, ws)
          else (case dma_start_s2mm_ring left_halt cr sr rt1 of (rc2, rt2, ws2) \<Rightarrow> Some (rc2, rt2, ws @ ws2)))"

section \<open>Harvesting and handing back\<close>

text \<open>What one look sees: the status words the hardware has written since the last look, the value of
  the status register, and whether the time budget is over after the descriptor.\<close>

record dma_look =
  lk_written :: "(nat \<times> u32) list"
  lk_dsr :: u32
  lk_time_up :: bool

definition hw_write :: "(nat \<times> u32) list \<Rightarrow> ChannelRuntime \<Rightarrow> ChannelRuntime" where
  "hw_write ws rt = rt\<lparr>rt_desc := fold (\<lambda>(i, st) ds. ds[i := (ds ! i)\<lparr>sg_status := st\<rparr>]) ws (rt_desc rt)\<rparr>"

fun dry_harvest :: "nat \<Rightarrow> ChannelRuntime \<Rightarrow> DmaHarvestItem list \<times> ChannelRuntime" where
  "dry_harvest 0 rt = ([], rt)"
| "dry_harvest (Suc n) rt =
     (let item = \<lparr>hi_slot = rt_next_harvest_bd rt, hi_actual_bytes = rt_dma_desc_bytes rt,
                  hi_descriptor_status = 0, hi_submission_sequence = rt_dma_harvest_sequence rt\<rparr>;
          rt1 = rt\<lparr>rt_dma_harvest_sequence := rt_dma_harvest_sequence rt + 1,
                   rt_next_harvest_bd := (rt_next_harvest_bd rt + 1) mod rt_dma_desc_count rt\<rparr>;
          (items, rt2) = dry_harvest n rt1
      in (item # items, rt2))"

definition mark_packet :: "u32 \<Rightarrow> ChannelRuntime \<Rightarrow> ChannelRuntime" where
  "mark_packet st rt =
     (let rt1 = (if st AND DESC_STS_RXSOF \<noteq> 0
                 then rt\<lparr>rt_dma_rxsof_count := rt_dma_rxsof_count rt + 1, rt_dma_rx_packet_open := True\<rparr> else rt)
      in if st AND DESC_STS_RXEOF \<noteq> 0
         then rt1\<lparr>rt_dma_rxeof_count := rt_dma_rxeof_count rt1 + 1, rt_dma_rx_packet_open := False\<rparr> else rt1)"

text \<open>Consuming the completed descriptor \<open>idx\<close> with status \<open>st\<close>; \<open>hw_owned\<close> was read before it.\<close>

definition consume :: "bool \<Rightarrow> u32 \<Rightarrow> u32 \<Rightarrow> u32 \<Rightarrow> ChannelRuntime \<Rightarrow> DmaHarvestItem \<times> ChannelRuntime" where
  "consume allow_halted hw_owned idx st rt =
     (let item = \<lparr>hi_slot = idx, hi_actual_bytes = st AND DESC_STS_LEN_MASK, hi_descriptor_status = st,
                  hi_submission_sequence = rt_dma_harvest_sequence rt\<rparr>;
          rt1 = rt\<lparr>rt_dma_harvest_sequence := rt_dma_harvest_sequence rt + 1\<rparr>;
          rt3 = mark_packet st rt1;
          rt4 = (if allow_halted then hw_write [(unat idx, 0)] rt3 else rt3);
          rt5 = (if hw_owned \<noteq> 0 then rt4\<lparr>rt_dma_hw_desc_count := rt_dma_hw_desc_count rt4 - 1\<rparr> else rt4)
      in (item, rt5\<lparr>rt_next_harvest_bd := (idx + 1) mod rt_dma_desc_count rt5\<rparr>))"

text \<open>One round of the loop: it ends with a return value, or a descriptor is consumed.\<close>

definition harvest_look ::
  "bool \<Rightarrow> dma_look \<Rightarrow> ChannelRuntime \<Rightarrow> (int \<times> ChannelRuntime) + (DmaHarvestItem \<times> ChannelRuntime)" where
  "harvest_look allow_halted l rt0 =
     (let rt = hw_write (lk_written l) rt0; hw_owned = rt_dma_hw_desc_count rt; dsr = lk_dsr l
      in if hw_owned = 0 \<and> \<not> allow_halted then Inl (0, rt)
         else if dsr AND DMA_ERROR_MASK_S2MM \<noteq> 0 \<or> \<not> allow_halted \<and> dsr AND DMA_SR_HALT_BIT \<noteq> 0
         then Inl (-1, rt)
         else let idx = rt_next_harvest_bd rt; st = sg_status (rt_desc rt ! unat idx)
              in if st AND DESC_STS_CMPLT = 0 then Inl (0, rt)
                 else let rt1 = rt\<lparr>rt_dma_last_completed_bd := idx, rt_dma_last_completed_status := st\<rparr>
                      in if st AND DESC_STS_ERROR_MASK \<noteq> 0 then Inl (-1, rt1)
                         else Inr (consume allow_halted hw_owned idx st rt1))"

text \<open>The loop needs one look per round; a list with \<open>max_items\<close> looks is always long enough, and
  running out of looks is \<^term>\<open>None\<close>.\<close>

fun harvest_loop ::
  "bool \<Rightarrow> nat \<Rightarrow> dma_look list \<Rightarrow> ChannelRuntime \<Rightarrow> (int \<times> DmaHarvestItem list \<times> ChannelRuntime) option" where
  "harvest_loop allow_halted 0 looks rt = Some (0, [], rt)"
| "harvest_loop allow_halted (Suc n) [] rt = None"
| "harvest_loop allow_halted (Suc n) (l # looks) rt =
     (case harvest_look allow_halted l rt of
        Inl (rc, rt1) \<Rightarrow> Some (rc, [], rt1)
      | Inr (item, rt1) \<Rightarrow>
          if lk_time_up l then Some (0, [item], rt1)
          else case harvest_loop allow_halted n looks rt1 of
                 None \<Rightarrow> None
               | Some (rc, items, rt2) \<Rightarrow> Some (rc, item # items, rt2))"

definition dma_harvest_batch_impl ::
  "ChannelRuntime \<Rightarrow> nat \<Rightarrow> dma_look list \<Rightarrow> bool \<Rightarrow> (int \<times> DmaHarvestItem list \<times> ChannelRuntime) option" where
  "dma_harvest_batch_impl rt max_items looks allow_halted =
     (if max_items = 0 then Some (-1, [], rt)
      else if rt_dry_run rt then (case dry_harvest max_items rt of (items, rt1) \<Rightarrow> Some (0, items, rt1))
      else harvest_loop allow_halted max_items looks rt)"

definition dma_harvest_batch ::
  "ChannelRuntime \<Rightarrow> nat \<Rightarrow> dma_look list \<Rightarrow> (int \<times> DmaHarvestItem list \<times> ChannelRuntime) option" where
  "dma_harvest_batch rt max_items looks = dma_harvest_batch_impl rt max_items looks False"

text \<open>Without a time budget the clock is not read.\<close>

definition dma_harvest_completed_batch ::
  "ChannelRuntime \<Rightarrow> nat \<Rightarrow> dma_look list \<Rightarrow> (int \<times> DmaHarvestItem list \<times> ChannelRuntime) option" where
  "dma_harvest_completed_batch rt max_items looks =
     dma_harvest_batch_impl rt max_items (map (\<lambda>l. l\<lparr>lk_time_up := False\<rparr>) looks) True"

definition dma_harvest_one ::
  "ChannelRuntime \<Rightarrow> dma_look \<Rightarrow> (int \<times> (u32 \<times> u32) option \<times> ChannelRuntime) option" where
  "dma_harvest_one rt look =
     (case dma_harvest_batch rt 1 [look\<lparr>lk_time_up := False\<rparr>] of
        None \<Rightarrow> None
      | Some (rc, items, rt1) \<Rightarrow>
          Some (if rc \<noteq> 0 then -1 else if items \<noteq> [] then 1 else 0,
                case items of [] \<Rightarrow> None | i # _ \<Rightarrow> Some (hi_slot i, hi_actual_bytes i), rt1))"

definition dma_latch_stop :: "ChannelRuntime \<Rightarrow> ChannelRuntime" where
  "dma_latch_stop rt = rt\<lparr>rt_dma_requeue_enabled := False, rt_dma_stop_latched := True\<rparr>"

definition dma_requeue_after_stop_count :: "ChannelRuntime \<Rightarrow> u64" where
  "dma_requeue_after_stop_count rt = rt_dma_requeue_after_stop_count rt"

definition dma_requeue_one ::
  "u32 \<Rightarrow> u32 \<Rightarrow> ChannelRuntime \<Rightarrow> u32 \<Rightarrow> int \<times> ChannelRuntime \<times> register_writes" where
  "dma_requeue_one sr cr rt slot =
     (if rt_dma_stop_latched rt \<or> \<not> rt_dma_requeue_enabled rt
      then (-2, rt\<lparr>rt_dma_requeue_after_stop_count := rt_dma_requeue_after_stop_count rt + 1\<rparr>, [])
      else if rt_dry_run rt \<or> rt_dma_desc_count rt \<le> slot
      then (if rt_dry_run rt \<and> slot < rt_dma_desc_count rt then 0 else -1, rt, [])
      else let rt1 = hw_write [(unat slot, 0)] rt;
               ws = [(S2MM_TAILDESC, low_word (desc_address rt1 slot)),
                     (S2MM_TAILDESC_MSB, high_word (desc_address rt1 slot))]
           in if sr AND (DMA_ERROR_MASK_S2MM OR DMA_SR_HALT_BIT) \<noteq> 0 \<or> cr AND DMA_CR_RS_BIT = 0
              then (-1, rt1, ws)
              else let hw_owned = rt_dma_hw_desc_count rt1 + 1;
                       rt2 = rt1\<lparr>rt_dma_hw_desc_count := hw_owned\<rparr>
                   in if rt_dma_desc_count rt2 < hw_owned
                      then (-1, rt2\<lparr>rt_dma_hw_desc_count := rt_dma_desc_count rt2\<rparr>, ws)
                      else (0, rt2, ws))"

section \<open>Snapshots\<close>

definition dma_desc_address_to_index :: "ChannelRuntime \<Rightarrow> u64 \<Rightarrow> u32" where
  "dma_desc_address_to_index rt address =
     (if address < rt_desc_dma_base rt then UINT32_MAX
      else let offset = address - rt_desc_dma_base rt
           in if offset mod DESC_SIZE \<noteq> 0 \<or> ucast (rt_dma_desc_count rt) \<le> offset div DESC_SIZE then UINT32_MAX
              else ucast (offset div DESC_SIZE))"

text \<open>The values of the six registers when they are read.\<close>

type_synonym register_values = "dma_register \<Rightarrow> u32"

definition join_words :: "u32 \<Rightarrow> u32 \<Rightarrow> u64" where
  "join_words lo hi = ucast lo OR push_bit 32 (ucast hi)"

definition snapshot_registers :: "register_values \<Rightarrow> ChannelRuntime \<Rightarrow> DmaBdSnapshot \<Rightarrow> DmaBdSnapshot" where
  "snapshot_registers regs rt out =
     (if rt_dry_run rt then out
      else let curdesc = join_words (regs S2MM_CURDESC) (regs S2MM_CURDESC_MSB);
               taildesc = join_words (regs S2MM_TAILDESC) (regs S2MM_TAILDESC_MSB)
           in out\<lparr>bs_s2mm_dmasr := regs S2MM_DMASR, bs_s2mm_dmacr := regs S2MM_DMACR,
                  bs_curdesc_addr := curdesc, bs_taildesc_addr := taildesc,
                  bs_curdesc_index := dma_desc_address_to_index rt curdesc,
                  bs_taildesc_index := dma_desc_address_to_index rt taildesc\<rparr>)"

definition snapshot_empty :: "u32 \<Rightarrow> DmaBdSnapshot" where
  "snapshot_empty n =
     \<lparr>bs_total_slots = n, bs_dma_writable = 0, bs_completed_unharvested = 0, bs_ready_slots = 0,
      bs_nvme_busy_slots = 0, bs_requeue_pending = 0, bs_free_slots = 0, bs_curdesc_index = UINT32_MAX,
      bs_taildesc_index = UINT32_MAX, bs_curdesc_addr = 0, bs_taildesc_addr = 0, bs_s2mm_dmasr = 0,
      bs_s2mm_dmacr = 0, bs_occupied_bytes_est = 0\<rparr>"

definition occupied_bytes :: "ChannelRuntime \<Rightarrow> DmaBdSnapshot \<Rightarrow> DmaBdSnapshot" where
  "occupied_bytes rt out =
     out\<lparr>bs_occupied_bytes_est :=
           ucast (bs_completed_unharvested out + bs_ready_slots out + bs_nvme_busy_slots out + bs_requeue_pending out) *
           ucast (rt_dma_desc_bytes rt)\<rparr>"

text \<open>The loop over the descriptors, each with its software state; an unknown state fails.\<close>

fun snapshot_loop ::
  "ChannelRuntime \<Rightarrow> (nat \<times> StorageSlotState) list \<Rightarrow> DmaBdSnapshot \<Rightarrow> DmaBdSnapshot option" where
  "snapshot_loop rt [] out = Some out"
| "snapshot_loop rt ((i, state) # xs) out =
     (case state of
        STORAGE_SLOT_DMA_WRITABLE \<Rightarrow>
          (let status = (if rt_dry_run rt then 0 else sg_status (rt_desc rt ! i))
           in snapshot_loop rt xs
                (if status AND DESC_STS_CMPLT \<noteq> 0
                 then out\<lparr>bs_completed_unharvested := bs_completed_unharvested out + 1\<rparr>
                 else out\<lparr>bs_dma_writable := bs_dma_writable out + 1\<rparr>))
      | STORAGE_SLOT_DMA_COMPLETED_UNHARVESTED \<Rightarrow>
          snapshot_loop rt xs (out\<lparr>bs_completed_unharvested := bs_completed_unharvested out + 1\<rparr>)
      | STORAGE_SLOT_READY_FOR_NVME \<Rightarrow> snapshot_loop rt xs (out\<lparr>bs_ready_slots := bs_ready_slots out + 1\<rparr>)
      | STORAGE_SLOT_NVME_BUSY \<Rightarrow> snapshot_loop rt xs (out\<lparr>bs_nvme_busy_slots := bs_nvme_busy_slots out + 1\<rparr>)
      | STORAGE_SLOT_REQUEUE_PENDING \<Rightarrow>
          snapshot_loop rt xs (out\<lparr>bs_requeue_pending := bs_requeue_pending out + 1\<rparr>)
      | STORAGE_SLOT_FREE \<Rightarrow> snapshot_loop rt xs (out\<lparr>bs_free_slots := bs_free_slots out + 1\<rparr>)
      | STORAGE_SLOT_INVALID \<Rightarrow> None)"

text \<open>Without software states every descriptor counts as writable.\<close>

definition dma_get_bd_snapshot ::
  "register_values \<Rightarrow> ChannelRuntime \<Rightarrow> StorageSlotState list option \<Rightarrow> DmaBdSnapshot option" where
  "dma_get_bd_snapshot regs rt software_slot_state =
     (if rt_dma_desc_count rt = 0 then None
      else let n = unat (rt_dma_desc_count rt);
               states = (case software_slot_state of
                           None \<Rightarrow> replicate n STORAGE_SLOT_DMA_WRITABLE | Some xs \<Rightarrow> take n xs);
               out = snapshot_registers regs rt (snapshot_empty (rt_dma_desc_count rt))
           in map_option (occupied_bytes rt) (snapshot_loop rt (enumerate 0 states) out))"

definition dma_get_bd_snapshot_o1 ::
  "register_values \<Rightarrow> ChannelRuntime \<Rightarrow> StorageSlotCounts \<Rightarrow> DmaBdSnapshot option" where
  "dma_get_bd_snapshot_o1 regs rt counts =
     (if rt_dma_desc_count rt = 0 then None
      else if sc_total counts \<noteq> rt_dma_desc_count rt \<or> slot_counts_sum counts \<noteq> ucast (sc_total counts) then None
      else let out = (snapshot_empty (sc_total counts))
                       \<lparr>bs_dma_writable := sc_dma_writable counts,
                        bs_completed_unharvested := sc_completed_unharvested counts,
                        bs_ready_slots := sc_ready counts, bs_nvme_busy_slots := sc_nvme_busy counts,
                        bs_requeue_pending := sc_requeue_pending counts, bs_free_slots := sc_free_count counts\<rparr>
           in Some (occupied_bytes rt (snapshot_registers regs rt out)))"

definition dma_s2mm_tail_incomplete :: "ChannelRuntime \<Rightarrow> bool" where
  "dma_s2mm_tail_incomplete rt =
     (if rt_dry_run rt \<or> rt_dma_desc_count rt = 0 \<or> \<not> rt_desc_valid rt then False
      else let status = sg_status (rt_desc rt ! unat (rt_next_harvest_bd rt))
           in rt_dma_rx_packet_open rt \<or> (status AND DESC_STS_CMPLT = 0 \<and> status AND DESC_STS_LEN_MASK \<noteq> 0))"

text \<open>The audit before a reset: the reason for refusing it, or the number of completed descriptors.\<close>

definition dma_stop_reset_safe ::
  "register_values \<Rightarrow> ChannelRuntime \<Rightarrow> StorageSlotState list option \<Rightarrow> string + u32" where
  "dma_stop_reset_safe regs rt software_slot_state =
     (if \<not> rt_dma_stop_latched rt \<or> rt_dma_requeue_enabled rt then Inl ''stop_not_latched''
      else if \<not> rt_dry_run rt \<and> regs S2MM_DMASR AND DMA_ERROR_MASK_S2MM \<noteq> 0 then Inl ''dma_error''
      else if rt_dma_rx_packet_open rt \<or> dma_s2mm_tail_incomplete rt then Inl ''tail_descriptor_incomplete''
      else case dma_get_bd_snapshot regs rt software_slot_state of
             None \<Rightarrow> Inl ''slot_ownership_invariant_failed''
           | Some snapshot \<Rightarrow> Inr (bs_completed_unharvested snapshot))"

section \<open>Order of the harvest\<close>

text \<open>Well-formedness of a started ring: the position is in range and no more descriptors are with the
  hardware than there are.\<close>

definition ring_ok :: "ChannelRuntime \<Rightarrow> bool" where
  "ring_ok rt \<longleftrightarrow> \<not> rt_dry_run rt \<and> rt_dma_desc_count rt \<noteq> 0 \<and> rt_next_harvest_bd rt < rt_dma_desc_count rt \<and>
     rt_dma_desc_count rt \<noteq> UINT32_MAX \<and>
     rt_dma_hw_desc_count rt \<le> rt_dma_desc_count rt \<and> length (rt_desc rt) = unat (rt_dma_desc_count rt)"

lemma hw_write_frame [simp]:
  "rt_dry_run (hw_write ws rt) = rt_dry_run rt"
  "rt_dma_desc_count (hw_write ws rt) = rt_dma_desc_count rt"
  "rt_next_harvest_bd (hw_write ws rt) = rt_next_harvest_bd rt"
  "rt_dma_hw_desc_count (hw_write ws rt) = rt_dma_hw_desc_count rt"
  "rt_dma_harvest_sequence (hw_write ws rt) = rt_dma_harvest_sequence rt"
  "rt_dma_stop_latched (hw_write ws rt) = rt_dma_stop_latched rt"
  "rt_dma_requeue_enabled (hw_write ws rt) = rt_dma_requeue_enabled rt"
  by (simp_all add: hw_write_def)

lemma fold_status_length [simp]:
  "length (fold (\<lambda>(i, st) ds. ds[i := (ds ! i)\<lparr>sg_status := st\<rparr>]) ws ds) = length ds"
  by (induction ws arbitrary: ds) auto

lemma hw_write_length [simp]: "length (rt_desc (hw_write ws rt)) = length (rt_desc rt)"
  by (simp add: hw_write_def)

lemma ring_ok_hw_write [simp]: "ring_ok (hw_write ws rt) = ring_ok rt"
  by (simp add: ring_ok_def)

lemma unat_next_index:
  fixes i n :: u32
  assumes "i < n"
  shows "unat ((i + 1) mod n) = (unat i + 1) mod unat n"
proof -
  have "unat i < unat n" using assms by (simp add: word_less_nat_alt)
  with unat_u32_less [of n] have "unat i + 1 < 4294967296" by linarith
  then have "unat (i + 1) = unat i + 1" by (simp add: unat_word_ariths)
  then show ?thesis by (simp add: unat_mod)
qed

lemma mark_packet_frame [simp]:
  "rt_dry_run (mark_packet st rt) = rt_dry_run rt"
  "rt_dma_desc_count (mark_packet st rt) = rt_dma_desc_count rt"
  "rt_next_harvest_bd (mark_packet st rt) = rt_next_harvest_bd rt"
  "rt_dma_hw_desc_count (mark_packet st rt) = rt_dma_hw_desc_count rt"
  "rt_dma_harvest_sequence (mark_packet st rt) = rt_dma_harvest_sequence rt"
  "rt_dma_stop_latched (mark_packet st rt) = rt_dma_stop_latched rt"
  "rt_dma_requeue_enabled (mark_packet st rt) = rt_dma_requeue_enabled rt"
  "rt_desc (mark_packet st rt) = rt_desc rt"
  by (simp_all add: mark_packet_def Let_def)









section \<open>Runs before a stop\<close>










definition idle_channel :: ChannelRuntime where
  "idle_channel =
     \<lparr>rt_desc_dma_base = 0x10000, rt_desc_cpu_size = 4096, rt_ddr_hw_base = 0x80000000, rt_dry_run = False,
      rt_desc_valid = True, rt_desc = [], rt_next_harvest_bd = 7, rt_dma_desc_bytes = 0,
      rt_dma_ring_bytes = 2048, rt_dma_desc_count = 0, rt_dma_hw_desc_count = 0, rt_dma_last_completed_bd = 0,
      rt_dma_last_completed_status = 0, rt_dma_harvest_sequence = 0, rt_dma_rxsof_count = 0,
      rt_dma_rxeof_count = 0, rt_dma_rx_packet_open = False, rt_dma_stop_latched = False,
      rt_dma_requeue_enabled = False, rt_dma_requeue_after_stop_count = 0\<rparr>"

definition clean_reset :: reset_view where
  "clean_reset = \<lparr>rv_mm2s_cr = 0, rv_s2mm_cr = 0, rv_mm2s_ok = True, rv_s2mm_ok = True\<rparr>"

definition two_slot_ring :: ChannelRuntime where
  "two_slot_ring = fst (snd (the (dma_init_s2mm_ring clean_reset True 1 0 idle_channel 1024)))"

definition both_done :: "dma_look list" where
  "both_done = [\<lparr>lk_written = [(0, 0x8C000400), (1, 0x8C000200)], lk_dsr = 0, lk_time_up = False\<rparr>,
                \<lparr>lk_written = [], lk_dsr = 0, lk_time_up = False\<rparr>]"

lemma two_slot_ring_init:
  "dma_init_s2mm_ring clean_reset True 1 0 idle_channel 1024 =
     Some (0, two_slot_ring, snd (snd (the (dma_init_s2mm_ring clean_reset True 1 0 idle_channel 1024))))"
  "rt_dma_desc_count two_slot_ring = 2"
  by code_simp+


section \<open>After the stop\<close>

lemma latched_requeue:
  "rt_dma_stop_latched rt \<Longrightarrow>
     dma_requeue_one sr cr rt slot =
       (-2, rt\<lparr>rt_dma_requeue_after_stop_count := rt_dma_requeue_after_stop_count rt + 1\<rparr>, [])"
  by (simp add: dma_requeue_one_def)

text \<open>The harvest after a stop does not look at the number of descriptors the hardware owns, and the
  harvest before it left the completed status word in place. A two-slot ring of which both descriptors
  were harvested before the stop therefore yields both once more, with new sequence numbers, when the
  completed descriptors are collected after the stop.\<close>

lemma stop_harvest_repeats:
  "case dma_harvest_batch two_slot_ring 2 both_done of
     None \<Rightarrow> False
   | Some (rc, items, rt1) \<Rightarrow>
       rc = 0 \<and> map hi_slot items = [0, 1] \<and> map hi_submission_sequence items = [0, 1] \<and>
       rt_dma_hw_desc_count rt1 = 0 \<and>
       (case dma_harvest_completed_batch (dma_latch_stop rt1) 2 (map (lk_written_update (\<lambda>_. [])) both_done) of
          None \<Rightarrow> False
        | Some (rc2, again, rt2) \<Rightarrow>
            rc2 = 0 \<and> map hi_slot again = [0, 1] \<and> map hi_submission_sequence again = [2, 3] \<and>
            map hi_actual_bytes again = map hi_actual_bytes items)"
  by code_simp

section \<open>Snapshots\<close>

definition add_state_counts :: "StorageSlotState list \<Rightarrow> DmaBdSnapshot \<Rightarrow> DmaBdSnapshot" where
  "add_state_counts xs out =
     out\<lparr>bs_dma_writable := bs_dma_writable out + of_nat (count_list xs STORAGE_SLOT_DMA_WRITABLE),
         bs_completed_unharvested :=
           bs_completed_unharvested out + of_nat (count_list xs STORAGE_SLOT_DMA_COMPLETED_UNHARVESTED),
         bs_ready_slots := bs_ready_slots out + of_nat (count_list xs STORAGE_SLOT_READY_FOR_NVME),
         bs_nvme_busy_slots := bs_nvme_busy_slots out + of_nat (count_list xs STORAGE_SLOT_NVME_BUSY),
         bs_requeue_pending := bs_requeue_pending out + of_nat (count_list xs STORAGE_SLOT_REQUEUE_PENDING),
         bs_free_slots := bs_free_slots out + of_nat (count_list xs STORAGE_SLOT_FREE)\<rparr>"

definition no_hidden_completion :: "ChannelRuntime \<Rightarrow> StorageSlotState list \<Rightarrow> bool" where
  "no_hidden_completion rt xs \<longleftrightarrow>
     (\<forall>i<length xs. xs ! i = STORAGE_SLOT_DMA_WRITABLE \<longrightarrow>
        rt_dry_run rt \<or> sg_status (rt_desc rt ! i) AND DESC_STS_CMPLT = 0)"

lemma snapshot_loop_counts:
  assumes "STORAGE_SLOT_INVALID \<notin> set xs"
    and "\<forall>i<length xs. xs ! i = STORAGE_SLOT_DMA_WRITABLE \<longrightarrow>
           rt_dry_run rt \<or> sg_status (rt_desc rt ! (k + i)) AND DESC_STS_CMPLT = 0"
  shows "snapshot_loop rt (enumerate k xs) out = Some (add_state_counts xs out)"
  using assms
proof (induction xs arbitrary: k out)
  case Nil
  then show ?case by (simp add: add_state_counts_def)
next
  case (Cons x xs)
  have tl: "\<forall>i<length xs. xs ! i = STORAGE_SLOT_DMA_WRITABLE \<longrightarrow>
      rt_dry_run rt \<or> sg_status (rt_desc rt ! (Suc k + i)) AND DESC_STS_CMPLT = 0"
    using Cons.prems(2) by (auto dest: spec [where x = "Suc _"])
  have hd: "x = STORAGE_SLOT_DMA_WRITABLE \<Longrightarrow> rt_dry_run rt \<or> sg_status (rt_desc rt ! k) AND DESC_STS_CMPLT = 0"
    using Cons.prems(2) by force
  from Cons.IH [OF _ tl] Cons.prems(1) hd show ?case
    by (cases x) (auto simp: add_state_counts_def)
qed

lemma snapshot_registers_counts:
  "snapshot_registers regs rt (add_state_counts xs out) = add_state_counts xs (snapshot_registers regs rt out)"
  by (simp add: snapshot_registers_def add_state_counts_def Let_def)

lemma slot_table_counts:
  assumes "slot_table_inv t" "st_states t = Some xs"
  shows "(snapshot_empty n)\<lparr>bs_dma_writable := sc_dma_writable (st_counts t),
           bs_completed_unharvested := sc_completed_unharvested (st_counts t),
           bs_ready_slots := sc_ready (st_counts t), bs_nvme_busy_slots := sc_nvme_busy (st_counts t),
           bs_requeue_pending := sc_requeue_pending (st_counts t), bs_free_slots := sc_free_count (st_counts t)\<rparr> =
         add_state_counts xs (snapshot_empty n)"
    and "STORAGE_SLOT_INVALID \<notin> set xs"
proof -
  have all: "\<forall>s. counter_exact xs (st_counts t) s" using assms by (auto simp: slot_table_inv_def)
  have "of_nat (count_list xs s) = g (st_counts t)" if "count_for_state s = Some (g, u)" for s g u
  proof -
    have "count_list xs s = unat (g (st_counts t))" using all counter_exact_Some [OF that] by metis
    then show ?thesis by simp
  qed
  from this [of STORAGE_SLOT_DMA_WRITABLE] this [of STORAGE_SLOT_DMA_COMPLETED_UNHARVESTED]
    this [of STORAGE_SLOT_READY_FOR_NVME] this [of STORAGE_SLOT_NVME_BUSY]
    this [of STORAGE_SLOT_REQUEUE_PENDING] this [of STORAGE_SLOT_FREE]
  show "(snapshot_empty n)\<lparr>bs_dma_writable := sc_dma_writable (st_counts t),
           bs_completed_unharvested := sc_completed_unharvested (st_counts t),
           bs_ready_slots := sc_ready (st_counts t), bs_nvme_busy_slots := sc_nvme_busy (st_counts t),
           bs_requeue_pending := sc_requeue_pending (st_counts t), bs_free_slots := sc_free_count (st_counts t)\<rparr> =
         add_state_counts xs (snapshot_empty n)"
    by (simp add: add_state_counts_def snapshot_empty_def)
  show "STORAGE_SLOT_INVALID \<notin> set xs"
    using all by (metis counter_exact_INVALID count_list_0_iff)
qed

text \<open>C21. The constant-time ownership snapshot taken from the slot counters is the one that walks all
  descriptors, as long as no descriptor the software still counts as writable has completed.\<close>

theorem snapshot_o1_agrees:
  assumes "slot_table_inv t" "st_capacity t = rt_dma_desc_count rt" "no_hidden_completion rt (the (st_states t))"
  shows "dma_get_bd_snapshot_o1 regs rt (st_counts t) = dma_get_bd_snapshot regs rt (st_states t)"
proof -
  obtain xs where xs: "st_states t = Some xs" "length xs = unat (st_capacity t)"
    using assms(1) by (auto simp: slot_table_inv_def)
  have "sc_total (st_counts t) = rt_dma_desc_count rt" "slot_counts_sum (st_counts t) = ucast (sc_total (st_counts t))"
    "rt_dma_desc_count rt \<noteq> 0"
    using slot_table_inv_valid [OF assms(1)] assms(2) by (auto simp: storage_slot_table_valid_def split: if_splits)
  moreover have "snapshot_loop rt (enumerate 0 xs) out = Some (add_state_counts xs out)" for out
    using assms(3) xs slot_table_counts(2) [OF assms(1) xs(1)]
    by (intro snapshot_loop_counts) (simp_all add: no_hidden_completion_def)
  ultimately show ?thesis
    using xs assms(2) slot_table_counts(1) [OF assms(1) xs(1)]
    by (simp add: dma_get_bd_snapshot_o1_def dma_get_bd_snapshot_def Let_def snapshot_registers_counts)
qed

theorem snapshot_o1_agrees_witness:
  "dma_get_bd_snapshot_o1 (\<lambda>_. 0) two_slot_ring (st_counts (snd (storage_slot_table_init True slot_table_zero 2))) =
   dma_get_bd_snapshot (\<lambda>_. 0) two_slot_ring (st_states (snd (storage_slot_table_init True slot_table_zero 2)))"
proof (rule snapshot_o1_agrees)
  show "slot_table_inv (snd (storage_slot_table_init True slot_table_zero 2))"
    by (rule slot_table_init_inv) simp
  show "st_capacity (snd (storage_slot_table_init True slot_table_zero 2)) = rt_dma_desc_count two_slot_ring"
    by (simp add: storage_slot_table_init_def two_slot_ring_init(2))
  have "list_all (\<lambda>i. sg_status (rt_desc two_slot_ring ! i) AND DESC_STS_CMPLT = 0) [0, 1]" by code_simp
  then show "no_hidden_completion two_slot_ring
      (the (st_states (snd (storage_slot_table_init True slot_table_zero 2))))"
    by (auto simp: no_hidden_completion_def storage_slot_table_init_def less_2_cases_iff)
qed

section \<open>Layout of the ring\<close>

lemma join_split_word: "join_words (low_word a) (high_word a) = a"
  by (rule bit_word_eqI)
    (auto simp: join_words_def low_word_def high_word_def bit_or_iff bit_push_bit_iff bit_ucast_iff bit_drop_bit_eq
      possible_bit_def)

text \<open>Success of the preparation without dry run, as far as the descriptors are concerned.\<close>

lemma dma_prepare_ok:
  assumes "dma_prepare_s2mm_ring rv rt0 bytes = Some (0, rt, ws)" "\<not> rt_dry_run rt0"
  shows "bytes \<noteq> 0" "rt_dma_ring_bytes rt0 mod ucast bytes = 0"
    "rt_dma_desc_count rt = ucast (rt_dma_ring_bytes rt0 div ucast bytes)"
    "rt_dma_desc_bytes rt = bytes" "rt_dma_ring_bytes rt = rt_dma_ring_bytes rt0"
    "rt_ddr_hw_base rt = rt_ddr_hw_base rt0" "rt_desc_dma_base rt = rt_desc_dma_base rt0"
    "rt_desc rt = map (build_desc rt) [0..<unat (rt_dma_desc_count rt)]"
  using assms
  by (auto simp: dma_prepare_s2mm_ring_def Let_def build_desc_def desc_address_def buffer_address_def
      split: if_splits prod.splits)

lemma unat_mult_le:
  fixes x y :: "'a::len word"
  assumes "unat x * unat y < 2 ^ LENGTH('a)"
  shows "unat (x * y) = unat x * unat y"
  using assms by (simp add: unat_word_ariths)

text \<open>C20. A prepared ring is a circle: descriptor \<open>i\<close> points to descriptor \<open>i + 1\<close>, the last one to the
  first. Its buffers tile the channel's part of the memory: buffer \<open>i\<close> starts \<open>i\<close> descriptor sizes after
  the base and together they are as long as the ring. The memory has to end below the top of the address
  space and the descriptor count has to fit its 32 bits.\<close>

theorem dma_ring_layout:
  assumes "dma_prepare_s2mm_ring rv rt0 bytes = Some (0, rt, ws)" "\<not> rt_dry_run rt0"
    and "unat (rt_ddr_hw_base rt0) + unat (rt_dma_ring_bytes rt0) < 2 ^ 64"
    and "unat (rt_dma_ring_bytes rt0) div unat bytes < 2 ^ 32"
  shows "length (rt_desc rt) * unat bytes = unat (rt_dma_ring_bytes rt0) \<and>
    (\<forall>i<length (rt_desc rt).
       join_words (sg_next_desc (rt_desc rt ! i)) (sg_next_desc_msb (rt_desc rt ! i)) =
         desc_address rt (of_nat (Suc i mod length (rt_desc rt))) \<and>
       unat (join_words (sg_buffer_addr (rt_desc rt ! i)) (sg_buffer_addr_msb (rt_desc rt ! i))) =
         unat (rt_ddr_hw_base rt0) + i * unat bytes \<and>
       sg_control (rt_desc rt ! i) = bytes \<and> sg_status (rt_desc rt ! i) = 0)"
proof -
  note p = dma_prepare_ok [OF assms(1,2)]
  let ?n = "unat (rt_dma_desc_count rt)"
  have len: "length (rt_desc rt) = ?n" by (subst p(8)) simp
  have "?n = unat (rt_dma_ring_bytes rt0) div unat bytes"
    using assms(4) by (simp add: p(3) unat_div unsigned_ucast_eq take_bit_nat_eq_self)
  moreover have "unat (rt_dma_ring_bytes rt0) mod unat bytes = 0"
    using arg_cong [OF p(2), of unat] by (simp add: unat_mod)
  ultimately have size: "?n * unat bytes = unat (rt_dma_ring_bytes rt0)" by (simp add: mult_div_mod_eq minus_mod_eq_div_mult [symmetric])
  have "join_words (sg_next_desc (rt_desc rt ! i)) (sg_next_desc_msb (rt_desc rt ! i)) =
          desc_address rt (of_nat (Suc i mod ?n)) \<and>
        unat (join_words (sg_buffer_addr (rt_desc rt ! i)) (sg_buffer_addr_msb (rt_desc rt ! i))) =
          unat (rt_ddr_hw_base rt0) + i * unat bytes \<and>
        sg_control (rt_desc rt ! i) = bytes \<and> sg_status (rt_desc rt ! i) = 0" if "i < ?n" for i
  proof -
    have d: "rt_desc rt ! i = build_desc rt i" using that by (subst p(8)) simp
    have "i < 4294967296" using that unat_u32_less [of "rt_dma_desc_count rt"] by linarith
    then have iw: "unat (of_nat i :: u32) = i" by (simp add: unat_of_nat)
    have "(of_nat i + 1) mod rt_dma_desc_count rt = of_nat (Suc i mod ?n)"
      using unat_next_index [of "of_nat i" "rt_dma_desc_count rt"] that iw
      by (metis Suc_eq_plus1 unat_ucast_u32 word_less_nat_alt of_nat_unat ucast_id)
    moreover have "i * unat bytes \<le> unat (rt_dma_ring_bytes rt0)"
      using that size by (metis less_imp_le mult_le_mono1)
    then have "unat (buffer_address rt (of_nat i)) = unat (rt_ddr_hw_base rt0) + i * unat bytes"
      using assms(3) iw unat_mult_le [of "ucast (of_nat i :: u32) :: u64" "ucast bytes"]
      by (simp add: buffer_address_def p(4,6) unat_word_ariths)
    ultimately show ?thesis by (simp add: d build_desc_def Let_def join_split_word p(4))
  qed
  with len size show ?thesis by simp
qed

theorem dma_ring_layout_witness:
  "length (rt_desc two_slot_ring) * 1024 = 2048 \<and>
   unat (join_words (sg_buffer_addr (rt_desc two_slot_ring ! 1)) (sg_buffer_addr_msb (rt_desc two_slot_ring ! 1))) =
     0x80000000 + 1024"
proof -
  have "dma_prepare_s2mm_ring clean_reset idle_channel 1024 =
     Some (0, fst (snd (the (dma_prepare_s2mm_ring clean_reset idle_channel 1024))),
              snd (snd (the (dma_prepare_s2mm_ring clean_reset idle_channel 1024))))"
    "rt_desc (fst (snd (the (dma_prepare_s2mm_ring clean_reset idle_channel 1024)))) = rt_desc two_slot_ring"
    "length (rt_desc two_slot_ring) = 2"
    by code_simp+
  from dma_ring_layout [OF this(1)] this(2,3) show ?thesis by (simp add: idle_channel_def)
qed

end
