(* ===== verification/Dma_Stop.thy ===== *)
theory Dma_Stop
  imports Dma_Ring
begin

text \<open>
  Stopping the S2MM engine, the end of \<^verbatim>\<open>ccb_hw.c\<close>: clearing the run bit and waiting for the halt, the
  recovery reset at the deadline, and the final reset. The report is an optional record because a
  caller may pass no report. Log lines are left out.
\<close>

unbundle bit_operations_syntax

section \<open>Report\<close>

datatype DmaStopResult = DMA_STOP_FAILED | DMA_STOP_OK | DMA_STOP_RESET_RECOVERED

record DmaStopReport =
  sp_s2mm_cr_before :: u32
  sp_s2mm_sr_before :: u32
  sp_s2mm_cr_after :: u32
  sp_s2mm_sr_after :: u32
  sp_curdesc :: u32
  sp_taildesc :: u32
  sp_curdesc_addr :: u64
  sp_taildesc_addr :: u64
  sp_next_bd :: u32
  sp_next_bd_status :: u32
  sp_hw_owned :: u32
  sp_rxsof_count :: u64
  sp_rxeof_count :: u64
  sp_rx_packet_open :: bool
  sp_reset_attempted :: bool
  sp_result :: DmaStopResult
  sp_safe_reset_confirmed :: bool
  sp_completed_unharvested :: u32
  sp_reason :: string

text \<open>A report filled with zero bytes has the result with the value zero.\<close>

definition stop_report_zero :: DmaStopReport where
  "stop_report_zero =
     \<lparr>sp_s2mm_cr_before = 0, sp_s2mm_sr_before = 0, sp_s2mm_cr_after = 0, sp_s2mm_sr_after = 0, sp_curdesc = 0,
      sp_taildesc = 0, sp_curdesc_addr = 0, sp_taildesc_addr = 0, sp_next_bd = 0, sp_next_bd_status = 0,
      sp_hw_owned = 0, sp_rxsof_count = 0, sp_rxeof_count = 0, sp_rx_packet_open = False,
      sp_reset_attempted = False, sp_result = DMA_STOP_OK, sp_safe_reset_confirmed = False,
      sp_completed_unharvested = 0, sp_reason = []\<rparr>"

definition stop_report_begin :: "register_values \<Rightarrow> ChannelRuntime \<Rightarrow> StorageSlotState list option \<Rightarrow> DmaStopReport" where
  "stop_report_begin regs rt states =
     (let next_status = (if rt_desc_valid rt \<and> 0 < rt_dma_desc_count rt \<and> rt_next_harvest_bd rt < rt_dma_desc_count rt
                         then sg_status (rt_desc rt ! unat (rt_next_harvest_bd rt)) else 0)
      in stop_report_zero
           \<lparr>sp_s2mm_cr_before := regs S2MM_DMACR, sp_s2mm_sr_before := regs S2MM_DMASR,
            sp_curdesc := regs S2MM_CURDESC, sp_taildesc := regs S2MM_TAILDESC,
            sp_curdesc_addr := join_words (regs S2MM_CURDESC) (regs S2MM_CURDESC_MSB),
            sp_taildesc_addr := join_words (regs S2MM_TAILDESC) (regs S2MM_TAILDESC_MSB),
            sp_next_bd := rt_next_harvest_bd rt, sp_next_bd_status := next_status,
            sp_hw_owned := rt_dma_hw_desc_count rt, sp_rxsof_count := rt_dma_rxsof_count rt,
            sp_rxeof_count := rt_dma_rxeof_count rt, sp_rx_packet_open := rt_dma_rx_packet_open rt,
            sp_completed_unharvested :=
              (case dma_get_bd_snapshot regs rt states of None \<Rightarrow> 0 | Some s \<Rightarrow> bs_completed_unharvested s),
            sp_result := DMA_STOP_FAILED\<rparr>)"

section \<open>Quiesce\<close>

text \<open>
  One round of the wait: what the hardware wrote into the descriptors since the last round, the status
  register, the clock at the deadline test, and the registers the audit reads.
\<close>

record quiesce_look =
  ql_written :: "(nat \<times> u32) list"
  ql_status :: u32
  ql_now :: u64
  ql_regs :: register_values

text \<open>What the recovery and the end of the wait see: the reset, and the registers read after it.\<close>

definition audit_report :: "string + u32 \<Rightarrow> DmaStopReport \<Rightarrow> DmaStopReport" where
  "audit_report audit rep = (case audit of Inl why \<Rightarrow> rep\<lparr>sp_reason := why\<rparr>
                             | Inr n \<Rightarrow> rep\<lparr>sp_completed_unharvested := n\<rparr>)"

definition recover ::
  "reset_view \<Rightarrow> register_values \<Rightarrow> quiesce_look \<Rightarrow> StorageSlotState list option \<Rightarrow> ChannelRuntime
     \<Rightarrow> DmaStopReport option \<Rightarrow> DmaStopResult \<times> ChannelRuntime \<times> DmaStopReport option \<times> register_writes" where
  "recover rv regs_after l states rt report =
     (case states of
        None \<Rightarrow> (DMA_STOP_FAILED, rt, map_option (sp_s2mm_sr_after_update (\<lambda>_. ql_status l)) report, [])
      | Some _ \<Rightarrow>
          (let audit = dma_stop_reset_safe (ql_regs l) rt states;
               report1 = map_option (audit_report audit) report
           in if isl audit
              then (DMA_STOP_FAILED, rt, map_option (sp_s2mm_sr_after_update (\<lambda>_. ql_status l)) report1, [])
              else (let report2 = map_option (sp_reset_attempted_update (\<lambda>_. True)) report1
                    in case dma_reset_full rv rt of
                         (rc, ws) \<Rightarrow>
                           if rc \<noteq> 0
                           then (DMA_STOP_FAILED, rt,
                                 map_option (sp_reason_update (\<lambda>_. ''dma_reset_failed'')) report2, ws)
                           else (DMA_STOP_RESET_RECOVERED, rt\<lparr>rt_dma_hw_desc_count := 0\<rparr>,
                                 map_option (\<lambda>r. r\<lparr>sp_safe_reset_confirmed := True,
                                                   sp_result := DMA_STOP_RESET_RECOVERED,
                                                   sp_reason := ''idle_safe_reset'',
                                                   sp_s2mm_cr_after := regs_after S2MM_DMACR,
                                                   sp_s2mm_sr_after := regs_after S2MM_DMASR\<rparr>) report2, ws))))"

text \<open>The wait ends by a status error, the halted bit or the deadline; a list of rounds that has none
  of them is used up, which is \<^term>\<open>None\<close>.\<close>

fun quiesce_loop ::
  "reset_view \<Rightarrow> register_values \<Rightarrow> u64 \<Rightarrow> StorageSlotState list option \<Rightarrow> quiesce_look list \<Rightarrow> ChannelRuntime
     \<Rightarrow> DmaStopReport option
     \<Rightarrow> (DmaStopResult \<times> ChannelRuntime \<times> DmaStopReport option \<times> register_writes) option" where
  "quiesce_loop rv regs_after deadline_us states [] rt report = None"
| "quiesce_loop rv regs_after deadline_us states (l # ls) rt0 report =
     (let rt = hw_write (ql_written l) rt0
      in if ql_status l AND DMA_ERROR_MASK_S2MM \<noteq> 0
         then Some (DMA_STOP_FAILED, rt,
                    map_option (\<lambda>r. r\<lparr>sp_reason := ''dma_error'', sp_s2mm_sr_after := ql_status l\<rparr>) report, [])
         else if ql_status l AND DMA_SR_HALT_BIT \<noteq> 0
         then Some (DMA_STOP_OK, rt,
                    map_option (\<lambda>r. r\<lparr>sp_result := DMA_STOP_OK, sp_reason := ''halted'',
                                      sp_s2mm_cr_after := regs_after S2MM_DMACR,
                                      sp_s2mm_sr_after := regs_after S2MM_DMASR\<rparr>) report, [])
         else if deadline_us \<noteq> 0 \<and> deadline_us \<le> ql_now l
         then Some (recover rv regs_after l states rt report)
         else quiesce_loop rv regs_after deadline_us states ls rt report)"

abbreviation DEFAULT_TIMEOUT_US :: u64 where "DEFAULT_TIMEOUT_US \<equiv> 5000000"

text \<open>\<open>regs\<close> are the registers before the stop, \<open>now\<close> is the clock on entry.\<close>

definition dma_quiesce_s2mm_with_state ::
  "reset_view \<Rightarrow> register_values \<Rightarrow> register_values \<Rightarrow> quiesce_look list \<Rightarrow> u64 \<Rightarrow> ChannelRuntime \<Rightarrow> u64
     \<Rightarrow> StorageSlotState list option \<Rightarrow> DmaStopReport option
     \<Rightarrow> (DmaStopResult \<times> ChannelRuntime \<times> DmaStopReport option \<times> register_writes) option" where
  "dma_quiesce_s2mm_with_state rv regs regs_after looks now rt deadline_us states report =
     (if rt_dry_run rt
      then Some (DMA_STOP_OK, rt,
                 map_option (\<lambda>_. stop_report_zero\<lparr>sp_result := DMA_STOP_OK, sp_reason := ''dry_run''\<rparr>) report, [])
      else let deadline = (if deadline_us = 0 then now + DEFAULT_TIMEOUT_US else deadline_us);
               report1 = map_option (\<lambda>_. stop_report_begin regs rt states) report;
               w = (S2MM_DMACR, regs S2MM_DMACR AND NOT DMA_CR_RS_BIT)
           in case quiesce_loop rv regs_after deadline states looks rt report1 of
                None \<Rightarrow> None
              | Some (res, rt1, report2, ws) \<Rightarrow> Some (res, rt1, report2, w # ws))"

definition dma_quiesce_s2mm ::
  "reset_view \<Rightarrow> register_values \<Rightarrow> register_values \<Rightarrow> quiesce_look list \<Rightarrow> u64 \<Rightarrow> ChannelRuntime \<Rightarrow> u64
     \<Rightarrow> DmaStopReport option \<Rightarrow> (int \<times> ChannelRuntime \<times> DmaStopReport option \<times> register_writes) option" where
  "dma_quiesce_s2mm rv regs regs_after looks now rt deadline_us report =
     map_option (\<lambda>(res, r). (if res = DMA_STOP_FAILED then -1 else 0, r))
       (dma_quiesce_s2mm_with_state rv regs regs_after looks now rt deadline_us None report)"

section \<open>Final reset\<close>

text \<open>The audit before the final reset: the reason for refusing it, with the number of descriptors that
  still hold data when that is the reason.\<close>

definition finalize_refusal ::
  "register_values \<Rightarrow> ChannelRuntime \<Rightarrow> StorageSlotState list option \<Rightarrow> (string \<times> u32 option) option" where
  "finalize_refusal regs rt states =
     (case states of
        None \<Rightarrow> None
      | Some _ \<Rightarrow>
          if \<not> rt_dma_stop_latched rt \<or> rt_dma_requeue_enabled rt then Some (''stop_not_latched'', None)
          else if dma_s2mm_tail_incomplete rt then Some (''tail_descriptor_incomplete'', None)
          else case dma_get_bd_snapshot regs rt states of
                 None \<Rightarrow> Some (''slot_ownership_invariant_failed'', None)
               | Some s \<Rightarrow> if bs_completed_unharvested s \<noteq> 0
                           then Some (''completed_unharvested'', Some (bs_completed_unharvested s)) else None)"

definition refusal_report :: "string \<times> u32 option \<Rightarrow> DmaStopReport \<Rightarrow> DmaStopReport" where
  "refusal_report why r =
     (case why of (reason, held) \<Rightarrow>
        (case held of None \<Rightarrow> r | Some n \<Rightarrow> r\<lparr>sp_completed_unharvested := n\<rparr>)\<lparr>sp_reason := reason\<rparr>)"

definition dma_finalize_stop_s2mm_with_state ::
  "reset_view \<Rightarrow> register_values \<Rightarrow> register_values \<Rightarrow> ChannelRuntime \<Rightarrow> StorageSlotState list option
     \<Rightarrow> DmaStopReport option \<Rightarrow> DmaStopResult \<times> ChannelRuntime \<times> DmaStopReport option \<times> register_writes" where
  "dma_finalize_stop_s2mm_with_state rv regs regs_after rt states report =
     (if rt_dry_run rt then (DMA_STOP_OK, rt, report, [])
      else if (case report of None \<Rightarrow> False
               | Some r \<Rightarrow> sp_result r = DMA_STOP_RESET_RECOVERED \<and> sp_safe_reset_confirmed r)
      then (DMA_STOP_RESET_RECOVERED, rt, report, [])
      else case finalize_refusal regs rt states of
             Some why \<Rightarrow> (DMA_STOP_FAILED, rt, map_option (refusal_report why) report, [])
           | None \<Rightarrow>
               (let rt1 = rt\<lparr>rt_dma_hw_desc_count := 0\<rparr>;
                    report1 = map_option (sp_reset_attempted_update (\<lambda>_. True)) report
                in case dma_reset_full rv rt1 of
                     (rc, ws) \<Rightarrow>
                       if rc \<noteq> 0
                       then (DMA_STOP_FAILED, rt1,
                             map_option (\<lambda>r. r\<lparr>sp_result := DMA_STOP_FAILED, sp_reason := ''dma_reset_failed''\<rparr>) report1, ws)
                       else (DMA_STOP_OK, rt1,
                             map_option (\<lambda>r. r\<lparr>sp_result := DMA_STOP_OK, sp_reason := ''full_reset'',
                                               sp_s2mm_cr_after := regs_after S2MM_DMACR,
                                               sp_s2mm_sr_after := regs_after S2MM_DMASR\<rparr>) report1, ws)))"

definition dma_finalize_stop_s2mm ::
  "reset_view \<Rightarrow> register_values \<Rightarrow> register_values \<Rightarrow> ChannelRuntime \<Rightarrow> DmaStopReport option
     \<Rightarrow> DmaStopResult \<times> ChannelRuntime \<times> DmaStopReport option \<times> register_writes" where
  "dma_finalize_stop_s2mm rv regs regs_after rt report =
     dma_finalize_stop_s2mm_with_state rv regs regs_after rt None report"

text \<open>Both in a row, each with its own inputs; \<open>timeout_us\<close> is the configured timeout.\<close>

definition dma_stop_s2mm ::
  "reset_view \<Rightarrow> register_values \<Rightarrow> register_values \<Rightarrow> quiesce_look list \<Rightarrow> u64 \<Rightarrow> u64 \<Rightarrow> u32
     \<Rightarrow> reset_view \<Rightarrow> register_values \<Rightarrow> register_values \<Rightarrow> ChannelRuntime \<Rightarrow> DmaStopReport option
     \<Rightarrow> (DmaStopResult \<times> ChannelRuntime \<times> DmaStopReport option \<times> register_writes) option" where
  "dma_stop_s2mm rv1 regs1 after1 looks now now1 timeout_us rv2 regs2 after2 rt report =
     (let deadline_us = now + (if timeout_us \<noteq> 0 then ucast timeout_us else DEFAULT_TIMEOUT_US)
      in case dma_quiesce_s2mm rv1 regs1 after1 looks now1 rt deadline_us report of
           None \<Rightarrow> None
         | Some (rc, rt1, report1, ws1) \<Rightarrow>
             if rc \<noteq> 0 then Some (DMA_STOP_FAILED, rt1, report1, ws1)
             else case dma_finalize_stop_s2mm rv2 regs2 after2 rt1 report1 of
                    (res, rt2, report2, ws2) \<Rightarrow> Some (res, rt2, report2, ws1 @ ws2))"

section \<open>Resets are audited\<close>

lemma snapshot_registers_completed [simp]:
  "bs_completed_unharvested (snapshot_registers regs rt out) = bs_completed_unharvested out"
  by (simp add: snapshot_registers_def Let_def)

lemma occupied_bytes_completed [simp]:
  "bs_completed_unharvested (occupied_bytes rt out) = bs_completed_unharvested out"
  by (simp add: occupied_bytes_def)




lemma dma_reset_full_writes: "(MM2S_DMACR, v) \<in> set (snd (dma_reset_full rv rt)) \<Longrightarrow> \<not> rt_dry_run rt"
  by (auto simp: dma_reset_full_def split: if_splits)



section \<open>The wait ends\<close>

lemma audit_passed:
  "\<not> isl (dma_stop_reset_safe regs rt states) \<Longrightarrow>
     rt_dma_stop_latched rt \<and> \<not> rt_dma_requeue_enabled rt \<and> \<not> rt_dma_rx_packet_open rt \<and> \<not> dma_s2mm_tail_incomplete rt"
  by (auto simp: dma_stop_reset_safe_def split: if_splits)

lemma hw_write_packet_open [simp]: "rt_dma_rx_packet_open (hw_write ws rt) = rt_dma_rx_packet_open rt"
  by (simp add: hw_write_def)

definition stop_audited :: "ChannelRuntime \<Rightarrow> StorageSlotState list option \<Rightarrow> bool" where
  "stop_audited rt states \<longleftrightarrow>
     states \<noteq> None \<and> rt_dma_stop_latched rt \<and> \<not> rt_dma_requeue_enabled rt \<and> \<not> rt_dma_rx_packet_open rt"

definition quiesce_sound ::
  "bool \<Rightarrow> DmaStopResult \<times> ChannelRuntime \<times> DmaStopReport option \<times> register_writes \<Rightarrow> bool" where
  "quiesce_sound audited out \<longleftrightarrow>
     (case out of (res, rt', report, ws) \<Rightarrow>
        (\<forall>r. report = Some r \<longrightarrow> sp_result r = res) \<and>
        (\<forall>v. (MM2S_DMACR, v) \<in> set ws \<longrightarrow> audited) \<and>
        (res = DMA_STOP_RESET_RECOVERED \<longrightarrow> audited \<and> rt_dma_hw_desc_count rt' = 0))"

lemma audit_report_result [simp]: "sp_result (audit_report audit r) = sp_result r"
  by (cases audit) (simp_all add: audit_report_def)

lemma recover_sound:
  assumes "\<And>r. report = Some r \<Longrightarrow> sp_result r = DMA_STOP_FAILED"
  shows "quiesce_sound (stop_audited rt states) (recover rv regs_after l states rt report)"
proof (cases "states = None \<or> isl (dma_stop_reset_safe (ql_regs l) rt states)")
  case True
  then show ?thesis using assms
    by (auto simp: recover_def quiesce_sound_def Let_def split: option.splits)
next
  case False
  then have "stop_audited rt states" using audit_passed by (auto simp: stop_audited_def)
  with False assms show ?thesis
    by (auto simp: recover_def quiesce_sound_def Let_def split: option.splits prod.splits)
qed

lemma quiesce_loop_ends:
  assumes "l \<in> set looks" "deadline_us \<noteq> 0" "deadline_us \<le> ql_now l"
    and "\<And>r. report = Some r \<Longrightarrow> sp_result r = DMA_STOP_FAILED"
  shows "\<exists>out. quiesce_loop rv regs_after deadline_us states looks rt report = Some out \<and>
           quiesce_sound (stop_audited rt states) out"
  using assms
proof (induction looks arbitrary: rt)
  case (Cons k ks)
  let ?rt = "hw_write (ql_written k) rt"
  have same: "stop_audited ?rt states = stop_audited rt states" by (simp add: stop_audited_def)
  have rec: "quiesce_sound (stop_audited rt states) (recover rv regs_after k states ?rt report)"
    using recover_sound [of report ?rt states rv regs_after k] Cons.prems(4) by (simp only: same)
  show ?case
  proof (cases "deadline_us \<le> ql_now k")
    case True
    with rec Cons.prems show ?thesis by (auto simp: Let_def quiesce_sound_def)
  next
    case False
    then have "l \<in> set ks" using Cons.prems by auto
    with Cons.IH [of ?rt] Cons.prems False same show ?thesis by (auto simp: Let_def quiesce_sound_def)
  qed
qed simp

text \<open>C8. Once the clock has reached the deadline the stop of the engine returns. The report carries the
  returned result, and the engine is only reset when the slot states were given, the stop is latched,
  hand-backs are off and no packet is half received; after such a recovery no descriptor is counted as
  owned by the hardware.\<close>

theorem dma_quiesce_ends:
  assumes "deadline_us \<noteq> 0" "l \<in> set looks" "deadline_us \<le> ql_now l" "\<not> rt_dry_run rt"
  shows "\<exists>res rt' report' ws.
    dma_quiesce_s2mm_with_state rv regs regs_after looks now rt deadline_us states report =
      Some (res, rt', report', ws) \<and> quiesce_sound (stop_audited rt states) (res, rt', report', ws)"
proof -
  have "\<And>r. map_option (\<lambda>_. stop_report_begin regs rt states) report = Some r \<Longrightarrow> sp_result r = DMA_STOP_FAILED"
    by (auto simp: stop_report_begin_def Let_def)
  from quiesce_loop_ends [OF assms(2,1,3) this, where rv = rv and regs_after = regs_after and states = states and rt = rt]
  obtain res rt' report' ws where
    "quiesce_loop rv regs_after deadline_us states looks rt (map_option (\<lambda>_. stop_report_begin regs rt states) report) =
       Some (res, rt', report', ws)" "quiesce_sound (stop_audited rt states) (res, rt', report', ws)"
    by (metis prod_cases4)
  with assms(1,4) show ?thesis
    by (simp add: dma_quiesce_s2mm_with_state_def Let_def quiesce_sound_def)
qed

theorem dma_quiesce_ends_witness:
  "\<exists>res rt' report' ws.
     dma_quiesce_s2mm_with_state clean_reset (\<lambda>_. 0) (\<lambda>_. 0)
       [\<lparr>ql_written = [], ql_status = 0, ql_now = 120, ql_regs = (\<lambda>_. 0)\<rparr>] 0 (dma_latch_stop two_slot_ring) 100
       (Some [STORAGE_SLOT_DMA_WRITABLE, STORAGE_SLOT_FREE]) None = Some (res, rt', report', ws) \<and>
     quiesce_sound (stop_audited (dma_latch_stop two_slot_ring) (Some [STORAGE_SLOT_DMA_WRITABLE, STORAGE_SLOT_FREE]))
       (res, rt', report', ws)"
proof (rule dma_quiesce_ends)
  show "\<not> rt_dry_run (dma_latch_stop two_slot_ring)" by code_simp
qed (auto simp: word_le_nat_alt)

end
