(* ===== verification/Nvme_Engine.thy ===== *)
theory Nvme_Engine
  imports Storage_Error
begin

text \<open>
  The engine that writes several ring slots to the NVMe device at once, \<^verbatim>\<open>NvmeCrossSlotEngine\<close> of
  \<^verbatim>\<open>ccb_hw.c\<close>. The operations the engine calls (submit, poll, clock, sleep, yield, reset) are the
  function pointers of \<^verbatim>\<open>NvmeCrossSlotOps\<close>: functions on a context of any type. The completion callback
  is one more of them. A request of another thread to abort becomes visible where the step loads the
  state; the operation \<open>op_producer\<close> says whether one has arrived there. The runtime keeps the fields of
  \<^verbatim>\<open>ChannelRuntime\<close> these functions use.
\<close>

section \<open>State\<close>

definition NVME_PENDING_CAPACITY :: nat where "NVME_PENDING_CAPACITY = 32"
abbreviation NVME_SECTOR_BYTES :: u64 where "NVME_SECTOR_BYTES \<equiv> 512"
abbreviation NVME_SECTOR_BYTES_32 :: u32 where "NVME_SECTOR_BYTES_32 \<equiv> 512"

abbreviation NVME_SUBMIT_ACCEPTED :: int where "NVME_SUBMIT_ACCEPTED \<equiv> 0"
abbreviation NVME_SUBMIT_RETRY_SQ_FULL :: int where "NVME_SUBMIT_RETRY_SQ_FULL \<equiv> 1"
abbreviation NVME_SUBMIT_STOPPED_BEFORE_DOORBELL :: int where "NVME_SUBMIT_STOPPED_BEFORE_DOORBELL \<equiv> -2"
abbreviation NVME_SUBMIT_ACCEPTANCE_UNKNOWN :: int where "NVME_SUBMIT_ACCEPTANCE_UNKNOWN \<equiv> -3"

record NvmeCompletion =
  cp_cid :: u16
  cp_error :: bool

record NvmePendingCmd =
  pc_valid :: bool
  pc_cid :: u16
  pc_slot :: u32
  pc_slot_offset :: u64
  pc_lba :: u64
  pc_ddr_addr :: u64
  pc_sectors :: u32
  pc_bytes :: u32
  pc_payload_bytes :: u32
  pc_submit_us :: u64

record NvmeSlotWriteContext =
  wc_slot :: u32
  wc_base_lba :: u64
  wc_base_ddr_addr :: u64
  wc_total_bytes :: u64
  wc_total_sectors :: u64
  wc_next_submit_sector :: u64
  wc_submitted_cmds :: u32
  wc_completed_cmds :: u32
  wc_failed_cmds :: u32
  wc_inflight_cmds :: u32

record NvmeWriteSlotReq =
  wr_slot :: u32
  wr_start_lba :: u64
  wr_sectors :: u64
  wr_hw_addr :: u64
  wr_bytes :: u64
  wr_chunk_index :: u64
  wr_file_offset :: u64
  wr_media_bytes :: u64

record NvmeCrossSlotConfig =
  cc_max_active_slots :: u32
  cc_target_qd :: u32
  cc_cq_batch :: u32
  cc_writer_budget_us :: u32
  cc_busy_poll_us :: u32
  cc_empty_sleep_us :: u32
  cc_no_progress_timeout_us :: u64

record NvmeCrossSlotStats =
  cs_sq_full_wait_count :: u64
  cs_sq_full_wait_max_us :: u64
  cs_cq_empty_wait_count :: u64
  cs_cq_empty_wait_max_us :: u64
  cs_submit_mmio_count :: u64
  cs_submit_mmio_max_us :: u64
  cs_completion_process_count :: u64
  cs_completion_process_max_us :: u64
  cs_no_progress_sleep_count :: u64

datatype NvmeCrossSlotState =
  NVME_CROSS_SLOT_RUNNING | NVME_CROSS_SLOT_ABORT_REQUESTED | NVME_CROSS_SLOT_DRAINING_INFLIGHT
| NVME_CROSS_SLOT_RESETTING | NVME_CROSS_SLOT_QUIESCED | NVME_CROSS_SLOT_FAILED

record NvmeRuntime =
  nr_dma_desc_count :: u32
  nr_next_cmd_id :: u16
  nr_max_lba :: u64
  nr_cmd_sectors :: u32
  nr_qd_effective :: u32
  nr_cq_pop_batch :: u32
  nr_busy_poll_us :: u32
  nr_poll_sleep_us :: u32
  nr_timeout_us :: u32
  nr_diag_timing :: bool
  nr_cmd_count :: u64
  nr_cmd_bytes_total :: u64
  nr_write_bytes_done :: u64
  nr_payload_bytes_done :: u64
  nr_last_completion_us :: u64
  nr_latency_total_us :: u64
  nr_latency_sample_count :: u64
  nr_latency_min_us :: u64
  nr_latency_max_us :: u64
  nr_active_qd_max :: u32
  nr_active_qd_current :: u32
  nr_active_qd_integral_us :: u64
  nr_active_qd_observed_us :: u64
  nr_active_qd_last_update_us :: u64
  nr_active_qd_event_sum :: u64
  nr_active_qd_event_samples :: u64
  nr_active_qd_event_min :: u32
  nr_primary_error :: StorageErrorCode
  nr_secondary_error :: StorageErrorCode
  nr_last_error :: string
  nr_ownership_unresolved :: bool

record NvmeCrossSlotEngine =
  en_rt :: NvmeRuntime
  en_pending :: "NvmePendingCmd list"
  en_contexts :: "NvmeSlotWriteContext list"
  en_reqs :: "NvmeWriteSlotReq list"
  en_active :: "bool list"
  en_active_count :: u32
  en_config :: NvmeCrossSlotConfig
  en_global_inflight :: u32
  en_rr_index :: u32
  en_completed_cid_seen :: "u16 \<Rightarrow> bool"
  en_sq_full_start_us :: u64
  en_cq_empty_start_us :: u64
  en_no_progress_start_us :: u64
  en_stats :: NvmeCrossSlotStats
  en_state :: NvmeCrossSlotState
  en_last_error :: string

record 'c NvmeCrossSlotOps =
  op_submit :: "'c \<Rightarrow> u16 \<Rightarrow> u64 \<Rightarrow> u32 \<Rightarrow> u64 \<Rightarrow> int \<times> 'c"
  op_poll_completion :: "'c \<Rightarrow> int \<times> NvmeCompletion \<times> 'c"
  op_monotonic_us :: "'c \<Rightarrow> u64 \<times> 'c"
  op_sleep_us :: "('c \<Rightarrow> u32 \<Rightarrow> 'c) option"
  op_yield_cpu :: "('c \<Rightarrow> 'c) option"
  op_reset :: "('c \<Rightarrow> int \<times> 'c) option"
  op_done :: "('c \<Rightarrow> NvmeWriteSlotReq \<Rightarrow> int \<times> 'c) option"
  op_producer :: "'c \<Rightarrow> string option \<times> 'c"

definition pending_zero :: NvmePendingCmd where
  "pending_zero = \<lparr>pc_valid = False, pc_cid = 0, pc_slot = 0, pc_slot_offset = 0, pc_lba = 0, pc_ddr_addr = 0,
     pc_sectors = 0, pc_bytes = 0, pc_payload_bytes = 0, pc_submit_us = 0\<rparr>"

definition context_zero :: NvmeSlotWriteContext where
  "context_zero = \<lparr>wc_slot = 0, wc_base_lba = 0, wc_base_ddr_addr = 0, wc_total_bytes = 0, wc_total_sectors = 0,
     wc_next_submit_sector = 0, wc_submitted_cmds = 0, wc_completed_cmds = 0, wc_failed_cmds = 0,
     wc_inflight_cmds = 0\<rparr>"

text \<open>A context nobody uses has the slot number no slot has.\<close>

definition context_free :: NvmeSlotWriteContext where
  "context_free = context_zero\<lparr>wc_slot := UINT32_MAX\<rparr>"

definition req_zero :: NvmeWriteSlotReq where
  "req_zero = \<lparr>wr_slot = 0, wr_start_lba = 0, wr_sectors = 0, wr_hw_addr = 0, wr_bytes = 0, wr_chunk_index = 0,
     wr_file_offset = 0, wr_media_bytes = 0\<rparr>"

definition stats_zero :: NvmeCrossSlotStats where
  "stats_zero = \<lparr>cs_sq_full_wait_count = 0, cs_sq_full_wait_max_us = 0, cs_cq_empty_wait_count = 0,
     cs_cq_empty_wait_max_us = 0, cs_submit_mmio_count = 0, cs_submit_mmio_max_us = 0,
     cs_completion_process_count = 0, cs_completion_process_max_us = 0, cs_no_progress_sleep_count = 0\<rparr>"

section \<open>Runtime helpers\<close>

definition nvme_set_error :: "StorageErrorCode \<Rightarrow> string \<Rightarrow> NvmeRuntime \<Rightarrow> NvmeRuntime" where
  "nvme_set_error code reason rt =
     (case storage_error_record (nr_primary_error rt) (nr_secondary_error rt) code of
        (p, s) \<Rightarrow>
          (let rt1 = rt\<lparr>nr_primary_error := p, nr_secondary_error := s\<rparr>
           in if nr_primary_error rt \<noteq> STORAGE_ERR_NONE then rt1 else rt1\<lparr>nr_last_error := take 63 reason\<rparr>))"

definition nvme_set_last_error :: "string \<Rightarrow> NvmeRuntime \<Rightarrow> NvmeRuntime" where
  "nvme_set_last_error reason rt = nvme_set_error STORAGE_ERR_INTERNAL reason rt"

definition nvme_update_active_qd :: "u32 \<Rightarrow> u64 \<Rightarrow> NvmeRuntime \<Rightarrow> NvmeRuntime" where
  "nvme_update_active_qd new_qd now_us rt =
     (let last_us = nr_active_qd_last_update_us rt;
          old_qd = nr_active_qd_current rt;
          rt1 = (if last_us \<noteq> 0 \<and> last_us \<le> now_us
                 then rt\<lparr>nr_active_qd_integral_us := nr_active_qd_integral_us rt + (now_us - last_us) * ucast old_qd,
                         nr_active_qd_observed_us := nr_active_qd_observed_us rt + (now_us - last_us)\<rparr>
                 else rt);
          rt2 = rt1\<lparr>nr_active_qd_last_update_us := now_us, nr_active_qd_current := new_qd\<rparr>
      in if nr_active_qd_max rt2 < new_qd then rt2\<lparr>nr_active_qd_max := new_qd\<rparr> else rt2)"

definition nvme_record_active_qd_event :: "u32 \<Rightarrow> NvmeRuntime \<Rightarrow> NvmeRuntime" where
  "nvme_record_active_qd_event active_qd rt =
     (let rt1 = rt\<lparr>nr_active_qd_event_sum := nr_active_qd_event_sum rt + ucast active_qd,
                   nr_active_qd_event_samples := nr_active_qd_event_samples rt + 1\<rparr>;
          rt2 = (if active_qd < nr_active_qd_event_min rt1 then rt1\<lparr>nr_active_qd_event_min := active_qd\<rparr> else rt1);
          rt3 = (if nr_active_qd_max rt2 < active_qd then rt2\<lparr>nr_active_qd_max := active_qd\<rparr> else rt2)
      in rt3\<lparr>nr_active_qd_current := active_qd\<rparr>)"

definition atomic_update_min_u64 :: "u64 \<Rightarrow> u64 \<Rightarrow> u64" where
  "atomic_update_min_u64 current new = (if current = 0 \<or> new < current then new else current)"

definition atomic_update_max_u64 :: "u64 \<Rightarrow> u64 \<Rightarrow> u64" where
  "atomic_update_max_u64 current new = (if current < new then new else current)"

definition nvme_record_write_completion :: "NvmePendingCmd \<Rightarrow> u64 \<Rightarrow> NvmeRuntime \<Rightarrow> NvmeRuntime" where
  "nvme_record_write_completion p completion_us rt =
     (let latency_us = (if pc_submit_us p \<noteq> 0 \<and> pc_submit_us p \<le> completion_us
                        then completion_us - pc_submit_us p else 0);
          rt1 = rt\<lparr>nr_cmd_count := nr_cmd_count rt + 1,
                   nr_cmd_bytes_total := nr_cmd_bytes_total rt + ucast (pc_bytes p),
                   nr_write_bytes_done := nr_write_bytes_done rt + ucast (pc_bytes p),
                   nr_payload_bytes_done := nr_payload_bytes_done rt +
                     ucast (if pc_payload_bytes p \<noteq> 0 then pc_payload_bytes p else pc_bytes p),
                   nr_last_completion_us := completion_us\<rparr>
      in if pc_submit_us p \<noteq> 0
         then rt1\<lparr>nr_latency_total_us := nr_latency_total_us rt1 + latency_us,
                  nr_latency_sample_count := nr_latency_sample_count rt1 + 1,
                  nr_latency_min_us := atomic_update_min_u64 (nr_latency_min_us rt1) latency_us,
                  nr_latency_max_us := atomic_update_max_u64 (nr_latency_max_us rt1) latency_us\<rparr>
         else rt1)"

definition nvme_lba_range_valid :: "NvmeRuntime \<Rightarrow> u64 \<Rightarrow> u64 \<Rightarrow> bool" where
  "nvme_lba_range_valid rt start_lba sectors \<longleftrightarrow>
     nr_max_lba rt \<noteq> 0 \<and> sectors \<noteq> 0 \<and> start_lba < nr_max_lba rt \<and> sectors \<le> nr_max_lba rt - start_lba"

section \<open>Searches\<close>

text \<open>The index of the first element with a property.\<close>

fun first_index :: "('a \<Rightarrow> bool) \<Rightarrow> 'a list \<Rightarrow> nat option" where
  "first_index P [] = None"
| "first_index P (x # xs) = (if P x then Some 0 else map_option Suc (first_index P xs))"

definition nvme_find_pending_by_cid :: "NvmePendingCmd list \<Rightarrow> u16 \<Rightarrow> nat option" where
  "nvme_find_pending_by_cid pending cid = first_index (\<lambda>p. pc_valid p \<and> pc_cid p = cid) pending"

definition nvme_find_free_pending :: "NvmePendingCmd list \<Rightarrow> nat option" where
  "nvme_find_free_pending pending = first_index (\<lambda>p. \<not> pc_valid p) pending"

definition nvme_find_slot_context :: "NvmeSlotWriteContext list \<Rightarrow> u32 \<Rightarrow> nat option" where
  "nvme_find_slot_context contexts slot = first_index (\<lambda>c. wc_slot c = slot) contexts"

fun alloc_cid_loop :: "nat \<Rightarrow> NvmePendingCmd list \<Rightarrow> u16 \<Rightarrow> u16 option \<times> u16" where
  "alloc_cid_loop 0 pending next_id = (None, next_id)"
| "alloc_cid_loop (Suc n) pending next_id =
     (if next_id \<noteq> 0 \<and> nvme_find_pending_by_cid pending next_id = None then (Some next_id, next_id + 1)
      else alloc_cid_loop n pending (next_id + 1))"

definition nvme_alloc_cid :: "NvmeRuntime \<Rightarrow> NvmePendingCmd list \<Rightarrow> u16 option \<times> NvmeRuntime" where
  "nvme_alloc_cid rt pending =
     (case alloc_cid_loop 65535 pending (nr_next_cmd_id rt) of
        (cid, next_id) \<Rightarrow> (cid, rt\<lparr>nr_next_cmd_id := next_id\<rparr>))"

text \<open>For evaluation: the first attempt apart from the others.\<close>

lemma nvme_alloc_cid_code [code]:
  "nvme_alloc_cid rt pending =
     (let next_id = nr_next_cmd_id rt
      in if next_id \<noteq> 0 \<and> nvme_find_pending_by_cid pending next_id = None
         then (Some next_id, rt\<lparr>nr_next_cmd_id := next_id + 1\<rparr>)
         else case alloc_cid_loop 65534 pending (next_id + 1) of
                (cid, next_id') \<Rightarrow> (cid, rt\<lparr>nr_next_cmd_id := next_id'\<rparr>))"
proof -
  have "alloc_cid_loop 65535 pending next_id =
      (if next_id \<noteq> 0 \<and> nvme_find_pending_by_cid pending next_id = None then (Some next_id, next_id + 1)
       else alloc_cid_loop 65534 pending (next_id + 1))" for next_id
    using alloc_cid_loop.simps(2) [of 65534 pending next_id] by (simp only: eval_nat_numeral(3))
  then show ?thesis by (simp add: nvme_alloc_cid_def Let_def)
qed

text \<open>The search for the next context with sectors left starts at the round-robin index and goes once
  around; the index is left behind the context found.\<close>

fun next_submit_loop ::
  "nat \<Rightarrow> NvmeSlotWriteContext list \<Rightarrow> bool list \<Rightarrow> u32 \<Rightarrow> u32 \<Rightarrow> nat option" where
  "next_submit_loop 0 contexts finished count attempt_index = None"
| "next_submit_loop (Suc n) contexts finished count attempt_index =
     (let index = unat (attempt_index mod count)
      in if \<not> finished ! index \<and>
            wc_next_submit_sector (contexts ! index) < wc_total_sectors (contexts ! index)
         then Some index
         else next_submit_loop n contexts finished count (attempt_index + 1))"

definition nvme_find_next_submit_context ::
  "NvmeSlotWriteContext list \<Rightarrow> bool list \<Rightarrow> u32 \<Rightarrow> u32 \<Rightarrow> (nat \<times> u32) option" where
  "nvme_find_next_submit_context contexts finished context_count rr_index =
     (if context_count = 0 then None
      else map_option (\<lambda>i. (i, (of_nat i + 1) mod context_count))
             (next_submit_loop (unat context_count) contexts finished context_count rr_index))"

section \<open>Errors and validation\<close>

definition cross_slot_fail_code :: "StorageErrorCode \<Rightarrow> string \<Rightarrow> NvmeCrossSlotEngine \<Rightarrow> NvmeCrossSlotEngine" where
  "cross_slot_fail_code code reason e =
     (let e1 = (if en_last_error e = []
                then e\<lparr>en_last_error := take 63 reason, en_rt := nvme_set_error code reason (en_rt e)\<rparr> else e)
      in if en_state e1 = NVME_CROSS_SLOT_RUNNING then e1\<lparr>en_state := NVME_CROSS_SLOT_ABORT_REQUESTED\<rparr> else e1)"

definition cross_slot_fail :: "string \<Rightarrow> NvmeCrossSlotEngine \<Rightarrow> NvmeCrossSlotEngine" where
  "cross_slot_fail reason e = cross_slot_fail_code STORAGE_ERR_INTERNAL reason e"

definition context_valid :: "NvmeCrossSlotEngine \<Rightarrow> nat \<Rightarrow> bool" where
  "context_valid e i \<longleftrightarrow>
     (let ctx = en_contexts e ! i
      in \<not> (nr_dma_desc_count (en_rt e) \<noteq> 0 \<and> nr_dma_desc_count (en_rt e) \<le> wc_slot ctx) \<and>
         wc_slot ctx = wr_slot (en_reqs e ! i) \<and> \<not> wc_total_sectors ctx < wc_next_submit_sector ctx \<and>
         \<not> wc_submitted_cmds ctx < wc_completed_cmds ctx \<and>
         wc_submitted_cmds ctx = wc_completed_cmds ctx + wc_failed_cmds ctx + wc_inflight_cmds ctx)"

text \<open>The index of the active context a command belongs to.\<close>

definition owner_index :: "NvmeCrossSlotEngine \<Rightarrow> NvmePendingCmd \<Rightarrow> nat option" where
  "owner_index e p =
     first_index (\<lambda>(a, c). a \<and> wc_slot c = pc_slot p) (zip (en_active e) (en_contexts e))"

definition pending_valid :: "NvmeCrossSlotEngine \<Rightarrow> nat \<Rightarrow> bool" where
  "pending_valid e i \<longleftrightarrow>
     (let p = en_pending e ! i
      in \<not> en_completed_cid_seen e (pc_cid p) \<and>
         list_all (\<lambda>q. \<not> (pc_valid q \<and> pc_cid q = pc_cid p)) (take i (en_pending e)) \<and>
         owner_index e p \<noteq> None)"

definition active_indices :: "NvmeCrossSlotEngine \<Rightarrow> nat list" where
  "active_indices e = filter (\<lambda>i. en_active e ! i) [0..<NVME_PENDING_CAPACITY]"

definition valid_indices :: "NvmeCrossSlotEngine \<Rightarrow> nat list" where
  "valid_indices e = filter (\<lambda>i. pc_valid (en_pending e ! i)) [0..<NVME_PENDING_CAPACITY]"

text \<open>The reason for which the engine is found inconsistent. The loops of the code stop at the first
  problem, in the order of the tests here.\<close>

definition validate_reason :: "NvmeCrossSlotEngine \<Rightarrow> string option" where
  "validate_reason e =
     (let acts = active_indices e; vals = valid_indices e;
          inflight_count = sum_list (map (\<lambda>i. wc_inflight_cmds (en_contexts e ! i)) acts)
      in if \<not> list_all (context_valid e) acts then Some ''context_count_invariant_failed''
         else if of_nat (length acts) \<noteq> en_active_count e \<or>
                 cc_max_active_slots (en_config e) < of_nat (length acts)
         then Some ''context_count_invariant_failed''
         else if \<not> list_all (pending_valid e) vals then Some ''pending_cid_state_inconsistent''
         else if \<not> list_all (\<lambda>i. of_nat (length (filter (\<lambda>j. owner_index e (en_pending e ! j) = Some i) vals)) =
                                 wc_inflight_cmds (en_contexts e ! i)) acts
         then Some ''pending_cid_state_inconsistent''
         else if of_nat (length vals) \<noteq> en_global_inflight e \<or> inflight_count \<noteq> en_global_inflight e
         then Some ''submitted_completed_inflight_invariant_failed''
         else None)"

definition cross_slot_validate :: "NvmeCrossSlotEngine \<Rightarrow> int \<times> NvmeCrossSlotEngine" where
  "cross_slot_validate e =
     (case validate_reason e of None \<Rightarrow> (0, e) | Some reason \<Rightarrow> (-1, cross_slot_fail reason e))"

section \<open>Completions\<close>

text \<open>Taking command \<open>k\<close> out of the table, finished well or badly, for context \<open>j\<close>.\<close>

definition finish_cmd :: "bool \<Rightarrow> nat \<Rightarrow> nat \<Rightarrow> u16 \<Rightarrow> NvmeCrossSlotEngine \<Rightarrow> NvmeCrossSlotEngine" where
  "finish_cmd failed k j cid e =
     (let ctx = en_contexts e ! j;
          ctx1 = (if failed then ctx\<lparr>wc_failed_cmds := wc_failed_cmds ctx + 1,
                                     wc_inflight_cmds := wc_inflight_cmds ctx - 1\<rparr>
                  else ctx\<lparr>wc_completed_cmds := wc_completed_cmds ctx + 1,
                           wc_inflight_cmds := wc_inflight_cmds ctx - 1\<rparr>);
          inflight = en_global_inflight e - 1
      in e\<lparr>en_pending := (en_pending e)[k := (en_pending e ! k)\<lparr>pc_valid := False\<rparr>],
           en_completed_cid_seen := (en_completed_cid_seen e)(cid := True),
           en_contexts := (en_contexts e)[j := ctx1],
           en_global_inflight := inflight,
           en_rt := nvme_record_active_qd_event inflight (en_rt e)\<rparr>)"

text \<open>With the timing diagnosis on, the clock is read.\<close>

definition diag_now :: "'c NvmeCrossSlotOps \<Rightarrow> NvmeCrossSlotEngine \<Rightarrow> 'c \<Rightarrow> u64 \<times> 'c" where
  "diag_now ops e c = (if nr_diag_timing (en_rt e) then op_monotonic_us ops c else (0, c))"

definition cross_slot_handle_completion ::
  "'c NvmeCrossSlotOps \<Rightarrow> NvmeCompletion \<Rightarrow> NvmeCrossSlotEngine \<Rightarrow> 'c \<Rightarrow> int \<times> NvmeCrossSlotEngine \<times> 'c" where
  "cross_slot_handle_completion ops completion e c =
     (let cid = cp_cid completion
      in case nvme_find_pending_by_cid (en_pending e) cid of
           None \<Rightarrow>
             (-1, if en_completed_cid_seen e cid
                  then cross_slot_fail_code STORAGE_ERR_DUPLICATE_CID ''duplicate_completion_cid'' e
                  else cross_slot_fail_code STORAGE_ERR_UNKNOWN_CID ''unknown_completion_cid'' e, c)
         | Some k \<Rightarrow>
             (let entry = en_pending e ! k
              in case nvme_find_slot_context (en_contexts e) (pc_slot entry) of
                   None \<Rightarrow> (-1, cross_slot_fail ''pending_cid_state_inconsistent'' e, c)
                 | Some j \<Rightarrow>
                     if wc_inflight_cmds (en_contexts e ! j) = 0 \<or> en_global_inflight e = 0
                     then (-1, cross_slot_fail ''pending_cid_state_inconsistent'' e, c)
                     else case diag_now ops e c of
                            (completion_us, c1) \<Rightarrow>
                              if cp_error completion
                              then (-1, cross_slot_fail ''completion_status_error'' (finish_cmd True k j cid e), c1)
                              else let e1 = e\<lparr>en_rt := nvme_record_write_completion entry completion_us (en_rt e)\<rparr>
                                   in case cross_slot_validate (finish_cmd False k j cid e1) of
                                        (rc, e2) \<Rightarrow> (rc, e2, c1)))"

section \<open>Creation, queries, abort\<close>

definition nvme_cross_slot_engine_create_with_ops_config ::
  "bool \<Rightarrow> NvmeRuntime \<Rightarrow> NvmeCrossSlotConfig \<Rightarrow> NvmeCrossSlotEngine option" where
  "nvme_cross_slot_engine_create_with_ops_config alloc_ok rt config =
     (if cc_max_active_slots config = 0 \<or> cc_target_qd config = 0 \<or> cc_cq_batch config = 0 \<or>
         NVME_PENDING_CAPACITY < unat (cc_max_active_slots config) \<or>
         NVME_PENDING_CAPACITY < unat (cc_target_qd config) then None
      else if \<not> alloc_ok then None
      else Some \<lparr>en_rt = rt, en_pending = replicate NVME_PENDING_CAPACITY pending_zero,
                 en_contexts = replicate NVME_PENDING_CAPACITY context_free,
                 en_reqs = replicate NVME_PENDING_CAPACITY req_zero,
                 en_active = replicate NVME_PENDING_CAPACITY False, en_active_count = 0, en_config = config,
                 en_global_inflight = 0, en_rr_index = 0, en_completed_cid_seen = (\<lambda>_. False),
                 en_sq_full_start_us = 0, en_cq_empty_start_us = 0, en_no_progress_start_us = 0,
                 en_stats = stats_zero, en_state = NVME_CROSS_SLOT_RUNNING, en_last_error = []\<rparr>)"

definition nvme_cross_slot_engine_create_with_ops :: "bool \<Rightarrow> NvmeRuntime \<Rightarrow> NvmeCrossSlotEngine option" where
  "nvme_cross_slot_engine_create_with_ops alloc_ok rt =
     nvme_cross_slot_engine_create_with_ops_config alloc_ok rt
       \<lparr>cc_max_active_slots = 4, cc_target_qd = nr_qd_effective rt, cc_cq_batch = nr_cq_pop_batch rt,
        cc_writer_budget_us = 300, cc_busy_poll_us = nr_busy_poll_us rt, cc_empty_sleep_us = nr_poll_sleep_us rt,
        cc_no_progress_timeout_us = ucast (nr_timeout_us rt)\<rparr>"

definition nvme_cross_slot_engine_active :: "NvmeCrossSlotEngine \<Rightarrow> u32" where
  "nvme_cross_slot_engine_active e = en_active_count e"

definition nvme_cross_slot_engine_capacity :: "NvmeCrossSlotEngine \<Rightarrow> u32" where
  "nvme_cross_slot_engine_capacity e = cc_max_active_slots (en_config e)"

definition nvme_cross_slot_engine_can_accept :: "NvmeCrossSlotEngine \<Rightarrow> bool" where
  "nvme_cross_slot_engine_can_accept e \<longleftrightarrow>
     en_state e = NVME_CROSS_SLOT_RUNNING \<and> en_active_count e < cc_max_active_slots (en_config e)"

definition nvme_cross_slot_engine_last_error :: "NvmeCrossSlotEngine \<Rightarrow> string" where
  "nvme_cross_slot_engine_last_error e = en_last_error e"

definition nvme_cross_slot_engine_inflight :: "NvmeCrossSlotEngine \<Rightarrow> u32" where
  "nvme_cross_slot_engine_inflight e = en_global_inflight e"

definition nvme_cross_slot_engine_get_stats :: "NvmeCrossSlotEngine \<Rightarrow> NvmeCrossSlotStats" where
  "nvme_cross_slot_engine_get_stats e = en_stats e"

definition nvme_cross_slot_engine_state :: "NvmeCrossSlotEngine \<Rightarrow> NvmeCrossSlotState" where
  "nvme_cross_slot_engine_state e = en_state e"

definition nvme_cross_slot_engine_request_abort :: "string \<Rightarrow> NvmeCrossSlotEngine \<Rightarrow> NvmeCrossSlotEngine" where
  "nvme_cross_slot_engine_request_abort reason e =
     (if en_state e = NVME_CROSS_SLOT_QUIESCED \<or> en_state e = NVME_CROSS_SLOT_FAILED then e
      else let text = take 63 (if reason \<noteq> [] then reason else ''abort_requested'');
               e1 = (if en_last_error e = []
                     then e\<lparr>en_last_error := text, en_rt := nvme_set_last_error text (en_rt e)\<rparr> else e)
           in if en_state e1 = NVME_CROSS_SLOT_RUNNING then e1\<lparr>en_state := NVME_CROSS_SLOT_ABORT_REQUESTED\<rparr> else e1)"

definition nvme_cross_slot_engine_is_quiesced :: "NvmeCrossSlotEngine \<Rightarrow> bool" where
  "nvme_cross_slot_engine_is_quiesced e \<longleftrightarrow>
     en_global_inflight e = 0 \<and> en_active_count e = 0 \<and>
     list_all (\<lambda>i. let ctx = en_contexts e ! i
                   in \<not> pc_valid (en_pending e ! i) \<and> \<not> en_active e ! i \<and> wc_slot ctx = UINT32_MAX \<and>
                      wc_next_submit_sector ctx = 0 \<and> wc_total_sectors ctx = 0 \<and> wc_submitted_cmds ctx = 0 \<and>
                      wc_completed_cmds ctx = 0 \<and> wc_inflight_cmds ctx = 0 \<and> wc_failed_cmds ctx = 0)
              [0..<NVME_PENDING_CAPACITY]"

text \<open>Only an engine at rest is freed; the result is the engine that still exists.\<close>

definition nvme_cross_slot_engine_destroy :: "NvmeCrossSlotEngine \<Rightarrow> NvmeCrossSlotEngine option" where
  "nvme_cross_slot_engine_destroy e = (if nvme_cross_slot_engine_is_quiesced e then None else Some e)"

definition cross_slot_discard_contexts :: "NvmeCrossSlotEngine \<Rightarrow> NvmeCrossSlotEngine" where
  "cross_slot_discard_contexts e =
     e\<lparr>en_pending := replicate NVME_PENDING_CAPACITY pending_zero,
       en_active := replicate NVME_PENDING_CAPACITY False,
       en_contexts := replicate NVME_PENDING_CAPACITY context_free,
       en_reqs := replicate NVME_PENDING_CAPACITY req_zero,
       en_global_inflight := 0, en_active_count := 0\<rparr>"

text \<open>How a part of a function ends: it returns from the function, goes on (with a flag), has used up its fuel, or
  calls a missing operation.\<close>

datatype flow = FReturn int | FGo bool | FOutOfFuel | FCrash

text \<open>An iteration that takes no command off yields and sleeps; fuel bounds a clock that stands still.\<close>

definition drain_pause :: "'c NvmeCrossSlotOps \<Rightarrow> NvmeCrossSlotEngine \<Rightarrow> 'c \<Rightarrow> 'c" where
  "drain_pause ops e c =
     (let c1 = (case op_yield_cpu ops of None \<Rightarrow> c | Some f \<Rightarrow> f c)
      in case op_sleep_us ops of
           None \<Rightarrow> c1
         | Some f \<Rightarrow> if cc_empty_sleep_us (en_config e) \<noteq> 0 then f c1 (cc_empty_sleep_us (en_config e)) else c1)"

fun drain_loop ::
  "nat \<Rightarrow> 'c NvmeCrossSlotOps \<Rightarrow> u64 \<Rightarrow> NvmeCrossSlotEngine \<Rightarrow> 'c \<Rightarrow> flow \<times> NvmeCrossSlotEngine \<times> 'c" where
  "drain_loop 0 ops deadline e c = (FOutOfFuel, e, c)"
| "drain_loop (Suc n) ops deadline e c =
     (if en_global_inflight e = 0 then (FGo False, e, c)
      else case op_monotonic_us ops c of
             (now, c1) \<Rightarrow>
               if \<not> now < deadline then (FGo False, e, c1)
               else case op_poll_completion ops c1 of
                      (rc, completion, c2) \<Rightarrow>
                        if rc < 0 then (FGo False, e, c2)
                        else if rc > 0
                        then (case cross_slot_handle_completion ops completion e c2 of
                                (_, e1, c3) \<Rightarrow>
                                  if en_global_inflight e1 < en_global_inflight e
                                  then drain_loop n ops deadline e1 c3
                                  else drain_loop n ops deadline e1 (drain_pause ops e1 c3))
                        else drain_loop n ops deadline e (drain_pause ops e c2))"

definition drain_finish :: "'c NvmeCrossSlotOps \<Rightarrow> NvmeCrossSlotEngine \<Rightarrow> 'c \<Rightarrow> int \<times> NvmeCrossSlotEngine \<times> 'c" where
  "drain_finish ops e c =
     (if en_global_inflight e = 0
      then (0, (cross_slot_discard_contexts e)\<lparr>en_state := NVME_CROSS_SLOT_QUIESCED\<rparr>, c)
      else let e1 = e\<lparr>en_state := NVME_CROSS_SLOT_RESETTING\<rparr>
           in case op_reset ops of
                None \<Rightarrow> (-1, e1\<lparr>en_state := NVME_CROSS_SLOT_FAILED\<rparr>, c)
              | Some f \<Rightarrow>
                  (case f c of
                     (rc, c1) \<Rightarrow>
                       if rc = 0 then (0, (cross_slot_discard_contexts e1)\<lparr>en_state := NVME_CROSS_SLOT_QUIESCED\<rparr>, c1)
                       else (-1, e1\<lparr>en_state := NVME_CROSS_SLOT_FAILED\<rparr>, c1)))"

definition nvme_cross_slot_engine_drain_abort ::
  "nat \<Rightarrow> 'c NvmeCrossSlotOps \<Rightarrow> u64 \<Rightarrow> NvmeCrossSlotEngine \<Rightarrow> 'c \<Rightarrow> flow \<times> NvmeCrossSlotEngine \<times> 'c" where
  "nvme_cross_slot_engine_drain_abort fuel ops deadline e0 c =
     (let e = nvme_cross_slot_engine_request_abort ''abort_requested'' e0
      in if en_state e = NVME_CROSS_SLOT_QUIESCED then (FReturn 0, e, c)
         else if en_state e = NVME_CROSS_SLOT_FAILED then (FReturn (-1), e, c)
         else case drain_loop fuel ops deadline (e\<lparr>en_state := NVME_CROSS_SLOT_DRAINING_INFLIGHT\<rparr>) c of
                (FGo _, e1, c1) \<Rightarrow> (case drain_finish ops e1 c1 of (rc, e2, c2) \<Rightarrow> (FReturn rc, e2, c2))
              | r \<Rightarrow> r)"

section \<open>Adding a slot\<close>

text \<open>The reason for which a request is rejected.\<close>

definition add_refusal :: "NvmeCrossSlotEngine \<Rightarrow> NvmeWriteSlotReq \<Rightarrow> string option" where
  "add_refusal e req =
     (let media_bytes = wr_sectors req * NVME_SECTOR_BYTES
      in if UINT64_MAX div NVME_SECTOR_BYTES < wr_sectors req then Some ''media_byte_overflow''
         else if media_bytes < wr_bytes req \<or> (wr_media_bytes req \<noteq> 0 \<and> wr_media_bytes req \<noteq> media_bytes)
         then Some ''payload_media_mismatch''
         else if UINT64_MAX - wr_sectors req < wr_start_lba req \<or> UINT64_MAX - media_bytes < wr_hw_addr req
         then Some ''slot_range_overflow''
         else if nr_max_lba (en_rt e) \<noteq> 0 \<and> \<not> nvme_lba_range_valid (en_rt e) (wr_start_lba req) (wr_sectors req)
         then Some ''slot_lba_out_of_range''
         else if nr_dma_desc_count (en_rt e) \<noteq> 0 \<and> nr_dma_desc_count (en_rt e) \<le> wr_slot req
         then Some ''slot_range_overflow''
         else if list_ex (\<lambda>(a, r). a \<and> wr_slot r = wr_slot req) (zip (en_active e) (en_reqs e))
         then Some ''duplicate_active_slot''
         else None)"

definition activate :: "nat \<Rightarrow> NvmeWriteSlotReq \<Rightarrow> NvmeCrossSlotEngine \<Rightarrow> NvmeCrossSlotEngine" where
  "activate i req e =
     e\<lparr>en_active := (en_active e)[i := True], en_reqs := (en_reqs e)[i := req],
       en_contexts := (en_contexts e)[i := context_zero\<lparr>wc_slot := wr_slot req, wc_base_lba := wr_start_lba req,
                                                        wc_base_ddr_addr := wr_hw_addr req,
                                                        wc_total_sectors := wr_sectors req,
                                                        wc_total_bytes := wr_bytes req\<rparr>],
       en_active_count := en_active_count e + 1\<rparr>"

definition nvme_cross_slot_engine_add :: "NvmeWriteSlotReq \<Rightarrow> NvmeCrossSlotEngine \<Rightarrow> int \<times> NvmeCrossSlotEngine" where
  "nvme_cross_slot_engine_add req e =
     (if wr_sectors req = 0 \<or> wr_bytes req = 0 \<or> en_state e \<noteq> NVME_CROSS_SLOT_RUNNING then (-1, e)
      else case add_refusal e req of
             Some reason \<Rightarrow> (-1, cross_slot_fail reason e)
           | None \<Rightarrow>
               if \<not> nvme_cross_slot_engine_can_accept e then (1, e)
               else case first_index Not (en_active e) of
                      None \<Rightarrow> (1, e)
                    | Some i \<Rightarrow> cross_slot_validate (activate i req e))"

section \<open>The step\<close>

abbreviation stats_upd :: "(NvmeCrossSlotStats \<Rightarrow> NvmeCrossSlotStats) \<Rightarrow> NvmeCrossSlotEngine \<Rightarrow> NvmeCrossSlotEngine" where
  "stats_upd f e \<equiv> e\<lparr>en_stats := f (en_stats e)\<rparr>"

definition cross_slot_update_max :: "u64 \<Rightarrow> u64 \<Rightarrow> u64" where
  "cross_slot_update_max sample v = (if v < sample then sample else v)"

definition cross_slot_record_cq_empty :: "u64 \<Rightarrow> NvmeCrossSlotEngine \<Rightarrow> NvmeCrossSlotEngine" where
  "cross_slot_record_cq_empty now_us e =
     (let e1 = (if en_cq_empty_start_us e = 0
                then stats_upd (cs_cq_empty_wait_count_update (\<lambda>n. n + 1)) (e\<lparr>en_cq_empty_start_us := now_us\<rparr>) else e)
      in stats_upd (cs_cq_empty_wait_max_us_update (cross_slot_update_max (now_us - en_cq_empty_start_us e1))) e1)"

definition cross_slot_clear_cq_empty :: "u64 \<Rightarrow> NvmeCrossSlotEngine \<Rightarrow> NvmeCrossSlotEngine" where
  "cross_slot_clear_cq_empty now_us e =
     (if en_cq_empty_start_us e \<noteq> 0
      then stats_upd (cs_cq_empty_wait_max_us_update (cross_slot_update_max (now_us - en_cq_empty_start_us e))) e
             \<lparr>en_cq_empty_start_us := 0\<rparr>
      else e)"

definition process_completion ::
  "'c NvmeCrossSlotOps \<Rightarrow> u64 \<Rightarrow> NvmeCompletion \<Rightarrow> NvmeCrossSlotEngine \<Rightarrow> 'c \<Rightarrow> int \<times> NvmeCrossSlotEngine \<times> 'c" where
  "process_completion ops process_start_us completion e c =
     (case cross_slot_handle_completion ops completion e c of
        (rc, e1, c1) \<Rightarrow>
          if rc \<noteq> 0 then (-1, e1, c1)
          else let e2 = stats_upd (cs_completion_process_count_update (\<lambda>n. n + 1)) e1
               in if nr_diag_timing (en_rt e2)
                  then (case op_monotonic_us ops c1 of
                          (t, c2) \<Rightarrow>
                            (0, stats_upd (cs_completion_process_max_us_update
                                             (cross_slot_update_max (t - process_start_us))) e2, c2))
                  else (0, e2, c1))"

text \<open>The completion queue first, at most a batch of entries.\<close>

fun cq_loop ::
  "nat \<Rightarrow> 'c NvmeCrossSlotOps \<Rightarrow> bool \<Rightarrow> NvmeCrossSlotEngine \<Rightarrow> 'c \<Rightarrow> flow \<times> NvmeCrossSlotEngine \<times> 'c" where
  "cq_loop 0 ops progress e c = (FGo progress, e, c)"
| "cq_loop (Suc n) ops progress e c =
     (if en_global_inflight e = 0 then (FGo progress, e, c)
      else case op_poll_completion ops c of
             (prc, completion, c1) \<Rightarrow>
               case op_monotonic_us ops c1 of
                 (poll_end_us, c2) \<Rightarrow>
                   if prc < 0 then (FReturn (-1), cross_slot_fail ''completion_poll_failed'' e, c2)
                   else if prc = 0 then (FGo progress, cross_slot_record_cq_empty poll_end_us e, c2)
                   else case process_completion ops poll_end_us completion (cross_slot_clear_cq_empty poll_end_us e) c2 of
                          (rc, e1, c3) \<Rightarrow> if rc \<noteq> 0 then (FReturn (-1), e1, c3) else cq_loop n ops True e1 c3)"

text \<open>Then the slots that are written completely.\<close>

definition release :: "nat \<Rightarrow> NvmeCrossSlotEngine \<Rightarrow> NvmeCrossSlotEngine" where
  "release i e =
     e\<lparr>en_active := (en_active e)[i := False], en_contexts := (en_contexts e)[i := context_free],
       en_reqs := (en_reqs e)[i := req_zero], en_active_count := en_active_count e - 1\<rparr>"

definition slot_written :: "NvmeCrossSlotEngine \<Rightarrow> nat \<Rightarrow> bool" where
  "slot_written e i \<longleftrightarrow>
     (let ctx = en_contexts e ! i
      in en_active e ! i \<and> wc_next_submit_sector ctx = wc_total_sectors ctx \<and>
         wc_completed_cmds ctx = wc_submitted_cmds ctx \<and> wc_inflight_cmds ctx = 0)"

definition call_done :: "'c NvmeCrossSlotOps \<Rightarrow> NvmeWriteSlotReq \<Rightarrow> 'c \<Rightarrow> int \<times> 'c" where
  "call_done ops req c = (case op_done ops of None \<Rightarrow> (0, c) | Some f \<Rightarrow> f c req)"

fun done_loop ::
  "nat list \<Rightarrow> 'c NvmeCrossSlotOps \<Rightarrow> bool \<Rightarrow> NvmeCrossSlotEngine \<Rightarrow> 'c \<Rightarrow> flow \<times> NvmeCrossSlotEngine \<times> 'c" where
  "done_loop [] ops progress e c = (FGo progress, e, c)"
| "done_loop (i # is) ops progress e c =
     (if \<not> slot_written e i then done_loop is ops progress e c
      else if wc_failed_cmds (en_contexts e ! i) \<noteq> 0
      then (FReturn (-1), cross_slot_fail ''completion_status_error'' e, c)
      else case call_done ops (en_reqs e ! i) c of
             (rc, c1) \<Rightarrow>
               if rc \<noteq> 0 then (FReturn (-1), cross_slot_fail ''slot_callback_failed'' e, c1)
               else done_loop is ops True (release i e) c1)"

text \<open>Then new commands, until the queue depth is reached, no slot has sectors left or the device refuses.\<close>

definition observe_abort :: "'c NvmeCrossSlotOps \<Rightarrow> NvmeCrossSlotEngine \<Rightarrow> 'c \<Rightarrow> NvmeCrossSlotEngine \<times> 'c" where
  "observe_abort ops e c =
     (case op_producer ops c of
        (None, c1) \<Rightarrow> (e, c1)
      | (Some reason, c1) \<Rightarrow> (nvme_cross_slot_engine_request_abort reason e, c1))"

definition build_cmd :: "u64 \<Rightarrow> u16 \<Rightarrow> NvmeSlotWriteContext \<Rightarrow> NvmePendingCmd" where
  "build_cmd command_limit cid ctx =
     (let remaining = wc_total_sectors ctx - wc_next_submit_sector ctx;
          sectors = ucast (if command_limit < remaining then command_limit else remaining) :: u32;
          offset = wc_next_submit_sector ctx * NVME_SECTOR_BYTES;
          bytes = sectors * NVME_SECTOR_BYTES_32;
          payload_remaining = (if offset < wc_total_bytes ctx then wc_total_bytes ctx - offset else 0)
      in \<lparr>pc_valid = True, pc_cid = cid, pc_slot = wc_slot ctx, pc_slot_offset = offset,
          pc_lba = wc_base_lba ctx + wc_next_submit_sector ctx, pc_ddr_addr = wc_base_ddr_addr ctx + offset,
          pc_sectors = sectors, pc_bytes = bytes,
          pc_payload_bytes = ucast (if ucast bytes < payload_remaining then ucast bytes else payload_remaining),
          pc_submit_us = 0\<rparr>)"

definition set_invalid :: "nat \<Rightarrow> NvmeCrossSlotEngine \<Rightarrow> NvmeCrossSlotEngine" where
  "set_invalid k e = e\<lparr>en_pending := (en_pending e)[k := (en_pending e ! k)\<lparr>pc_valid := False\<rparr>]\<rparr>"

definition mark_submitted :: "nat \<Rightarrow> u16 \<Rightarrow> u32 \<Rightarrow> NvmeCrossSlotEngine \<Rightarrow> NvmeCrossSlotEngine" where
  "mark_submitted i cid sectors e =
     (let ctx = en_contexts e ! i; inflight = en_global_inflight e + 1
      in e\<lparr>en_completed_cid_seen := (en_completed_cid_seen e)(cid := False),
           en_contexts := (en_contexts e)[i := ctx\<lparr>wc_next_submit_sector := wc_next_submit_sector ctx + ucast sectors,
                                                   wc_submitted_cmds := wc_submitted_cmds ctx + 1,
                                                   wc_inflight_cmds := wc_inflight_cmds ctx + 1\<rparr>],
           en_global_inflight := inflight, en_rt := nvme_record_active_qd_event inflight (en_rt e)\<rparr>)"

text \<open>The times around a submission: the end time is only read with the timing diagnosis or when the
  submission queue is full, and is zero otherwise.\<close>

definition timed_submit ::
  "'c NvmeCrossSlotOps \<Rightarrow> NvmePendingCmd \<Rightarrow> NvmeCrossSlotEngine \<Rightarrow> 'c \<Rightarrow> int \<times> u64 \<times> NvmeCrossSlotEngine \<times> 'c" where
  "timed_submit ops p e c =
     (case diag_now ops e c of
        (submit_start_us, c1) \<Rightarrow>
          case op_submit ops c1 (pc_cid p) (pc_lba p) (pc_sectors p) (pc_ddr_addr p) of
            (src, c2) \<Rightarrow>
              case diag_now ops e c2 of
                (end_us, c3) \<Rightarrow>
                  (let e1 = stats_upd (cs_submit_mmio_count_update (\<lambda>n. n + 1)) e;
                       e2 = (if nr_diag_timing (en_rt e)
                             then stats_upd (cs_submit_mmio_max_us_update
                                               (cross_slot_update_max (end_us - submit_start_us))) e1
                             else e1)
                   in if src = NVME_SUBMIT_RETRY_SQ_FULL \<and> \<not> nr_diag_timing (en_rt e)
                      then (case op_monotonic_us ops c3 of (t, c4) \<Rightarrow> (src, t, e2, c4))
                      else (src, end_us, e2, c3)))"

definition record_sq_full :: "u64 \<Rightarrow> NvmeCrossSlotEngine \<Rightarrow> NvmeCrossSlotEngine" where
  "record_sq_full submit_end_us e =
     (let e1 = (if en_sq_full_start_us e = 0
                then stats_upd (cs_sq_full_wait_count_update (\<lambda>n. n + 1)) (e\<lparr>en_sq_full_start_us := submit_end_us\<rparr>)
                else e)
      in stats_upd (cs_sq_full_wait_max_us_update (cross_slot_update_max (submit_end_us - en_sq_full_start_us e1))) e1)"

definition clear_sq_full :: "u64 \<Rightarrow> NvmeCrossSlotEngine \<Rightarrow> NvmeCrossSlotEngine" where
  "clear_sq_full submit_end_us e =
     (if en_sq_full_start_us e \<noteq> 0
      then stats_upd (cs_sq_full_wait_max_us_update (cross_slot_update_max (submit_end_us - en_sq_full_start_us e))) e
             \<lparr>en_sq_full_start_us := 0\<rparr>
      else e)"

text \<open>What happens to the command at \<open>k\<close> of context \<open>i\<close> after the device has answered.\<close>

definition submit_result ::
  "nat \<Rightarrow> nat \<Rightarrow> NvmePendingCmd \<Rightarrow> int \<Rightarrow> u64 \<Rightarrow> NvmeCrossSlotEngine \<Rightarrow> flow \<times> NvmeCrossSlotEngine" where
  "submit_result k i p src submit_end_us e =
     (if src = NVME_SUBMIT_RETRY_SQ_FULL then (FGo False, set_invalid k (record_sq_full submit_end_us e))
      else let e1 = clear_sq_full submit_end_us e
           in if src = NVME_SUBMIT_ACCEPTANCE_UNKNOWN
              then (FReturn (-1), cross_slot_fail ''submit_accept_timeout'' (mark_submitted i (pc_cid p) (pc_sectors p) e1))
              else if src \<noteq> NVME_SUBMIT_ACCEPTED
              then (FReturn (-1), cross_slot_fail (if src = NVME_SUBMIT_STOPPED_BEFORE_DOORBELL then ''submit_stopped''
                                                   else ''submit_not_accepted'') (set_invalid k e1))
              else (FGo True, mark_submitted i (pc_cid p) (pc_sectors p) e1))"

definition refill_one ::
  "'c NvmeCrossSlotOps \<Rightarrow> u64 \<Rightarrow> NvmeCrossSlotEngine \<Rightarrow> 'c \<Rightarrow> flow \<times> NvmeCrossSlotEngine \<times> 'c" where
  "refill_one ops command_limit e0 c0 =
     (case observe_abort ops e0 c0 of
        (e, c) \<Rightarrow>
          if en_state e \<noteq> NVME_CROSS_SLOT_RUNNING then (FReturn (-1), e, c)
          else case nvme_find_next_submit_context (en_contexts e) (map Not (en_active e)) (of_nat NVME_PENDING_CAPACITY) (en_rr_index e) of
                 None \<Rightarrow> (FGo False, e, c)
               | Some (i, rr) \<Rightarrow>
                   (let e1 = e\<lparr>en_rr_index := rr\<rparr>
                    in case nvme_find_free_pending (en_pending e1) of
                         None \<Rightarrow> (FReturn (-1), cross_slot_fail ''pending_cid_state_inconsistent'' e1, c)
                       | Some k \<Rightarrow>
                           (case nvme_alloc_cid (en_rt e1) (en_pending e1) of
                              (None, rt1) \<Rightarrow>
                                (FReturn (-1), cross_slot_fail ''pending_cid_state_inconsistent'' (e1\<lparr>en_rt := rt1\<rparr>), c)
                            | (Some cid, rt1) \<Rightarrow>
                                (let p = build_cmd command_limit cid (en_contexts e1 ! i);
                                     e2 = e1\<lparr>en_rt := rt1, en_pending := (en_pending e1)[k := p]\<rparr>
                                 in case timed_submit ops p e2 c of
                                      (src, submit_end_us, e3, c1) \<Rightarrow>
                                        case submit_result k i p src submit_end_us e3 of
                                          (f, e4) \<Rightarrow> (f, e4, c1)))))"

text \<open>Every accepted command raises the number of commands in flight, so the loop ends.\<close>

lemma request_abort_frame [simp]:
  "en_global_inflight (nvme_cross_slot_engine_request_abort reason e) = en_global_inflight e"
  "en_config (nvme_cross_slot_engine_request_abort reason e) = en_config e"
  by (simp_all add: nvme_cross_slot_engine_request_abort_def Let_def)

lemma observe_abort_frame:
  "observe_abort ops e c = (e', c') \<Longrightarrow>
     en_global_inflight e' = en_global_inflight e \<and> en_config e' = en_config e"
  by (auto simp: observe_abort_def split: prod.splits option.splits)

lemma timed_submit_frame:
  "timed_submit ops p e c = (src, t, e', c') \<Longrightarrow>
     en_global_inflight e' = en_global_inflight e \<and> en_config e' = en_config e"
  by (auto simp: timed_submit_def Let_def split: prod.splits if_splits)

lemma submit_result_progress:
  "submit_result k i p src t e = (FGo True, e') \<Longrightarrow>
     en_global_inflight e' = en_global_inflight e + 1 \<and> en_config e' = en_config e"
  by (auto simp: submit_result_def mark_submitted_def clear_sq_full_def Let_def split: if_splits)

lemma refill_one_progress:
  assumes "refill_one ops limit e c = (FGo True, e', c')"
  shows "en_global_inflight e' = en_global_inflight e + 1" "en_config e' = en_config e"
  using assms
  by (auto simp: refill_one_def Let_def split: prod.splits if_splits option.splits
      dest!: observe_abort_frame timed_submit_frame submit_result_progress)

lemma refill_one_measure:
  assumes "en_global_inflight e < cc_target_qd (en_config e)" "(FGo True, e', c') = refill_one ops limit e c"
  shows "unat (cc_target_qd (en_config e')) - unat (en_global_inflight e')
           < unat (cc_target_qd (en_config e)) - unat (en_global_inflight e)"
  using refill_one_progress [OF assms(2) [symmetric]] unat_inc_below [OF assms(1)] assms(1)
  by (auto simp: word_less_nat_alt)

function refill_loop ::
  "'c NvmeCrossSlotOps \<Rightarrow> u64 \<Rightarrow> bool \<Rightarrow> NvmeCrossSlotEngine \<Rightarrow> 'c \<Rightarrow> flow \<times> NvmeCrossSlotEngine \<times> 'c" where
  "refill_loop ops command_limit progress e c =
     (if en_global_inflight e < cc_target_qd (en_config e)
      then case refill_one ops command_limit e c of
             (FGo True, e1, c1) \<Rightarrow> refill_loop ops command_limit True e1 c1
           | (FGo False, e1, c1) \<Rightarrow> (FGo progress, e1, c1)
           | (f, e1, c1) \<Rightarrow> (f, e1, c1)
      else (FGo progress, e, c))"
  by pat_completeness auto
termination
  by (relation "measure (\<lambda>(ops, limit, progress, e, c). unat (cc_target_qd (en_config e)) - unat (en_global_inflight e))")
    (auto intro!: refill_one_measure)

declare refill_loop.simps [simp del]

text \<open>Without progress: polling until the busy deadline, then one more look after a yield, then sleep.\<close>

fun busy_loop ::
  "nat \<Rightarrow> 'c NvmeCrossSlotOps \<Rightarrow> u64 \<Rightarrow> NvmeCrossSlotEngine \<Rightarrow> 'c \<Rightarrow> flow \<times> NvmeCrossSlotEngine \<times> 'c" where
  "busy_loop 0 ops busy_deadline_us e c = (FOutOfFuel, e, c)"
| "busy_loop (Suc n) ops busy_deadline_us e c =
     (if en_global_inflight e = 0 then (FGo False, e, c)
      else case op_monotonic_us ops c of
             (now, c1) \<Rightarrow>
               if \<not> now < busy_deadline_us then (FGo False, e, c1)
               else case op_poll_completion ops c1 of
                      (prc, completion, c2) \<Rightarrow>
                        case op_monotonic_us ops c2 of
                          (poll_end_us, c3) \<Rightarrow>
                            if prc < 0 then (FReturn (-1), cross_slot_fail ''completion_poll_failed'' e, c3)
                            else if prc = 0
                            then busy_loop n ops busy_deadline_us (cross_slot_record_cq_empty poll_end_us e) c3
                            else case process_completion ops poll_end_us completion
                                        (cross_slot_clear_cq_empty poll_end_us e) c3 of
                                   (rc, e1, c4) \<Rightarrow> if rc \<noteq> 0 then (FReturn (-1), e1, c4) else (FGo True, e1, c4))"

text \<open>The look after the yield; the flag says whether a completion was processed.\<close>

definition last_look :: "'c NvmeCrossSlotOps \<Rightarrow> NvmeCrossSlotEngine \<Rightarrow> 'c \<Rightarrow> flow \<times> NvmeCrossSlotEngine \<times> 'c" where
  "last_look ops e c =
     (if en_global_inflight e = 0 then (FGo False, e, c)
      else case op_poll_completion ops c of
             (prc, completion, c1) \<Rightarrow>
               if prc < 0 then (FReturn (-1), cross_slot_fail ''completion_poll_failed'' e, c1)
               else if prc > 0
               then (case diag_now ops e c1 of
                       (process_start_us, c2) \<Rightarrow>
                         case process_completion ops process_start_us completion e c2 of
                           (rc, e1, c3) \<Rightarrow> if rc \<noteq> 0 then (FReturn (-1), e1, c3)
                                          else (FGo True, e1\<lparr>en_no_progress_start_us := 0\<rparr>, c3))
               else case op_monotonic_us ops c1 of (t, c2) \<Rightarrow> (FGo False, cross_slot_record_cq_empty t e, c2))"

text \<open>Sleep, then the timeout and the time budget. The sleep operation is called without a test.\<close>

definition rest_and_check ::
  "'c NvmeCrossSlotOps \<Rightarrow> u64 \<Rightarrow> u32 \<Rightarrow> NvmeCrossSlotEngine \<Rightarrow> 'c \<Rightarrow> flow \<times> NvmeCrossSlotEngine \<times> 'c" where
  "rest_and_check ops start_us budget e c =
     (let sleeps = (cc_empty_sleep_us (en_config e) \<noteq> 0)
      in if sleeps \<and> op_sleep_us ops = None then (FCrash, e, c)
         else let c1 = (if sleeps then the (op_sleep_us ops) c (cc_empty_sleep_us (en_config e)) else c);
                  e1 = (if sleeps then stats_upd (cs_no_progress_sleep_count_update (\<lambda>n. n + 1)) e else e)
              in case op_monotonic_us ops c1 of
                   (now_us, c2) \<Rightarrow>
                     if cc_no_progress_timeout_us (en_config e1) \<noteq> 0 \<and>
                        cc_no_progress_timeout_us (en_config e1) \<le> now_us - en_no_progress_start_us e1
                     then (FReturn (-1), cross_slot_fail ''no_progress_timeout'' e1, c2)
                     else (FGo (\<not> (budget \<noteq> 0 \<and> ucast budget \<le> now_us - start_us)), e1, c2))"

definition yield_once :: "'c NvmeCrossSlotOps \<Rightarrow> 'c \<Rightarrow> 'c" where
  "yield_once ops c = (case op_yield_cpu ops of None \<Rightarrow> c | Some f \<Rightarrow> f c)"

text \<open>The flag of the two phases below says whether the loop of the step goes on.\<close>

definition idle_phase ::
  "nat \<Rightarrow> 'c NvmeCrossSlotOps \<Rightarrow> u64 \<Rightarrow> u32 \<Rightarrow> NvmeCrossSlotEngine \<Rightarrow> 'c \<Rightarrow> flow \<times> NvmeCrossSlotEngine \<times> 'c" where
  "idle_phase fuel ops start_us budget e c =
     (case op_monotonic_us ops c of
        (now_us, c1) \<Rightarrow>
          (let busy_deadline_us = now_us + ucast (cc_busy_poll_us (en_config e));
               e1 = (if en_no_progress_start_us e = 0 then e\<lparr>en_no_progress_start_us := now_us\<rparr> else e)
           in case busy_loop fuel ops busy_deadline_us e1 c1 of
                (FGo True, e2, c2) \<Rightarrow> (FGo True, e2\<lparr>en_no_progress_start_us := 0\<rparr>, c2)
              | (FGo False, e2, c2) \<Rightarrow>
                  (case last_look ops e2 (yield_once ops c2) of
                     (FGo False, e3, c3) \<Rightarrow> rest_and_check ops start_us budget e3 c3
                   | r \<Rightarrow> r)
              | r \<Rightarrow> r))"

definition progress_phase ::
  "'c NvmeCrossSlotOps \<Rightarrow> u64 \<Rightarrow> u32 \<Rightarrow> NvmeCrossSlotEngine \<Rightarrow> 'c \<Rightarrow> flow \<times> NvmeCrossSlotEngine \<times> 'c" where
  "progress_phase ops start_us budget e c =
     (let e1 = e\<lparr>en_no_progress_start_us := 0\<rparr>
      in if budget = 0 then (FGo True, e1, c)
         else case op_monotonic_us ops c of
                (now, c1) \<Rightarrow> if now - start_us < ucast budget then (FGo True, e1, c1)
                             else (FGo False, e1, yield_once ops c1))"

text \<open>The work of one iteration: validation, completions, written slots, new commands.\<close>

definition work_phase ::
  "'c NvmeCrossSlotOps \<Rightarrow> u64 \<Rightarrow> NvmeCrossSlotEngine \<Rightarrow> 'c \<Rightarrow> flow \<times> NvmeCrossSlotEngine \<times> 'c" where
  "work_phase ops command_limit e0 c0 =
     (case observe_abort ops e0 c0 of
        (e, c) \<Rightarrow>
          if en_state e \<noteq> NVME_CROSS_SLOT_RUNNING then (FReturn (-1), e, c)
          else case cross_slot_validate e of
                 (rc, e1) \<Rightarrow>
                   if rc \<noteq> 0 then (FReturn (-1), e1, c)
                   else case cq_loop (unat (cc_cq_batch (en_config e1))) ops False e1 c of
                          (FGo p1, e2, c2) \<Rightarrow>
                            (case done_loop [0..<NVME_PENDING_CAPACITY] ops p1 e2 c2 of
                               (FGo p2, e3, c3) \<Rightarrow> refill_loop ops command_limit p2 e3 c3
                             | r \<Rightarrow> r)
                        | r \<Rightarrow> r)"

fun step_loop ::
  "nat \<Rightarrow> 'c NvmeCrossSlotOps \<Rightarrow> u64 \<Rightarrow> u64 \<Rightarrow> u32 \<Rightarrow> NvmeCrossSlotEngine \<Rightarrow> 'c \<Rightarrow> flow \<times> NvmeCrossSlotEngine \<times> 'c" where
  "step_loop 0 ops command_limit start_us budget e c = (FOutOfFuel, e, c)"
| "step_loop (Suc n) ops command_limit start_us budget e c =
     (if en_active_count e = 0 then (FGo False, e, c)
      else case work_phase ops command_limit e c of
             (FGo progress, e1, c1) \<Rightarrow>
               (case (if progress then progress_phase ops start_us budget e1 c1
                      else idle_phase n ops start_us budget e1 c1) of
                  (FGo True, e2, c2) \<Rightarrow> step_loop n ops command_limit start_us budget e2 c2
                | r \<Rightarrow> r)
           | r \<Rightarrow> r)"

text \<open>The fuel bounds the iterations of the loop and, in each, the busy polling.\<close>

definition nvme_cross_slot_engine_step ::
  "nat \<Rightarrow> 'c NvmeCrossSlotOps \<Rightarrow> u32 \<Rightarrow> NvmeCrossSlotEngine \<Rightarrow> 'c \<Rightarrow> flow \<times> NvmeCrossSlotEngine \<times> 'c" where
  "nvme_cross_slot_engine_step fuel ops budget_us e c =
     (if en_state e \<noteq> NVME_CROSS_SLOT_RUNNING then (FReturn (-1), e, c)
      else let command_limit = (if nr_cmd_sectors (en_rt e) \<noteq> 0 then ucast (nr_cmd_sectors (en_rt e)) else 512);
               effective_budget = (if budget_us \<noteq> 0 then budget_us else cc_writer_budget_us (en_config e))
           in case op_monotonic_us ops c of
                (start_us, c1) \<Rightarrow>
                  (let e1 = e\<lparr>en_rt := nvme_update_active_qd (en_global_inflight e) start_us (en_rt e)\<rparr>
                   in case step_loop fuel ops command_limit start_us effective_budget e1 c1 of
                        (FGo _, e2, c2) \<Rightarrow>
                          (case op_monotonic_us ops c2 of
                             (t, c3) \<Rightarrow>
                               (FReturn 0, e2\<lparr>en_rt := nvme_update_active_qd (en_global_inflight e2) t (en_rt e2)\<rparr>, c3))
                      | r \<Rightarrow> r))"

section \<open>A small configuration\<close>

text \<open>Used where a property is applied to a concrete engine or queue.\<close>

definition mock_config :: NvmeCrossSlotConfig where
  "mock_config = \<lparr>cc_max_active_slots = 4, cc_target_qd = 2, cc_cq_batch = 4, cc_writer_budget_us = 300, cc_busy_poll_us = 0,
     cc_empty_sleep_us = 20, cc_no_progress_timeout_us = 1000\<rparr>"

definition mock_runtime :: NvmeRuntime where
  "mock_runtime = \<lparr>nr_dma_desc_count = 8, nr_next_cmd_id = 1, nr_max_lba = 0, nr_cmd_sectors = 512, nr_qd_effective = 2,
     nr_cq_pop_batch = 4, nr_busy_poll_us = 0, nr_poll_sleep_us = 20, nr_timeout_us = 1000, nr_diag_timing = False,
     nr_cmd_count = 0, nr_cmd_bytes_total = 0, nr_write_bytes_done = 0, nr_payload_bytes_done = 0,
     nr_last_completion_us = 0, nr_latency_total_us = 0, nr_latency_sample_count = 0, nr_latency_min_us = 0,
     nr_latency_max_us = 0, nr_active_qd_max = 0, nr_active_qd_current = 0, nr_active_qd_integral_us = 0,
     nr_active_qd_observed_us = 0, nr_active_qd_last_update_us = 0, nr_active_qd_event_sum = 0,
     nr_active_qd_event_samples = 0, nr_active_qd_event_min = 0, nr_primary_error = STORAGE_ERR_NONE,
     nr_secondary_error = STORAGE_ERR_NONE, nr_last_error = [], nr_ownership_unresolved = False\<rparr>"

end
