(* ===== verification/Nvme_Jobs.thy ===== *)
theory Nvme_Jobs
  imports Nvme_Engine
begin

text \<open>
  What the cross-slot engine promises, as an abstract machine over the calls it makes, and the proof that
  the engine of \<open>Nvme_Engine\<close> implements it. The abstract machine knows one job per slot: its request, the
  next sector to submit and the commands the device still has. A slot is reported as written only when all
  its sectors were handed to the device in order and every command came back without an error.
\<close>

section \<open>The abstract machine\<close>

record slot_job =
  jb_req :: NvmeWriteSlotReq
  jb_next :: u64
  jb_open :: "u16 set"
  jb_failed :: bool

type_synonym jobs = "u32 \<rightharpoonup> slot_job"

datatype nvme_event =
  EvAdd NvmeWriteSlotReq
| EvSubmit u16 u64 u32 u64 int
| EvPoll int NvmeCompletion
| EvDone NvmeWriteSlotReq int
| EvReset int
| EvDiscard

definition cid_open :: "jobs \<Rightarrow> u16 \<Rightarrow> bool" where
  "cid_open \<sigma> cid \<longleftrightarrow> (\<exists>s j. \<sigma> s = Some j \<and> cid \<in> jb_open j)"

definition new_job :: "NvmeWriteSlotReq \<Rightarrow> slot_job" where
  "new_job r = \<lparr>jb_req = r, jb_next = 0, jb_open = {}, jb_failed = False\<rparr>"

definition owned :: "int \<Rightarrow> bool" where
  "owned rc \<longleftrightarrow> rc = NVME_SUBMIT_ACCEPTED \<or> rc = NVME_SUBMIT_ACCEPTANCE_UNKNOWN"

inductive job_step :: "jobs \<Rightarrow> nvme_event \<Rightarrow> jobs \<Rightarrow> bool" where
  job_add: "\<sigma> (wr_slot r) = None \<Longrightarrow> job_step \<sigma> (EvAdd r) (\<sigma>(wr_slot r \<mapsto> new_job r))"
| job_submit:
    "\<sigma> s = Some j \<Longrightarrow> \<not> cid_open \<sigma> cid \<Longrightarrow> n \<noteq> 0 \<Longrightarrow>
     unat (jb_next j) + unat n \<le> unat (wr_sectors (jb_req j)) \<Longrightarrow>
     lba = wr_start_lba (jb_req j) + jb_next j \<Longrightarrow>
     ddr = wr_hw_addr (jb_req j) + jb_next j * NVME_SECTOR_BYTES \<Longrightarrow> owned rc \<Longrightarrow>
     job_step \<sigma> (EvSubmit cid lba n ddr rc)
       (\<sigma>(s \<mapsto> j\<lparr>jb_next := jb_next j + ucast n, jb_open := insert cid (jb_open j)\<rparr>))"
| job_refused: "\<not> owned rc \<Longrightarrow> job_step \<sigma> (EvSubmit cid lba n ddr rc) \<sigma>"
| job_completed:
    "0 < rc \<Longrightarrow> \<sigma> s = Some j \<Longrightarrow> cp_cid cpl \<in> jb_open j \<Longrightarrow>
     job_step \<sigma> (EvPoll rc cpl)
       (\<sigma>(s \<mapsto> j\<lparr>jb_open := jb_open j - {cp_cid cpl}, jb_failed := jb_failed j \<or> cp_error cpl\<rparr>))"
| job_polled: "\<not> (0 < rc \<and> cid_open \<sigma> (cp_cid cpl)) \<Longrightarrow> job_step \<sigma> (EvPoll rc cpl) \<sigma>"
| job_done:
    "\<sigma> (wr_slot r) = Some j \<Longrightarrow> jb_req j = r \<Longrightarrow> jb_next j = wr_sectors r \<Longrightarrow> jb_open j = {} \<Longrightarrow> \<not> jb_failed j \<Longrightarrow>
     job_step \<sigma> (EvDone r rc) (if rc = 0 then \<sigma>(wr_slot r := None) else \<sigma>)"
| job_reset: "job_step \<sigma> (EvReset rc) (if rc = 0 then Map.empty else \<sigma>)"
| job_discard: "(\<And>cid. \<not> cid_open \<sigma> cid) \<Longrightarrow> job_step \<sigma> EvDiscard Map.empty"

inductive job_trace :: "nvme_event list \<Rightarrow> jobs \<Rightarrow> bool" where
  trace_start: "job_trace [] Map.empty"
| trace_step: "job_trace l \<sigma> \<Longrightarrow> job_step \<sigma> ev \<sigma>' \<Longrightarrow> job_trace (l @ [ev]) \<sigma>'"

section \<open>Recording the calls\<close>

definition logged :: "'c NvmeCrossSlotOps \<Rightarrow> ('c \<times> nvme_event list) NvmeCrossSlotOps" where
  "logged ops =
     \<lparr>op_submit = (\<lambda>(c, l) cid lba n ddr. case op_submit ops c cid lba n ddr of
                       (rc, c1) \<Rightarrow> (rc, c1, l @ [EvSubmit cid lba n ddr rc])),
      op_poll_completion = (\<lambda>(c, l). case op_poll_completion ops c of
                       (rc, cpl, c1) \<Rightarrow> (rc, cpl, c1, l @ [EvPoll rc cpl])),
      op_monotonic_us = (\<lambda>(c, l). case op_monotonic_us ops c of (t, c1) \<Rightarrow> (t, c1, l)),
      op_sleep_us = map_option (\<lambda>f (c, l) us. (f c us, l)) (op_sleep_us ops),
      op_yield_cpu = map_option (\<lambda>f (c, l). (f c, l)) (op_yield_cpu ops),
      op_reset = map_option (\<lambda>f (c, l). case f c of (rc, c1) \<Rightarrow> (rc, c1, l @ [EvReset rc])) (op_reset ops),
      op_done = Some (\<lambda>(c, l) r. case (case op_done ops of None \<Rightarrow> (0, c) | Some f \<Rightarrow> f c r) of
                        (rc, c1) \<Rightarrow> (rc, c1, l @ [EvDone r rc])),
      op_producer = (\<lambda>(c, l). case op_producer ops c of (a, c1) \<Rightarrow> (a, c1, l))\<rparr>"

text \<open>The calls the writer makes. A request counts as added when the engine says so; a drained engine
  without a reset has discarded its finished jobs.\<close>

datatype engine_call = CallAdd NvmeWriteSlotReq | CallStep nat u32 | CallAbort string | CallDrain nat u64

definition drain_events :: "NvmeCrossSlotEngine \<Rightarrow> NvmeCrossSlotEngine \<Rightarrow> nvme_event list" where
  "drain_events e e' =
     (if en_state e \<noteq> NVME_CROSS_SLOT_QUIESCED \<and> en_state e' = NVME_CROSS_SLOT_QUIESCED then [EvDiscard] else [])"

fun do_call ::
  "('c \<times> nvme_event list) NvmeCrossSlotOps \<Rightarrow> engine_call \<Rightarrow> NvmeCrossSlotEngine \<Rightarrow> 'c \<times> nvme_event list
     \<Rightarrow> NvmeCrossSlotEngine \<times> 'c \<times> nvme_event list" where
  "do_call ops (CallAdd r) e (c, l) =
     (case nvme_cross_slot_engine_add r e of (rc, e1) \<Rightarrow> (e1, c, if rc = 0 then l @ [EvAdd r] else l))"
| "do_call ops (CallStep fuel budget) e (c, l) =
     (case nvme_cross_slot_engine_step fuel ops budget e (c, l) of (f, e1, c1) \<Rightarrow> (e1, c1))"
| "do_call ops (CallAbort reason) e (c, l) = (nvme_cross_slot_engine_request_abort reason e, c, l)"
| "do_call ops (CallDrain fuel deadline) e (c, l) =
     (case nvme_cross_slot_engine_drain_abort fuel ops deadline e (c, l) of
        (f, e1, c1, l1) \<Rightarrow> (e1, c1, l1 @ drain_events e e1))"

fun engine_run ::
  "('c \<times> nvme_event list) NvmeCrossSlotOps \<Rightarrow> engine_call list \<Rightarrow> NvmeCrossSlotEngine \<Rightarrow> 'c \<times> nvme_event list
     \<Rightarrow> NvmeCrossSlotEngine \<times> 'c \<times> nvme_event list" where
  "engine_run ops [] e cl = (e, cl)"
| "engine_run ops (x # xs) e cl = (case do_call ops x e cl of (e1, cl1) \<Rightarrow> engine_run ops xs e1 cl1)"

section \<open>Invariant of the engine\<close>

abbreviation CAP :: nat where "CAP \<equiv> NVME_PENDING_CAPACITY"

definition cmds_of :: "NvmePendingCmd list \<Rightarrow> u32 \<Rightarrow> NvmePendingCmd list" where
  "cmds_of ps s = filter (\<lambda>p. pc_valid p \<and> pc_slot p = s) ps"

definition cids_of :: "NvmePendingCmd list \<Rightarrow> u32 \<Rightarrow> u16 set" where
  "cids_of ps s = pc_cid ` set (cmds_of ps s)"

text \<open>The part of the engine the invariant is about.\<close>

record engine_core =
  co_pending :: "NvmePendingCmd list"
  co_contexts :: "NvmeSlotWriteContext list"
  co_reqs :: "NvmeWriteSlotReq list"
  co_active :: "bool list"
  co_active_count :: u32
  co_inflight :: u32
  co_seen :: "u16 \<Rightarrow> bool"
  co_slots :: u32
  co_max_active :: u32

definition core :: "NvmeCrossSlotEngine \<Rightarrow> engine_core" where
  "core e = \<lparr>co_pending = en_pending e, co_contexts = en_contexts e, co_reqs = en_reqs e, co_active = en_active e,
     co_active_count = en_active_count e, co_inflight = en_global_inflight e, co_seen = en_completed_cid_seen e,
     co_slots = nr_dma_desc_count (en_rt e), co_max_active = cc_max_active_slots (en_config e)\<rparr>"

definition context_ok :: "u32 \<Rightarrow> NvmePendingCmd list \<Rightarrow> NvmeWriteSlotReq \<Rightarrow> NvmeSlotWriteContext \<Rightarrow> bool" where
  "context_ok slots ps r c \<longleftrightarrow>
     wc_slot c = wr_slot r \<and> wc_slot c < slots \<and> wc_base_lba c = wr_start_lba r \<and>
     wc_base_ddr_addr c = wr_hw_addr r \<and> wc_total_sectors c = wr_sectors r \<and> unat (wr_sectors r) < 2 ^ 32 \<and>
     wc_next_submit_sector c \<le> wc_total_sectors c \<and>
     unat (wc_submitted_cmds c) = unat (wc_completed_cmds c) + unat (wc_failed_cmds c) + unat (wc_inflight_cmds c) \<and>
     unat (wc_submitted_cmds c) \<le> unat (wc_next_submit_sector c) \<and>
     unat (wc_inflight_cmds c) = length (cmds_of ps (wc_slot c))"

definition core_inv :: "engine_core \<Rightarrow> bool" where
  "core_inv k \<longleftrightarrow>
     length (co_pending k) = CAP \<and> length (co_contexts k) = CAP \<and> length (co_reqs k) = CAP \<and> length (co_active k) = CAP \<and>
     co_slots k \<noteq> 0 \<and>
     (\<forall>i<CAP. if co_active k ! i then context_ok (co_slots k) (co_pending k) (co_reqs k ! i) (co_contexts k ! i)
             else co_contexts k ! i = context_free) \<and>
     (\<forall>i<CAP. \<forall>j<CAP. co_active k ! i \<and> co_active k ! j \<and> wc_slot (co_contexts k ! i) = wc_slot (co_contexts k ! j) \<longrightarrow> i = j) \<and>
     (\<forall>i<CAP. \<forall>j<CAP. pc_valid (co_pending k ! i) \<and> pc_valid (co_pending k ! j) \<and>
        pc_cid (co_pending k ! i) = pc_cid (co_pending k ! j) \<longrightarrow> i = j) \<and>
     (\<forall>i<CAP. pc_valid (co_pending k ! i) \<longrightarrow> \<not> co_seen k (pc_cid (co_pending k ! i)) \<and>
        (\<exists>j<CAP. co_active k ! j \<and> wc_slot (co_contexts k ! j) = pc_slot (co_pending k ! i))) \<and>
     unat (co_inflight k) = length (filter pc_valid (co_pending k)) \<and>
     unat (co_active_count k) = length (filter id (co_active k)) \<and> co_active_count k \<le> co_max_active k"

text \<open>The jobs are the active contexts.\<close>

definition jobs_match :: "jobs \<Rightarrow> engine_core \<Rightarrow> bool" where
  "jobs_match \<sigma> k \<longleftrightarrow>
     (\<forall>i<CAP. co_active k ! i \<longrightarrow>
        (\<exists>f. \<sigma> (wc_slot (co_contexts k ! i)) =
           Some \<lparr>jb_req = co_reqs k ! i, jb_next = wc_next_submit_sector (co_contexts k ! i),
                 jb_open = cids_of (co_pending k) (wc_slot (co_contexts k ! i)), jb_failed = f\<rparr>)) \<and>
     (\<forall>s j. \<sigma> s = Some j \<longrightarrow> (\<exists>i<CAP. co_active k ! i \<and> wc_slot (co_contexts k ! i) = s))"

definition none_failed :: "jobs \<Rightarrow> bool" where
  "none_failed \<sigma> \<longleftrightarrow> (\<forall>s j. \<sigma> s = Some j \<longrightarrow> \<not> jb_failed j)"

definition refines :: "NvmeCrossSlotEngine \<Rightarrow> nvme_event list \<Rightarrow> bool" where
  "refines e l \<longleftrightarrow>
     (\<exists>\<sigma>. job_trace l \<sigma> \<and> core_inv (core e) \<and> jobs_match \<sigma> (core e) \<and>
          (en_state e = NVME_CROSS_SLOT_RUNNING \<longrightarrow> none_failed \<sigma>))"

section \<open>Lists\<close>

lemma first_index_Some:
  "first_index P xs = Some i \<Longrightarrow> i < length xs \<and> P (xs ! i) \<and> (\<forall>j<i. \<not> P (xs ! j))"
proof (induction xs arbitrary: i)
  case (Cons x xs)
  then show ?case by (cases i) (auto simp: nth_Cons split: if_splits nat.splits)
qed simp

lemma first_index_None: "first_index P xs = None \<longleftrightarrow> (\<forall>x\<in>set xs. \<not> P x)"
  by (induction xs) auto

lemma first_index_unique:
  assumes "i < length xs" "P (xs ! i)" "\<And>j. j < length xs \<Longrightarrow> P (xs ! j) \<Longrightarrow> j = i"
  shows "first_index P xs = Some i"
proof (cases "first_index P xs")
  case None
  then show ?thesis using assms(1,2) by (auto simp: first_index_None)
next
  case (Some j)
  with first_index_Some [OF Some] assms(3) show ?thesis by auto
qed

lemma length_filter_update:
  assumes "k < length xs"
  shows "length (filter P (xs[k := y])) + (if P (xs ! k) then 1 else 0) = length (filter P xs) + (if P y then 1 else 0)"
proof -
  have "length (filter P xs) = length (filter P (take k xs)) + (if P (xs ! k) then 1 else 0) + length (filter P (drop (Suc k) xs))"
    using assms by (subst id_take_nth_drop [OF assms]) simp
  then show ?thesis using assms by (simp add: upd_conv_take_nth_drop)
qed

lemma length_filter_nth:
  "length (filter (\<lambda>i. P (xs ! i)) [0..<length xs]) = length (filter P xs)"
proof -
  have "filter P xs = map ((!) xs) (filter (P \<circ> (!) xs) [0..<length xs])"
    by (subst (1) map_nth [symmetric]) (simp only: filter_map)
  then show ?thesis by (simp add: o_def)
qed

lemma filter_ge_one: "i < length xs \<Longrightarrow> P (xs ! i) \<Longrightarrow> 0 < length (filter P xs)"
  by (metis filter_empty_conv length_greater_0_conv nth_mem)

lemma cids_of_iff:
  "cid \<in> cids_of ps s \<longleftrightarrow> (\<exists>i<length ps. pc_valid (ps ! i) \<and> pc_slot (ps ! i) = s \<and> pc_cid (ps ! i) = cid)"
  by (auto simp: cids_of_def cmds_of_def in_set_conv_nth)

lemma cmds_of_none: "length (cmds_of ps s) = 0 \<longleftrightarrow> cids_of ps s = {}"
  by (simp add: cids_of_def)

section \<open>What leaves the core alone\<close>

lemma set_error_slots [simp]: "nr_dma_desc_count (nvme_set_error code reason rt) = nr_dma_desc_count rt"
  by (simp add: nvme_set_error_def Let_def split: prod.split)

lemma set_last_error_slots [simp]: "nr_dma_desc_count (nvme_set_last_error reason rt) = nr_dma_desc_count rt"
  by (simp add: nvme_set_last_error_def)

lemma qd_event_slots [simp]: "nr_dma_desc_count (nvme_record_active_qd_event n rt) = nr_dma_desc_count rt"
  by (simp add: nvme_record_active_qd_event_def Let_def)

lemma update_qd_slots [simp]: "nr_dma_desc_count (nvme_update_active_qd n t rt) = nr_dma_desc_count rt"
  by (simp add: nvme_update_active_qd_def Let_def)

lemma write_completion_slots [simp]: "nr_dma_desc_count (nvme_record_write_completion p t rt) = nr_dma_desc_count rt"
  by (simp add: nvme_record_write_completion_def Let_def)

lemma core_fail_code [simp]: "core (cross_slot_fail_code code reason e) = core e"
  by (simp add: cross_slot_fail_code_def core_def Let_def)

lemma core_fail [simp]: "core (cross_slot_fail reason e) = core e"
  by (simp add: cross_slot_fail_def)

lemma fail_code_state [simp]: "en_state (cross_slot_fail_code code reason e) \<noteq> NVME_CROSS_SLOT_RUNNING"
  by (simp add: cross_slot_fail_code_def Let_def)

lemma fail_state [simp]: "en_state (cross_slot_fail reason e) \<noteq> NVME_CROSS_SLOT_RUNNING"
  by (simp add: cross_slot_fail_def)

lemma core_request_abort [simp]: "core (nvme_cross_slot_engine_request_abort reason e) = core e"
  by (simp add: nvme_cross_slot_engine_request_abort_def core_def Let_def)

lemma core_cq_empty [simp]:
  "core (cross_slot_record_cq_empty t e) = core e" "core (cross_slot_clear_cq_empty t e) = core e"
  "en_state (cross_slot_record_cq_empty t e) = en_state e" "en_state (cross_slot_clear_cq_empty t e) = en_state e"
  by (simp_all add: cross_slot_record_cq_empty_def cross_slot_clear_cq_empty_def core_def Let_def)

lemma core_sq_full [simp]:
  "core (record_sq_full t e) = core e" "core (clear_sq_full t e) = core e"
  "en_state (record_sq_full t e) = en_state e" "en_state (clear_sq_full t e) = en_state e"
  by (simp_all add: record_sq_full_def clear_sq_full_def core_def Let_def)

lemma core_fields [simp]:
  "core (e\<lparr>en_stats := s\<rparr>) = core e" "core (e\<lparr>en_state := st\<rparr>) = core e"
  "core (e\<lparr>en_no_progress_start_us := t\<rparr>) = core e" "core (e\<lparr>en_rr_index := rr\<rparr>) = core e"
  "core (e\<lparr>en_last_error := err\<rparr>) = core e"
  "nr_dma_desc_count rt = nr_dma_desc_count (en_rt e) \<Longrightarrow> core (e\<lparr>en_rt := rt\<rparr>) = core e"
  by (simp_all add: core_def)

lemma refinesI:
  "job_trace l \<sigma> \<Longrightarrow> core_inv (core e) \<Longrightarrow> jobs_match \<sigma> (core e) \<Longrightarrow>
     (en_state e = NVME_CROSS_SLOT_RUNNING \<Longrightarrow> none_failed \<sigma>) \<Longrightarrow> refines e l"
  by (auto simp: refines_def)

lemma refinesE:
  assumes "refines e l"
  obtains \<sigma> where "job_trace l \<sigma>" "core_inv (core e)" "jobs_match \<sigma> (core e)"
    "en_state e = NVME_CROSS_SLOT_RUNNING \<Longrightarrow> none_failed \<sigma>"
  using assms by (auto simp: refines_def)

lemma refines_core:
  "refines e l \<Longrightarrow> core e' = core e \<Longrightarrow> (en_state e' = NVME_CROSS_SLOT_RUNNING \<Longrightarrow> en_state e = NVME_CROSS_SLOT_RUNNING) \<Longrightarrow>
     refines e' l"
  by (auto simp: refines_def)

section \<open>The consistency check succeeds\<close>

lemma core_fields_of [simp]:
  "co_pending (core e) = en_pending e" "co_contexts (core e) = en_contexts e" "co_reqs (core e) = en_reqs e"
  "co_active (core e) = en_active e" "co_active_count (core e) = en_active_count e"
  "co_inflight (core e) = en_global_inflight e" "co_seen (core e) = en_completed_cid_seen e"
  "co_slots (core e) = nr_dma_desc_count (en_rt e)" "co_max_active (core e) = cc_max_active_slots (en_config e)"
  by (simp_all add: core_def)

lemma core_invD:
  assumes "core_inv k"
  shows "length (co_pending k) = CAP" "length (co_contexts k) = CAP" "length (co_reqs k) = CAP" "length (co_active k) = CAP"
    "co_slots k \<noteq> 0" "unat (co_inflight k) = length (filter pc_valid (co_pending k))"
    "unat (co_active_count k) = length (filter id (co_active k))" "co_active_count k \<le> co_max_active k"
  using assms by (simp_all add: core_inv_def)

lemma core_invI:
  assumes "length (co_pending k) = CAP" "length (co_contexts k) = CAP" "length (co_reqs k) = CAP" "length (co_active k) = CAP"
    "co_slots k \<noteq> 0"
    "\<And>i. i < CAP \<Longrightarrow> co_active k ! i \<Longrightarrow> context_ok (co_slots k) (co_pending k) (co_reqs k ! i) (co_contexts k ! i)"
    "\<And>i. i < CAP \<Longrightarrow> \<not> co_active k ! i \<Longrightarrow> co_contexts k ! i = context_free"
    "\<And>i j. i < CAP \<Longrightarrow> j < CAP \<Longrightarrow> co_active k ! i \<Longrightarrow> co_active k ! j \<Longrightarrow>
       wc_slot (co_contexts k ! i) = wc_slot (co_contexts k ! j) \<Longrightarrow> i = j"
    "\<And>i j. i < CAP \<Longrightarrow> j < CAP \<Longrightarrow> pc_valid (co_pending k ! i) \<Longrightarrow> pc_valid (co_pending k ! j) \<Longrightarrow>
       pc_cid (co_pending k ! i) = pc_cid (co_pending k ! j) \<Longrightarrow> i = j"
    "\<And>i. i < CAP \<Longrightarrow> pc_valid (co_pending k ! i) \<Longrightarrow> \<not> co_seen k (pc_cid (co_pending k ! i)) \<and>
       (\<exists>j<CAP. co_active k ! j \<and> wc_slot (co_contexts k ! j) = pc_slot (co_pending k ! i))"
    "unat (co_inflight k) = length (filter pc_valid (co_pending k))"
    "unat (co_active_count k) = length (filter id (co_active k))" "co_active_count k \<le> co_max_active k"
  shows "core_inv k"
  unfolding core_inv_def using assms by auto

lemma core_inv_active:
  "core_inv k \<Longrightarrow> i < CAP \<Longrightarrow> co_active k ! i \<Longrightarrow>
     context_ok (co_slots k) (co_pending k) (co_reqs k ! i) (co_contexts k ! i)"
  by (auto simp: core_inv_def)

lemma core_inv_free: "core_inv k \<Longrightarrow> i < CAP \<Longrightarrow> \<not> co_active k ! i \<Longrightarrow> co_contexts k ! i = context_free"
  by (auto simp: core_inv_def)

lemma core_inv_slot_inj:
  "core_inv k \<Longrightarrow> i < CAP \<Longrightarrow> j < CAP \<Longrightarrow> co_active k ! i \<Longrightarrow> co_active k ! j \<Longrightarrow>
     wc_slot (co_contexts k ! i) = wc_slot (co_contexts k ! j) \<Longrightarrow> i = j"
  unfolding core_inv_def by blast

lemma core_inv_cid_inj:
  "core_inv k \<Longrightarrow> i < CAP \<Longrightarrow> j < CAP \<Longrightarrow> pc_valid (co_pending k ! i) \<Longrightarrow> pc_valid (co_pending k ! j) \<Longrightarrow>
     pc_cid (co_pending k ! i) = pc_cid (co_pending k ! j) \<Longrightarrow> i = j"
  unfolding core_inv_def by blast

lemma core_inv_owner:
  assumes "core_inv k" "i < CAP" "pc_valid (co_pending k ! i)"
  obtains j where "j < CAP" "co_active k ! j" "wc_slot (co_contexts k ! j) = pc_slot (co_pending k ! i)"
    "\<not> co_seen k (pc_cid (co_pending k ! i))"
  using assms unfolding core_inv_def by blast

text \<open>Counting the commands slot by slot counts all of them.\<close>

lemma sum_by_owner:
  assumes "distinct (map g is)" "\<forall>p\<in>set ps. V p \<longrightarrow> h p \<in> g ` set is"
  shows "(\<Sum>i\<leftarrow>is. length (filter (\<lambda>p. V p \<and> h p = g i) ps)) = length (filter V ps)"
  using assms(2)
proof (induction ps)
  case (Cons p ps)
  have one: "(\<Sum>i\<leftarrow>is. if h p = g i then 1 else (0::nat)) = (if h p \<in> g ` set is then 1 else 0)"
    using assms(1) by (induction "is") auto
  have "(\<Sum>i\<leftarrow>is. length (filter (\<lambda>p. V p \<and> h p = g i) (p # ps))) =
        (\<Sum>i\<leftarrow>is. (if V p \<and> h p = g i then 1 else 0) + length (filter (\<lambda>p. V p \<and> h p = g i) ps))"
    by (intro arg_cong [of _ _ sum_list] map_cong) auto
  also have "\<dots> = (if V p then 1 else 0) + length (filter V ps)"
    using Cons one by (cases "V p") (simp_all add: sum_list_addf)
  finally show ?case by simp
qed simp

lemma owner_index_iff:
  assumes "core_inv (core e)" "i < CAP"
  shows "owner_index e p = Some i \<longleftrightarrow> en_active e ! i \<and> wc_slot (en_contexts e ! i) = pc_slot p"
proof -
  let ?z = "zip (en_active e) (en_contexts e)" and ?P = "\<lambda>(a, c). a \<and> wc_slot c = pc_slot p"
  have len: "length (en_active e) = CAP" "length (en_contexts e) = CAP" using core_invD [OF assms(1)] by simp_all
  note uniq = core_inv_slot_inj [OF assms(1), simplified]
  show ?thesis
  proof
    assume "owner_index e p = Some i"
    then show "en_active e ! i \<and> wc_slot (en_contexts e ! i) = pc_slot p"
      using first_index_Some [of ?P ?z i] len by (auto simp: owner_index_def)
  next
    assume a: "en_active e ! i \<and> wc_slot (en_contexts e ! i) = pc_slot p"
    show "owner_index e p = Some i" unfolding owner_index_def
      by (rule first_index_unique) (use a len assms(2) in \<open>auto intro!: uniq\<close>)
  qed
qed

lemma of_nat_sum_list_map: "of_nat (\<Sum>i\<leftarrow>is. f i) = (\<Sum>i\<leftarrow>is. (of_nat (f i) :: u32))"
  by (induction "is") simp_all

lemma of_unat: "unat x = n \<Longrightarrow> of_nat n = x" by auto

lemma context_ok_valid:
  assumes "core_inv (core e)" "i < CAP" "en_active e ! i"
  shows "context_valid e i"
proof -
  let ?c = "en_contexts e ! i"
  have ok: "context_ok (nr_dma_desc_count (en_rt e)) (en_pending e) (en_reqs e ! i) ?c"
    using core_inv_active [OF assms(1,2)] assms(3) by simp
  then have sum: "unat (wc_submitted_cmds ?c) =
      unat (wc_completed_cmds ?c) + unat (wc_failed_cmds ?c) + unat (wc_inflight_cmds ?c)"
    by (simp add: context_ok_def)
  then have "unat (wc_completed_cmds ?c + wc_failed_cmds ?c + wc_inflight_cmds ?c) = unat (wc_submitted_cmds ?c)"
    using unat_u32_less [of "wc_submitted_cmds ?c"] by (simp add: unat_word_ariths del: unat_u32_less)
  then have "wc_submitted_cmds ?c = wc_completed_cmds ?c + wc_failed_cmds ?c + wc_inflight_cmds ?c" by simp
  moreover have "wc_completed_cmds ?c \<le> wc_submitted_cmds ?c" by (simp add: word_le_nat_alt sum)
  ultimately show ?thesis using ok
    by (auto simp: context_valid_def context_ok_def Let_def not_less not_le)
qed

lemma length_active_indices:
  "core_inv (core e) \<Longrightarrow> length (active_indices e) = unat (en_active_count e)"
  using length_filter_nth [of id "en_active e"] core_invD(4,7) [of "core e"] by (simp add: active_indices_def)

lemma length_valid_indices:
  "core_inv (core e) \<Longrightarrow> length (valid_indices e) = unat (en_global_inflight e)"
  using length_filter_nth [of pc_valid "en_pending e"] core_invD(1,6) [of "core e"] by (simp add: valid_indices_def)

lemma pending_ok_valid:
  assumes inv: "core_inv (core e)" and i: "i < CAP" "pc_valid (en_pending e ! i)"
  shows "pending_valid e i"
proof -
  obtain j where j: "j < CAP" "en_active e ! j" "wc_slot (en_contexts e ! j) = pc_slot (en_pending e ! i)"
    and seen: "\<not> en_completed_cid_seen e (pc_cid (en_pending e ! i))"
    using core_inv_owner [OF inv i(1)] i(2) by auto
  have "owner_index e (en_pending e ! i) = Some j" using owner_index_iff [OF inv j(1)] j by simp
  moreover have "\<not> (pc_valid q \<and> pc_cid q = pc_cid (en_pending e ! i))" if q: "q \<in> set (take i (en_pending e))" for q
  proof -
    obtain m where m: "m < i" "q = en_pending e ! m" using q core_invD(1) [OF inv] i by (auto simp: in_set_conv_nth)
    then have "m < CAP" "m \<noteq> i" using i by simp_all
    with core_inv_cid_inj [OF inv, of m i] m i show ?thesis by auto
  qed
  ultimately show ?thesis using seen by (auto simp: pending_valid_def Let_def list_all_iff)
qed

lemma owned_count:
  assumes inv: "core_inv (core e)" and i: "i < CAP" "en_active e ! i"
  shows "length (filter (\<lambda>j. owner_index e (en_pending e ! j) = Some i) (valid_indices e)) =
           unat (wc_inflight_cmds (en_contexts e ! i))"
proof -
  let ?P = "\<lambda>p. pc_valid p \<and> pc_slot p = wc_slot (en_contexts e ! i)"
  have len: "length (en_pending e) = CAP" using core_invD(1) [OF inv] by simp
  have "filter (\<lambda>j. owner_index e (en_pending e ! j) = Some i) (valid_indices e) =
      filter (\<lambda>j. ?P (en_pending e ! j)) [0..<length (en_pending e)]"
    unfolding valid_indices_def filter_filter len
    by (intro filter_cong refl) (auto simp: owner_index_iff [OF inv i(1)] i(2))
  then have "length (filter (\<lambda>j. owner_index e (en_pending e ! j) = Some i) (valid_indices e)) =
      length (cmds_of (en_pending e) (wc_slot (en_contexts e ! i)))"
    using length_filter_nth [of ?P "en_pending e"] by (simp only: cmds_of_def)
  also have "\<dots> = unat (wc_inflight_cmds (en_contexts e ! i))"
    using core_inv_active [OF inv i(1)] i(2) by (simp add: context_ok_def)
  finally show ?thesis .
qed

lemma inflight_total:
  assumes inv: "core_inv (core e)"
  shows "sum_list (map (\<lambda>i. wc_inflight_cmds (en_contexts e ! i)) (active_indices e)) = en_global_inflight e"
proof -
  let ?slot = "\<lambda>i. wc_slot (en_contexts e ! i)" and ?n = "\<lambda>i. length (cmds_of (en_pending e) (wc_slot (en_contexts e ! i)))"
  have len: "length (en_pending e) = CAP" using core_invD(1) [OF inv] by simp
  have acts: "\<And>i. i \<in> set (active_indices e) \<longleftrightarrow> i < CAP \<and> en_active e ! i" by (auto simp: active_indices_def)
  have "distinct (active_indices e)" by (simp add: active_indices_def)
  then have "distinct (map ?slot (active_indices e))"
    using core_inv_slot_inj [OF inv] by (auto simp: distinct_map acts intro!: inj_onI)
  moreover have "\<forall>p\<in>set (en_pending e). pc_valid p \<longrightarrow> pc_slot p \<in> ?slot ` set (active_indices e)"
  proof (intro ballI impI)
    fix p assume "p \<in> set (en_pending e)" "pc_valid p"
    then obtain i where "i < CAP" "p = en_pending e ! i" "pc_valid (en_pending e ! i)" using len by (auto simp: in_set_conv_nth)
    moreover from this obtain j where "j < CAP" "en_active e ! j" "?slot j = pc_slot (en_pending e ! i)"
      using core_inv_owner [OF inv, of i] by auto
    ultimately show "pc_slot p \<in> ?slot ` set (active_indices e)" using acts by force
  qed
  ultimately have all: "(\<Sum>i\<leftarrow>active_indices e. ?n i) = unat (en_global_inflight e)"
    using sum_by_owner [of ?slot "active_indices e" "en_pending e" pc_valid pc_slot] core_invD(6) [OF inv]
    by (simp add: cmds_of_def)
  have "map (\<lambda>i. wc_inflight_cmds (en_contexts e ! i)) (active_indices e) = map (\<lambda>i. of_nat (?n i)) (active_indices e)"
    using core_inv_active [OF inv] by (auto simp: acts context_ok_def intro!: of_unat [symmetric])
  then have "sum_list (map (\<lambda>i. wc_inflight_cmds (en_contexts e ! i)) (active_indices e)) =
      of_nat (\<Sum>i\<leftarrow>active_indices e. ?n i)"
    by (simp only: of_nat_sum_list_map)
  then show ?thesis by (simp only: all) simp
qed

lemma validate_none:
  assumes inv: "core_inv (core e)"
  shows "validate_reason e = None"
proof -
  have acts: "\<And>i. i \<in> set (active_indices e) \<Longrightarrow> i < CAP \<and> en_active e ! i" by (simp add: active_indices_def)
  have vals: "\<And>i. i \<in> set (valid_indices e) \<Longrightarrow> i < CAP \<and> pc_valid (en_pending e ! i)" by (simp add: valid_indices_def)
  have "en_active_count e \<le> cc_max_active_slots (en_config e)" using core_invD(8) [OF inv] by simp
  moreover have "list_all (context_valid e) (active_indices e)" "list_all (pending_valid e) (valid_indices e)"
    using acts vals context_ok_valid [OF inv] pending_ok_valid [OF inv] by (auto simp: list_all_iff)
  moreover have "list_all (\<lambda>i. of_nat (length (filter (\<lambda>j. owner_index e (en_pending e ! j) = Some i) (valid_indices e))) =
      wc_inflight_cmds (en_contexts e ! i)) (active_indices e)"
    using acts owned_count [OF inv] by (auto simp: list_all_iff)
  ultimately show ?thesis
    using length_active_indices [OF inv] length_valid_indices [OF inv] inflight_total [OF inv]
    by (simp add: validate_reason_def Let_def not_less)
qed

lemma validate_ok: "core_inv (core e) \<Longrightarrow> cross_slot_validate e = (0, e)"
  by (simp add: cross_slot_validate_def validate_none)

section \<open>Transitions of the core\<close>

lemma context_free_slot [simp]: "wc_slot context_free = UINT32_MAX"
  by (simp add: context_free_def)

lemma context_ok_slot: "context_ok slots ps r c \<Longrightarrow> wc_slot c \<noteq> UINT32_MAX"
  unfolding context_ok_def by (metis leD u32_le_max)

lemma context_ok_pending:
  "context_ok slots ps r c \<Longrightarrow> length (cmds_of ps' (wc_slot c)) = length (cmds_of ps (wc_slot c)) \<Longrightarrow> context_ok slots ps' r c"
  by (auto simp: context_ok_def)

lemma cmds_of_update:
  "k < length ps \<Longrightarrow>
     length (cmds_of (ps[k := p]) s) + (if pc_valid (ps ! k) \<and> pc_slot (ps ! k) = s then 1 else 0) =
     length (cmds_of ps s) + (if pc_valid p \<and> pc_slot p = s then 1 else 0)"
  unfolding cmds_of_def using length_filter_update [of k ps "\<lambda>p. pc_valid p \<and> pc_slot p = s" p] by simp

text \<open>One entry of the table of commands and the context it belongs to change together.\<close>

definition core_update ::
  "nat \<Rightarrow> NvmePendingCmd \<Rightarrow> nat \<Rightarrow> NvmeSlotWriteContext \<Rightarrow> (u16 \<Rightarrow> bool) \<Rightarrow> u32 \<Rightarrow> engine_core \<Rightarrow> engine_core" where
  "core_update k p j c seen n x =
     x\<lparr>co_pending := (co_pending x)[k := p], co_contexts := (co_contexts x)[j := c], co_seen := seen, co_inflight := n\<rparr>"

lemma core_update_sel [simp]:
  "co_pending (core_update k p j c seen n x) = (co_pending x)[k := p]"
  "co_contexts (core_update k p j c seen n x) = (co_contexts x)[j := c]"
  "co_reqs (core_update k p j c seen n x) = co_reqs x" "co_active (core_update k p j c seen n x) = co_active x"
  "co_active_count (core_update k p j c seen n x) = co_active_count x" "co_inflight (core_update k p j c seen n x) = n"
  "co_seen (core_update k p j c seen n x) = seen" "co_slots (core_update k p j c seen n x) = co_slots x"
  "co_max_active (core_update k p j c seen n x) = co_max_active x"
  by (simp_all add: core_update_def)

lemma core_update_others:
  assumes inv: "core_inv x" and k: "k < CAP" "pc_slot p = wc_slot (co_contexts x ! j)"
      "pc_valid (co_pending x ! k) \<Longrightarrow> pc_slot (co_pending x ! k) = wc_slot (co_contexts x ! j)"
    and j: "j < CAP" "co_active x ! j" and i: "i < CAP" "co_active x ! i" "i \<noteq> j"
  shows "context_ok (co_slots x) ((co_pending x)[k := p]) (co_reqs x ! i) (co_contexts x ! i)"
proof -
  have "wc_slot (co_contexts x ! i) \<noteq> wc_slot (co_contexts x ! j)"
    using core_inv_slot_inj [OF inv i(1) j(1) i(2) j(2)] i(3) by auto
  then show ?thesis
    using cmds_of_update [of k "co_pending x" p "wc_slot (co_contexts x ! i)"] k core_invD(1) [OF inv]
    by (intro context_ok_pending [OF core_inv_active [OF inv i(1,2)]]) (auto split: if_splits)
qed

lemma core_update_inv:
  assumes inv: "core_inv x" and k: "k < CAP" "pc_slot p = wc_slot (co_contexts x ! j)"
      "pc_valid (co_pending x ! k) \<Longrightarrow> pc_slot (co_pending x ! k) = wc_slot (co_contexts x ! j)"
    and j: "j < CAP" "co_active x ! j" "wc_slot c = wc_slot (co_contexts x ! j)"
      "context_ok (co_slots x) ((co_pending x)[k := p]) (co_reqs x ! j) c"
    and fresh: "\<And>i. pc_valid p \<Longrightarrow> i < CAP \<Longrightarrow> i \<noteq> k \<Longrightarrow> pc_valid (co_pending x ! i) \<Longrightarrow> pc_cid (co_pending x ! i) \<noteq> pc_cid p"
    and seen: "\<And>i. i < CAP \<Longrightarrow> pc_valid ((co_pending x)[k := p] ! i) \<Longrightarrow> \<not> seen (pc_cid ((co_pending x)[k := p] ! i))"
    and n: "unat n = length (filter pc_valid ((co_pending x)[k := p]))"
  shows "core_inv (core_update k p j c seen n x)"
proof (rule core_invI; simp only: core_update_sel)
  note D = core_invD [OF inv]
  have nth: "(co_pending x)[k := p] ! i = (if i = k then p else co_pending x ! i)"
    "(co_contexts x)[j := c] ! i = (if i = j then c else co_contexts x ! i)" if "i < CAP" for i
    using that D(1,2) k(1) j(1) by auto
  have slots: "wc_slot ((co_contexts x)[j := c] ! i) = wc_slot (co_contexts x ! i)" if "i < CAP" for i
    using nth(2) [OF that] j(3) by simp
  show "context_ok (co_slots x) ((co_pending x)[k := p]) (co_reqs x ! i) ((co_contexts x)[j := c] ! i)"
    if "i < CAP" "co_active x ! i" for i
    using that j core_update_others [OF inv k j(1,2) that] by (cases "i = j") (simp_all add: nth(2))
  show "(co_contexts x)[j := c] ! i = context_free" if "i < CAP" "\<not> co_active x ! i" for i
    using that j core_inv_free [OF inv that] by (auto simp: nth(2))
  show "i = m" if "i < CAP" "m < CAP" "co_active x ! i" "co_active x ! m"
      "wc_slot ((co_contexts x)[j := c] ! i) = wc_slot ((co_contexts x)[j := c] ! m)" for i m
    using core_inv_slot_inj [OF inv that(1-4)] that(5) slots that(1,2) by simp
  show "i = m" if "i < CAP" "m < CAP" "pc_valid ((co_pending x)[k := p] ! i)" "pc_valid ((co_pending x)[k := p] ! m)"
      "pc_cid ((co_pending x)[k := p] ! i) = pc_cid ((co_pending x)[k := p] ! m)" for i m
    using core_inv_cid_inj [OF inv that(1,2)] that fresh [of i] fresh [of m] by (auto simp: nth(1) split: if_splits)
  show "\<not> seen (pc_cid ((co_pending x)[k := p] ! i)) \<and>
      (\<exists>m<CAP. co_active x ! m \<and> wc_slot ((co_contexts x)[j := c] ! m) = pc_slot ((co_pending x)[k := p] ! i))"
    if "i < CAP" "pc_valid ((co_pending x)[k := p] ! i)" for i
  proof (cases "i = k")
    case True
    then show ?thesis using seen [OF that] j k slots that(1) by (auto simp: nth(1))
  next
    case False
    then have "pc_valid (co_pending x ! i)" using that by (simp add: nth(1))
    from core_inv_owner [OF inv that(1) this] obtain m where
      "m < CAP" "co_active x ! m" "wc_slot (co_contexts x ! m) = pc_slot (co_pending x ! i)" .
    then show ?thesis using seen [OF that] slots False that(1) by (auto simp: nth(1))
  qed
qed (use n core_invD [OF inv] in simp_all)

lemma finish_cmds:
  assumes "core_inv x" "k < CAP" "pc_valid (co_pending x ! k)"
  shows "length (cmds_of ((co_pending x)[k := (co_pending x ! k)\<lparr>pc_valid := False\<rparr>]) (pc_slot (co_pending x ! k))) + 1 =
           length (cmds_of (co_pending x) (pc_slot (co_pending x ! k)))"
    and "unat (co_inflight x - 1) = length (filter pc_valid ((co_pending x)[k := (co_pending x ! k)\<lparr>pc_valid := False\<rparr>]))"
    and "co_inflight x \<noteq> 0"
proof -
  note D = core_invD [OF assms(1)]
  show "length (cmds_of ((co_pending x)[k := (co_pending x ! k)\<lparr>pc_valid := False\<rparr>]) (pc_slot (co_pending x ! k))) + 1 =
           length (cmds_of (co_pending x) (pc_slot (co_pending x ! k)))"
    using cmds_of_update [of k "co_pending x" "(co_pending x ! k)\<lparr>pc_valid := False\<rparr>" "pc_slot (co_pending x ! k)"] assms D(1)
    by simp
  have "length (filter pc_valid ((co_pending x)[k := (co_pending x ! k)\<lparr>pc_valid := False\<rparr>])) + 1 =
      length (filter pc_valid (co_pending x))"
    using length_filter_update [of k "co_pending x" pc_valid "(co_pending x ! k)\<lparr>pc_valid := False\<rparr>"] assms D(1) by simp
  moreover from this show nz: "co_inflight x \<noteq> 0" using D(6) by auto
  ultimately show "unat (co_inflight x - 1) = length (filter pc_valid ((co_pending x)[k := (co_pending x ! k)\<lparr>pc_valid := False\<rparr>]))"
    using D(6) unat_dec [OF nz] by simp
qed

text \<open>A command leaves the table of pending commands.\<close>

lemma core_finish_inv:
  assumes inv: "core_inv x" and k: "k < CAP" "pc_valid (co_pending x ! k)"
    and j: "j < CAP" "co_active x ! j" "wc_slot (co_contexts x ! j) = pc_slot (co_pending x ! k)"
    and c: "c = (co_contexts x ! j)\<lparr>wc_failed_cmds := f, wc_completed_cmds := d,
                                    wc_inflight_cmds := wc_inflight_cmds (co_contexts x ! j) - 1\<rparr>"
    and sum: "unat f + unat d = unat (wc_failed_cmds (co_contexts x ! j)) + unat (wc_completed_cmds (co_contexts x ! j)) + 1"
  shows "core_inv (core_update k ((co_pending x ! k)\<lparr>pc_valid := False\<rparr>) j c
           ((co_seen x)(pc_cid (co_pending x ! k) := True)) (co_inflight x - 1) x)"
proof (rule core_update_inv [OF inv k(1) _ _ j(1,2)])
  note D = core_invD [OF inv] and count = finish_cmds [OF inv k]
  have ok: "context_ok (co_slots x) (co_pending x) (co_reqs x ! j) (co_contexts x ! j)" using core_inv_active [OF inv j(1,2)] .
  then have "wc_inflight_cmds (co_contexts x ! j) \<noteq> 0" using count(1) j(3) by (auto simp: context_ok_def)
  from unat_dec [OF this] ok count(1) sum j(3)
  show "context_ok (co_slots x) ((co_pending x)[k := (co_pending x ! k)\<lparr>pc_valid := False\<rparr>]) (co_reqs x ! j) c"
    by (auto simp: context_ok_def c)
  fix i assume i: "i < CAP" "pc_valid ((co_pending x)[k := (co_pending x ! k)\<lparr>pc_valid := False\<rparr>] ! i)"
  then have "i \<noteq> k" "pc_valid (co_pending x ! i)" using D(1) k(1) by (auto simp: nth_list_update split: if_splits)
  with i core_inv_cid_inj [OF inv i(1) k(1) _ k(2)] core_inv_owner [OF inv i(1)]
  show "\<not> ((co_seen x)(pc_cid (co_pending x ! k) := True)) (pc_cid ((co_pending x)[k := (co_pending x ! k)\<lparr>pc_valid := False\<rparr>] ! i))"
    by auto
qed (use j c in \<open>simp_all add: finish_cmds [OF inv k]\<close>)

text \<open>A command enters the table.\<close>

lemma build_cmd_sectors:
  assumes "limit \<noteq> 0" "unat limit < 2 ^ 32" "wc_next_submit_sector c < wc_total_sectors c"
  shows "pc_sectors (build_cmd limit cid c) \<noteq> 0"
    and "unat (wc_next_submit_sector c) + unat (pc_sectors (build_cmd limit cid c)) \<le> unat (wc_total_sectors c)"
    and "unat (wc_next_submit_sector c + ucast (pc_sectors (build_cmd limit cid c))) =
           unat (wc_next_submit_sector c) + unat (pc_sectors (build_cmd limit cid c))"
proof -
  let ?n = "pc_sectors (build_cmd limit cid c)"
  define rest where "rest = wc_total_sectors c - wc_next_submit_sector c"
  define m where "m = (if limit < rest then limit else rest)"
  have rest: "unat rest = unat (wc_total_sectors c) - unat (wc_next_submit_sector c)" "rest \<noteq> 0"
    using assms(3) by (auto simp: rest_def unat_sub word_less_nat_alt word_le_nat_alt)
  have m: "unat m \<le> unat rest" "m \<noteq> 0" "unat m \<le> unat limit"
    using rest(2) assms(1) by (auto simp: m_def word_less_nat_alt not_less)
  have "?n = ucast m" by (simp add: build_cmd_def Let_def m_def rest_def)
  moreover have "unat (ucast m :: u32) = unat m"
    using m(3) assms(2) by (simp only: unsigned_ucast_eq) (simp add: take_bit_nat_eq_self)
  ultimately have n: "unat ?n = unat m" by simp
  show "?n \<noteq> 0" using n m(2) by auto
  show le: "unat (wc_next_submit_sector c) + unat ?n \<le> unat (wc_total_sectors c)"
    using n m(1) rest(1) assms(3) by (simp add: word_less_nat_alt)
  then have "unat (wc_next_submit_sector c) + unat (ucast ?n :: u64) < 2 ^ LENGTH(64)"
    using unat_u64_less [of "wc_total_sectors c"] by (simp del: unat_u64_less)
  then show "unat (wc_next_submit_sector c + ucast ?n) = unat (wc_next_submit_sector c) + unat ?n"
    by (simp add: unat_add_le)
qed

lemma core_accept_inv:
  assumes inv: "core_inv x" and k: "k < CAP" "\<not> pc_valid (co_pending x ! k)"
    and j: "j < CAP" "co_active x ! j" "wc_next_submit_sector (co_contexts x ! j) < wc_total_sectors (co_contexts x ! j)"
    and limit: "limit \<noteq> 0" "unat limit < 2 ^ 32"
    and p: "p = build_cmd limit cid (co_contexts x ! j)"
    and fresh: "\<And>i. i < CAP \<Longrightarrow> pc_valid (co_pending x ! i) \<Longrightarrow> pc_cid (co_pending x ! i) \<noteq> cid"
    and c: "c = (co_contexts x ! j)\<lparr>wc_next_submit_sector := wc_next_submit_sector (co_contexts x ! j) + ucast (pc_sectors p),
        wc_submitted_cmds := wc_submitted_cmds (co_contexts x ! j) + 1, wc_inflight_cmds := wc_inflight_cmds (co_contexts x ! j) + 1\<rparr>"
  shows "core_inv (core_update k p j c ((co_seen x)(cid := False)) (co_inflight x + 1) x)"
proof (rule core_update_inv [OF inv k(1) _ _ j(1,2)])
  note D = core_invD [OF inv] and b = build_cmd_sectors [OF limit j(3), of cid, folded p]
  have ps: "pc_valid p" "pc_cid p = cid" "pc_slot p = wc_slot (co_contexts x ! j)" by (simp_all add: p build_cmd_def Let_def)
  let ?c = "co_contexts x ! j"
  have ok: "context_ok (co_slots x) (co_pending x) (co_reqs x ! j) ?c" using core_inv_active [OF inv j(1,2)] .
  have "1 \<le> unat (pc_sectors p)" using b(1) by (metis less_one not_le unat_zero_iff)
  then have lt: "unat (wc_submitted_cmds ?c) + 1 < 2 ^ 32" "unat (wc_inflight_cmds ?c) + 1 < 2 ^ 32"
    using ok b(2) by (auto simp: context_ok_def)
  then have "unat (wc_submitted_cmds ?c + 1) = unat (wc_submitted_cmds ?c) + 1"
    "unat (wc_inflight_cmds ?c + 1) = unat (wc_inflight_cmds ?c) + 1" by (simp_all add: unat_word_ariths)
  moreover have "length (cmds_of ((co_pending x)[k := p]) (wc_slot ?c)) = length (cmds_of (co_pending x) (wc_slot ?c)) + 1"
    using cmds_of_update [of k "co_pending x" p "wc_slot ?c"] k D(1) ps by simp
  ultimately show "context_ok (co_slots x) ((co_pending x)[k := p]) (co_reqs x ! j) c"
    using ok b \<open>1 \<le> unat (pc_sectors p)\<close> by (auto simp: context_ok_def c word_le_nat_alt)
  show "unat (co_inflight x + 1) = length (filter pc_valid ((co_pending x)[k := p]))"
  proof -
    have "length (filter pc_valid ((co_pending x)[k := p])) = unat (co_inflight x) + 1"
      using length_filter_update [of k "co_pending x" pc_valid p] k D(1,6) ps(1) by simp
    moreover have "length (filter pc_valid ((co_pending x)[k := p])) \<le> CAP" using D(1) length_filter_le by (metis length_list_update)
    ultimately have "unat (co_inflight x) + 1 < 2 ^ 32" by (simp add: NVME_PENDING_CAPACITY_def)
    then show ?thesis using \<open>length (filter pc_valid ((co_pending x)[k := p])) = unat (co_inflight x) + 1\<close>
      by (simp add: unat_word_ariths)
  qed
  show "pc_cid (co_pending x ! i) \<noteq> pc_cid p" if "i < CAP" "pc_valid (co_pending x ! i)" for i
    using fresh [OF that] ps(2) by simp
  show "\<not> ((co_seen x)(cid := False)) (pc_cid ((co_pending x)[k := p] ! i))"
    if "i < CAP" "pc_valid ((co_pending x)[k := p] ! i)" for i
    using that ps(2) core_inv_owner [OF inv that(1)] D(1) k(1) by (cases "i = k") auto
qed (use k c in \<open>simp_all add: p build_cmd_def Let_def\<close>)

section \<open>Jobs follow the core\<close>

definition job_of :: "engine_core \<Rightarrow> nat \<Rightarrow> bool \<Rightarrow> slot_job" where
  "job_of x i f = \<lparr>jb_req = co_reqs x ! i, jb_next = wc_next_submit_sector (co_contexts x ! i),
     jb_open = cids_of (co_pending x) (wc_slot (co_contexts x ! i)), jb_failed = f\<rparr>"

lemma job_of_sel [simp]:
  "jb_req (job_of x i f) = co_reqs x ! i" "jb_next (job_of x i f) = wc_next_submit_sector (co_contexts x ! i)"
  "jb_open (job_of x i f) = cids_of (co_pending x) (wc_slot (co_contexts x ! i))" "jb_failed (job_of x i f) = f"
  by (simp_all add: job_of_def)

lemma jobs_matchI:
  assumes "\<And>i. i < CAP \<Longrightarrow> co_active x ! i \<Longrightarrow> \<exists>f. \<sigma> (wc_slot (co_contexts x ! i)) = Some (job_of x i f)"
    and "\<And>s j. \<sigma> s = Some j \<Longrightarrow> \<exists>i<CAP. co_active x ! i \<and> wc_slot (co_contexts x ! i) = s"
  shows "jobs_match \<sigma> x"
  unfolding jobs_match_def using assms by (auto simp: job_of_def)

lemma jobs_match_job:
  assumes "jobs_match \<sigma> x" "i < CAP" "co_active x ! i"
  obtains f where "\<sigma> (wc_slot (co_contexts x ! i)) = Some (job_of x i f)"
  using assms unfolding jobs_match_def job_of_def by blast

lemma jobs_match_active:
  assumes "jobs_match \<sigma> x" "\<sigma> s = Some j"
  obtains i f where "i < CAP" "co_active x ! i" "wc_slot (co_contexts x ! i) = s" "j = job_of x i f"
proof -
  obtain i where i: "i < CAP" "co_active x ! i" "wc_slot (co_contexts x ! i) = s"
    using assms unfolding jobs_match_def by blast
  with jobs_match_job [OF assms(1) i(1,2)] assms(2) that show ?thesis by (metis option.inject)
qed

lemma cid_open_iff:
  assumes "core_inv x" "jobs_match \<sigma> x"
  shows "cid_open \<sigma> cid \<longleftrightarrow> (\<exists>i<CAP. pc_valid (co_pending x ! i) \<and> pc_cid (co_pending x ! i) = cid)"
proof
  assume "cid_open \<sigma> cid"
  then obtain s j where j: "\<sigma> s = Some j" "cid \<in> jb_open j" by (auto simp: cid_open_def)
  from jobs_match_active [OF assms(2) j(1)] obtain i f where "j = job_of x i f" .
  then show "\<exists>i<CAP. pc_valid (co_pending x ! i) \<and> pc_cid (co_pending x ! i) = cid"
    using j(2) core_invD(1) [OF assms(1)] by (auto simp: cids_of_iff)
next
  assume "\<exists>i<CAP. pc_valid (co_pending x ! i) \<and> pc_cid (co_pending x ! i) = cid"
  then obtain i where i: "i < CAP" "pc_valid (co_pending x ! i)" "pc_cid (co_pending x ! i) = cid" by blast
  from core_inv_owner [OF assms(1) i(1,2)] obtain j where
    j: "j < CAP" "co_active x ! j" "wc_slot (co_contexts x ! j) = pc_slot (co_pending x ! i)" .
  from jobs_match_job [OF assms(2) j(1,2)] obtain f where "\<sigma> (wc_slot (co_contexts x ! j)) = Some (job_of x j f)" .
  moreover have "cid \<in> jb_open (job_of x j f)" using i j core_invD(1) [OF assms(1)] by (auto simp: cids_of_iff)
  ultimately show "cid_open \<sigma> cid" unfolding cid_open_def by blast
qed

lemma cids_of_other:
  assumes "k < length ps" "pc_slot p \<noteq> s" "pc_valid (ps ! k) \<Longrightarrow> pc_slot (ps ! k) \<noteq> s"
  shows "cids_of (ps[k := p]) s = cids_of ps s"
proof -
  have "cid \<in> cids_of (ps[k := p]) s \<longleftrightarrow> cid \<in> cids_of ps s" for cid
    using assms by (auto simp: cids_of_iff nth_list_update split: if_splits) metis
  then show ?thesis by blast
qed

lemma jobs_match_update:
  assumes inv: "core_inv x" and m: "jobs_match \<sigma> x"
    and k: "k < CAP" "pc_slot p = wc_slot (co_contexts x ! j)"
      "pc_valid (co_pending x ! k) \<Longrightarrow> pc_slot (co_pending x ! k) = wc_slot (co_contexts x ! j)"
    and j: "j < CAP" "co_active x ! j" "wc_slot c = wc_slot (co_contexts x ! j)"
    and q: "q = job_of (core_update k p j c seen n x) j f"
  shows "jobs_match (\<sigma>(wc_slot (co_contexts x ! j) \<mapsto> q)) (core_update k p j c seen n x)"
proof -
  let ?x = "core_update k p j c seen n x"
  note D = core_invD [OF inv]
  have slot: "wc_slot ((co_contexts x)[j := c] ! i) = wc_slot (co_contexts x ! i)" for i
    using j(3) D(2) j(1) by (cases "i = j") auto
  show ?thesis
  proof (rule jobs_matchI; simp only: core_update_sel slot)
    show "\<exists>f. (\<sigma>(wc_slot (co_contexts x ! j) \<mapsto> q)) (wc_slot (co_contexts x ! i)) = Some (job_of ?x i f)"
      if "i < CAP" "co_active x ! i" for i
    proof (cases "i = j")
      case True
      then show ?thesis using q by auto
    next
      case False
      then have ne: "wc_slot (co_contexts x ! i) \<noteq> wc_slot (co_contexts x ! j)"
        using core_inv_slot_inj [OF inv that(1) j(1) that(2) j(2)] by auto
      then have "cids_of ((co_pending x)[k := p]) (wc_slot (co_contexts x ! i)) = cids_of (co_pending x) (wc_slot (co_contexts x ! i))"
        using k D(1) by (intro cids_of_other) auto
      then have "job_of ?x i g = job_of x i g" for g using False by (simp add: job_of_def)
      with jobs_match_job [OF m that] ne show ?thesis by (metis fun_upd_other)
    qed
    show "\<exists>i<CAP. co_active x ! i \<and> wc_slot (co_contexts x ! i) = s"
      if "(\<sigma>(wc_slot (co_contexts x ! j) \<mapsto> q)) s = Some r" for s r
      using that j jobs_match_active [OF m, of s r] by (cases "s = wc_slot (co_contexts x ! j)") auto
  qed
qed

text \<open>The step of the abstract machine when a command enters the table, and when one leaves it.\<close>

lemma job_accept:
  assumes inv: "core_inv x" and m: "jobs_match \<sigma> x" and k: "k < CAP" "\<not> pc_valid (co_pending x ! k)"
    and j: "j < CAP" "co_active x ! j" "wc_next_submit_sector (co_contexts x ! j) < wc_total_sectors (co_contexts x ! j)"
    and limit: "limit \<noteq> 0" "unat limit < 2 ^ 32"
    and p: "p = build_cmd limit cid (co_contexts x ! j)"
    and fresh: "\<And>i. i < CAP \<Longrightarrow> pc_valid (co_pending x ! i) \<Longrightarrow> pc_cid (co_pending x ! i) \<noteq> cid"
    and c: "wc_slot c = wc_slot (co_contexts x ! j)"
      "wc_next_submit_sector c = wc_next_submit_sector (co_contexts x ! j) + ucast (pc_sectors p)"
    and rc: "owned rc"
  shows "\<exists>\<sigma>'. job_step \<sigma> (EvSubmit (pc_cid p) (pc_lba p) (pc_sectors p) (pc_ddr_addr p) rc) \<sigma>' \<and>
           jobs_match \<sigma>' (core_update k p j c seen n x) \<and> (none_failed \<sigma> \<longrightarrow> none_failed \<sigma>')"
proof -
  let ?c = "co_contexts x ! j"
  from jobs_match_job [OF m j(1,2)] obtain f where job: "\<sigma> (wc_slot ?c) = Some (job_of x j f)" .
  have ps: "pc_valid p" "pc_cid p = cid" "pc_slot p = wc_slot ?c" "pc_lba p = wc_base_lba ?c + wc_next_submit_sector ?c"
    "pc_ddr_addr p = wc_base_ddr_addr ?c + wc_next_submit_sector ?c * NVME_SECTOR_BYTES"
    by (simp_all add: p build_cmd_def Let_def)
  have ok: "context_ok (co_slots x) (co_pending x) (co_reqs x ! j) ?c" using core_inv_active [OF inv j(1,2)] .
  let ?q = "(job_of x j f)\<lparr>jb_next := jb_next (job_of x j f) + ucast (pc_sectors p), jb_open := insert cid (jb_open (job_of x j f))\<rparr>"
  have "job_step \<sigma> (EvSubmit cid (pc_lba p) (pc_sectors p) (pc_ddr_addr p) rc) (\<sigma>(wc_slot ?c \<mapsto> ?q))"
    using job job_submit [where \<sigma> = \<sigma> and s = "wc_slot ?c" and j = "job_of x j f" and cid = cid and n = "pc_sectors p"]
      build_cmd_sectors(1,2) [OF limit j(3), of cid, folded p] ok ps rc fresh
    by (auto simp: cid_open_iff [OF inv m] context_ok_def)
  moreover have "cids_of ((co_pending x)[k := p]) (wc_slot ?c) = insert cid (cids_of (co_pending x) (wc_slot ?c))"
    using k core_invD(1) [OF inv] ps by (auto simp: cids_of_iff nth_list_update split: if_splits)
  then have "?q = job_of (core_update k p j c seen n x) j f"
    using c j(1) core_invD(2) [OF inv] by (simp add: job_of_def)
  then have "jobs_match (\<sigma>(wc_slot ?c \<mapsto> ?q)) (core_update k p j c seen n x)"
    using k ps c by (intro jobs_match_update [OF inv m _ _ _ j(1,2)]) auto
  moreover have "none_failed \<sigma> \<longrightarrow> none_failed (\<sigma>(wc_slot ?c \<mapsto> ?q))" using job by (fastforce simp: none_failed_def)
  ultimately show ?thesis using ps(2) by blast
qed

lemma job_finish:
  assumes inv: "core_inv x" and m: "jobs_match \<sigma> x" and k: "k < CAP" "pc_valid (co_pending x ! k)"
    and j: "j < CAP" "co_active x ! j" "wc_slot (co_contexts x ! j) = pc_slot (co_pending x ! k)"
    and c: "wc_slot c = wc_slot (co_contexts x ! j)" "wc_next_submit_sector c = wc_next_submit_sector (co_contexts x ! j)"
    and rc: "0 < rc" "cp_cid cpl = pc_cid (co_pending x ! k)"
  shows "\<exists>\<sigma>'. job_step \<sigma> (EvPoll rc cpl) \<sigma>' \<and>
           jobs_match \<sigma>' (core_update k ((co_pending x ! k)\<lparr>pc_valid := False\<rparr>) j c seen n x) \<and>
           (none_failed \<sigma> \<and> \<not> cp_error cpl \<longrightarrow> none_failed \<sigma>')"
proof -
  let ?c = "co_contexts x ! j" and ?p = "(co_pending x ! k)\<lparr>pc_valid := False\<rparr>"
  note D = core_invD [OF inv]
  from jobs_match_job [OF m j(1,2)] obtain f where job: "\<sigma> (wc_slot ?c) = Some (job_of x j f)" .
  let ?q = "(job_of x j f)\<lparr>jb_open := jb_open (job_of x j f) - {cp_cid cpl}, jb_failed := jb_failed (job_of x j f) \<or> cp_error cpl\<rparr>"
  have "cp_cid cpl \<in> jb_open (job_of x j f)" using k j(3) D(1) rc(2) by (auto simp: cids_of_iff)
  then have step: "job_step \<sigma> (EvPoll rc cpl) (\<sigma>(wc_slot ?c \<mapsto> ?q))" using rc(1) job job_completed [where \<sigma> = \<sigma> and s = "wc_slot ?c" and j = "job_of x j f"] by blast
  have "cid \<in> cids_of ((co_pending x)[k := ?p]) (wc_slot ?c) \<longleftrightarrow> cid \<in> cids_of (co_pending x) (wc_slot ?c) - {cp_cid cpl}" for cid
    using k core_inv_cid_inj [OF inv _ k(1) _ k(2)] D(1) rc(2)
    by (auto simp: cids_of_iff nth_list_update split: if_splits) metis+
  then have "cids_of ((co_pending x)[k := ?p]) (wc_slot ?c) = cids_of (co_pending x) (wc_slot ?c) - {cp_cid cpl}" by blast
  then have "?q = job_of (core_update k ?p j c seen n x) j (f \<or> cp_error cpl)" using c j(1) D(2) by (simp add: job_of_def)
  then have "jobs_match (\<sigma>(wc_slot ?c \<mapsto> ?q)) (core_update k ?p j c seen n x)"
    using k j c by (intro jobs_match_update [OF inv m _ _ _ j(1,2)]) auto
  moreover have "none_failed \<sigma> \<and> \<not> cp_error cpl \<longrightarrow> none_failed (\<sigma>(wc_slot ?c \<mapsto> ?q))" using job by (fastforce simp: none_failed_def)
  ultimately show ?thesis using step by blast
qed

text \<open>An unused entry is overwritten by another unused one when the device refuses a command.\<close>

lemma core_refuse:
  assumes inv: "core_inv x" and k: "k < CAP" "\<not> pc_valid (co_pending x ! k)" and j: "j < CAP" "co_active x ! j"
    and p: "\<not> pc_valid p" "pc_slot p = wc_slot (co_contexts x ! j)"
  shows "core_inv (core_update k p j (co_contexts x ! j) (co_seen x) (co_inflight x) x)"
    and "jobs_match \<sigma> x \<Longrightarrow> jobs_match \<sigma> (core_update k p j (co_contexts x ! j) (co_seen x) (co_inflight x) x)"
proof -
  note D = core_invD [OF inv]
  let ?c = "co_contexts x ! j" and ?x = "core_update k p j (co_contexts x ! j) (co_seen x) (co_inflight x) x"
  have nth: "m \<noteq> k" if "pc_valid ((co_pending x)[k := p] ! m)" for m using that k p D(1) by auto
  show "core_inv ?x"
  proof (rule core_update_inv [OF inv k(1) p(2) _ j])
    show "context_ok (co_slots x) ((co_pending x)[k := p]) (co_reqs x ! j) ?c"
      using cmds_of_update [of k "co_pending x" p "wc_slot ?c"] k p D(1)
      by (intro context_ok_pending [OF core_inv_active [OF inv j]]) simp
    show "unat (co_inflight x) = length (filter pc_valid ((co_pending x)[k := p]))"
      using length_filter_update [of k "co_pending x" pc_valid p] k p D(1,6) by simp
    show "\<not> co_seen x (pc_cid ((co_pending x)[k := p] ! m))" if "m < CAP" "pc_valid ((co_pending x)[k := p] ! m)" for m
      using core_inv_owner [OF inv that(1)] nth [OF that(2)] that(2) by auto
  qed (use k p in auto)
  assume m: "jobs_match \<sigma> x"
  have "cid \<in> cids_of ((co_pending x)[k := p]) (wc_slot ?c) \<longleftrightarrow> cid \<in> cids_of (co_pending x) (wc_slot ?c)" for cid
    using k p D(1) by (auto simp: cids_of_iff nth_list_update split: if_splits)
  then have "cids_of ((co_pending x)[k := p]) (wc_slot ?c) = cids_of (co_pending x) (wc_slot ?c)" by blast
  then have same: "job_of x j f = job_of ?x j f" for f using j D(2) by (simp add: job_of_def)
  from jobs_match_job [OF m j] obtain f where job: "\<sigma> (wc_slot ?c) = Some (job_of x j f)" .
  then have "\<sigma>(wc_slot ?c \<mapsto> job_of x j f) = \<sigma>" by (simp add: fun_upd_idem)
  moreover have "jobs_match (\<sigma>(wc_slot ?c \<mapsto> job_of x j f)) ?x"
    by (rule jobs_match_update [OF inv m k(1) p(2) _ j refl same]) (use k in simp)
  ultimately show "jobs_match \<sigma> ?x" by simp
qed

text \<open>A slot is taken on, is released or everything is dropped.\<close>

lemma length_filter_id_update:
  "i < length bs \<Longrightarrow> length (filter id (bs[i := b])) + (if bs ! i then 1 else 0) = length (filter id bs) + (if b then 1 else 0)"
  using length_filter_update [of i bs id b] by simp

lemma core_free_slot:
  assumes "core_inv x" "s < co_slots x" "\<And>i. i < CAP \<Longrightarrow> co_active x ! i \<Longrightarrow> wr_slot (co_reqs x ! i) \<noteq> s"
  shows "\<And>i. i < CAP \<Longrightarrow> wc_slot (co_contexts x ! i) \<noteq> s" and "cmds_of (co_pending x) s = []"
proof -
  show ne: "wc_slot (co_contexts x ! i) \<noteq> s" if "i < CAP" for i
  proof (cases "co_active x ! i")
    case True
    then show ?thesis using core_inv_active [OF assms(1) that] assms(3) [OF that] by (auto simp: context_ok_def)
  next
    case False
    then have "wc_slot (co_contexts x ! i) = UINT32_MAX" using core_inv_free [OF assms(1) that] by (simp add: context_free_def)
    then show ?thesis using assms(2) u32_le_max [of "co_slots x"] by (metis leD)
  qed
  show "cmds_of (co_pending x) s = []"
  proof -
    have "\<not> (pc_valid p \<and> pc_slot p = s)" if p: "p \<in> set (co_pending x)" for p
    proof
      assume v: "pc_valid p \<and> pc_slot p = s"
      obtain i where "i < CAP" "p = co_pending x ! i" using p core_invD(1) [OF assms(1)] by (auto simp: in_set_conv_nth)
      with v core_inv_owner [OF assms(1), of i] ne show False by metis
    qed
    then show ?thesis by (simp add: cmds_of_def filter_empty_conv)
  qed
qed

definition core_activate :: "nat \<Rightarrow> NvmeWriteSlotReq \<Rightarrow> NvmeSlotWriteContext \<Rightarrow> engine_core \<Rightarrow> engine_core" where
  "core_activate i r c x =
     x\<lparr>co_active := (co_active x)[i := True], co_reqs := (co_reqs x)[i := r], co_contexts := (co_contexts x)[i := c],
       co_active_count := co_active_count x + 1\<rparr>"

lemma core_activate_sel [simp]:
  "co_pending (core_activate i r c x) = co_pending x" "co_contexts (core_activate i r c x) = (co_contexts x)[i := c]"
  "co_reqs (core_activate i r c x) = (co_reqs x)[i := r]" "co_active (core_activate i r c x) = (co_active x)[i := True]"
  "co_active_count (core_activate i r c x) = co_active_count x + 1" "co_inflight (core_activate i r c x) = co_inflight x"
  "co_seen (core_activate i r c x) = co_seen x" "co_slots (core_activate i r c x) = co_slots x"
  "co_max_active (core_activate i r c x) = co_max_active x"
  by (simp_all add: core_activate_def)

lemma core_activate_inv:
  assumes inv: "core_inv x" and i: "i < CAP" "\<not> co_active x ! i"
    and r: "wr_slot r < co_slots x" "\<And>m. m < CAP \<Longrightarrow> co_active x ! m \<Longrightarrow> wr_slot (co_reqs x ! m) \<noteq> wr_slot r"
    and c: "context_ok (co_slots x) (co_pending x) r c" and room: "co_active_count x < co_max_active x"
  shows "core_inv (core_activate i r c x)"
proof (rule core_invI; simp only: core_activate_sel)
  note D = core_invD [OF inv]
  have free: "\<And>m. m < CAP \<Longrightarrow> wc_slot (co_contexts x ! m) \<noteq> wr_slot r" "cmds_of (co_pending x) (wr_slot r) = []"
    using core_free_slot [OF inv r(1)] r(2) by auto
  have nth: "(co_active x)[i := True] ! m = (m = i \<or> co_active x ! m)" "(co_contexts x)[i := c] ! m = (if m = i then c else co_contexts x ! m)"
    "(co_reqs x)[i := r] ! m = (if m = i then r else co_reqs x ! m)" if "m < CAP" for m
    using that D i by (cases "m = i"; auto)+
  have slot: "wc_slot c = wr_slot r" using c by (simp add: context_ok_def)
  show "context_ok (co_slots x) (co_pending x) ((co_reqs x)[i := r] ! m) ((co_contexts x)[i := c] ! m)"
    if "m < CAP" "(co_active x)[i := True] ! m" for m
    using that c core_inv_active [OF inv that(1)] by (auto simp: nth)
  show "(co_contexts x)[i := c] ! m = context_free" if "m < CAP" "\<not> (co_active x)[i := True] ! m" for m
    using that core_inv_free [OF inv that(1)] by (auto simp: nth)
  show "m = n" if "m < CAP" "n < CAP" "(co_active x)[i := True] ! m" "(co_active x)[i := True] ! n"
      "wc_slot ((co_contexts x)[i := c] ! m) = wc_slot ((co_contexts x)[i := c] ! n)" for m n
    using that free(1) [OF that(1)] free(1) [OF that(2)] core_inv_slot_inj [OF inv that(1,2)] slot
    by (auto simp: nth split: if_splits)
  show "\<not> co_seen x (pc_cid (co_pending x ! m)) \<and>
      (\<exists>n<CAP. (co_active x)[i := True] ! n \<and> wc_slot ((co_contexts x)[i := c] ! n) = pc_slot (co_pending x ! m))"
    if m: "m < CAP" "pc_valid (co_pending x ! m)" for m
  proof -
    from core_inv_owner [OF inv m] obtain n where n: "n < CAP" "co_active x ! n"
      "wc_slot (co_contexts x ! n) = pc_slot (co_pending x ! m)" "\<not> co_seen x (pc_cid (co_pending x ! m))" .
    then have "n \<noteq> i" using i by auto
    with n show ?thesis by (auto simp: nth)
  qed
  show "unat (co_active_count x + 1) = length (filter id ((co_active x)[i := True]))"
    using unat_inc_below [OF room] length_filter_id_update [of i "co_active x" True] i D(4,7) by simp
  show "co_active_count x + 1 \<le> co_max_active x"
    using unat_inc_below [OF room] room by (simp add: word_le_nat_alt word_less_nat_alt)
  show "m = n" if "m < CAP" "n < CAP" "pc_valid (co_pending x ! m)" "pc_valid (co_pending x ! n)"
      "pc_cid (co_pending x ! m) = pc_cid (co_pending x ! n)" for m n
    using core_inv_cid_inj [OF inv that] .
qed (use core_invD [OF inv] in simp_all)

lemma job_activate:
  assumes inv: "core_inv x" and m: "jobs_match \<sigma> x" and i: "i < CAP" "\<not> co_active x ! i"
    and r: "wr_slot r < co_slots x" "\<And>m. m < CAP \<Longrightarrow> co_active x ! m \<Longrightarrow> wr_slot (co_reqs x ! m) \<noteq> wr_slot r"
    and c: "wc_slot c = wr_slot r" "wc_next_submit_sector c = 0"
  shows "job_step \<sigma> (EvAdd r) (\<sigma>(wr_slot r \<mapsto> new_job r)) \<and> jobs_match (\<sigma>(wr_slot r \<mapsto> new_job r)) (core_activate i r c x) \<and>
    (none_failed \<sigma> \<longrightarrow> none_failed (\<sigma>(wr_slot r \<mapsto> new_job r)))"
proof (intro conjI)
  note D = core_invD [OF inv]
  have free: "\<And>m. m < CAP \<Longrightarrow> wc_slot (co_contexts x ! m) \<noteq> wr_slot r" "cmds_of (co_pending x) (wr_slot r) = []"
    using core_free_slot [OF inv r(1)] r(2) by auto
  have "\<sigma> (wr_slot r) = None" using jobs_match_active [OF m, of "wr_slot r"] free(1) by (metis option.exhaust)
  then show "job_step \<sigma> (EvAdd r) (\<sigma>(wr_slot r \<mapsto> new_job r))" by (rule job_add)
  have cids: "cids_of (co_pending x) (wr_slot r) = {}" using free(2) by (simp add: cids_of_def)
  show "jobs_match (\<sigma>(wr_slot r \<mapsto> new_job r)) (core_activate i r c x)"
  proof (rule jobs_matchI; simp only: core_activate_sel)
    show "\<exists>f. (\<sigma>(wr_slot r \<mapsto> new_job r)) (wc_slot ((co_contexts x)[i := c] ! n)) = Some (job_of (core_activate i r c x) n f)"
      if n: "n < CAP" "(co_active x)[i := True] ! n" for n
    proof (cases "n = i")
      case True
      then show ?thesis using D i c cids by (auto simp: job_of_def new_job_def)
    next
      case False
      then have a: "co_active x ! n" using n by simp
      from jobs_match_job [OF m n(1) a] obtain f where "\<sigma> (wc_slot (co_contexts x ! n)) = Some (job_of x n f)" .
      then show ?thesis using False free(1) [OF n(1)] by (auto simp: job_of_def)
    qed
    show "\<exists>n<CAP. (co_active x)[i := True] ! n \<and> wc_slot ((co_contexts x)[i := c] ! n) = s"
      if s: "(\<sigma>(wr_slot r \<mapsto> new_job r)) s = Some j" for s j
    proof (cases "s = wr_slot r")
      case True
      then show ?thesis using D i c by (intro exI [of _ i]) simp
    next
      case False
      with s have "\<sigma> s = Some j" by simp
      from jobs_match_active [OF m this] obtain n f where "n < CAP" "co_active x ! n" "wc_slot (co_contexts x ! n) = s" .
      moreover from this have "n \<noteq> i" using i by auto
      ultimately show ?thesis by (intro exI [of _ n]) simp
    qed
  qed
  show "none_failed \<sigma> \<longrightarrow> none_failed (\<sigma>(wr_slot r \<mapsto> new_job r))" by (auto simp: none_failed_def new_job_def)
qed

definition core_release :: "nat \<Rightarrow> engine_core \<Rightarrow> engine_core" where
  "core_release i x =
     x\<lparr>co_active := (co_active x)[i := False], co_reqs := (co_reqs x)[i := req_zero],
       co_contexts := (co_contexts x)[i := context_free], co_active_count := co_active_count x - 1\<rparr>"

lemma core_release_sel [simp]:
  "co_pending (core_release i x) = co_pending x" "co_contexts (core_release i x) = (co_contexts x)[i := context_free]"
  "co_reqs (core_release i x) = (co_reqs x)[i := req_zero]" "co_active (core_release i x) = (co_active x)[i := False]"
  "co_active_count (core_release i x) = co_active_count x - 1" "co_inflight (core_release i x) = co_inflight x"
  "co_seen (core_release i x) = co_seen x" "co_slots (core_release i x) = co_slots x"
  "co_max_active (core_release i x) = co_max_active x"
  by (simp_all add: core_release_def)

lemma core_release_inv:
  assumes inv: "core_inv x" and i: "i < CAP" "co_active x ! i" "cmds_of (co_pending x) (wc_slot (co_contexts x ! i)) = []"
  shows "core_inv (core_release i x)"
proof (rule core_invI; simp only: core_release_sel)
  note D = core_invD [OF inv]
  have nth: "(co_active x)[i := False] ! m = (m \<noteq> i \<and> co_active x ! m)"
    "(co_contexts x)[i := context_free] ! m = (if m = i then context_free else co_contexts x ! m)"
    "(co_reqs x)[i := req_zero] ! m = (if m = i then req_zero else co_reqs x ! m)" if "m < CAP" for m
    using that D i by (cases "m = i"; auto)+
  show "context_ok (co_slots x) (co_pending x) ((co_reqs x)[i := req_zero] ! m) ((co_contexts x)[i := context_free] ! m)"
    if "m < CAP" "(co_active x)[i := False] ! m" for m
    using that core_inv_active [OF inv that(1)] by (auto simp: nth)
  show "(co_contexts x)[i := context_free] ! m = context_free" if "m < CAP" "\<not> (co_active x)[i := False] ! m" for m
    using that core_inv_free [OF inv that(1)] by (auto simp: nth)
  show "m = n" if "m < CAP" "n < CAP" "(co_active x)[i := False] ! m" "(co_active x)[i := False] ! n"
      "wc_slot ((co_contexts x)[i := context_free] ! m) = wc_slot ((co_contexts x)[i := context_free] ! n)" for m n
    using that core_inv_slot_inj [OF inv that(1,2)] by (auto simp: nth)
  show "\<not> co_seen x (pc_cid (co_pending x ! m)) \<and>
      (\<exists>n<CAP. (co_active x)[i := False] ! n \<and> wc_slot ((co_contexts x)[i := context_free] ! n) = pc_slot (co_pending x ! m))"
    if m: "m < CAP" "pc_valid (co_pending x ! m)" for m
  proof -
    from core_inv_owner [OF inv m] obtain n where n: "n < CAP" "co_active x ! n"
      "wc_slot (co_contexts x ! n) = pc_slot (co_pending x ! m)" "\<not> co_seen x (pc_cid (co_pending x ! m))" .
    have "co_pending x ! m \<in> set (co_pending x)" using m(1) D(1) by simp
    then have "pc_slot (co_pending x ! m) \<noteq> wc_slot (co_contexts x ! i)"
      using i(3) m(2) by (auto simp: cmds_of_def filter_empty_conv)
    then have "n \<noteq> i" using n by auto
    with n show ?thesis by (auto simp: nth)
  qed
  show count: "unat (co_active_count x - 1) = length (filter id ((co_active x)[i := False]))"
  proof -
    have n: "length (filter id ((co_active x)[i := False])) + 1 = unat (co_active_count x)"
      using length_filter_id_update [of i "co_active x" False] i D(4,7) by simp
    then have "co_active_count x \<noteq> 0" by auto
    with n unat_dec [OF this] show ?thesis by simp
  qed
  show "co_active_count x - 1 \<le> co_max_active x"
    using count length_filter_id_update [of i "co_active x" False] i D(4,7,8) by (simp add: word_le_nat_alt)
  show "m = n" if "m < CAP" "n < CAP" "pc_valid (co_pending x ! m)" "pc_valid (co_pending x ! n)"
      "pc_cid (co_pending x ! m) = pc_cid (co_pending x ! n)" for m n
    using core_inv_cid_inj [OF inv that] .
qed (use core_invD [OF inv] in simp_all)

lemma job_release:
  assumes inv: "core_inv x" and m: "jobs_match \<sigma> x" and i: "i < CAP" "co_active x ! i"
  shows "jobs_match (\<sigma>(wc_slot (co_contexts x ! i) := None)) (core_release i x)"
proof (rule jobs_matchI; simp only: core_release_sel)
  note D = core_invD [OF inv]
  let ?s = "wc_slot (co_contexts x ! i)"
  show "\<exists>f. (\<sigma>(?s := None)) (wc_slot ((co_contexts x)[i := context_free] ! n)) = Some (job_of (core_release i x) n f)"
    if n: "n < CAP" "(co_active x)[i := False] ! n" for n
  proof -
    have a: "n \<noteq> i" "co_active x ! n" using n D(4) i by (cases "n = i"; auto)+
    then have "wc_slot (co_contexts x ! n) \<noteq> ?s" using core_inv_slot_inj [OF inv n(1) i(1) a(2) i(2)] by auto
    moreover from jobs_match_job [OF m n(1) a(2)] obtain f where "\<sigma> (wc_slot (co_contexts x ! n)) = Some (job_of x n f)" .
    ultimately show ?thesis using a(1) by (auto simp: job_of_def)
  qed
  show "\<exists>n<CAP. (co_active x)[i := False] ! n \<and> wc_slot ((co_contexts x)[i := context_free] ! n) = s"
    if s: "(\<sigma>(?s := None)) s = Some j" for s j
  proof -
    have "\<sigma> s = Some j" "s \<noteq> ?s" using s by (auto split: if_splits)
    moreover from jobs_match_active [OF m this(1)] obtain n f where "n < CAP" "co_active x ! n" "wc_slot (co_contexts x ! n) = s" .
    moreover from calculation have "n \<noteq> i" by auto
    ultimately show ?thesis by (intro exI [of _ n]) simp
  qed
qed

lemma core_discard_inv:
  assumes "core_inv x"
  shows "core_inv (x\<lparr>co_pending := replicate CAP pending_zero, co_active := replicate CAP False,
    co_contexts := replicate CAP context_free, co_reqs := replicate CAP req_zero, co_inflight := 0, co_active_count := 0\<rparr>)"
  using core_invD(5) [OF assms] by (intro core_invI) (simp_all add: pending_zero_def)

end
