(* ===== verification/Nvme_Refine.thy ===== *)
theory Nvme_Refine
  imports Nvme_Jobs
begin

text \<open>
  Every function of the cross-slot engine follows the abstract machine of \<open>Nvme_Jobs\<close>: whatever the
  device, the clock, the callback and the other thread do, the calls the engine makes are a trace of it.
\<close>

section \<open>Functions of the engine\<close>

definition awaiting :: "int \<Rightarrow> NvmeCompletion \<Rightarrow> NvmeCrossSlotEngine \<Rightarrow> 'c \<times> nvme_event list \<Rightarrow> bool" where
  "awaiting rc cpl e cl \<longleftrightarrow> 0 < rc \<and> (\<exists>l. snd cl = l @ [EvPoll rc cpl] \<and> refines e l)"

lemma logged_monotonic [simp]: "op_monotonic_us (logged ops) cl = (t, cl') \<Longrightarrow> snd cl' = snd cl"
  by (cases cl) (auto simp: logged_def split: prod.splits)

lemma diag_now_log [simp]: "diag_now (logged ops) e cl = (t, cl') \<Longrightarrow> snd cl' = snd cl"
  by (auto simp: diag_now_def split: if_splits)

lemma refines_polled:
  assumes "refines e l" "rc \<le> 0"
  shows "refines e (l @ [EvPoll rc cpl])"
proof -
  obtain \<sigma> where "job_trace l \<sigma>" "core_inv (core e)" "jobs_match \<sigma> (core e)"
    "en_state e = NVME_CROSS_SLOT_RUNNING \<longrightarrow> none_failed \<sigma>" using assms(1) by (auto simp: refines_def)
  moreover have "job_step \<sigma> (EvPoll rc cpl) \<sigma>" using assms(2) by (intro job_polled) simp
  then have "job_trace (l @ [EvPoll rc cpl]) \<sigma>" using calculation(1) by (rule trace_step [rotated])
  ultimately show ?thesis by (auto simp: refines_def)
qed

lemma logged_poll:
  assumes "op_poll_completion (logged ops) cl = (rc, cpl, cl')" "refines e (snd cl)"
  shows "rc \<le> 0 \<Longrightarrow> refines e (snd cl')" "0 < rc \<Longrightarrow> awaiting rc cpl e cl'"
proof -
  have "snd cl' = snd cl @ [EvPoll rc cpl]"
    using assms(1) by (cases cl) (auto simp: logged_def split: prod.splits)
  then show "rc \<le> 0 \<Longrightarrow> refines e (snd cl')" "0 < rc \<Longrightarrow> awaiting rc cpl e cl'"
    using assms(2) by (auto simp: awaiting_def refines_polled)
qed

lemma core_finish_cmd:
  "core (finish_cmd failed k j cid e) =
     core_update k ((en_pending e ! k)\<lparr>pc_valid := False\<rparr>) j
       ((en_contexts e ! j)\<lparr>wc_failed_cmds := wc_failed_cmds (en_contexts e ! j) + (if failed then 1 else 0),
          wc_completed_cmds := wc_completed_cmds (en_contexts e ! j) + (if failed then 0 else 1),
          wc_inflight_cmds := wc_inflight_cmds (en_contexts e ! j) - 1\<rparr>)
       ((en_completed_cid_seen e)(cid := True)) (en_global_inflight e - 1) (core e)"
  by (simp add: finish_cmd_def core_def core_update_def Let_def)

text \<open>The entry and the context a completion belongs to.\<close>

lemma find_owner:
  assumes inv: "core_inv (core e)" and k: "nvme_find_pending_by_cid (en_pending e) cid = Some k"
  obtains j where "k < CAP" "pc_valid (en_pending e ! k)" "pc_cid (en_pending e ! k) = cid"
    "nvme_find_slot_context (en_contexts e) (pc_slot (en_pending e ! k)) = Some j" "j < CAP" "en_active e ! j"
    "wc_slot (en_contexts e ! j) = pc_slot (en_pending e ! k)" "wc_inflight_cmds (en_contexts e ! j) \<noteq> 0"
proof -
  let ?s = "pc_slot (en_pending e ! k)"
  note D = core_invD [OF inv]
  have kk: "k < CAP" "pc_valid (en_pending e ! k)" "pc_cid (en_pending e ! k) = cid"
    using first_index_Some [OF k [unfolded nvme_find_pending_by_cid_def]] D(1) by simp_all
  from core_inv_owner [OF inv, of k] kk obtain m where m: "m < CAP" "en_active e ! m" "wc_slot (en_contexts e ! m) = ?s" by auto
  then have "first_index (\<lambda>c. wc_slot c = ?s) (en_contexts e) \<noteq> None"
    using D(2) by (auto simp: first_index_None)
  then obtain j where f: "first_index (\<lambda>c. wc_slot c = ?s) (en_contexts e) = Some j" by auto
  then have j: "j < CAP" "wc_slot (en_contexts e ! j) = ?s" using first_index_Some [OF f] D(2) by simp_all
  have "?s \<noteq> UINT32_MAX" using context_ok_slot core_inv_active [OF inv, of m] m by auto
  then have a: "en_active e ! j" using core_inv_free [OF inv, of j] j context_free_slot by fastforce
  have "length (cmds_of (en_pending e) ?s) \<noteq> 0" using finish_cmds(1) [OF inv, of k] kk by auto
  then have "wc_inflight_cmds (en_contexts e ! j) \<noteq> 0" using core_inv_active [OF inv, of j] a j by (auto simp: context_ok_def)
  with that kk f j a show ?thesis by (simp add: nvme_find_slot_context_def)
qed

lemma finish_cmd_refines:
  assumes aw: "awaiting rc cpl e cl" and k: "nvme_find_pending_by_cid (en_pending e) (cp_cid cpl) = Some k"
    and j: "nvme_find_slot_context (en_contexts e) (pc_slot (en_pending e ! k)) = Some j"
    and e': "core e' = core (finish_cmd (cp_error cpl) k j (cp_cid cpl) e)"
      "en_state e' = NVME_CROSS_SLOT_RUNNING \<longrightarrow> en_state e = NVME_CROSS_SLOT_RUNNING \<and> \<not> cp_error cpl"
  shows "refines e' (snd cl)"
proof -
  obtain l \<sigma> where l: "snd cl = l @ [EvPoll rc cpl]" "0 < rc" "job_trace l \<sigma>" and inv: "core_inv (core e)"
    and m: "jobs_match \<sigma> (core e)" "en_state e = NVME_CROSS_SLOT_RUNNING \<longrightarrow> none_failed \<sigma>"
    using aw by (auto simp: awaiting_def refines_def)
  from find_owner [OF inv k] j obtain "k < CAP" "pc_valid (en_pending e ! k)" "pc_cid (en_pending e ! k) = cp_cid cpl"
    "j < CAP" "en_active e ! j" "wc_slot (en_contexts e ! j) = pc_slot (en_pending e ! k)" "wc_inflight_cmds (en_contexts e ! j) \<noteq> 0"
    by (metis option.inject)
  note kj = this
  let ?c = "en_contexts e ! j"
  have ok: "context_ok (nr_dma_desc_count (en_rt e)) (en_pending e) (en_reqs e ! j) ?c" using core_inv_active [OF inv, of j] kj by simp
  have "unat (wc_inflight_cmds ?c) \<noteq> 0" using kj by simp
  then have lt: "unat (wc_completed_cmds ?c) + unat (wc_failed_cmds ?c) + 1 \<le> unat (wc_submitted_cmds ?c)"
    using ok unfolding context_ok_def by linarith
  have "unat (wc_failed_cmds ?c + (if cp_error cpl then 1 else 0)) + unat (wc_completed_cmds ?c + (if cp_error cpl then 0 else 1)) =
      unat (wc_failed_cmds ?c) + unat (wc_completed_cmds ?c) + 1"
    using lt unat_u32_less [of "wc_submitted_cmds ?c"] by (auto simp: unat_word_ariths simp del: unat_u32_less)
  then have inv': "core_inv (core e')"
    unfolding e'(1) core_finish_cmd using core_finish_inv [OF inv, of k j] kj by simp
  have "\<exists>\<sigma>'. job_step \<sigma> (EvPoll rc cpl) \<sigma>' \<and> jobs_match \<sigma>' (core e') \<and> (none_failed \<sigma> \<and> \<not> cp_error cpl \<longrightarrow> none_failed \<sigma>')"
    unfolding e'(1) core_finish_cmd
    by (rule job_finish [OF inv m(1), of k j, simplified]) (use kj l(2) in simp_all)
  with l inv' m(2) e'(2) show ?thesis unfolding refines_def by (metis trace_step)
qed

lemma handle_completion_refines:
  assumes aw: "awaiting rc cpl e cl" and h: "cross_slot_handle_completion (logged ops) cpl e cl = (r, e', cl')"
  shows "refines e' (snd cl') \<and> (r = 0 \<longrightarrow> en_state e' = en_state e)"
proof (cases "nvme_find_pending_by_cid (en_pending e) (cp_cid cpl)")
  case None
  obtain l \<sigma> where l: "snd cl = l @ [EvPoll rc cpl]" "job_trace l \<sigma>" and inv: "core_inv (core e)" and m: "jobs_match \<sigma> (core e)"
    "en_state e = NVME_CROSS_SLOT_RUNNING \<longrightarrow> none_failed \<sigma>" using aw by (auto simp: awaiting_def refines_def)
  have "\<not> cid_open \<sigma> (cp_cid cpl)"
    using None core_invD(1) [OF inv]
    by (auto simp: cid_open_iff [OF inv m(1)] nvme_find_pending_by_cid_def first_index_None)
  then have "job_trace (snd cl) \<sigma>" unfolding l(1) using l(2) by (intro trace_step [OF _ job_polled]) auto
  with inv m have "refines e (snd cl)" by (auto simp: refines_def)
  with None h show ?thesis by (auto simp: cross_slot_handle_completion_def Let_def elim: refines_core split: if_splits)
next
  case (Some k)
  have inv: "core_inv (core e)" using aw by (auto simp: awaiting_def refines_def)
  from find_owner [OF inv Some] obtain j where j: "k < CAP" "pc_valid (en_pending e ! k)"
    "nvme_find_slot_context (en_contexts e) (pc_slot (en_pending e ! k)) = Some j" "wc_inflight_cmds (en_contexts e ! j) \<noteq> 0" .
  have "en_global_inflight e \<noteq> 0" using finish_cmds(3) [OF inv, of k] j by simp
  obtain t cl1 where t: "diag_now (logged ops) e cl = (t, cl1)" by (cases "diag_now (logged ops) e cl") blast
  let ?e1 = "e\<lparr>en_rt := nvme_record_write_completion (en_pending e ! k) t (en_rt e)\<rparr>"
  have good: "core (finish_cmd b k j (cp_cid cpl) ?e1) = core (finish_cmd b k j (cp_cid cpl) e)" for b
    by (simp add: finish_cmd_def core_def Let_def)
  show ?thesis
  proof (cases "cp_error cpl")
    case True
    then have "e' = cross_slot_fail ''completion_status_error'' (finish_cmd True k j (cp_cid cpl) e)" "r \<noteq> 0" "cl' = cl1"
      using h Some j t \<open>en_global_inflight e \<noteq> 0\<close> by (auto simp: cross_slot_handle_completion_def Let_def)
    then show ?thesis using finish_cmd_refines [OF aw Some j(3), of e'] True diag_now_log [OF t] by simp
  next
    case False
    let ?e2 = "finish_cmd False k j (cp_cid cpl) ?e1"
    have "refines ?e2 (snd cl)" using finish_cmd_refines [OF aw Some j(3), of ?e2] False good
      by (simp add: finish_cmd_def Let_def)
    moreover from this have "cross_slot_validate ?e2 = (0, ?e2)" by (intro validate_ok) (auto simp: refines_def)
    moreover have "en_state ?e2 = en_state e" by (simp add: finish_cmd_def Let_def)
    ultimately show ?thesis
      using h Some j t False \<open>en_global_inflight e \<noteq> 0\<close> diag_now_log [OF t]
      by (auto simp: cross_slot_handle_completion_def Let_def)
  qed
qed

text \<open>Where a part of the step goes on, the engine is still running.\<close>

definition sound :: "flow \<times> NvmeCrossSlotEngine \<times> 'c \<times> nvme_event list \<Rightarrow> bool" where
  "sound out \<longleftrightarrow>
     (case out of (f, e, cl) \<Rightarrow> refines e (snd cl) \<and> ((\<exists>b. f = FGo b) \<longrightarrow> en_state e = NVME_CROSS_SLOT_RUNNING))"

lemma soundI: "refines e (snd cl) \<Longrightarrow> (\<And>b. f = FGo b \<Longrightarrow> en_state e = NVME_CROSS_SLOT_RUNNING) \<Longrightarrow> sound (f, e, cl)"
  by (auto simp: sound_def)

lemma refines_fail: "refines e l \<Longrightarrow> refines (cross_slot_fail reason e) l"
  by (erule refines_core) auto

lemma sound_fail: "refines e (snd cl) \<Longrightarrow> sound (FReturn rc, cross_slot_fail reason e, cl)"
  by (simp add: sound_def refines_fail)

lemma awaiting_log: "awaiting rc cpl e cl \<Longrightarrow> snd cl' = snd cl \<Longrightarrow> awaiting rc cpl e cl'"
  by (simp add: awaiting_def)

lemma awaiting_core:
  assumes "awaiting rc cpl e cl" "core e' = core e" "en_state e' = en_state e"
  shows "awaiting rc cpl e' cl"
  using assms refines_core [of e _ e'] by (auto simp: awaiting_def)

lemma process_completion_refines:
  assumes "awaiting rc cpl e cl" "process_completion (logged ops) t cpl e cl = (r, e', cl')"
  shows "refines e' (snd cl') \<and> (r = 0 \<longrightarrow> en_state e' = en_state e)"
proof -
  obtain r1 e1 cl1 where h: "cross_slot_handle_completion (logged ops) cpl e cl = (r1, e1, cl1)" by (metis prod_cases3)
  from handle_completion_refines [OF assms(1) h] assms(2) h show ?thesis
    by (auto simp: process_completion_def Let_def split: if_splits prod.splits elim: refines_core
        dest!: logged_monotonic)
qed

lemma cq_loop_sound:
  "refines e (snd cl) \<Longrightarrow> en_state e = NVME_CROSS_SLOT_RUNNING \<Longrightarrow> sound (cq_loop n (logged ops) progress e cl)"
proof (induction n arbitrary: progress e cl)
  case (Suc n)
  obtain prc cpl cl1 where p: "op_poll_completion (logged ops) cl = (prc, cpl, cl1)" by (metis prod_cases3)
  obtain t cl2 where t: "op_monotonic_us (logged ops) cl1 = (t, cl2)" by (meson surj_pair)
  note log = logged_monotonic [OF t] and poll = logged_poll [OF p Suc.prems(1)]
  show ?case
  proof (cases "0 < prc")
    case True
    then have "awaiting prc cpl (cross_slot_clear_cq_empty t e) cl2"
      using poll(2) log by (auto intro: awaiting_core awaiting_log)
    moreover obtain r e1 cl3 where pr: "process_completion (logged ops) t cpl (cross_slot_clear_cq_empty t e) cl2 = (r, e1, cl3)"
      by (metis prod_cases3)
    ultimately have "refines e1 (snd cl3)" "r = 0 \<longrightarrow> en_state e1 = NVME_CROSS_SLOT_RUNNING"
      using process_completion_refines Suc.prems(2) by fastforce+
    with Suc p t pr True show ?thesis by (auto simp: sound_def)
  next
    case False
    then have "refines e (snd cl2)" using poll(1) log by simp
    then have "refines (cross_slot_record_cq_empty t e) (snd cl2)" by (rule refines_core) auto
    with \<open>refines e (snd cl2)\<close> Suc.prems False p t show ?thesis by (auto simp: sound_def refines_fail)
  qed
qed (simp add: sound_def)

text \<open>A written slot: the abstract machine reports the job as done.\<close>

lemma core_release_engine: "core (release i e) = core_release i (core e)"
  by (simp add: release_def core_def core_release_def)

lemma slot_written_done:
  assumes ref: "refines e l" "en_state e = NVME_CROSS_SLOT_RUNNING" and i: "i < CAP" "slot_written e i"
  shows "refines (if rc = 0 then release i e else e) (l @ [EvDone (en_reqs e ! i) rc])"
proof -
  obtain \<sigma> where l: "job_trace l \<sigma>" and inv: "core_inv (core e)" and m: "jobs_match \<sigma> (core e)" and nf: "none_failed \<sigma>"
    using ref by (auto simp: refines_def)
  let ?c = "en_contexts e ! i" and ?r = "en_reqs e ! i"
  have w: "en_active e ! i" "wc_next_submit_sector ?c = wc_total_sectors ?c" "wc_inflight_cmds ?c = 0"
    using i(2) by (simp_all add: slot_written_def Let_def)
  have ok: "context_ok (nr_dma_desc_count (en_rt e)) (en_pending e) ?r ?c" using core_inv_active [OF inv, of i] i(1) w(1) by simp
  then have none: "cmds_of (en_pending e) (wc_slot ?c) = []" and slot: "wc_slot ?c = wr_slot ?r" and total: "wc_total_sectors ?c = wr_sectors ?r"
    using w(3) by (auto simp: context_ok_def)
  from jobs_match_job [OF m, of i] i(1) w(1) obtain f where job: "\<sigma> (wc_slot ?c) = Some (job_of (core e) i f)" by auto
  then have "\<not> f" using nf by (fastforce simp: none_failed_def)
  then have step: "job_step \<sigma> (EvDone ?r rc) (if rc = 0 then \<sigma>(wr_slot ?r := None) else \<sigma>)"
    using job w none slot total by (intro job_done [where j = "job_of (core e) i f"]) (simp_all add: cids_of_def)
  show ?thesis
  proof (cases "rc = 0")
    case True
    have "core_inv (core (release i e))" unfolding core_release_engine
      by (rule core_release_inv [OF inv i(1)]) (use w none in simp_all)
    moreover have "jobs_match (\<sigma>(wr_slot ?r := None)) (core (release i e))"
      using job_release [OF inv m i(1)] w(1) slot by (simp add: core_release_engine)
    moreover have "none_failed (\<sigma>(wr_slot ?r := None))" using nf by (auto simp: none_failed_def)
    ultimately show ?thesis using True trace_step [OF l step] by (auto simp: refines_def)
  next
    case False
    then show ?thesis using trace_step [OF l step] inv m nf by (auto simp: refines_def)
  qed
qed

lemma call_done_log:
  "call_done (logged ops) r cl = (rc, cl') \<Longrightarrow> snd cl' = snd cl @ [EvDone r rc]"
  by (cases cl) (auto simp: call_done_def logged_def split: option.splits prod.splits)

lemma release_state [simp]: "en_state (release i e) = en_state e"
  by (simp add: release_def)

lemma done_loop_sound:
  "refines e (snd cl) \<Longrightarrow> en_state e = NVME_CROSS_SLOT_RUNNING \<Longrightarrow> \<forall>i\<in>set is. i < CAP \<Longrightarrow>
     sound (done_loop is (logged ops) progress e cl)"
proof (induction "is" arbitrary: progress e cl)
  case (Cons i "is")
  obtain rc cl1 where d: "call_done (logged ops) (en_reqs e ! i) cl = (rc, cl1)" by (meson surj_pair)
  show ?case
  proof (cases "slot_written e i \<and> wc_failed_cmds (en_contexts e ! i) = 0")
    case True
    then have "refines (if rc = 0 then release i e else e) (snd cl1)"
      using slot_written_done [OF Cons.prems(1,2), of i rc] Cons.prems(3) call_done_log [OF d] by simp
    with True d Cons show ?thesis by (auto simp: sound_def refines_fail split: if_splits)
  next
    case False
    then show ?thesis using Cons by (auto simp: sound_def refines_fail)
  qed
qed (simp add: sound_def)

section \<open>New commands\<close>

lemma alloc_cid_fresh:
  "alloc_cid_loop n ps next_id = (Some cid, next_id') \<Longrightarrow> nvme_find_pending_by_cid ps cid = None"
  by (induction n ps next_id rule: alloc_cid_loop.induct) (auto split: if_splits)

lemma next_submit_loop_Some:
  assumes "next_submit_loop n cs fin count a = Some i" "count \<noteq> 0"
  shows "i < unat count \<and> \<not> fin ! i \<and> wc_next_submit_sector (cs ! i) < wc_total_sectors (cs ! i)"
  using assms(1)
proof (induction n arbitrary: a)
  case (Suc n)
  have "unat (a mod count) < unat count" using assms(2) by (simp add: unat_mod)
  with Suc show ?case by (auto simp: Let_def split: if_splits)
qed simp

lemma find_next_context:
  assumes "nvme_find_next_submit_context (en_contexts e) (map Not (en_active e)) (of_nat CAP) rr = Some (i, rr')"
    "length (en_active e) = CAP"
  shows "i < CAP" "en_active e ! i" "wc_next_submit_sector (en_contexts e ! i) < wc_total_sectors (en_contexts e ! i)"
proof -
  have cap: "unat (of_nat CAP :: u32) = CAP" "(of_nat CAP :: u32) \<noteq> 0" by (simp_all add: NVME_PENDING_CAPACITY_def)
  then show "i < CAP" "en_active e ! i" "wc_next_submit_sector (en_contexts e ! i) < wc_total_sectors (en_contexts e ! i)"
    using assms next_submit_loop_Some [of CAP "en_contexts e" "map Not (en_active e)" "of_nat CAP" rr i]
    by (auto simp: nvme_find_next_submit_context_def split: if_splits)
qed

lemma timed_submit_log:
  assumes "timed_submit (logged ops) p e cl = (src, t, e', cl')"
  shows "snd cl' = snd cl @ [EvSubmit (pc_cid p) (pc_lba p) (pc_sectors p) (pc_ddr_addr p) src]"
    "core e' = core e" "en_state e' = en_state e"
proof -
  obtain t1 cl1 where 1: "diag_now (logged ops) e cl = (t1, cl1)" by (meson surj_pair)
  obtain src' cl2 where 2: "op_submit (logged ops) cl1 (pc_cid p) (pc_lba p) (pc_sectors p) (pc_ddr_addr p) = (src', cl2)" by (meson surj_pair)
  obtain t2 cl3 where 3: "diag_now (logged ops) e cl2 = (t2, cl3)" by (meson surj_pair)
  obtain t3 cl4 where 4: "op_monotonic_us (logged ops) cl3 = (t3, cl4)" by (meson surj_pair)
  have log: "snd cl2 = snd cl1 @ [EvSubmit (pc_cid p) (pc_lba p) (pc_sectors p) (pc_ddr_addr p) src']"
    using 2 by (cases cl1) (auto simp: logged_def split: prod.splits)
  note r = assms [unfolded timed_submit_def 1 2 3 4 prod.case Let_def]
  show "snd cl' = snd cl @ [EvSubmit (pc_cid p) (pc_lba p) (pc_sectors p) (pc_ddr_addr p) src]"
    using r log diag_now_log [OF 1] diag_now_log [OF 3] logged_monotonic [OF 4] by (auto split: if_splits)
  show "core e' = core e" "en_state e' = en_state e" using r by (auto split: if_splits)
qed

text \<open>The situation in which a command is handed to the device: entry \<open>k\<close> is free, context \<open>i\<close> has sectors
  left, and the command has an unused identifier.\<close>

definition submitting :: "NvmeCrossSlotEngine \<Rightarrow> nat \<Rightarrow> nat \<Rightarrow> u64 \<Rightarrow> u16 \<Rightarrow> bool" where
  "submitting e k i limit cid \<longleftrightarrow>
     k < CAP \<and> \<not> pc_valid (en_pending e ! k) \<and> i < CAP \<and> en_active e ! i \<and>
     wc_next_submit_sector (en_contexts e ! i) < wc_total_sectors (en_contexts e ! i) \<and>
     limit \<noteq> 0 \<and> unat limit < 2 ^ 32 \<and> nvme_find_pending_by_cid (en_pending e) cid = None"

lemma mark_submitted_refines:
  assumes ref: "refines e l" and s: "submitting e k i limit cid" and rc: "owned rc"
    and p: "p = build_cmd limit cid (en_contexts e ! i)"
    and e1: "core e1 = (core e)\<lparr>co_pending := (en_pending e)[k := p]\<rparr>" "en_state e1 = en_state e"
  shows "refines (mark_submitted i cid (pc_sectors p) e1) (l @ [EvSubmit cid (pc_lba p) (pc_sectors p) (pc_ddr_addr p) rc])"
proof -
  obtain \<sigma> where l: "job_trace l \<sigma>" and inv: "core_inv (core e)" and m: "jobs_match \<sigma> (core e)"
    and nf: "en_state e = NVME_CROSS_SLOT_RUNNING \<longrightarrow> none_failed \<sigma>" using ref by (auto simp: refines_def)
  let ?c = "(en_contexts e ! i)\<lparr>wc_next_submit_sector := wc_next_submit_sector (en_contexts e ! i) + ucast (pc_sectors p),
        wc_submitted_cmds := wc_submitted_cmds (en_contexts e ! i) + 1, wc_inflight_cmds := wc_inflight_cmds (en_contexts e ! i) + 1\<rparr>"
  let ?x = "core_update k p i ?c ((en_completed_cid_seen e)(cid := False)) (en_global_inflight e + 1) (core e)"
  have core1: "core (mark_submitted i cid (pc_sectors p) e1) = ?x"
    using e1(1) by (simp add: mark_submitted_def core_def core_update_def Let_def)
  have fresh: "pc_cid (en_pending e ! m) \<noteq> cid" if "m < CAP" "pc_valid (en_pending e ! m)" for m
    using s that core_invD(1) [OF inv] by (auto simp: submitting_def nvme_find_pending_by_cid_def first_index_None)
  have inv': "core_inv ?x"
    using core_accept_inv [OF inv, of k i limit p cid ?c] s p fresh by (simp add: submitting_def)
  have "pc_cid p = cid" by (simp add: p build_cmd_def Let_def)
  moreover obtain \<sigma>' where st: "job_step \<sigma> (EvSubmit (pc_cid p) (pc_lba p) (pc_sectors p) (pc_ddr_addr p) rc) \<sigma>'"
    and "jobs_match \<sigma>' ?x" "none_failed \<sigma> \<longrightarrow> none_failed \<sigma>'"
    using job_accept [OF inv m, of k i limit p cid ?c rc "(en_completed_cid_seen e)(cid := False)" "en_global_inflight e + 1"]
      s p fresh rc by (auto simp: submitting_def)
  moreover have "en_state (mark_submitted i cid (pc_sectors p) e1) = en_state e" using e1(2) by (simp add: mark_submitted_def Let_def)
  ultimately show ?thesis using inv' nf trace_step [OF l st] by (intro refinesI [of _ \<sigma>']) (simp_all add: core1)
qed

lemma refused_refines:
  assumes ref: "refines e l" and s: "submitting e k i limit cid" and rc: "\<not> owned rc"
    and p: "p = build_cmd limit cid (en_contexts e ! i)"
    and e1: "core e1 = (core e)\<lparr>co_pending := (en_pending e)[k := p]\<rparr>" "en_state e1 = en_state e"
  shows "refines (set_invalid k e1) (l @ [EvSubmit cid (pc_lba p) (pc_sectors p) (pc_ddr_addr p) rc])"
proof -
  obtain \<sigma> where l: "job_trace l \<sigma>" and inv: "core_inv (core e)" and m: "jobs_match \<sigma> (core e)"
    and nf: "en_state e = NVME_CROSS_SLOT_RUNNING \<longrightarrow> none_failed \<sigma>" using ref by (auto simp: refines_def)
  let ?p = "p\<lparr>pc_valid := False\<rparr>" and ?c = "en_contexts e ! i"
  let ?x = "core_update k ?p i ?c (en_completed_cid_seen e) (en_global_inflight e) (core e)"
  have sl: "pc_slot p = wc_slot ?c" by (simp add: p build_cmd_def Let_def)
  have k: "k < CAP" "\<not> pc_valid (en_pending e ! k)" "i < CAP" "en_active e ! i" using s by (simp_all add: submitting_def)
  have "en_pending e1 = (en_pending e)[k := p]" using arg_cong [OF e1(1), of co_pending] by simp
  then have core1: "core (set_invalid k e1) = ?x"
    using e1(1) k core_invD(1) [OF inv] by (simp add: set_invalid_def core_def core_update_def)
  have "core_inv ?x" "jobs_match \<sigma> ?x" using core_refuse [OF inv, of k i ?p] m k sl by simp_all
  moreover have "en_state (set_invalid k e1) = en_state e" using e1(2) by (simp add: set_invalid_def)
  ultimately show ?thesis using nf by (intro refinesI [OF trace_step [OF l job_refused [OF rc]]]) (simp_all add: core1)
qed

lemma submit_result_sound:
  assumes ref: "refines e l" "en_state e = NVME_CROSS_SLOT_RUNNING" and s: "submitting e k i limit cid"
    and p: "p = build_cmd limit cid (en_contexts e ! i)"
    and e1: "core e1 = (core e)\<lparr>co_pending := (en_pending e)[k := p]\<rparr>" "en_state e1 = en_state e"
    and r: "submit_result k i p src t e1 = (f, e2)"
    and l: "snd cl = l @ [EvSubmit cid (pc_lba p) (pc_sectors p) (pc_ddr_addr p) src]"
  shows "sound (f, e2, cl)"
proof -
  have cid: "pc_cid p = cid" by (simp add: p build_cmd_def Let_def)
  have full: "refines (set_invalid k (record_sq_full t e1)) (snd cl)" "refines (set_invalid k (clear_sq_full t e1)) (snd cl)"
    if "\<not> owned src" unfolding l
    by (rule refused_refines [OF ref(1) s that p]; simp add: e1)+
  have sub: "refines (mark_submitted i cid (pc_sectors p) (clear_sq_full t e1)) (snd cl)" if "owned src"
    unfolding l by (rule mark_submitted_refines [OF ref(1) s that p]) (simp_all add: e1)
  have st: "en_state (set_invalid k x) = en_state x" "en_state (mark_submitted i cid n x) = en_state x" for x n
    by (simp_all add: set_invalid_def mark_submitted_def Let_def)
  from r full sub ref(2) e1(2) show ?thesis
    by (auto simp: submit_result_def Let_def owned_def sound_def refines_fail st cid split: if_splits)
qed

lemma observe_abort_refines:
  assumes "observe_abort (logged ops) e cl = (e', cl')" "refines e (snd cl)"
  shows "refines e' (snd cl')"
proof -
  have "snd cl' = snd cl" "core e' = core e"
    "en_state e' = NVME_CROSS_SLOT_RUNNING \<Longrightarrow> en_state e = NVME_CROSS_SLOT_RUNNING"
    using assms(1)
    by (cases cl; auto simp: observe_abort_def logged_def nvme_cross_slot_engine_request_abort_def Let_def
        split: prod.splits option.splits if_splits)+
  with assms(2) refines_core show ?thesis by metis
qed

lemma refill_one_sound:
  assumes ref: "refines e0 (snd cl0)" and limit: "limit \<noteq> 0" "unat limit < 2 ^ 32"
  shows "sound (refill_one (logged ops) limit e0 cl0)"
proof -
  obtain e cl where o: "observe_abort (logged ops) e0 cl0 = (e, cl)" by (meson surj_pair)
  have r: "refines e (snd cl)" by (rule observe_abort_refines [OF o ref])
  then have inv: "core_inv (core e)" by (rule refinesE)
  show ?thesis
  proof (cases "en_state e = NVME_CROSS_SLOT_RUNNING")
    case False
    then show ?thesis using r o by (simp add: refill_one_def sound_def)
  next
    case run: True
    show ?thesis
    proof (cases "nvme_find_next_submit_context (en_contexts e) (map Not (en_active e)) (of_nat CAP) (en_rr_index e)")
      case None
      then show ?thesis using r o run by (simp add: refill_one_def sound_def)
    next
      case (Some ir)
      obtain i rr where ir: "ir = (i, rr)" by fastforce
      note ictx = find_next_context [OF Some [unfolded ir] core_invD(4) [OF inv, simplified]]
      let ?e1 = "e\<lparr>en_rr_index := rr\<rparr>"
      have r1: "refines ?e1 (snd cl)" using r by (rule refines_core) simp_all
      obtain cid rt1 where a: "nvme_alloc_cid (en_rt e) (en_pending e) = (cid, rt1)" by fastforce
      have rt1: "nr_dma_desc_count rt1 = nr_dma_desc_count (en_rt e)"
        using a by (auto simp: nvme_alloc_cid_def split: prod.splits)
      have r2: "refines (?e1\<lparr>en_rt := rt1\<rparr>) (snd cl)" using r by (rule refines_core) (simp_all add: rt1)
      show ?thesis
      proof (cases "nvme_find_free_pending (en_pending e) = None \<or> cid = None")
        case True
        then show ?thesis using o run Some ir a r1 r2 by (auto simp: refill_one_def Let_def sound_fail split: option.splits)
      next
        case False
        then obtain k c where k: "nvme_find_free_pending (en_pending e) = Some k" "cid = Some c" by auto
        let ?p = "build_cmd limit c (en_contexts e ! i)"
        let ?e2 = "?e1\<lparr>en_rt := rt1, en_pending := (en_pending e)[k := ?p]\<rparr>"
        have sub: "submitting e k i limit c"
          using ictx limit first_index_Some [OF k(1) [unfolded nvme_find_free_pending_def]] core_invD(1) [OF inv] a k(2)
          by (auto simp: submitting_def nvme_alloc_cid_def dest!: alloc_cid_fresh split: prod.splits)
        obtain src t e3 cl3 where ts: "timed_submit (logged ops) ?p ?e2 cl = (src, t, e3, cl3)" by (metis prod_cases4)
        obtain f e4 where sr: "submit_result k i ?p src t e3 = (f, e4)" by fastforce
        have "sound (f, e4, cl3)"
        proof (rule submit_result_sound [OF r run sub refl _ _ sr])
          show "core e3 = (core e)\<lparr>co_pending := (en_pending e)[k := ?p]\<rparr>"
            using timed_submit_log(2) [OF ts] rt1 by (simp add: core_def)
        qed (use timed_submit_log [OF ts] run in \<open>simp_all add: build_cmd_def Let_def\<close>)
        then show ?thesis using o run Some ir a k ts sr by (simp add: refill_one_def Let_def)
      qed
    qed
  qed
qed

lemma refill_loop_sound:
  "refines e (snd cl) \<Longrightarrow> en_state e = NVME_CROSS_SLOT_RUNNING \<Longrightarrow> limit \<noteq> 0 \<Longrightarrow> unat limit < 2 ^ 32 \<Longrightarrow>
     lops = logged ops \<Longrightarrow> sound (refill_loop lops limit progress e cl)"
proof (induction lops limit progress e cl rule: refill_loop.induct)
  case (1 lops limit progress e cl)
  obtain f e1 cl1 where o: "refill_one lops limit e cl = (f, e1, cl1)" by (metis prod_cases3)
  have s: "sound (f, e1, cl1)" using refill_one_sound [OF 1(2) 1(4,5), where ops = ops] o 1(6) by simp
  show ?case
  proof (cases "en_global_inflight e < cc_target_qd (en_config e)")
    case True
    with 1 o s show ?thesis
      by (subst refill_loop.simps) (auto simp: sound_def split: flow.splits bool.splits)
  next
    case False
    with 1 show ?thesis by (subst refill_loop.simps) (simp add: sound_def)
  qed
qed

section \<open>The step\<close>

lemma polled_sound:
  assumes ref: "refines e (snd cl)" "en_state e = NVME_CROSS_SLOT_RUNNING"
    and p: "op_poll_completion (logged ops) cl = (prc, cpl, cl1)" "0 < prc"
    and log: "snd cl2 = snd cl1" and e1: "core e1 = core e" "en_state e1 = en_state e"
    and pr: "process_completion (logged ops) t cpl e1 cl2 = (r, e2, cl3)"
  shows "refines e2 (snd cl3)" "r = 0 \<Longrightarrow> en_state e2 = NVME_CROSS_SLOT_RUNNING"
proof -
  have "awaiting prc cpl e1 cl2"
    using logged_poll(2) [OF p(1) ref(1) p(2)] log e1 by (auto intro: awaiting_core awaiting_log)
  from process_completion_refines [OF this pr] e1 ref(2)
  show "refines e2 (snd cl3)" "r = 0 \<Longrightarrow> en_state e2 = NVME_CROSS_SLOT_RUNNING" by simp_all
qed

lemma busy_loop_sound:
  "refines e (snd cl) \<Longrightarrow> en_state e = NVME_CROSS_SLOT_RUNNING \<Longrightarrow> sound (busy_loop n (logged ops) deadline e cl)"
proof (induction n arbitrary: e cl)
  case (Suc n)
  obtain now cl1 where now: "op_monotonic_us (logged ops) cl = (now, cl1)" by (meson surj_pair)
  obtain prc cpl cl2 where p: "op_poll_completion (logged ops) cl1 = (prc, cpl, cl2)" by (metis prod_cases3)
  obtain t cl3 where t: "op_monotonic_us (logged ops) cl2 = (t, cl3)" by (meson surj_pair)
  have r1: "refines e (snd cl1)" using Suc.prems(1) logged_monotonic [OF now] by simp
  note log = logged_monotonic [OF t]
  show ?case
  proof (cases "0 < prc")
    case True
    obtain r e1 cl4 where pr: "process_completion (logged ops) t cpl (cross_slot_clear_cq_empty t e) cl3 = (r, e1, cl4)"
      by (metis prod_cases3)
    note polled_sound [OF r1 Suc.prems(2) p True log _ _ pr]
    with Suc.prems r1 now p t pr True show ?thesis by (auto simp: sound_def)
  next
    case False
    then have r3: "refines e (snd cl3)" using logged_poll(1) [OF p r1] log by simp
    then have "refines (cross_slot_record_cq_empty t e) (snd cl3)" by (rule refines_core) simp_all
    with Suc.IH Suc.prems r1 r3 now p t False show ?thesis by (auto simp: sound_def refines_fail)
  qed
qed (simp add: sound_def)

lemma last_look_sound:
  assumes ref: "refines e (snd cl)" "en_state e = NVME_CROSS_SLOT_RUNNING"
  shows "sound (last_look (logged ops) e cl)"
proof -
  obtain prc cpl cl1 where p: "op_poll_completion (logged ops) cl = (prc, cpl, cl1)" by (metis prod_cases3)
  obtain t cl2 where t: "op_monotonic_us (logged ops) cl1 = (t, cl2)" by (meson surj_pair)
  show ?thesis
  proof (cases "0 < prc")
    case True
    obtain t' cl2' where t': "diag_now (logged ops) e cl1 = (t', cl2')" by (meson surj_pair)
    obtain r e1 cl3 where pr: "process_completion (logged ops) t' cpl e cl2' = (r, e1, cl3)" by (metis prod_cases3)
    note c = polled_sound [OF ref p True diag_now_log [OF t'] refl refl pr]
    then have "refines (e1\<lparr>en_no_progress_start_us := 0\<rparr>) (snd cl3)" by (auto elim: refines_core)
    with c ref p t' pr True show ?thesis by (auto simp: last_look_def sound_def)
  next
    case False
    then have r: "refines e (snd cl1)" using logged_poll(1) [OF p ref(1)] by simp
    then have "refines (cross_slot_record_cq_empty t e) (snd cl2)" using logged_monotonic [OF t] by (auto elim: refines_core)
    with r ref p t False show ?thesis by (auto simp: last_look_def sound_def refines_fail)
  qed
qed

lemma yield_log [simp]: "snd (yield_once (logged ops) cl) = snd cl"
  by (cases cl) (simp add: yield_once_def logged_def split: option.split)

lemma sleep_log: "op_sleep_us (logged ops) = Some f \<Longrightarrow> snd (f cl us) = snd cl"
  by (cases cl) (auto simp: logged_def)

lemma rest_and_check_sound:
  assumes "refines e (snd cl)" "en_state e = NVME_CROSS_SLOT_RUNNING"
  shows "sound (rest_and_check (logged ops) start_us budget e cl)"
proof -
  have "refines (e\<lparr>en_stats := s\<rparr>) (snd cl)" for s using assms by (auto elim: refines_core)
  with assms show ?thesis
    by (auto simp: rest_and_check_def Let_def sound_def refines_fail sleep_log dest!: logged_monotonic split: prod.splits)
qed

lemma idle_phase_sound:
  assumes ref: "refines e (snd cl)" "en_state e = NVME_CROSS_SLOT_RUNNING"
  shows "sound (idle_phase n (logged ops) start_us budget e cl)"
proof -
  obtain now cl1 where now: "op_monotonic_us (logged ops) cl = (now, cl1)" by (meson surj_pair)
  let ?e1 = "if en_no_progress_start_us e = 0 then e\<lparr>en_no_progress_start_us := now\<rparr> else e"
  have r1: "refines ?e1 (snd cl1)" "en_state ?e1 = NVME_CROSS_SLOT_RUNNING"
    using ref logged_monotonic [OF now] by (auto elim: refines_core)
  obtain f e2 cl2 where b: "busy_loop n (logged ops) (now + ucast (cc_busy_poll_us (en_config e))) ?e1 cl1 = (f, e2, cl2)"
    by (metis prod_cases3)
  have s: "sound (f, e2, cl2)" using busy_loop_sound [OF r1, of n ops] b by metis
  obtain g e3 cl3 where ll: "last_look (logged ops) e2 (yield_once (logged ops) cl2) = (g, e3, cl3)" by (metis prod_cases3)
  have "sound (g, e3, cl3)" if "f = FGo False"
    using last_look_sound [of e2 "yield_once (logged ops) cl2" ops] s that ll by (auto simp: sound_def)
  moreover from this have "sound (rest_and_check (logged ops) start_us budget e3 cl3)" if "f = FGo False" "g = FGo False"
    using that by (intro rest_and_check_sound) (auto simp: sound_def)
  moreover have "f = FGo True \<Longrightarrow> refines (e2\<lparr>en_no_progress_start_us := 0\<rparr>) (snd cl2)"
    using s by (auto simp: sound_def elim: refines_core)
  ultimately show ?thesis using now b ll s
    by (auto simp: idle_phase_def Let_def sound_def split: flow.splits bool.splits)
qed

lemma progress_phase_sound:
  assumes "refines e (snd cl)" "en_state e = NVME_CROSS_SLOT_RUNNING"
  shows "sound (progress_phase (logged ops) start_us budget e cl)"
proof -
  have "refines (e\<lparr>en_no_progress_start_us := 0\<rparr>) (snd cl)" using assms by (auto elim: refines_core)
  moreover obtain t cl1 where t: "op_monotonic_us (logged ops) cl = (t, cl1)" by (meson surj_pair)
  ultimately show ?thesis using assms(2) logged_monotonic [OF t]
    by (simp add: progress_phase_def Let_def sound_def t split: prod.split)
qed

lemma work_phase_sound:
  assumes ref: "refines e0 (snd cl0)" and limit: "limit \<noteq> 0" "unat limit < 2 ^ 32"
  shows "sound (work_phase (logged ops) limit e0 cl0)"
proof -
  obtain e cl where o: "observe_abort (logged ops) e0 cl0 = (e, cl)" by (meson surj_pair)
  have r: "refines e (snd cl)" by (rule observe_abort_refines [OF o ref])
  show ?thesis
  proof (cases "en_state e = NVME_CROSS_SLOT_RUNNING")
    case True
    obtain f e2 cl2 where q: "cq_loop (unat (cc_cq_batch (en_config e))) (logged ops) False e cl = (f, e2, cl2)" by (metis prod_cases3)
    have s2: "sound (f, e2, cl2)" using cq_loop_sound [OF r True] q by metis
    have "sound (done_loop [0..<CAP] (logged ops) b e2 cl2)" if "f = FGo b" for b
      using s2 that by (intro done_loop_sound) (auto simp: sound_def)
    moreover have "sound (refill_loop (logged ops) limit b e3 cl3)" if "sound (FGo b, e3, cl3)" for b e3 cl3
      using that limit by (intro refill_loop_sound) (auto simp: sound_def)
    moreover have "cross_slot_validate e = (0, e)" using r by (auto elim: refinesE intro: validate_ok)
    ultimately show ?thesis using o True q s2
      by (auto simp: work_phase_def split: flow.splits prod.splits)
  next
    case False
    then show ?thesis using o r by (simp add: work_phase_def sound_def)
  qed
qed

lemma step_loop_sound:
  "refines e (snd cl) \<Longrightarrow> limit \<noteq> 0 \<Longrightarrow> unat limit < 2 ^ 32 \<Longrightarrow>
     step_loop n (logged ops) limit start_us budget e cl = (f, e', cl') \<Longrightarrow> refines e' (snd cl')"
proof (induction n arbitrary: e cl)
  case (Suc n)
  show ?case
  proof (cases "en_active_count e = 0")
    case False
    obtain g e1 cl1 where w: "work_phase (logged ops) limit e cl = (g, e1, cl1)" by (metis prod_cases3)
    have s: "sound (g, e1, cl1)" using work_phase_sound [OF Suc.prems(1-3), of ops] w by simp
    let ?go = "\<lambda>b. if b then progress_phase (logged ops) start_us budget e1 cl1 else idle_phase n (logged ops) start_us budget e1 cl1"
    have go: "sound (?go b)" if "g = FGo b" for b
      using s that by (auto simp: sound_def [of "(_, e1, cl1)"] intro!: progress_phase_sound idle_phase_sound)
    show ?thesis
    proof (cases g)
      case (FGo b)
      obtain h e2 cl2 where h: "?go b = (h, e2, cl2)" by (metis prod_cases3)
      then have "refines e2 (snd cl2)" using go [OF FGo] by (simp add: sound_def)
      with Suc.IH [OF _ Suc.prems(2,3)] Suc.prems(4) False w FGo h show ?thesis
        by (auto split: flow.splits bool.splits)
    qed (use Suc.prems(4) False w s in \<open>auto simp: sound_def\<close>)
  qed (use Suc.prems in simp)
qed simp

lemma step_refines:
  assumes "refines e (snd cl)" "nvme_cross_slot_engine_step n (logged ops) budget e cl = (f, e', cl')"
  shows "refines e' (snd cl')"
proof (cases "en_state e = NVME_CROSS_SLOT_RUNNING")
  case True
  let ?limit = "if nr_cmd_sectors (en_rt e) \<noteq> 0 then ucast (nr_cmd_sectors (en_rt e)) else 512 :: u64"
  have limit: "?limit \<noteq> 0" "unat ?limit < 2 ^ 32"
    using unat_ucast_u32 [of "nr_cmd_sectors (en_rt e)"] by (auto simp del: unat_ucast_u32)
  obtain t cl1 where t: "op_monotonic_us (logged ops) cl = (t, cl1)" by (meson surj_pair)
  let ?e1 = "e\<lparr>en_rt := nvme_update_active_qd (en_global_inflight e) t (en_rt e)\<rparr>"
  have r1: "refines ?e1 (snd cl1)" using assms(1) logged_monotonic [OF t] by (auto elim: refines_core)
  obtain g e2 cl2 where l: "step_loop n (logged ops) ?limit t (if budget \<noteq> 0 then budget else cc_writer_budget_us (en_config e)) ?e1 cl1 = (g, e2, cl2)"
    by (metis prod_cases3)
  have r2: "refines e2 (snd cl2)" by (rule step_loop_sound [OF r1 limit l])
  then have "refines (e2\<lparr>en_rt := nvme_update_active_qd q t' (en_rt e2)\<rparr>) (snd cl2)" for q t' by (auto elim: refines_core)
  with r2 True t l assms(2) show ?thesis
    by (auto simp: nvme_cross_slot_engine_step_def Let_def dest!: logged_monotonic split: flow.splits prod.splits)
next
  case False
  then show ?thesis using assms by (simp add: nvme_cross_slot_engine_step_def)
qed

section \<open>The other calls\<close>

lemma refines_empty:
  assumes "job_trace l Map.empty" "core_inv (core e)"
    "core e' = (core e)\<lparr>co_pending := replicate CAP pending_zero, co_active := replicate CAP False,
       co_contexts := replicate CAP context_free, co_reqs := replicate CAP req_zero, co_inflight := 0, co_active_count := 0\<rparr>"
  shows "refines e' l"
  using assms(1) core_discard_inv [OF assms(2)]
  by (intro refinesI [of _ Map.empty]) (simp_all add: assms(3) jobs_match_def none_failed_def)

lemma create_refines:
  assumes "nvme_cross_slot_engine_create_with_ops_config ok rt config = Some e" "nr_dma_desc_count rt \<noteq> 0"
  shows "refines e []"
proof (rule refinesI [OF trace_start])
  show "core_inv (core e)"
    using assms by (intro core_invI) (auto simp: nvme_cross_slot_engine_create_with_ops_config_def pending_zero_def split: if_splits)
  show "jobs_match Map.empty (core e)"
    using assms(1) by (auto simp: nvme_cross_slot_engine_create_with_ops_config_def jobs_match_def split: if_splits)
qed (simp add: none_failed_def)

lemma not_refused:
  assumes "add_refusal e req = None" "nr_dma_desc_count (en_rt e) \<noteq> 0"
  shows "wr_slot req < nr_dma_desc_count (en_rt e)"
    "\<not> list_ex (\<lambda>(a, r). a \<and> wr_slot r = wr_slot req) (zip (en_active e) (en_reqs e))"
  using assms unfolding add_refusal_def Let_def by (metis not_le option.distinct(1))+

lemma no_duplicate:
  assumes "\<not> list_ex (\<lambda>(a, r). a \<and> wr_slot r = s) (zip as rs)" "k < length as" "k < length rs" "as ! k"
  shows "wr_slot (rs ! k) \<noteq> s"
proof -
  have "(as ! k, rs ! k) \<in> set (zip as rs)" using assms(2,3) by (metis length_zip min_less_iff_conj nth_mem nth_zip)
  then show ?thesis using assms(1,4) by (auto simp: list_ex_iff)
qed

lemma add_refines:
  assumes ref: "refines e l" and r: "nvme_cross_slot_engine_add req e = (rc, e')" and small: "unat (wr_sectors req) < 2 ^ 32"
  shows "refines e' (if rc = 0 then l @ [EvAdd req] else l)"
proof (cases "add_refusal e req = None \<and> wr_sectors req \<noteq> 0 \<and> wr_bytes req \<noteq> 0 \<and> nvme_cross_slot_engine_can_accept e \<and>
    (\<exists>i. first_index Not (en_active e) = Some i)")
  case True
  from ref obtain \<sigma> where l: "job_trace l \<sigma>" and inv: "core_inv (core e)" and m: "jobs_match \<sigma> (core e)"
    and nf: "en_state e = NVME_CROSS_SLOT_RUNNING \<longrightarrow> none_failed \<sigma>" by (auto simp: refines_def)
  note D = core_invD [OF inv]
  from True obtain i where f: "first_index Not (en_active e) = Some i" by blast
  then have i: "i < CAP" "\<not> en_active e ! i" using first_index_Some [OF f] D(4) by simp_all
  let ?c = "context_zero\<lparr>wc_slot := wr_slot req, wc_base_lba := wr_start_lba req, wc_base_ddr_addr := wr_hw_addr req,
      wc_total_sectors := wr_sectors req, wc_total_bytes := wr_bytes req\<rparr>"
  have some_slot: "nr_dma_desc_count (en_rt e) \<noteq> 0" using D(5) by simp
  have slot: "wr_slot req < nr_dma_desc_count (en_rt e)" by (rule not_refused(1) [OF conjunct1 [OF True] some_slot])
  have fresh: "wr_slot (en_reqs e ! k) \<noteq> wr_slot req" if "k < CAP" "en_active e ! k" for k
    by (rule no_duplicate [OF not_refused(2) [OF conjunct1 [OF True] some_slot]]) (use that D(3,4) in simp_all)
  have core: "core (activate i req e) = core_activate i req ?c (core e)" by (simp add: activate_def core_def core_activate_def)
  have "cmds_of (en_pending e) (wr_slot req) = []" using core_free_slot(2) [OF inv, of "wr_slot req"] slot fresh by simp
  then have "context_ok (nr_dma_desc_count (en_rt e)) (en_pending e) req ?c"
    using slot small by (simp add: context_ok_def context_zero_def)
  then have inv': "core_inv (core (activate i req e))" unfolding core
    using True by (intro core_activate_inv [OF inv]) (simp_all add: i slot fresh nvme_cross_slot_engine_can_accept_def)
  have "job_step \<sigma> (EvAdd req) (\<sigma>(wr_slot req \<mapsto> new_job req)) \<and> jobs_match (\<sigma>(wr_slot req \<mapsto> new_job req)) (core (activate i req e)) \<and>
      (none_failed \<sigma> \<longrightarrow> none_failed (\<sigma>(wr_slot req \<mapsto> new_job req)))"
    unfolding core by (rule job_activate [OF inv m]) (simp_all add: i slot fresh context_zero_def)
  moreover have "(rc, e') = (0, activate i req e)"
    using r True f validate_ok [OF inv'] by (auto simp: nvme_cross_slot_engine_add_def nvme_cross_slot_engine_can_accept_def split: if_splits)
  ultimately show ?thesis using inv' nf trace_step [OF l]
    by (auto intro!: refinesI [of _ "\<sigma>(wr_slot req \<mapsto> new_job req)"] simp: activate_def)
next
  case False
  then have "rc \<noteq> 0 \<and> (e' = e \<or> (\<exists>reason. e' = cross_slot_fail reason e))"
    using r by (auto simp: nvme_cross_slot_engine_add_def split: if_splits option.splits)
  then show ?thesis using ref refines_fail by auto
qed

lemma request_abort_refines: "refines e l \<Longrightarrow> refines (nvme_cross_slot_engine_request_abort reason e) l"
  by (erule refines_core) (auto simp: nvme_cross_slot_engine_request_abort_def Let_def split: if_splits)

section \<open>Draining\<close>

lemma fail_state_eq:
  "en_state e \<noteq> NVME_CROSS_SLOT_RUNNING \<Longrightarrow> en_state (cross_slot_fail_code code reason e) = en_state e"
  by (simp add: cross_slot_fail_code_def Let_def)

lemma handle_completion_state:
  "cross_slot_handle_completion ops cpl e c = (r, e', c') \<Longrightarrow> en_state e \<noteq> NVME_CROSS_SLOT_RUNNING \<Longrightarrow> en_state e' = en_state e"
  by (auto simp: cross_slot_handle_completion_def Let_def cross_slot_fail_def fail_state_eq finish_cmd_def cross_slot_validate_def
      split: option.splits prod.splits if_splits)

lemma drain_pause_log [simp]: "snd (drain_pause (logged ops) e cl) = snd cl"
  by (cases cl) (auto simp: drain_pause_def logged_def Let_def split: option.split)

lemma drain_loop_refines:
  "refines e (snd cl) \<Longrightarrow> en_state e \<noteq> NVME_CROSS_SLOT_RUNNING \<Longrightarrow> drain_loop n (logged ops) d e cl = (f, e', cl') \<Longrightarrow>
     refines e' (snd cl') \<and> en_state e' = en_state e"
proof (induction n arbitrary: e cl)
  case (Suc n)
  obtain now cl1 where now: "op_monotonic_us (logged ops) cl = (now, cl1)" by (meson surj_pair)
  obtain rc cpl cl2 where p: "op_poll_completion (logged ops) cl1 = (rc, cpl, cl2)" by (metis prod_cases3)
  obtain r e1 cl3 where h: "cross_slot_handle_completion (logged ops) cpl e cl2 = (r, e1, cl3)" by (metis prod_cases3)
  have r1: "refines e (snd cl1)" using Suc.prems(1) logged_monotonic [OF now] by simp
  show ?case
  proof (cases "0 < rc")
    case True
    have h1: "refines e1 (snd cl3)" "en_state e1 = en_state e"
      using handle_completion_refines [OF logged_poll(2) [OF p r1 True] h] handle_completion_state [OF h] Suc.prems(2) by auto
    show ?thesis using Suc.prems h1 now p h True r1 Suc.IH [of e1 cl3] Suc.IH [of e1 "drain_pause (logged ops) e1 cl3"]
      by (auto split: if_splits)
  next
    case False
    then show ?thesis using Suc.prems now p r1 logged_poll(1) [OF p r1] Suc.IH [of e "drain_pause (logged ops) e cl2"]
      by (auto split: if_splits)
  qed
qed simp

lemma no_cid_open:
  assumes "core_inv (core e)" "jobs_match \<sigma> (core e)" "en_global_inflight e = 0"
  shows "\<not> cid_open \<sigma> cid"
proof -
  have "filter pc_valid (en_pending e) = []" using core_invD(6) [OF assms(1)] assms(3) by simp
  then show ?thesis using core_invD(1) [OF assms(1)]
    by (auto simp: cid_open_iff [OF assms(1,2)] filter_empty_conv)
qed

lemma core_discard:
  "core (cross_slot_discard_contexts e) = (core e)\<lparr>co_pending := replicate CAP pending_zero, co_active := replicate CAP False,
     co_contexts := replicate CAP context_free, co_reqs := replicate CAP req_zero, co_inflight := 0, co_active_count := 0\<rparr>"
  by (simp add: core_def cross_slot_discard_contexts_def)

text \<open>What the last part leaves: everything is discarded and the jobs are over, or the state is failed.\<close>

lemma drain_finish_refines:
  assumes ref: "refines e (snd cl)" and f: "drain_finish (logged ops) e cl = (rc, e', cl')"
  shows "refines e' (snd cl' @ (if en_state e' = NVME_CROSS_SLOT_QUIESCED then [EvDiscard] else []))"
proof -
  from ref obtain \<sigma> where l: "job_trace (snd cl) \<sigma>" and inv: "core_inv (core e)" and m: "jobs_match \<sigma> (core e)" by (rule refinesE)
  have over: "job_trace (k @ [EvDiscard]) Map.empty" if "job_trace k \<sigma>'" "\<And>cid. \<not> cid_open \<sigma>' cid" for k \<sigma>'
    using that by (intro trace_step [OF _ job_discard])
  show ?thesis
  proof (cases "en_global_inflight e = 0")
    case True
    have "refines e' (snd cl @ [EvDiscard])"
      using over [OF l no_cid_open [OF inv m True]] inv f True
      by (intro refines_empty [of _ e]) (auto simp: drain_finish_def core_discard)
    with f True show ?thesis by (auto simp: drain_finish_def)
  next
    case False
    show ?thesis
    proof (cases "op_reset (logged ops)")
      case None
      then show ?thesis using f False ref by (auto simp: drain_finish_def Let_def elim: refines_core)
    next
      case (Some g)
      obtain r cl1 where g: "g cl = (r, cl1)" by (meson surj_pair)
      have log: "snd cl1 = snd cl @ [EvReset r]"
        using Some g by (cases cl) (auto simp: logged_def split: prod.splits)
      have t: "job_trace (snd cl1) (if r = 0 then Map.empty else \<sigma>)" unfolding log by (rule trace_step [OF l job_reset])
      have "refines (e\<lparr>en_state := NVME_CROSS_SLOT_FAILED\<rparr>) (snd cl1)" if "r \<noteq> 0"
        using t that inv m by (intro refinesI [of _ \<sigma>]) auto
      moreover have "refines ((cross_slot_discard_contexts (e\<lparr>en_state := st\<rparr>))\<lparr>en_state := st'\<rparr>) (snd cl1 @ [EvDiscard])" if "r = 0" for st st'
        using over [of "snd cl1" Map.empty] t that inv
        by (intro refines_empty [of _ e]) (auto simp: cid_open_def core_discard)
      ultimately show ?thesis using f False Some g by (auto simp: drain_finish_def Let_def split: if_splits)
    qed
  qed
qed

lemma drain_abort_refines:
  assumes ref: "refines e (snd cl)" and d: "nvme_cross_slot_engine_drain_abort n (logged ops) deadline e cl = (f, e', cl')"
  shows "refines e' (snd cl' @ drain_events e e')"
proof -
  let ?e0 = "nvme_cross_slot_engine_request_abort ''abort_requested'' e"
  let ?e1 = "?e0\<lparr>en_state := NVME_CROSS_SLOT_DRAINING_INFLIGHT\<rparr>"
  have r0: "refines ?e0 (snd cl)" using ref by (rule request_abort_refines)
  then have r1: "refines ?e1 (snd cl)" by (auto elim: refines_core)
  have same: "en_state ?e0 = NVME_CROSS_SLOT_QUIESCED \<longleftrightarrow> en_state e = NVME_CROSS_SLOT_QUIESCED"
    by (auto simp: nvme_cross_slot_engine_request_abort_def Let_def)
  obtain g e2 cl2 where l: "drain_loop n (logged ops) deadline ?e1 cl = (g, e2, cl2)" by (metis prod_cases3)
  note r2 = drain_loop_refines [OF r1 _ l]
  obtain rc e3 cl3 where fin: "drain_finish (logged ops) e2 cl2 = (rc, e3, cl3)" by (metis prod_cases3)
  note r3 = drain_finish_refines [OF _ fin]
  show ?thesis using d r0 r2 r3 l fin same
    by (auto simp: nvme_cross_slot_engine_drain_abort_def Let_def drain_events_def split: if_splits flow.splits)
qed

section \<open>All calls\<close>

lemma do_call_refines:
  assumes "refines e (snd cl)" "\<And>r. x = CallAdd r \<Longrightarrow> unat (wr_sectors r) < 2 ^ 32" "do_call (logged ops) x e cl = (e', cl')"
  shows "refines e' (snd cl')"
proof (cases x)
  case (CallAdd r)
  then show ?thesis using assms add_refines [OF assms(1), of r] by (cases cl) (auto split: prod.splits)
next
  case (CallStep n budget)
  then show ?thesis using assms(3) step_refines [OF assms(1), of n ops budget] by (cases cl) (auto split: prod.splits)
next
  case (CallAbort reason)
  then show ?thesis using assms request_abort_refines by (cases cl) auto
next
  case (CallDrain n deadline)
  then show ?thesis using assms(3) drain_abort_refines [OF assms(1), of n ops deadline] by (cases cl) (fastforce split: prod.splits)
qed

lemma engine_run_refines:
  "refines e (snd cl) \<Longrightarrow> (\<And>r. CallAdd r \<in> set xs \<Longrightarrow> unat (wr_sectors r) < 2 ^ 32) \<Longrightarrow>
     engine_run (logged ops) xs e cl = (e', cl') \<Longrightarrow> refines e' (snd cl')"
proof (induction xs arbitrary: e cl)
  case (Cons x xs)
  obtain e1 cl1 where d: "do_call (logged ops) x e cl = (e1, cl1)" by (meson surj_pair)
  have "refines e1 (snd cl1)" by (rule do_call_refines [OF Cons.prems(1) _ d]) (use Cons.prems(2) in auto)
  with Cons d show ?case by simp
qed simp

end
