(* ===== verification/Nvme_Promises.thy ===== *)
theory Nvme_Promises
  imports Nvme_Refine
begin

text \<open>
  What the writer may rely on when it uses the cross-slot engine: the calls of every run are a trace of the
  abstract machine, a slot reported as written has every sector on the device, the consistency check never
  stops a run, and draining ends.
\<close>

section \<open>A reported slot is written\<close>

text \<open>Sector \<open>q\<close> of request \<open>r\<close> was handed over from its place in memory to its place on the device, and the
  command came back without an error.\<close>

definition handed_over :: "nvme_event list \<Rightarrow> NvmeWriteSlotReq \<Rightarrow> nat \<Rightarrow> nat \<Rightarrow> u16 \<Rightarrow> bool" where
  "handed_over l r q a cid \<longleftrightarrow>
     a < length l \<and> (\<exists>next n rc. owned rc \<and> unat next \<le> q \<and> q < unat next + unat n \<and>
       l ! a = EvSubmit cid (wr_start_lba r + next) n (wr_hw_addr r + next * NVME_SECTOR_BYTES) rc)"

definition came_back :: "nvme_event list \<Rightarrow> nat \<Rightarrow> u16 \<Rightarrow> bool" where
  "came_back l a cid \<longleftrightarrow>
     (\<exists>b rc cpl. a < b \<and> b < length l \<and> l ! b = EvPoll rc cpl \<and> 0 < rc \<and> cp_cid cpl = cid \<and> \<not> cp_error cpl)"

definition sector_written :: "nvme_event list \<Rightarrow> NvmeWriteSlotReq \<Rightarrow> nat \<Rightarrow> bool" where
  "sector_written l r q \<longleftrightarrow> (\<exists>a cid. handed_over l r q a cid \<and> came_back l a cid)"

lemma handed_over_append: "handed_over l r q a cid \<Longrightarrow> handed_over (l @ l') r q a cid"
  by (auto simp: handed_over_def nth_append)

lemma came_back_append: "came_back l a cid \<Longrightarrow> came_back (l @ l') a cid"
  unfolding came_back_def by (metis length_append nth_append trans_less_add1)

lemma came_back_now:
  "a < length l \<Longrightarrow> 0 < rc \<Longrightarrow> \<not> cp_error cpl \<Longrightarrow> came_back (l @ [EvPoll rc cpl]) a (cp_cid cpl)"
  unfolding came_back_def by (intro exI [of _ "length l"]) simp

definition job_covered :: "nvme_event list \<Rightarrow> slot_job \<Rightarrow> bool" where
  "job_covered l j \<longleftrightarrow> jb_failed j \<or>
     (\<forall>q<unat (jb_next j). \<exists>a cid. handed_over l (jb_req j) q a cid \<and> (cid \<in> jb_open j \<or> came_back l a cid))"

lemma job_covered_append:
  assumes "job_covered l j"
  shows "job_covered (l @ l') j"
  using assms handed_over_append came_back_append unfolding job_covered_def by metis

lemma job_covered_submit:
  assumes c: "job_covered l j" and bound: "unat (jb_next j) + unat n \<le> unat (wr_sectors (jb_req j))" and o: "owned rc"
  shows "job_covered (l @ [EvSubmit cid (wr_start_lba (jb_req j) + jb_next j) n
      (wr_hw_addr (jb_req j) + jb_next j * NVME_SECTOR_BYTES) rc])
    (j\<lparr>jb_next := jb_next j + ucast n, jb_open := insert cid (jb_open j)\<rparr>)" (is "job_covered ?l ?j")
proof (cases "jb_failed j")
  case False
  have "unat (jb_next j) + unat (ucast n :: u64) < 2 ^ LENGTH(64)"
    using bound unat_u64_less [of "wr_sectors (jb_req j)"] by (simp del: unat_u64_less)
  then have len: "unat (jb_next j + ucast n) = unat (jb_next j) + unat n" by (simp add: unat_add_le)
  have "\<exists>a c. handed_over ?l (jb_req j) q a c \<and> (c \<in> insert cid (jb_open j) \<or> came_back ?l a c)"
    if q: "q < unat (jb_next j) + unat n" for q
  proof (cases "q < unat (jb_next j)")
    case True
    then obtain a c' where "handed_over l (jb_req j) q a c'" "c' \<in> jb_open j \<or> came_back l a c'"
      using c False by (auto simp: job_covered_def)
    then show ?thesis using handed_over_append came_back_append by blast
  next
    case False
    then have "handed_over ?l (jb_req j) q (length l) cid" using q o by (auto simp: handed_over_def not_less)
    then show ?thesis by blast
  qed
  then show ?thesis by (simp add: job_covered_def len)
qed (simp add: job_covered_def)

lemma job_covered_completed:
  assumes c: "job_covered l j" and rc: "0 < rc"
  shows "job_covered (l @ [EvPoll rc cpl]) (j\<lparr>jb_open := jb_open j - {cp_cid cpl}, jb_failed := jb_failed j \<or> cp_error cpl\<rparr>)"
proof (cases "jb_failed j \<or> cp_error cpl")
  case False
  have "\<exists>a c. handed_over (l @ [EvPoll rc cpl]) (jb_req j) q a c \<and>
      (c \<in> jb_open j - {cp_cid cpl} \<or> came_back (l @ [EvPoll rc cpl]) a c)" if "q < unat (jb_next j)" for q
  proof -
    from c that False obtain a c' where h: "handed_over l (jb_req j) q a c'" "c' \<in> jb_open j \<or> came_back l a c'"
      by (auto simp: job_covered_def)
    moreover from h(1) have "a < length l" by (simp add: handed_over_def)
    ultimately show ?thesis using handed_over_append came_back_append came_back_now [of a l rc cpl] rc False by blast
  qed
  then show ?thesis by (simp add: job_covered_def)
qed (simp add: job_covered_def)

lemma trace_covered:
  "job_trace l \<sigma> \<Longrightarrow> \<sigma> s = Some j \<Longrightarrow> job_covered l j"
proof (induction arbitrary: s j rule: job_trace.induct)
  case (trace_step l \<sigma> ev \<sigma>')
  have keep: "job_covered (l @ [ev]) j'" if "\<sigma> s' = Some j'" for s' j' using trace_step.IH [OF that] by (rule job_covered_append)
  from trace_step.hyps(2) show ?case
  proof cases
    case (job_add r)
    then show ?thesis using trace_step.prems keep by (auto simp: job_covered_def new_job_def split: if_splits)
  next
    case (job_submit s' j' cid n lba ddr rc)
    with trace_step.prems keep trace_step.IH [OF job_submit(3)] show ?thesis
      by (auto intro: job_covered_submit split: if_splits)
  next
    case (job_completed rc s' j' cpl)
    with trace_step.prems keep trace_step.IH [OF job_completed(4)] show ?thesis
      by (auto intro: job_covered_completed split: if_splits)
  qed (use trace_step.prems keep in \<open>auto split: if_splits\<close>)
qed simp

lemma trace_prefix: "job_trace (l1 @ l2) \<sigma> \<Longrightarrow> \<exists>\<sigma>'. job_trace l1 \<sigma>'"
proof (induction l2 arbitrary: \<sigma> rule: rev_induct)
  case (snoc ev l2)
  from snoc.prems show ?case by (cases rule: job_trace.cases) (auto dest: snoc.IH)
qed auto

inductive_cases job_step_doneE: "job_step \<sigma> (EvDone r rc) \<sigma>'"

lemma done_written:
  assumes "job_trace (l1 @ EvDone r rc # l2) \<sigma>" "q < unat (wr_sectors r)"
  shows "sector_written l1 r q"
proof -
  from trace_prefix [of "l1 @ [EvDone r rc]" l2] assms(1) obtain \<sigma>2 where "job_trace (l1 @ [EvDone r rc]) \<sigma>2" by auto
  then obtain \<sigma>1 where 1: "job_trace l1 \<sigma>1" "job_step \<sigma>1 (EvDone r rc) \<sigma>2" by (cases rule: job_trace.cases) auto
  from 1(2) obtain j where "\<sigma>1 (wr_slot r) = Some j" "jb_req j = r" "jb_next j = wr_sectors r" "jb_open j = {}" "\<not> jb_failed j"
    by (rule job_step_doneE)
  with trace_covered [OF 1(1)] assms(2) show ?thesis by (fastforce simp: job_covered_def sector_written_def)
qed

section \<open>A device that answers every command\<close>

definition mock_ops :: "(u64 \<times> u16 list) NvmeCrossSlotOps" where
  "mock_ops =
     \<lparr>op_submit = (\<lambda>(t, q) cid lba n ddr. (0, t, q @ [cid])),
      op_poll_completion = (\<lambda>(t, q). case q of [] \<Rightarrow> (0, \<lparr>cp_cid = 0, cp_error = False\<rparr>, t, [])
                                        | cid # q' \<Rightarrow> (1, \<lparr>cp_cid = cid, cp_error = False\<rparr>, t, q')),
      op_monotonic_us = (\<lambda>(t, q). (t, t, q)), op_sleep_us = Some (\<lambda>(t, q) us. (if t < 100 then t + 1 else t, q)), op_yield_cpu = None,
      op_reset = None, op_done = None, op_producer = (\<lambda>c. (None, c))\<rparr>"

definition mock_request :: NvmeWriteSlotReq where
  "mock_request = \<lparr>wr_slot = 3, wr_start_lba = 4096, wr_sectors = 600, wr_hw_addr = 65536, wr_bytes = 307200,
     wr_chunk_index = 0, wr_file_offset = 0, wr_media_bytes = 0\<rparr>"

definition mock_engine :: NvmeCrossSlotEngine where
  "mock_engine = the (nvme_cross_slot_engine_create_with_ops_config True mock_runtime mock_config)"

lemma mock_created: "nvme_cross_slot_engine_create_with_ops_config True mock_runtime mock_config = Some mock_engine"
  by (simp add: mock_engine_def nvme_cross_slot_engine_create_with_ops_config_def mock_config_def NVME_PENDING_CAPACITY_def)

definition mock_calls :: "engine_call list" where
  "mock_calls = [CallAdd mock_request, CallStep 8 0]"

text \<open>The two commands of the request, their completions and the report.\<close>

lemma mock_run:
  "snd (snd (engine_run (logged mock_ops) mock_calls mock_engine ((1, []), []))) =
     [EvAdd mock_request, EvSubmit 1 4096 512 65536 0, EvSubmit 2 4608 88 327680 0,
      EvPoll 1 \<lparr>cp_cid = 1, cp_error = False\<rparr>, EvPoll 1 \<lparr>cp_cid = 2, cp_error = False\<rparr>, EvDone mock_request 0]"
  by code_simp

section \<open>Runs of the engine\<close>

lemma created_run:
  assumes "nvme_cross_slot_engine_create_with_ops_config ok rt config = Some e0" "nr_dma_desc_count rt \<noteq> 0"
    "\<And>r. CallAdd r \<in> set calls \<Longrightarrow> unat (wr_sectors r) < 2 ^ 32"
    "engine_run (logged ops) calls e0 (c, []) = (e, c', l)"
  shows "refines e l"
  using engine_run_refines [of e0 "(c, [])" calls ops e "(c', l)"] create_refines [OF assms(1,2)] assms(3,4) by simp

lemma mock_small: "CallAdd r \<in> set mock_calls \<Longrightarrow> unat (wr_sectors r) < 2 ^ 32"
  by (auto simp: mock_calls_def mock_request_def)

lemma mock_slots: "nr_dma_desc_count mock_runtime \<noteq> 0"
  by (simp add: mock_runtime_def)

text \<open>C4. Whatever the device, the clock, the callback and the other thread do, and in whatever order the writer
  adds slots, steps, aborts and drains, the calls the cross-slot engine makes are a trace of the abstract machine
  of one job per slot, and the contexts and the table of pending commands of the engine are the jobs of that
  machine. A request covers fewer than 2^32 sectors, so that the 32-bit command counters of its context cannot
  wrap, and the ring has at least one slot.\<close>

theorem nvme_engine_refines_jobs:
  assumes "nvme_cross_slot_engine_create_with_ops_config ok rt config = Some e0" "nr_dma_desc_count rt \<noteq> 0"
    "\<And>r. CallAdd r \<in> set calls \<Longrightarrow> unat (wr_sectors r) < 2 ^ 32"
    "engine_run (logged ops) calls e0 (c, []) = (e, c', l)"
  shows "\<exists>\<sigma>. job_trace l \<sigma> \<and> jobs_match \<sigma> (core e)"
  using created_run [OF assms] by (auto simp: refines_def)

theorem nvme_engine_refines_jobs_witness:
  "\<exists>\<sigma>. job_trace (snd (snd (engine_run (logged mock_ops) mock_calls mock_engine ((1, []), [])))) \<sigma> \<and>
     jobs_match \<sigma> (core (fst (engine_run (logged mock_ops) mock_calls mock_engine ((1, []), []))))"
proof -
  obtain e c' l where run: "engine_run (logged mock_ops) mock_calls mock_engine ((1, []), []) = (e, c', l)" by (metis prod_cases3)
  show ?thesis using nvme_engine_refines_jobs [OF mock_created mock_slots mock_small run] by (simp add: run)
qed

text \<open>C3. When the cross-slot engine reports a slot as written, every sector of the request has been handed to
  the device from its place in memory to its place behind the start address, and the command that carried it
  has come back without an error, all before the report. As in the refinement, a request covers fewer than 2^32
  sectors and the ring has at least one slot.\<close>

theorem nvme_done_means_written:
  assumes "nvme_cross_slot_engine_create_with_ops_config ok rt config = Some e0" "nr_dma_desc_count rt \<noteq> 0"
    "\<And>r. CallAdd r \<in> set calls \<Longrightarrow> unat (wr_sectors r) < 2 ^ 32"
    "engine_run (logged ops) calls e0 (c, []) = (e, c', l)" "l = before @ EvDone r rc # after" "q < unat (wr_sectors r)"
  shows "sector_written before r q"
proof -
  from created_run [OF assms(1-4)] obtain \<sigma> where "job_trace l \<sigma>" by (auto simp: refines_def)
  then show ?thesis using done_written assms(5,6) by blast
qed

theorem nvme_done_means_written_witness:
  "sector_written [EvAdd mock_request, EvSubmit 1 4096 512 65536 0, EvSubmit 2 4608 88 327680 0,
      EvPoll 1 \<lparr>cp_cid = 1, cp_error = False\<rparr>, EvPoll 1 \<lparr>cp_cid = 2, cp_error = False\<rparr>] mock_request 599"
proof -
  obtain e c' l where run: "engine_run (logged mock_ops) mock_calls mock_engine ((1, []), []) = (e, c', l)" by (metis prod_cases3)
  then have "l = [EvAdd mock_request, EvSubmit 1 4096 512 65536 0, EvSubmit 2 4608 88 327680 0,
      EvPoll 1 \<lparr>cp_cid = 1, cp_error = False\<rparr>, EvPoll 1 \<lparr>cp_cid = 2, cp_error = False\<rparr>] @ EvDone mock_request 0 # []"
    using mock_run by simp
  from nvme_done_means_written [OF mock_created mock_slots mock_small run this, of 599] show ?thesis
    by (simp add: mock_request_def)
qed

text \<open>C5. On a ring with at least one slot, and with requests of fewer than 2^32 sectors each, the consistency check of
  the cross-slot engine succeeds on every state the engine can reach: the counters of the contexts, the number of
  commands in flight, the identifiers of the pending commands and the number of active slots always agree, so no such
  run is stopped by a false alarm. Both conditions are needed for the proof and met by the program's own runs, whose
  slots are far smaller and whose ring is refused without descriptors: a request of 2^32 commands would wrap its
  32-bit command counters, and without a slot count the engine would accept a slot number it uses for free
  contexts.\<close>

theorem nvme_engine_consistent:
  assumes "nvme_cross_slot_engine_create_with_ops_config ok rt config = Some e0" "nr_dma_desc_count rt \<noteq> 0"
    "\<And>r. CallAdd r \<in> set calls \<Longrightarrow> unat (wr_sectors r) < 2 ^ 32"
    "engine_run (logged ops) calls e0 (c, []) = (e, c', l)"
  shows "validate_reason e = None"
  using validate_none created_run [OF assms] by (auto simp: refines_def)

theorem nvme_engine_consistent_witness:
  "validate_reason (fst (engine_run (logged mock_ops) mock_calls mock_engine ((1, []), []))) = None"
proof -
  obtain e c' l where run: "engine_run (logged mock_ops) mock_calls mock_engine ((1, []), []) = (e, c', l)" by (metis prod_cases3)
  show ?thesis using nvme_engine_consistent [OF mock_created mock_slots mock_small run] by (simp add: run)
qed

section \<open>Draining ends\<close>

text \<open>
  A clock that runs: \<open>tick\<close> is the time that has passed, in a unit of which \<open>res\<close> make a microsecond. No call
  turns it back, and a reading takes at least one tick and shows the time in microseconds, as long as the deadline is
  not reached. Sleeping and yielding need not take any time.
\<close>

definition clock_runs :: "'c NvmeCrossSlotOps \<Rightarrow> ('c \<Rightarrow> nat) \<Rightarrow> nat \<Rightarrow> u64 \<Rightarrow> bool" where
  "clock_runs ops tick res deadline \<longleftrightarrow>
     0 < res \<and>
     (\<forall>c t c'. op_monotonic_us ops c = (t, c') \<longrightarrow>
        tick c \<le> tick c' \<and> (t < deadline \<longrightarrow> tick c < tick c' \<and> unat t = tick c' div res)) \<and>
     (\<forall>c rc cpl c'. op_poll_completion ops c = (rc, cpl, c') \<longrightarrow> tick c \<le> tick c') \<and>
     (\<forall>f c. op_yield_cpu ops = Some f \<longrightarrow> tick c \<le> tick (f c)) \<and>
     (\<forall>f c us. op_sleep_us ops = Some f \<longrightarrow> tick c \<le> tick (f c us))"

lemma clock_monotonic:
  assumes "clock_runs ops tick res d" "op_monotonic_us ops c = (t, c')"
  shows "tick c \<le> tick c'"
  using assms by (auto simp: clock_runs_def)

lemma clock_before_deadline:
  assumes "clock_runs ops tick res d" "op_monotonic_us ops c = (t, c')" "t < d"
  shows "tick c < tick c'" "tick c' < res * unat d"
proof -
  have r: "0 < res" "tick c < tick c'" "unat t = tick c' div res" using assms by (auto simp: clock_runs_def)
  then show "tick c < tick c'" by simp
  have "tick c' div res < unat d" using assms(3) r(3) by (simp add: word_less_nat_alt)
  then show "tick c' < res * unat d" using r(1) by (simp add: div_less_iff_less_mult mult.commute)
qed

lemma clock_pause: "clock_runs ops tick res d \<Longrightarrow> tick c \<le> tick (drain_pause ops e c)"
  unfolding clock_runs_def drain_pause_def Let_def by (auto split: option.split) (meson order_trans)

lemma handle_completion_clock:
  assumes "cross_slot_handle_completion ops cpl e c = (r, e', c')" "clock_runs ops tick res d"
  shows "tick c \<le> tick c'"
  using assms
  by (auto simp: cross_slot_handle_completion_def Let_def cross_slot_fail_def cross_slot_fail_code_def finish_cmd_def
      cross_slot_validate_def diag_now_def dest!: clock_monotonic [OF assms(2)]
      split: option.splits prod.splits if_splits)

lemma drain_loop_ends:
  assumes clock: "clock_runs ops tick res deadline"
  shows "res * unat deadline - tick c < n \<Longrightarrow> \<exists>b e' c'. drain_loop n ops deadline e c = (FGo b, e', c')"
proof (induction n arbitrary: e c)
  case (Suc n)
  obtain now c1 where now: "op_monotonic_us ops c = (now, c1)" by (meson surj_pair)
  obtain rc cpl c2 where p: "op_poll_completion ops c1 = (rc, cpl, c2)" by (metis prod_cases3)
  obtain r e1 c3 where h: "cross_slot_handle_completion ops cpl e c2 = (r, e1, c3)" by (metis prod_cases3)
  show ?case
  proof (cases "en_global_inflight e = 0 \<or> \<not> now < deadline \<or> rc < 0")
    case True
    then show ?thesis using now p by auto
  next
    case False
    then have t: "tick c < tick c1" "tick c1 < res * unat deadline" using clock_before_deadline [OF clock now] by auto
    have "tick c1 \<le> tick c2" using clock p by (auto simp: clock_runs_def)
    moreover have "tick c2 \<le> tick c3" by (rule handle_completion_clock [OF h clock])
    moreover note clock_pause [OF clock, of c2 e] clock_pause [OF clock, of c3 e1]
    ultimately have fit: "res * unat deadline - tick c3 < n" "res * unat deadline - tick (drain_pause ops e1 c3) < n"
        "res * unat deadline - tick (drain_pause ops e c2) < n"
      using t Suc.prems by linarith+
    show ?thesis using False now p h Suc.IH [OF fit(1)] Suc.IH [OF fit(2)] Suc.IH [OF fit(3)] by auto
  qed
qed simp

lemma discarded_quiesced: "nvme_cross_slot_engine_is_quiesced ((cross_slot_discard_contexts e)\<lparr>en_state := st\<rparr>)"
  by (auto simp: nvme_cross_slot_engine_is_quiesced_def cross_slot_discard_contexts_def list_all_iff Let_def pending_zero_def
      context_free_def context_zero_def)

lemma drain_finish_result:
  "drain_finish ops e c = (rc, e', c') \<Longrightarrow>
     (rc = 0 \<and> nvme_cross_slot_engine_is_quiesced e' \<and> en_state e' = NVME_CROSS_SLOT_QUIESCED) \<or> (rc = -1 \<and> en_state e' = NVME_CROSS_SLOT_FAILED)"
  by (auto simp: drain_finish_def Let_def discarded_quiesced split: if_splits option.splits prod.splits)

text \<open>C6. Draining the cross-slot engine returns, whatever the device answers and whether or not the engine sleeps or yields
  while it waits, provided the clock runs: every iteration reads the clock, so as many iterations as there are ticks
  left until the deadline are enough. For an engine that has not ended before, with result 0 nothing is pending and
  every context is free; otherwise the engine has failed for good.\<close>

theorem nvme_drain_returns:
  assumes "clock_runs ops tick res deadline" "res * unat deadline - tick c < fuel"
    "en_state e \<noteq> NVME_CROSS_SLOT_QUIESCED" "en_state e \<noteq> NVME_CROSS_SLOT_FAILED"
  shows "\<exists>rc e' c'. nvme_cross_slot_engine_drain_abort fuel ops deadline e c = (FReturn rc, e', c') \<and>
    ((rc = 0 \<and> nvme_cross_slot_engine_is_quiesced e' \<and> en_state e' = NVME_CROSS_SLOT_QUIESCED) \<or>
     (rc = -1 \<and> en_state e' = NVME_CROSS_SLOT_FAILED))"
proof -
  let ?e0 = "nvme_cross_slot_engine_request_abort ''abort_requested'' e"
  let ?e1 = "?e0\<lparr>en_state := NVME_CROSS_SLOT_DRAINING_INFLIGHT\<rparr>"
  have "en_state ?e0 \<noteq> NVME_CROSS_SLOT_QUIESCED" "en_state ?e0 \<noteq> NVME_CROSS_SLOT_FAILED"
    using assms(3,4) by (simp_all add: nvme_cross_slot_engine_request_abort_def Let_def)
  moreover obtain b e2 c2 where l: "drain_loop fuel ops deadline ?e1 c = (FGo b, e2, c2)"
    using drain_loop_ends [OF assms(1,2)] by blast
  moreover obtain rc e3 c3 where f: "drain_finish ops e2 c2 = (rc, e3, c3)" by (metis prod_cases3)
  ultimately show ?thesis using drain_finish_result [OF f] by (auto simp: nvme_cross_slot_engine_drain_abort_def Let_def)
qed

text \<open>
  A device that answers the first command only after a while, and an engine that neither sleeps nor yields,
  with two commands in flight.
\<close>

definition slow_ops :: "(u64 \<times> u16 list) NvmeCrossSlotOps" where
  "slow_ops =
     \<lparr>op_submit = (\<lambda>(t, q) cid lba n ddr. (0, t, q @ [cid])),
      op_poll_completion = (\<lambda>(t, q). if t < 20 \<or> q = [] then (0, \<lparr>cp_cid = 0, cp_error = False\<rparr>, t, q)
                                     else (1, \<lparr>cp_cid = hd q, cp_error = False\<rparr>, t, tl q)),
      op_monotonic_us = (\<lambda>(t, q). let t' = if t < 50 then t + 1 else t in (t', t', q)), op_sleep_us = None, op_yield_cpu = None,
      op_reset = None, op_done = None, op_producer = (\<lambda>c. (None, c))\<rparr>"

definition busy_engine :: NvmeCrossSlotEngine where
  "busy_engine = fst (engine_run (logged slow_ops) [CallAdd mock_request, CallStep 1 0]
     (the (nvme_cross_slot_engine_create_with_ops_config True mock_runtime (mock_config\<lparr>cc_empty_sleep_us := 0\<rparr>))) ((1, []), []))"

lemma slow_clock: "clock_runs slow_ops (\<lambda>(t, q). unat t) 1 50"
proof -
  have "unat t < unat (t + 1)" if "t < (50 :: u64)" for t using unat_inc_below [OF that] by simp
  then show ?thesis unfolding clock_runs_def slow_ops_def by (auto simp: Let_def not_less split: if_splits intro: less_imp_le)
qed

theorem nvme_drain_returns_witness:
  "en_global_inflight busy_engine = 2 \<and> cc_empty_sleep_us (en_config busy_engine) = 0 \<and>
   (\<exists>rc e' c'. nvme_cross_slot_engine_drain_abort 60 slow_ops 50 busy_engine (3, [1, 2]) = (FReturn rc, e', c') \<and>
    ((rc = 0 \<and> nvme_cross_slot_engine_is_quiesced e' \<and> en_state e' = NVME_CROSS_SLOT_QUIESCED) \<or>
     (rc = -1 \<and> en_state e' = NVME_CROSS_SLOT_FAILED)))"
proof -
  have e: "en_global_inflight busy_engine = 2" "cc_empty_sleep_us (en_config busy_engine) = 0"
      "en_state busy_engine = NVME_CROSS_SLOT_RUNNING" by code_simp+
  show ?thesis using nvme_drain_returns [OF slow_clock, of "(3, [1, 2])" 60 busy_engine] e by simp
qed

end
