(* ===== verification/Write_Queue.thy ===== *)
theory Write_Queue
  imports Slot_Table Ring_View Storage_Worker Storage_Writer Event_Ring Dma_Ring Nvme_Engine
begin

text \<open>
  The queue between the producer thread and the writer thread of one channel, \<^verbatim>\<open>StorageWriteQueue\<close> of
  \<^verbatim>\<open>ccb_commands.c\<close>: harvested slots on their way to the NVMe device, the ownership table of the slots, the
  lifecycle of the worker and the error latch. The mutex makes each operation one atomic step; what wakes
  the other thread is left out, waiting is an outcome. The runtime of the channel appears in two parts,
  the one of \<open>Dma_Ring\<close> and the one of \<open>Nvme_Engine\<close>. The engine itself belongs to the writer; the queue
  only knows whether it is published.
\<close>

section \<open>State\<close>

record PendingDdrSlot =
  pd_slot :: u32
  pd_bytes :: u64
  pd_media_bytes :: u64
  pd_chunk_index :: u64
  pd_file_offset :: u64
  pd_start_lba :: u64
  pd_sectors :: u64
  pd_hw_addr :: u64

datatype StorageQueuePopResult =
    STORAGE_QUEUE_POP_ERROR
  | STORAGE_QUEUE_POP_TEMP_EMPTY
  | STORAGE_QUEUE_POP_ITEM
  | STORAGE_QUEUE_POP_PRODUCER_DRAINED
  | STORAGE_QUEUE_POP_NOT_ATTEMPTED

record StorageWriteQueue =
  wq_rt :: ChannelRuntime
  wq_nvme :: NvmeRuntime
  wq_channel :: u16
  wq_items :: "PendingDdrSlot list option"
  wq_slots :: StorageSlotTable
  wq_producer_event_ring :: StorageEventRing
  wq_writer_event_ring :: StorageEventRing
  wq_capacity :: u32
  wq_head :: u32
  wq_tail :: u32
  wq_count :: u32
  wq_ready_depth_sum :: u64
  wq_ready_depth_samples :: u64
  wq_ready_depth_max :: u32
  wq_max_busy_count :: u32
  wq_buffered_bytes :: u64
  wq_max_buffered_bytes :: u64
  wq_bytes_written :: u64
  wq_nvme_write_us :: u64
  wq_writer_idle_us :: u64
  wq_queue_empty_wait_us :: u64
  wq_writer_active_us :: u64
  wq_ready_q_nonempty_us :: u64
  wq_writer_drain_loop_count :: u64
  wq_writer_slots_drained :: u64
  wq_queued_slot_count :: u64
  wq_completed_slot_count :: u64
  wq_recycled_slot_count :: u64
  wq_writer_schedule_gap_count :: u64
  wq_writer_schedule_gap_max_us :: u64
  wq_cross_stats :: NvmeCrossSlotStats
  wq_writer_no_progress_sleep_count :: u64
  wq_writer_budget_override_us :: u32
  wq_writer_rt_enabled :: bool
  wq_writer_rt_policy :: int
  wq_writer_rt_prio :: u32
  wq_backlog_mode :: bool
  wq_chunks :: u32
  wq_file_index :: u32
  wq_metadata_slot :: int
  wq_task_no :: string
  wq_cross_slot_qd :: bool
  wq_cross_slot_batch :: u32
  wq_cross_slot_config :: NvmeCrossSlotConfig
  wq_nvme_abort_timeout_us :: u64
  wq_worker_state :: StorageWorkerState
  wq_writer_ready :: bool
  wq_producer_ready :: bool
  wq_requeue_enabled :: bool
  wq_error :: bool
  wq_error_reason :: string
  wq_deferred_stop_error :: StorageErrorCode
  wq_deferred_stop_reason :: string
  wq_nvme_engine_quiesced :: bool
  wq_nvme_engine :: bool

record StorageQueueSnapshot =
  qs_ready_depth_current :: u32
  qs_ready_depth_avg :: u32
  qs_ready_depth_max :: u32
  qs_free_slots :: u32
  qs_dma_writable_slots :: u32
  qs_completed_unharvested_slots :: u32
  qs_ready_for_nvme_slots :: u32
  qs_nvme_busy_slots :: u32
  qs_requeue_pending_slots :: u32
  qs_busy_count :: u32
  qs_buffered_bytes :: u64
  qs_writer_idle_us :: u64
  qs_queue_empty_wait_us :: u64
  qs_writer_active_us :: u64
  qs_ready_q_nonempty_us :: u64
  qs_writer_drain_loop_count :: u64
  qs_writer_slots_drained :: u64
  qs_queued_slot_count :: u64
  qs_completed_slot_count :: u64
  qs_recycled_slot_count :: u64
  qs_writer_schedule_gap_count :: u64
  qs_writer_schedule_gap_max_us :: u64
  qs_writer_no_progress_sleep_count :: u64
  qs_writer_rt_enabled :: bool
  qs_writer_rt_policy :: int
  qs_writer_rt_prio :: u32

text \<open>The flags of the process the threads and the signal handler share.\<close>

record StorageGlobals =
  g_storage_stop_requested :: bool
  g_storage_control_drain_latched :: bool
  g_storage_control_stop_latched :: bool
  g_storage_fatal_event_sent :: bool
  g_storage_stop_epoch :: u64

definition storage_write_reset_stop :: "StorageGlobals \<Rightarrow> StorageGlobals" where
  "storage_write_reset_stop g =
     \<lparr>g_storage_stop_requested = False, g_storage_control_drain_latched = False,
      g_storage_control_stop_latched = False, g_storage_fatal_event_sent = False, g_storage_stop_epoch = 0\<rparr>"

definition storage_write_request_stop :: "StorageGlobals \<Rightarrow> StorageGlobals" where
  "storage_write_request_stop g = g\<lparr>g_storage_stop_requested := True\<rparr>"

definition storage_write_fatal_event_sent :: "StorageGlobals \<Rightarrow> bool" where
  "storage_write_fatal_event_sent g = g_storage_fatal_event_sent g"

definition storage_write_finalize_requested :: "StorageGlobals \<Rightarrow> bool" where
  "storage_write_finalize_requested g \<longleftrightarrow> g_storage_control_stop_latched g \<or> g_storage_stop_requested g"

definition storage_write_stop_requested :: "StorageGlobals \<Rightarrow> bool" where
  "storage_write_stop_requested g = g_storage_stop_requested g"

definition bytes_to_sectors :: "u64 \<Rightarrow> u64" where
  "bytes_to_sectors bytes = bytes div 512 + (if bytes mod 512 \<noteq> 0 then 1 else 0)"

section \<open>Transitions and the error latch\<close>

definition storage_queue_slot_counts_valid_locked :: "StorageWriteQueue \<Rightarrow> bool" where
  "storage_queue_slot_counts_valid_locked q \<longleftrightarrow>
     wq_count q \<le> wq_capacity q \<and> wq_capacity q = st_capacity (wq_slots q) \<and> storage_slot_table_valid (wq_slots q)"

definition storage_queue_transition_locked ::
  "StorageWriteQueue \<Rightarrow> StorageWorkerState \<Rightarrow> StorageWorkerState \<Rightarrow> int \<times> StorageWriteQueue" where
  "storage_queue_transition_locked q expected next =
     (case storage_worker_transition (wq_worker_state q) expected next of
        (rc, s) \<Rightarrow> if rc \<noteq> 0 then (-1, q\<lparr>wq_error := True\<rparr>) else (0, q\<lparr>wq_worker_state := s\<rparr>))"

definition storage_queue_fail_locked :: "StorageWriteQueue \<Rightarrow> StorageWriteQueue" where
  "storage_queue_fail_locked q =
     (let current = wq_worker_state q;
          q1 = (if current \<noteq> WORKER_DONE \<and> current \<noteq> WORKER_FAILED
                then q\<lparr>wq_worker_state := snd (storage_worker_transition current current WORKER_FAILED)\<rparr> else q)
      in q1\<lparr>wq_error := True\<rparr>)"

definition storage_local_slot_transition_locked ::
  "StorageWriteQueue \<Rightarrow> u32 \<Rightarrow> StorageSlotState \<Rightarrow> StorageSlotState \<Rightarrow> int \<times> StorageWriteQueue" where
  "storage_local_slot_transition_locked q slot expected next =
     (case storage_slot_transition (wq_slots q) slot expected next of
        (rc, t) \<Rightarrow> let q1 = q\<lparr>wq_slots := t\<rparr> in if rc \<noteq> 0 then (-1, q1\<lparr>wq_error := True\<rparr>) else (0, q1))"

definition storage_mark_harvest_slot_failed :: "StorageWriteQueue \<Rightarrow> u32 \<Rightarrow> StorageWriteQueue" where
  "storage_mark_harvest_slot_failed q slot =
     (if wq_capacity q \<le> slot then q
      else let q1 = (if storage_slot_state (wq_slots q) slot = STORAGE_SLOT_DMA_WRITABLE
                     then snd (storage_local_slot_transition_locked q slot STORAGE_SLOT_DMA_WRITABLE
                                 STORAGE_SLOT_DMA_COMPLETED_UNHARVESTED)
                     else q)
           in q1\<lparr>wq_error := True\<rparr>)"

definition storage_release_harvested_slot :: "StorageWriteQueue \<Rightarrow> u32 \<Rightarrow> int \<times> StorageWriteQueue" where
  "storage_release_harvested_slot q slot =
     (if wq_capacity q \<le> slot then (-1, q)
      else storage_local_slot_transition_locked q slot STORAGE_SLOT_DMA_WRITABLE STORAGE_SLOT_FREE)"

definition storage_ring_event :: "u64 \<Rightarrow> StorageEventRing \<Rightarrow> u32 \<Rightarrow> u16 \<Rightarrow> u64 \<Rightarrow> u64 \<Rightarrow> bool \<Rightarrow> StorageEventRing" where
  "storage_ring_event now ring event_id channel arg0 arg1 fatal =
     storage_event_ring_push ring
       (event_zero\<lparr>er_timestamp_us := now, er_event_id := event_id, er_channel := channel, er_arg0 := arg0,
                   er_arg1 := arg1\<rparr>) fatal"

abbreviation STORAGE_EVENT_NVME_SUBMIT_STALL :: u32 where "STORAGE_EVENT_NVME_SUBMIT_STALL \<equiv> 9"
abbreviation STORAGE_EVENT_NVME_CQ_STALL :: u32 where "STORAGE_EVENT_NVME_CQ_STALL \<equiv> 10"
abbreviation STORAGE_EVENT_WRITER_SCHEDULE_GAP :: u32 where "STORAGE_EVENT_WRITER_SCHEDULE_GAP \<equiv> 11"
abbreviation STORAGE_EVENT_WORKER_FATAL :: u32 where "STORAGE_EVENT_WORKER_FATAL \<equiv> 15"
abbreviation STORAGE_EVENT_STOP_DRAINED :: u32 where "STORAGE_EVENT_STOP_DRAINED \<equiv> 16"

section \<open>Creation\<close>

definition queue_zero :: "ChannelRuntime \<Rightarrow> NvmeRuntime \<Rightarrow> u16 \<Rightarrow> NvmeCrossSlotConfig \<Rightarrow> StorageWriteQueue" where
  "queue_zero rt nrt channel config =
     \<lparr>wq_rt = rt, wq_nvme = nrt, wq_channel = channel, wq_items = None, wq_slots = slot_table_zero,
      wq_producer_event_ring = ring_zero, wq_writer_event_ring = ring_zero, wq_capacity = 0, wq_head = 0, wq_tail = 0,
      wq_count = 0, wq_ready_depth_sum = 0, wq_ready_depth_samples = 0, wq_ready_depth_max = 0,
      wq_max_busy_count = 0, wq_buffered_bytes = 0, wq_max_buffered_bytes = 0, wq_bytes_written = 0,
      wq_nvme_write_us = 0, wq_writer_idle_us = 0, wq_queue_empty_wait_us = 0, wq_writer_active_us = 0,
      wq_ready_q_nonempty_us = 0, wq_writer_drain_loop_count = 0, wq_writer_slots_drained = 0,
      wq_queued_slot_count = 0, wq_completed_slot_count = 0, wq_recycled_slot_count = 0,
      wq_writer_schedule_gap_count = 0, wq_writer_schedule_gap_max_us = 0, wq_cross_stats = stats_zero,
      wq_writer_no_progress_sleep_count = 0, wq_writer_budget_override_us = 0,
      wq_writer_rt_enabled = False, wq_writer_rt_policy = 0, wq_writer_rt_prio = 0, wq_backlog_mode = False, wq_chunks = 0,
      wq_file_index = 0, wq_metadata_slot = 0, wq_task_no = [], wq_cross_slot_qd = False, wq_cross_slot_batch = 0,
      wq_cross_slot_config = config, wq_nvme_abort_timeout_us = 0, wq_worker_state = WORKER_INIT,
      wq_writer_ready = False, wq_producer_ready = False, wq_requeue_enabled = False, wq_error = False,
      wq_error_reason = [], wq_deferred_stop_error = STORAGE_ERR_NONE, wq_deferred_stop_reason = [],
      wq_nvme_engine_quiesced = False, wq_nvme_engine = False\<rparr>"

definition pending_slot_zero :: PendingDdrSlot where
  "pending_slot_zero = \<lparr>pd_slot = 0, pd_bytes = 0, pd_media_bytes = 0, pd_chunk_index = 0, pd_file_offset = 0,
     pd_start_lba = 0, pd_sectors = 0, pd_hw_addr = 0\<rparr>"

text \<open>The five flags say whether the allocations of the items, the slot table and the two event rings and the
  initialisation of the mutex and the condition variables succeed; \<open>ring_size\<close> and \<open>backlog\<close> come from the
  environment.\<close>

definition storage_queue_init ::
  "bool \<times> bool \<times> bool \<times> bool \<times> bool \<Rightarrow> u32 \<Rightarrow> bool \<Rightarrow> NvmeCrossSlotConfig \<Rightarrow> ChannelRuntime \<Rightarrow> NvmeRuntime \<Rightarrow> u16
     \<Rightarrow> u32 \<Rightarrow> int \<Rightarrow> string \<Rightarrow> bool \<Rightarrow> u32 \<Rightarrow> StorageWriteQueue option" where
  "storage_queue_init oks ring_size backlog config rt nrt channel file_index metadata_slot task_no cross_slot_qd
      cross_slot_batch =
     (case oks of (items_ok, table_ok, producer_ok, writer_ok, sync_ok) \<Rightarrow>
        if rt_dma_desc_count rt = 0 then None
        else case storage_slot_table_init table_ok slot_table_zero (rt_dma_desc_count rt) of
               (rc, table) \<Rightarrow>
                 if \<not> items_ok \<or> rc \<noteq> 0 then None
                 else case (storage_event_ring_init producer_ok ring_size, storage_event_ring_init writer_ok ring_size) of
                        (Some producer_ring, Some writer_ring) \<Rightarrow>
                          if \<not> sync_ok then None
                          else Some ((queue_zero rt nrt channel config)
                            \<lparr>wq_items := Some (replicate (unat (rt_dma_desc_count rt)) pending_slot_zero),
                             wq_slots := table, wq_capacity := rt_dma_desc_count rt,
                             wq_producer_event_ring := producer_ring, wq_writer_event_ring := writer_ring,
                             wq_file_index := file_index, wq_metadata_slot := metadata_slot, wq_task_no := task_no,
                             wq_cross_slot_qd := cross_slot_qd, wq_cross_slot_batch := cross_slot_batch,
                             wq_nvme_engine_quiesced := True, wq_requeue_enabled := True,
                             wq_worker_state := WORKER_INIT, wq_backlog_mode := backlog\<rparr>)
                      | _ \<Rightarrow> None)"

text \<open>A queue whose engine may still be used by the device is kept.\<close>

definition storage_queue_destroy :: "StorageWriteQueue \<Rightarrow> StorageWriteQueue" where
  "storage_queue_destroy q =
     (if \<not> wq_nvme_engine_quiesced q then q
      else q\<lparr>wq_items := None, wq_slots := storage_slot_table_destroy (wq_slots q),
             wq_producer_event_ring := storage_event_ring_destroy (wq_producer_event_ring q),
             wq_writer_event_ring := storage_event_ring_destroy (wq_writer_event_ring q)\<rparr>)"

section \<open>Producer side\<close>

definition storage_queue_record_depth_locked :: "StorageWriteQueue \<Rightarrow> StorageWriteQueue" where
  "storage_queue_record_depth_locked q =
     q\<lparr>wq_ready_depth_sum := wq_ready_depth_sum q + ucast (wq_count q),
       wq_ready_depth_samples := wq_ready_depth_samples q + 1,
       wq_ready_depth_max := (if wq_ready_depth_max q < wq_count q then wq_count q else wq_ready_depth_max q)\<rparr>"

text \<open>The tests on one item; \<open>batch_bytes\<close> are the bytes of the items before it, \<open>seen\<close> their slots.\<close>

definition item_rejected :: "StorageWriteQueue \<Rightarrow> u64 \<Rightarrow> u32 list \<Rightarrow> PendingDdrSlot \<Rightarrow> bool" where
  "item_rejected q batch_bytes seen x \<longleftrightarrow>
     (let desc_bytes = ucast (rt_dma_desc_bytes (wq_rt q)) :: u64; base = rt_ddr_hw_base (wq_rt q);
          expected_sectors = bytes_to_sectors (pd_bytes x);
          expected_hw_addr = base + ucast (pd_slot x) * desc_bytes
      in pd_bytes x = 0 \<or> desc_bytes < pd_bytes x \<or> pd_sectors x = 0 \<or> wq_capacity q \<le> pd_slot x \<or>
         storage_slot_state (wq_slots q) (pd_slot x) \<noteq> STORAGE_SLOT_DMA_WRITABLE \<or>
         (UINT64_MAX - base) div desc_bytes < ucast (pd_slot x) \<or>
         pd_media_bytes x = 0 \<or> desc_bytes < pd_media_bytes x \<or> pd_media_bytes x \<noteq> expected_sectors * 512 \<or>
         pd_sectors x \<noteq> expected_sectors \<or> UINT64_MAX - pd_sectors x < pd_start_lba x \<or>
         (nr_max_lba (wq_nvme q) \<noteq> 0 \<and> \<not> nvme_lba_range_valid (wq_nvme q) (pd_start_lba x) (pd_sectors x)) \<or>
         pd_hw_addr x \<noteq> expected_hw_addr \<or> UINT64_MAX - pd_media_bytes x < pd_hw_addr x \<or>
         UINT64_MAX - rt_dma_ring_bytes (wq_rt q) < base \<or>
         base + rt_dma_ring_bytes (wq_rt q) < pd_hw_addr x + pd_media_bytes x \<or>
         UINT64_MAX - pd_bytes x < batch_bytes \<or> pd_slot x \<in> set seen)"

fun batch_check :: "StorageWriteQueue \<Rightarrow> u64 \<Rightarrow> u32 list \<Rightarrow> PendingDdrSlot list \<Rightarrow> u64 option" where
  "batch_check q batch_bytes seen [] = Some batch_bytes"
| "batch_check q batch_bytes seen (x # xs) =
     (if item_rejected q batch_bytes seen x then None
      else batch_check q (batch_bytes + pd_bytes x) (seen @ [pd_slot x]) xs)"

fun batch_store :: "StorageWriteQueue \<Rightarrow> u32 \<Rightarrow> PendingDdrSlot list \<Rightarrow> bool \<times> StorageWriteQueue \<times> u32" where
  "batch_store q tail [] = (True, q, tail)"
| "batch_store q tail (x # xs) =
     (let q1 = q\<lparr>wq_items := map_option (\<lambda>ys. ys[unat tail := x]) (wq_items q)\<rparr>;
          tail1 = (tail + 1) mod wq_capacity q
      in case storage_local_slot_transition_locked q1 (pd_slot x) STORAGE_SLOT_DMA_WRITABLE
                STORAGE_SLOT_DMA_COMPLETED_UNHARVESTED of
           (rc1, q2) \<Rightarrow>
             if rc1 \<noteq> 0 then (False, q2, tail1)
             else case storage_local_slot_transition_locked q2 (pd_slot x) STORAGE_SLOT_DMA_COMPLETED_UNHARVESTED
                         STORAGE_SLOT_READY_FOR_NVME of
                    (rc2, q3) \<Rightarrow> if rc2 \<noteq> 0 then (False, q3, tail1) else batch_store q3 tail1 xs)"

definition batch_account :: "StorageWriteQueue \<Rightarrow> u32 \<Rightarrow> u32 \<Rightarrow> u64 \<Rightarrow> StorageWriteQueue" where
  "batch_account q tail item_count batch_bytes =
     (let q1 = q\<lparr>wq_tail := tail, wq_count := wq_count q + item_count,
                 wq_buffered_bytes := wq_buffered_bytes q + batch_bytes,
                 wq_queued_slot_count := wq_queued_slot_count q + ucast item_count\<rparr>;
          busy_count = storage_slot_busy_count (wq_slots q1);
          q2 = (if wq_max_busy_count q1 < busy_count then q1\<lparr>wq_max_busy_count := busy_count\<rparr> else q1);
          q3 = (if wq_max_buffered_bytes q2 < wq_buffered_bytes q2
                then q2\<lparr>wq_max_buffered_bytes := wq_buffered_bytes q2\<rparr> else q2)
      in storage_queue_record_depth_locked q3)"

text \<open>The array argument has \<^verbatim>\<open>item_count\<close> elements.\<close>

definition storage_local_queue_push_batch :: "StorageWriteQueue \<Rightarrow> PendingDdrSlot list \<Rightarrow> int \<times> StorageWriteQueue" where
  "storage_local_queue_push_batch q xs =
     (let item_count = of_nat (length xs) :: u32
      in if item_count = 0 then (-1, q)
         else if wq_error q \<or> rt_dma_desc_bytes (wq_rt q) = 0 \<or> \<not> storage_queue_slot_counts_valid_locked q \<or>
                 wq_capacity q - wq_count q < item_count \<or> sc_dma_writable (st_counts (wq_slots q)) < item_count
         then (-1, q\<lparr>wq_error := True\<rparr>)
         else case batch_check q 0 [] xs of
                None \<Rightarrow> (-1, q\<lparr>wq_error := True\<rparr>)
              | Some batch_bytes \<Rightarrow>
                  if UINT64_MAX - batch_bytes < wq_buffered_bytes q \<or>
                     UINT64_MAX - ucast item_count < wq_queued_slot_count q
                  then (-1, q\<lparr>wq_error := True\<rparr>)
                  else case batch_store q (wq_tail q) xs of
                         (ok, q1, tail) \<Rightarrow>
                           if \<not> ok then (-1, q1\<lparr>wq_error := True\<rparr>)
                           else (0, batch_account q1 tail item_count batch_bytes))"

section \<open>Lifecycle\<close>

definition storage_queue_finish :: "StorageWriteQueue \<Rightarrow> StorageGlobals \<Rightarrow> StorageWriteQueue \<times> StorageGlobals" where
  "storage_queue_finish q g =
     (let (rc, q1) =
        (if wq_worker_state q = WORKER_RUNNING then storage_queue_transition_locked q WORKER_RUNNING WORKER_DRAINING
         else if wq_worker_state q = WORKER_HARVESTING
         then storage_queue_transition_locked q WORKER_HARVESTING WORKER_DRAINING
         else if wq_worker_state q \<notin> {WORKER_DRAINING, WORKER_FINALIZING, WORKER_DONE, WORKER_FAILED}
         then (-1, storage_queue_fail_locked q)
         else (0, q))
      in (q1, if rc \<noteq> 0 then storage_write_request_stop g else g))"

definition storage_queue_request_stop_state :: "StorageWriteQueue \<Rightarrow> int \<times> StorageWriteQueue" where
  "storage_queue_request_stop_state q =
     (if wq_worker_state q = WORKER_RUNNING then storage_queue_transition_locked q WORKER_RUNNING WORKER_WAIT_BOUNDARY
      else if \<not> storage_worker_stop_latched (wq_worker_state q) then (-1, storage_queue_fail_locked q)
      else (0, q))"

definition storage_queue_latch_stop :: "StorageWriteQueue \<Rightarrow> bool \<times> StorageWriteQueue" where
  "storage_queue_latch_stop q =
     (let q1 = (if wq_worker_state q = WORKER_RUNNING
                then snd (storage_queue_transition_locked q WORKER_RUNNING WORKER_WAIT_BOUNDARY) else q);
          (first, q2) =
            (if wq_worker_state q1 = WORKER_WAIT_BOUNDARY
             then case storage_queue_transition_locked q1 WORKER_WAIT_BOUNDARY WORKER_DMA_QUIESCING of
                    (rc, q2) \<Rightarrow> (rc = 0, q2)
             else (False, q1))
      in (first, q2\<lparr>wq_requeue_enabled := False, wq_rt := dma_latch_stop (wq_rt q2)\<rparr>))"

definition storage_queue_mark_harvesting :: "StorageWriteQueue \<Rightarrow> int \<times> StorageWriteQueue" where
  "storage_queue_mark_harvesting q =
     (if wq_worker_state q = WORKER_FAILED then (0, q)
      else storage_queue_transition_locked q WORKER_DMA_QUIESCING WORKER_HARVESTING)"

definition storage_queue_mark_finalizing :: "StorageWriteQueue \<Rightarrow> int \<times> StorageWriteQueue" where
  "storage_queue_mark_finalizing q =
     (case storage_queue_transition_locked q WORKER_DRAINING WORKER_DRAINED_WAIT_STOP of
        (rc, q1) \<Rightarrow> if rc = 0 then storage_queue_transition_locked q1 WORKER_DRAINED_WAIT_STOP WORKER_FINALIZING
                    else (rc, q1))"

definition storage_queue_mark_done :: "StorageWriteQueue \<Rightarrow> int \<times> StorageWriteQueue" where
  "storage_queue_mark_done q = storage_queue_transition_locked q WORKER_FINALIZING WORKER_DONE"

definition storage_queue_mark_ready :: "StorageWriteQueue \<Rightarrow> int \<times> StorageWriteQueue" where
  "storage_queue_mark_ready q = storage_queue_transition_locked q WORKER_INIT WORKER_READY"

definition storage_queue_enable_run :: "StorageWriteQueue \<Rightarrow> int \<times> StorageWriteQueue" where
  "storage_queue_enable_run q = storage_queue_transition_locked q WORKER_READY WORKER_ARMED"

definition storage_queue_set_writer_ready :: "StorageWriteQueue \<Rightarrow> bool \<Rightarrow> StorageWriteQueue" where
  "storage_queue_set_writer_ready q success =
     (if success \<and> wq_worker_state q = WORKER_ARMED \<and> \<not> wq_writer_ready q then q\<lparr>wq_writer_ready := True\<rparr>
      else storage_queue_fail_locked q)"

definition storage_queue_set_producer_ready :: "StorageWriteQueue \<Rightarrow> bool \<Rightarrow> int \<times> StorageWriteQueue" where
  "storage_queue_set_producer_ready q success =
     (if success \<and> wq_worker_state q = WORKER_ARMED \<and> wq_writer_ready q \<and> \<not> wq_producer_ready q
      then (0, q\<lparr>wq_producer_ready := True\<rparr>) else (-1, storage_queue_fail_locked q))"

definition storage_queue_mark_running :: "StorageWriteQueue \<Rightarrow> int \<times> StorageWriteQueue" where
  "storage_queue_mark_running q =
     (if \<not> wq_writer_ready q \<or> \<not> wq_producer_ready q then (-1, storage_queue_fail_locked q)
      else storage_queue_transition_locked q WORKER_ARMED WORKER_RUNNING)"

text \<open>Waiting for the start: \<^term>\<open>None\<close> while the thread waits.\<close>

definition storage_queue_wait_run :: "StorageWriteQueue \<Rightarrow> int option" where
  "storage_queue_wait_run q =
     (if wq_worker_state q \<in> {WORKER_INIT, WORKER_READY} then None
      else if wq_error q \<or> wq_worker_state q \<noteq> WORKER_ARMED then Some (-1) else Some 0)"

text \<open>One look of the loop that waits for the writer: the state and the clock.\<close>

fun storage_queue_wait_writer_ready :: "u64 \<Rightarrow> (StorageWriteQueue \<times> u64) list \<Rightarrow> int option" where
  "storage_queue_wait_writer_ready deadline_us [] = None"
| "storage_queue_wait_writer_ready deadline_us ((q, now) # looks) =
     (if wq_writer_ready q then Some 0
      else if wq_worker_state q = WORKER_FAILED \<or> wq_error q then Some (-1)
      else if deadline_us \<le> now then Some (-1)
      else storage_queue_wait_writer_ready deadline_us looks)"

text \<open>Joining the writer: the results of \<^verbatim>\<open>pthread_tryjoin_np\<close> with the clock after each.\<close>

abbreviation EBUSY :: int where "EBUSY \<equiv> 16"

fun storage_join_writer_deadline :: "u64 \<Rightarrow> (int \<times> u64) list \<Rightarrow> int option" where
  "storage_join_writer_deadline deadline_us [] = None"
| "storage_join_writer_deadline deadline_us ((rc, now) # rest) =
     (if rc = 0 then Some 0
      else if rc \<noteq> EBUSY then Some (-1)
      else if deadline_us \<le> now then Some (-1)
      else storage_join_writer_deadline deadline_us rest)"

section \<open>The engine and errors\<close>

definition storage_queue_set_engine :: "StorageWriteQueue \<Rightarrow> NvmeCrossSlotEngine \<Rightarrow> StorageWriteQueue \<times> NvmeCrossSlotEngine" where
  "storage_queue_set_engine q e =
     (q\<lparr>wq_nvme_engine := True\<rparr>,
      if wq_worker_state q = WORKER_FAILED then nvme_cross_slot_engine_request_abort ''writer_abort_requested'' e else e)"

definition storage_queue_destroy_engine ::
  "StorageWriteQueue \<Rightarrow> NvmeCrossSlotEngine \<Rightarrow> StorageWriteQueue \<times> NvmeCrossSlotEngine option" where
  "storage_queue_destroy_engine q e =
     (if wq_nvme_engine q then (q\<lparr>wq_nvme_engine := False\<rparr>, nvme_cross_slot_engine_destroy e) else (q, Some e))"

definition storage_queue_request_abort ::
  "StorageWriteQueue \<Rightarrow> NvmeCrossSlotEngine option \<Rightarrow> StorageWriteQueue \<times> NvmeCrossSlotEngine option" where
  "storage_queue_request_abort q eng =
     (storage_queue_fail_locked q,
      if wq_nvme_engine q then map_option (nvme_cross_slot_engine_request_abort ''writer_abort_requested'') eng else eng)"

definition storage_queue_abort_requested :: "StorageWriteQueue \<Rightarrow> bool" where
  "storage_queue_abort_requested q \<longleftrightarrow> wq_worker_state q = WORKER_FAILED"

definition storage_queue_has_error :: "StorageWriteQueue \<Rightarrow> bool" where
  "storage_queue_has_error q = wq_error q"

definition storage_queue_busy_count :: "StorageWriteQueue \<Rightarrow> u32 \<times> u32" where
  "storage_queue_busy_count q = (storage_slot_busy_count (wq_slots q), wq_max_busy_count q)"

definition storage_queue_buffered_bytes :: "StorageWriteQueue \<Rightarrow> u64 \<times> u64" where
  "storage_queue_buffered_bytes q = (wq_buffered_bytes q, wq_max_buffered_bytes q)"

definition storage_queue_written_bytes :: "StorageWriteQueue \<Rightarrow> u64" where
  "storage_queue_written_bytes q = wq_bytes_written q"

definition storage_queue_ready_count :: "StorageWriteQueue \<Rightarrow> u32" where
  "storage_queue_ready_count q = wq_count q"

definition storage_queue_snapshot :: "StorageWriteQueue \<Rightarrow> StorageQueueSnapshot \<times> StorageWriteQueue" where
  "storage_queue_snapshot q =
     (let c = st_counts (wq_slots q)
      in (\<lparr>qs_ready_depth_current = wq_count q,
           qs_ready_depth_avg = (if 0 < wq_ready_depth_samples q
                                 then ucast (wq_ready_depth_sum q div wq_ready_depth_samples q) else wq_count q),
           qs_ready_depth_max = wq_ready_depth_max q, qs_free_slots = sc_free_count c,
           qs_dma_writable_slots = sc_dma_writable c, qs_completed_unharvested_slots = sc_completed_unharvested c,
           qs_ready_for_nvme_slots = sc_ready c, qs_nvme_busy_slots = sc_nvme_busy c,
           qs_requeue_pending_slots = sc_requeue_pending c, qs_busy_count = storage_slot_busy_count (wq_slots q),
           qs_buffered_bytes = wq_buffered_bytes q, qs_writer_idle_us = wq_writer_idle_us q,
           qs_queue_empty_wait_us = wq_queue_empty_wait_us q, qs_writer_active_us = wq_writer_active_us q,
           qs_ready_q_nonempty_us = wq_ready_q_nonempty_us q, qs_writer_drain_loop_count = wq_writer_drain_loop_count q,
           qs_writer_slots_drained = wq_writer_slots_drained q, qs_queued_slot_count = wq_queued_slot_count q,
           qs_completed_slot_count = wq_completed_slot_count q, qs_recycled_slot_count = wq_recycled_slot_count q,
           qs_writer_schedule_gap_count = wq_writer_schedule_gap_count q,
           qs_writer_schedule_gap_max_us = wq_writer_schedule_gap_max_us q,
           qs_writer_no_progress_sleep_count = wq_writer_no_progress_sleep_count q,
           qs_writer_rt_enabled = wq_writer_rt_enabled q, qs_writer_rt_policy = wq_writer_rt_policy q,
           qs_writer_rt_prio = wq_writer_rt_prio q\<rparr>,
          if storage_queue_slot_counts_valid_locked q then q else q\<lparr>wq_error := True\<rparr>))"

definition storage_set_writer_error_reason :: "StorageWriteQueue \<Rightarrow> string \<Rightarrow> StorageWriteQueue" where
  "storage_set_writer_error_reason q reason =
     (if reason = [] then q
      else if wq_error_reason q = [] then q\<lparr>wq_error_reason := take 63 reason\<rparr> else q)"

definition storage_copy_writer_error_reason :: "StorageWriteQueue \<Rightarrow> nat \<Rightarrow> string" where
  "storage_copy_writer_error_reason q out_size = (if out_size = 0 then [] else take (out_size - 1) (wq_error_reason q))"

definition storage_fail_fatal :: "u64 \<Rightarrow> StorageWriteQueue \<Rightarrow> StorageGlobals \<Rightarrow> StorageWriteQueue \<times> StorageGlobals" where
  "storage_fail_fatal now q g =
     (let q1 = storage_set_writer_error_reason q ''storage_writer_error'';
          q2 = (if nr_ownership_unresolved (wq_nvme q1) then q1\<lparr>wq_nvme_engine_quiesced := False\<rparr> else q1);
          q3 = storage_queue_fail_locked q2
      in (q3\<lparr>wq_writer_event_ring := storage_ring_event now (wq_writer_event_ring q3) STORAGE_EVENT_WORKER_FATAL
                                       (wq_channel q3) 0 0 True\<rparr>,
          storage_write_request_stop g))"

definition storage_record_deferred_stop_error :: "StorageWriteQueue \<Rightarrow> StorageErrorCode \<Rightarrow> string \<Rightarrow> StorageWriteQueue" where
  "storage_record_deferred_stop_error q code reason =
     (if storage_error_class code \<noteq> STORAGE_ERROR_DEFERRED then q
      else if wq_deferred_stop_error q = STORAGE_ERR_NONE
      then q\<lparr>wq_deferred_stop_error := code, wq_deferred_stop_reason := take 63 reason\<rparr> else q)"

section \<open>Writer side\<close>

text \<open>\<^verbatim>\<open>storage_queue_pop\<close>: blocked while it waits on an empty queue. The two times are the start of such a wait and
  the clock after it.\<close>

datatype queue_pop = QueueBlocked | QueuePopped StorageQueuePopResult "PendingDdrSlot option"

definition elapsed_us :: "u64 \<Rightarrow> u64 \<Rightarrow> u64" where
  "elapsed_us start_us now = (if now < start_us then 0 else now - start_us)"

definition storage_queue_pop ::
  "(u64 \<times> u64) option \<Rightarrow> StorageWriteQueue \<Rightarrow> bool \<Rightarrow> queue_pop \<times> StorageWriteQueue" where
  "storage_queue_pop waited q wait_for_item =
     (if wait_for_item \<and> \<not> storage_worker_producer_done (wq_worker_state q) \<and> \<not> wq_error q \<and> wq_count q = 0
      then (QueueBlocked, q)
      else let wait_us = (case waited of None \<Rightarrow> 0 | Some (start_us, now) \<Rightarrow> if start_us \<noteq> 0 then elapsed_us start_us now else 0);
               q0 = q\<lparr>wq_queue_empty_wait_us := wq_queue_empty_wait_us q + wait_us,
                      wq_writer_idle_us := wq_writer_idle_us q + wait_us\<rparr>
           in if wq_error q0 then (QueuePopped STORAGE_QUEUE_POP_ERROR None, q0)
              else if wq_count q0 = 0
              then (QueuePopped (if storage_worker_producer_done (wq_worker_state q0)
                                 then STORAGE_QUEUE_POP_PRODUCER_DRAINED else STORAGE_QUEUE_POP_TEMP_EMPTY) None, q0)
              else let x = the (wq_items q0) ! unat (wq_head q0);
                       q1 = q0\<lparr>wq_head := (wq_head q0 + 1) mod wq_capacity q0, wq_count := wq_count q0 - 1\<rparr>
                   in case storage_local_slot_transition_locked q1 (pd_slot x) STORAGE_SLOT_READY_FOR_NVME
                             STORAGE_SLOT_NVME_BUSY of
                        (rc, q2) \<Rightarrow> if rc \<noteq> 0 then (QueuePopped STORAGE_QUEUE_POP_ERROR (Some x), q2)
                                    else (QueuePopped STORAGE_QUEUE_POP_ITEM (Some x), storage_queue_record_depth_locked q2))"

definition storage_cross_slot_writer_decision_locked ::
  "StorageWriteQueue \<Rightarrow> NvmeCrossSlotEngine \<Rightarrow> StorageCrossSlotWriterDecision" where
  "storage_cross_slot_writer_decision_locked q e =
     storage_cross_slot_writer_decide (storage_worker_producer_done (wq_worker_state q)) (wq_count q) (wq_error q)
       (nvme_cross_slot_engine_active e) (nvme_cross_slot_engine_inflight e)"

text \<open>The counters of a written slot; the status and control registers are what the hand-back reads.\<close>

definition count_written :: "PendingDdrSlot \<Rightarrow> StorageWriteQueue \<Rightarrow> StorageWriteQueue" where
  "count_written x q =
     q\<lparr>wq_bytes_written := wq_bytes_written q + pd_bytes x, wq_chunks := wq_chunks q + 1,
       wq_completed_slot_count := wq_completed_slot_count q + 1,
       wq_buffered_bytes := (if pd_bytes x \<le> wq_buffered_bytes q then wq_buffered_bytes q - pd_bytes x else 0)\<rparr>"

definition hand_back ::
  "u64 \<Rightarrow> u32 \<Rightarrow> u32 \<Rightarrow> PendingDdrSlot \<Rightarrow> StorageWriteQueue \<Rightarrow> StorageGlobals
     \<Rightarrow> int \<times> StorageWriteQueue \<times> StorageGlobals \<times> register_writes" where
  "hand_back now sr cr x q g =
     (if wq_recycled_slot_count q = UINT64_MAX then (-1, q\<lparr>wq_error := True\<rparr>, g, [])
      else case dma_requeue_one sr cr (wq_rt q) (pd_slot x) of
             (rc, rt1, ws) \<Rightarrow>
               (let q1 = q\<lparr>wq_rt := rt1\<rparr>
                in if rc \<noteq> 0
                   then (let q2 = storage_queue_fail_locked q1;
                             q3 = (if wq_error_reason q2 = [] then q2\<lparr>wq_error_reason := ''dma_requeue_failed''\<rparr> else q2);
                             (q4, g1) = storage_fail_fatal now q3 g
                         in (-1, q4, g1, ws))
                   else case storage_local_slot_transition_locked q1 (pd_slot x) STORAGE_SLOT_REQUEUE_PENDING
                               STORAGE_SLOT_DMA_WRITABLE of
                          (rc2, q2) \<Rightarrow>
                            if rc2 \<noteq> 0 then (-1, q2, g, ws)
                            else (0, q2\<lparr>wq_recycled_slot_count := wq_recycled_slot_count q2 + 1\<rparr>, g, ws)))"

definition storage_complete_slot ::
  "u64 \<Rightarrow> u32 \<Rightarrow> u32 \<Rightarrow> StorageWriteQueue \<Rightarrow> PendingDdrSlot \<Rightarrow> StorageGlobals
     \<Rightarrow> int \<times> StorageWriteQueue \<times> StorageGlobals \<times> register_writes" where
  "storage_complete_slot now sr cr q x g =
     (if wq_capacity q \<le> pd_slot x then (-1, q, g, [])
      else if storage_slot_state (wq_slots q) (pd_slot x) \<noteq> STORAGE_SLOT_NVME_BUSY then (-1, q\<lparr>wq_error := True\<rparr>, g, [])
      else if UINT64_MAX - pd_bytes x < wq_bytes_written q \<or> wq_completed_slot_count q = UINT64_MAX
      then (-1, q\<lparr>wq_error := True\<rparr>, g, [])
      else let q1 = count_written x q;
               should_requeue = wq_requeue_enabled q1 \<and> storage_worker_can_requeue (wq_worker_state q1)
           in case storage_local_slot_transition_locked q1 (pd_slot x) STORAGE_SLOT_NVME_BUSY
                     (if should_requeue then STORAGE_SLOT_REQUEUE_PENDING else STORAGE_SLOT_FREE) of
                (rc, q2) \<Rightarrow>
                  if rc \<noteq> 0 then (-1, q2, g, [])
                  else if should_requeue then hand_back now sr cr x q2 g
                  else if dma_requeue_after_stop_count (wq_rt q2) \<noteq> 0
                  then (let (q3, g1) = storage_fail_fatal now (storage_set_writer_error_reason q2 ''requeue_after_stop_latched'') g
                        in (-1, q3, g1, []))
                  else (0, q2, g, []))"

definition done_item :: "NvmeWriteSlotReq \<Rightarrow> PendingDdrSlot" where
  "done_item req =
     \<lparr>pd_slot = wr_slot req, pd_bytes = wr_bytes req,
      pd_media_bytes = (if wr_media_bytes req \<noteq> 0 then wr_media_bytes req else wr_sectors req * 512),
      pd_chunk_index = wr_chunk_index req, pd_file_offset = wr_file_offset req, pd_start_lba = wr_start_lba req,
      pd_sectors = wr_sectors req, pd_hw_addr = wr_hw_addr req\<rparr>"

definition storage_cross_slot_done_cb ::
  "u64 \<Rightarrow> u32 \<Rightarrow> u32 \<Rightarrow> StorageWriteQueue \<Rightarrow> NvmeWriteSlotReq \<Rightarrow> StorageGlobals
     \<Rightarrow> int \<times> StorageWriteQueue \<times> StorageGlobals \<times> register_writes" where
  "storage_cross_slot_done_cb now sr cr q req g = storage_complete_slot now sr cr q (done_item req) g"

definition storage_cross_slot_update_stats :: "StorageWriteQueue \<Rightarrow> NvmeCrossSlotEngine \<Rightarrow> StorageWriteQueue" where
  "storage_cross_slot_update_stats q e =
     q\<lparr>wq_cross_stats := nvme_cross_slot_engine_get_stats e,
       wq_writer_no_progress_sleep_count := cs_no_progress_sleep_count (nvme_cross_slot_engine_get_stats e)\<rparr>"

definition storage_record_writer_schedule_gap :: "u64 \<Rightarrow> StorageWriteQueue \<Rightarrow> u64 \<Rightarrow> u64 \<Rightarrow> StorageWriteQueue" where
  "storage_record_writer_schedule_gap now q expected_run_us actual_run_us =
     (if expected_run_us = 0 \<or> actual_run_us \<le> expected_run_us then q
      else let gap_us = actual_run_us - expected_run_us
           in if gap_us < 1000 then q
              else q\<lparr>wq_writer_schedule_gap_count := wq_writer_schedule_gap_count q + 1,
                     wq_writer_schedule_gap_max_us := (if wq_writer_schedule_gap_max_us q < gap_us then gap_us
                                                       else wq_writer_schedule_gap_max_us q),
                     wq_writer_event_ring := storage_ring_event now (wq_writer_event_ring q)
                       STORAGE_EVENT_WRITER_SCHEDULE_GAP (wq_channel q) gap_us 0 False\<rparr>)"

end
