(* ===== verification/Write_Account.thy ===== *)
theory Write_Account
  imports Write_Queue "HOL-Library.Multiset"
begin

text \<open>
  What the write queue keeps track of: the invariant of \<open>Write_Queue\<close>, the items on their way, and the runs of
  the producer and the writer. Every harvested slot is in exactly one place: in the queue (ready), with the
  writer (busy) or written.
\<close>

section \<open>Invariant\<close>

definition wq_queue :: "StorageWriteQueue \<Rightarrow> PendingDdrSlot list" where
  "wq_queue q = ring_view (the (wq_items q)) (unat (wq_head q)) (unat (wq_count q))"

definition queue_ok :: "PendingDdrSlot list option \<Rightarrow> StorageSlotTable \<Rightarrow> u32 \<Rightarrow> u32 \<Rightarrow> u32 \<Rightarrow> u32 \<Rightarrow> bool" where
  "queue_ok items slots cap head tail n \<longleftrightarrow>
     slot_table_inv slots \<and> st_capacity slots = cap \<and> (\<exists>ys. items = Some ys \<and> length ys = unat cap) \<and>
     head < cap \<and> n \<le> cap \<and> unat tail = (unat head + unat n) mod unat cap"

definition wq_inv :: "StorageWriteQueue \<Rightarrow> bool" where
  "wq_inv q \<longleftrightarrow>
     queue_ok (wq_items q) (wq_slots q) (wq_capacity q) (wq_head q) (wq_tail q) (wq_count q) \<and>
     distinct (map pd_slot (wq_queue q)) \<and>
     (\<forall>i. storage_slot_state (wq_slots q) i = STORAGE_SLOT_READY_FOR_NVME \<longleftrightarrow> i \<in> pd_slot ` set (wq_queue q))"

abbreviation total_bytes :: "PendingDdrSlot list \<Rightarrow> nat" where
  "total_bytes xs \<equiv> sum_list (map (\<lambda>x. unat (pd_bytes x)) xs)"

lemma queue_okE:
  assumes "queue_ok items slots cap head tail n"
  obtains ys where "items = Some ys" "length ys = unat cap" "slot_table_inv slots" "st_capacity slots = cap" "head < cap"
    "unat n \<le> length ys" "unat tail = (unat head + unat n) mod length ys"
  using assms by (auto simp: queue_ok_def word_le_nat_alt)

lemma slot_state_range: "storage_slot_state t i \<noteq> STORAGE_SLOT_INVALID \<Longrightarrow> i < st_capacity t"
  by (auto simp: storage_slot_state_def not_le [symmetric] split: option.splits if_splits)

section \<open>Moving a slot\<close>

lemma local_transition:
  assumes inv: "slot_table_inv (wq_slots q)" and st: "storage_slot_state (wq_slots q) slot = a"
    and ab: "a \<noteq> b" "a \<noteq> STORAGE_SLOT_INVALID" "b \<noteq> STORAGE_SLOT_INVALID"
  obtains t where "storage_local_slot_transition_locked q slot a b = (0, q\<lparr>wq_slots := t\<rparr>)" "slot_table_inv t"
    "st_capacity t = st_capacity (wq_slots q)" "storage_slot_state t = (storage_slot_state (wq_slots q))(slot := b)"
proof -
  have "slot < st_capacity (wq_slots q)" using st ab(2) slot_state_range by blast
  from slot_transition_accept [OF inv this st ab(1,3)] obtain t where
    "storage_slot_transition (wq_slots q) slot a b = (0, t)" "slot_table_inv t"
    "storage_slot_state t = (storage_slot_state (wq_slots q))(slot := b)" "st_capacity t = st_capacity (wq_slots q)" by auto
  with that show ?thesis by (simp add: storage_local_slot_transition_locked_def Let_def)
qed

section \<open>Pushing a batch\<close>

lemma item_accepted:
  assumes "\<not> item_rejected q b seen x"
  shows "pd_slot x < wq_capacity q" "storage_slot_state (wq_slots q) (pd_slot x) = STORAGE_SLOT_DMA_WRITABLE"
    "pd_slot x \<notin> set seen" "unat b + unat (pd_bytes x) < 2 ^ 64"
proof -
  show "pd_slot x < wq_capacity q" "storage_slot_state (wq_slots q) (pd_slot x) = STORAGE_SLOT_DMA_WRITABLE" "pd_slot x \<notin> set seen"
    using assms by (auto simp: item_rejected_def Let_def)
  have "b \<le> UINT64_MAX - pd_bytes x" using assms by (auto simp: item_rejected_def Let_def not_less)
  then show "unat b + unat (pd_bytes x) < 2 ^ 64" by (rule u64_sum_fits)
qed

lemma batch_check_Some:
  "batch_check q b seen xs = Some bytes \<Longrightarrow>
     (\<forall>x\<in>set xs. storage_slot_state (wq_slots q) (pd_slot x) = STORAGE_SLOT_DMA_WRITABLE) \<and> distinct (map pd_slot xs) \<and>
     pd_slot ` set xs \<inter> set seen = {} \<and> unat bytes = unat b + total_bytes xs"
proof (induction xs arbitrary: b seen)
  case (Cons x xs)
  then have acc: "\<not> item_rejected q b seen x" and rest: "batch_check q (b + pd_bytes x) (seen @ [pd_slot x]) xs = Some bytes"
    by (auto split: if_splits)
  have "unat (b + pd_bytes x) = unat b + unat (pd_bytes x)"
    using item_accepted(4) [OF acc] by (simp add: unat_add_le)
  with Cons.IH [OF rest] item_accepted [OF acc] show ?case by auto
qed simp

lemma batch_store_ok:
  assumes "slot_table_inv (wq_slots q)" "st_capacity (wq_slots q) = wq_capacity q"
    and "wq_items q = Some ys" "length ys = unat (wq_capacity q)"
    and "distinct (map pd_slot xs)" "\<forall>x\<in>set xs. storage_slot_state (wq_slots q) (pd_slot x) = STORAGE_SLOT_DMA_WRITABLE"
    and "c + length xs \<le> length ys" "unat tail = (h + c) mod length ys"
  shows "\<exists>ys' t' tail'. batch_store q tail xs = (True, q\<lparr>wq_items := Some ys', wq_slots := t'\<rparr>, tail') \<and>
     length ys' = length ys \<and> ring_view ys' h (c + length xs) = ring_view ys h c @ xs \<and>
     unat tail' = (h + c + length xs) mod length ys \<and> slot_table_inv t' \<and> st_capacity t' = wq_capacity q \<and>
     storage_slot_state t' = (\<lambda>i. if i \<in> pd_slot ` set xs then STORAGE_SLOT_READY_FOR_NVME
                                   else storage_slot_state (wq_slots q) i)"
  using assms
proof (induction xs arbitrary: q ys c tail)
  case Nil
  then show ?case by (intro exI [of _ ys] exI [of _ "wq_slots q"] exI [of _ tail]) (cases q, simp)
next
  case (Cons x xs)
  let ?ys = "ys[unat tail := x]" and ?q1 = "q\<lparr>wq_items := Some (ys[unat tail := x])\<rparr>" and ?tail = "(tail + 1) mod wq_capacity q"
  have sx: "storage_slot_state (wq_slots ?q1) (pd_slot x) = STORAGE_SLOT_DMA_WRITABLE" using Cons.prems(6) by simp
  have si: "slot_table_inv (wq_slots ?q1)" using Cons.prems(1) by simp
  obtain t1 where t1: "storage_local_slot_transition_locked ?q1 (pd_slot x) STORAGE_SLOT_DMA_WRITABLE
      STORAGE_SLOT_DMA_COMPLETED_UNHARVESTED = (0, ?q1\<lparr>wq_slots := t1\<rparr>)" "slot_table_inv t1" "st_capacity t1 = wq_capacity q"
      "storage_slot_state t1 = (storage_slot_state (wq_slots q))(pd_slot x := STORAGE_SLOT_DMA_COMPLETED_UNHARVESTED)"
    using local_transition [OF si sx, of STORAGE_SLOT_DMA_COMPLETED_UNHARVESTED] Cons.prems(2) by auto
  obtain t2 where t2: "storage_local_slot_transition_locked (?q1\<lparr>wq_slots := t1\<rparr>) (pd_slot x) STORAGE_SLOT_DMA_COMPLETED_UNHARVESTED
      STORAGE_SLOT_READY_FOR_NVME = (0, ?q1\<lparr>wq_slots := t2\<rparr>)" "slot_table_inv t2" "st_capacity t2 = wq_capacity q"
      "storage_slot_state t2 = (storage_slot_state t1)(pd_slot x := STORAGE_SLOT_READY_FOR_NVME)"
    using local_transition [of "?q1\<lparr>wq_slots := t1\<rparr>" "pd_slot x" STORAGE_SLOT_DMA_COMPLETED_UNHARVESTED STORAGE_SLOT_READY_FOR_NVME]
      t1(2-4) by auto
  have n: "0 < length ys" using Cons.prems(7) by (simp del: length_greater_0_conv)
  have tail: "tail < wq_capacity q" using Cons.prems(4,8) n by (simp add: word_less_nat_alt)
  have tail': "unat ?tail = (h + Suc c) mod length ?ys" using ring_advance [OF tail] Cons.prems(4,8) by (simp add: mod_Suc_eq)
  have view: "ring_view ?ys h (Suc c) = ring_view ys h c @ [x]" using ring_view_put [of c ys h x] Cons.prems(7,8) by simp
  let ?q = "?q1\<lparr>wq_slots := t2\<rparr>"
  have ne: "\<forall>y\<in>set xs. pd_slot y \<noteq> pd_slot x" using Cons.prems(5) by (simp add: image_iff) metis
  have "\<exists>ys' t' tail'. batch_store ?q ?tail xs = (True, ?q\<lparr>wq_items := Some ys', wq_slots := t'\<rparr>, tail') \<and>
     length ys' = length ?ys \<and> ring_view ys' h (Suc c + length xs) = ring_view ?ys h (Suc c) @ xs \<and>
     unat tail' = (h + Suc c + length xs) mod length ?ys \<and> slot_table_inv t' \<and> st_capacity t' = wq_capacity ?q \<and>
     storage_slot_state t' = (\<lambda>i. if i \<in> pd_slot ` set xs then STORAGE_SLOT_READY_FOR_NVME
                                   else storage_slot_state (wq_slots ?q) i)"
    using t1(4) t2(2-4) Cons.prems(4-7) tail' ne by (intro Cons.IH) auto
  then obtain ys' t' tail' where "batch_store ?q ?tail xs = (True, ?q\<lparr>wq_items := Some ys', wq_slots := t'\<rparr>, tail')"
     "length ys' = length ?ys" "ring_view ys' h (Suc c + length xs) = ring_view ?ys h (Suc c) @ xs"
     "unat tail' = (h + Suc c + length xs) mod length ?ys" "slot_table_inv t'" "st_capacity t' = wq_capacity ?q"
     "storage_slot_state t' = (\<lambda>i. if i \<in> pd_slot ` set xs then STORAGE_SLOT_READY_FOR_NVME else storage_slot_state (wq_slots ?q) i)"
    by blast
  with t1(1,4) t2(1,4) view Cons.prems(3) show ?case
    by (intro exI [of _ ys'] exI [of _ t'] exI [of _ tail']) (auto simp: fun_eq_iff Let_def)
qed

lemma record_depth_frame [simp]:
  "wq_items (storage_queue_record_depth_locked q) = wq_items q" "wq_slots (storage_queue_record_depth_locked q) = wq_slots q"
  "wq_capacity (storage_queue_record_depth_locked q) = wq_capacity q" "wq_head (storage_queue_record_depth_locked q) = wq_head q"
  "wq_tail (storage_queue_record_depth_locked q) = wq_tail q" "wq_count (storage_queue_record_depth_locked q) = wq_count q"
  "wq_buffered_bytes (storage_queue_record_depth_locked q) = wq_buffered_bytes q"
  "wq_bytes_written (storage_queue_record_depth_locked q) = wq_bytes_written q"
  "wq_queued_slot_count (storage_queue_record_depth_locked q) = wq_queued_slot_count q"
  "wq_completed_slot_count (storage_queue_record_depth_locked q) = wq_completed_slot_count q"
  by (simp_all add: storage_queue_record_depth_locked_def)

lemma batch_account_fields [simp]:
  "wq_items (batch_account q tail n b) = wq_items q" "wq_slots (batch_account q tail n b) = wq_slots q"
  "wq_capacity (batch_account q tail n b) = wq_capacity q" "wq_head (batch_account q tail n b) = wq_head q"
  "wq_tail (batch_account q tail n b) = tail" "wq_count (batch_account q tail n b) = wq_count q + n"
  "wq_buffered_bytes (batch_account q tail n b) = wq_buffered_bytes q + b"
  "wq_bytes_written (batch_account q tail n b) = wq_bytes_written q"
  "wq_queued_slot_count (batch_account q tail n b) = wq_queued_slot_count q + ucast n"
  "wq_completed_slot_count (batch_account q tail n b) = wq_completed_slot_count q"
  by (simp_all add: batch_account_def Let_def)

text \<open>A queue is what it holds: the items on their way, the slots with the writer and the byte counts.\<close>

definition wq_holds :: "StorageWriteQueue \<Rightarrow> PendingDdrSlot list \<Rightarrow> PendingDdrSlot list \<Rightarrow> PendingDdrSlot list \<Rightarrow> bool" where
  "wq_holds q queued held written \<longleftrightarrow>
     wq_inv q \<and> wq_queue q = queued \<and> distinct (map pd_slot held) \<and>
     (\<forall>i. storage_slot_state (wq_slots q) i = STORAGE_SLOT_NVME_BUSY \<longleftrightarrow> i \<in> pd_slot ` set held) \<and>
     unat (wq_buffered_bytes q) = total_bytes queued + total_bytes held \<and>
     unat (wq_bytes_written q) = total_bytes written \<and>
     unat (wq_queued_slot_count q) = length queued + length held + length written \<and>
     unat (wq_completed_slot_count q) = length written"

lemma wq_holds_frame:
  assumes "wq_holds q queued held written" "wq_items q' = wq_items q" "wq_slots q' = wq_slots q" "wq_capacity q' = wq_capacity q"
    "wq_head q' = wq_head q" "wq_tail q' = wq_tail q" "wq_count q' = wq_count q" "wq_buffered_bytes q' = wq_buffered_bytes q"
    "wq_bytes_written q' = wq_bytes_written q" "wq_queued_slot_count q' = wq_queued_slot_count q"
    "wq_completed_slot_count q' = wq_completed_slot_count q"
  shows "wq_holds q' queued held written"
proof -
  have "wq_queue q' = wq_queue q" using assms(2-) by (simp add: wq_queue_def)
  moreover from this have "wq_inv q' = wq_inv q" using assms(2-) by (simp add: wq_inv_def)
  ultimately show ?thesis using assms by (simp add: wq_holds_def)
qed

lemma wq_holds_fields [simp]:
  "wq_holds (q\<lparr>wq_error := v0\<rparr>) queued held written = wq_holds q queued held written"
  "wq_holds (q\<lparr>wq_queue_empty_wait_us := v1\<rparr>) queued held written = wq_holds q queued held written"
  "wq_holds (q\<lparr>wq_writer_idle_us := v2\<rparr>) queued held written = wq_holds q queued held written"
  "wq_holds (q\<lparr>wq_worker_state := v3\<rparr>) queued held written = wq_holds q queued held written"
  "wq_holds (q\<lparr>wq_writer_ready := v4\<rparr>) queued held written = wq_holds q queued held written"
  "wq_holds (q\<lparr>wq_producer_ready := v5\<rparr>) queued held written = wq_holds q queued held written"
  "wq_holds (q\<lparr>wq_requeue_enabled := v6\<rparr>) queued held written = wq_holds q queued held written"
  "wq_holds (q\<lparr>wq_error_reason := v7\<rparr>) queued held written = wq_holds q queued held written"
  "wq_holds (q\<lparr>wq_rt := v8\<rparr>) queued held written = wq_holds q queued held written"
  "wq_holds (q\<lparr>wq_chunks := v9\<rparr>) queued held written = wq_holds q queued held written"
  "wq_holds (q\<lparr>wq_deferred_stop_error := v10\<rparr>) queued held written = wq_holds q queued held written"
  "wq_holds (q\<lparr>wq_deferred_stop_reason := v11\<rparr>) queued held written = wq_holds q queued held written"
  "wq_holds (q\<lparr>wq_nvme_engine_quiesced := v12\<rparr>) queued held written = wq_holds q queued held written"
  "wq_holds (q\<lparr>wq_writer_event_ring := v13\<rparr>) queued held written = wq_holds q queued held written"
  "wq_holds (q\<lparr>wq_recycled_slot_count := v14\<rparr>) queued held written = wq_holds q queued held written"
  by (simp_all add: wq_holds_def wq_inv_def wq_queue_def)

lemma ucast_length: "length xs \<le> unat (c :: u32) \<Longrightarrow> unat (of_nat (length xs) :: u32) = length xs"
  by (metis le_unat_uoi)

text \<open>How a push ends: refused with at most the error flag set, or stored.\<close>

lemma push_cases:
  obtains (refused) "storage_local_queue_push_batch q xs = (-1, q)"
    | (failed) "storage_local_queue_push_batch q xs = (-1, q\<lparr>wq_error := True\<rparr>)"
    | (stored) b ok q1 tail where "batch_check q 0 [] xs = Some b" "wq_buffered_bytes q \<le> UINT64_MAX - b"
        "wq_queued_slot_count q \<le> UINT64_MAX - ucast (of_nat (length xs) :: u32)"
        "of_nat (length xs) \<le> wq_capacity q - wq_count q" "batch_store q (wq_tail q) xs = (ok, q1, tail)"
        "storage_local_queue_push_batch q xs =
           (if ok then (0, batch_account q1 tail (of_nat (length xs)) b) else (-1, q1\<lparr>wq_error := True\<rparr>))"
proof (cases "(of_nat (length xs) :: u32) = 0")
  case True
  then show ?thesis using refused by (simp add: storage_local_queue_push_batch_def)
next
  case nz: False
  define bad where "bad \<longleftrightarrow> wq_error q \<or> rt_dma_desc_bytes (wq_rt q) = 0 \<or> \<not> storage_queue_slot_counts_valid_locked q \<or>
    wq_capacity q - wq_count q < of_nat (length xs) \<or> sc_dma_writable (st_counts (wq_slots q)) < of_nat (length xs)"
  have push: "storage_local_queue_push_batch q xs =
    (if bad then (-1, q\<lparr>wq_error := True\<rparr>)
     else case batch_check q 0 [] xs of
            None \<Rightarrow> (-1, q\<lparr>wq_error := True\<rparr>)
          | Some b \<Rightarrow>
              if UINT64_MAX - b < wq_buffered_bytes q \<or> UINT64_MAX - ucast (of_nat (length xs) :: u32) < wq_queued_slot_count q
              then (-1, q\<lparr>wq_error := True\<rparr>)
              else case batch_store q (wq_tail q) xs of
                     (ok, q1, tail) \<Rightarrow> if \<not> ok then (-1, q1\<lparr>wq_error := True\<rparr>) else (0, batch_account q1 tail (of_nat (length xs)) b))"
    by (simp only: storage_local_queue_push_batch_def Let_def if_not_P [OF nz] bad_def)
  obtain ok q1 tail where store: "batch_store q (wq_tail q) xs = (ok, q1, tail)" by (metis prod_cases3)
  show ?thesis
  proof (cases "bad \<or> batch_check q 0 [] xs = None")
    case True
    then show ?thesis using failed push by auto
  next
    case False
    then obtain b where b: "batch_check q 0 [] xs = Some b" "\<not> bad" by auto
    then have room: "of_nat (length xs) \<le> wq_capacity q - wq_count q" unfolding bad_def by (simp add: not_less)
    show ?thesis
    proof (cases "UINT64_MAX - b < wq_buffered_bytes q \<or> UINT64_MAX - ucast (of_nat (length xs) :: u32) < wq_queued_slot_count q")
      case True
      then show ?thesis using failed push b by simp
    next
      case False
      then have "storage_local_queue_push_batch q xs =
          (if ok then (0, batch_account q1 tail (of_nat (length xs)) b) else (-1, q1\<lparr>wq_error := True\<rparr>))"
        using push b store by simp
      then show ?thesis using stored [OF b(1) _ _ room store] False by (simp add: not_less)
    qed
  qed
qed

lemma store_succeeds:
  assumes "wq_inv q" "batch_check q 0 [] xs = Some b" "of_nat (length xs) \<le> wq_capacity q - wq_count q"
    and len: "length xs \<le> unat (wq_capacity q)"
  obtains ys' t' tail where "batch_store q (wq_tail q) xs = (True, q\<lparr>wq_items := Some ys', wq_slots := t'\<rparr>, tail)"
     "length ys' = unat (wq_capacity q)" "ring_view ys' (unat (wq_head q)) (unat (wq_count q) + length xs) = wq_queue q @ xs"
     "unat tail = (unat (wq_head q) + unat (wq_count q) + length xs) mod unat (wq_capacity q)" "slot_table_inv t'"
     "st_capacity t' = wq_capacity q" "unat (wq_count q) + length xs \<le> unat (wq_capacity q)"
     "storage_slot_state t' = (\<lambda>i. if i \<in> pd_slot ` set xs then STORAGE_SLOT_READY_FOR_NVME else storage_slot_state (wq_slots q) i)"
proof -
  obtain ys where ys: "wq_items q = Some ys" "length ys = unat (wq_capacity q)" "slot_table_inv (wq_slots q)"
    "st_capacity (wq_slots q) = wq_capacity q" "unat (wq_count q) \<le> length ys"
    "unat (wq_tail q) = (unat (wq_head q) + unat (wq_count q)) mod length ys" using assms(1) by (auto simp: wq_inv_def elim: queue_okE)
  have "length xs \<le> unat (wq_capacity q) - unat (wq_count q)"
    using assms(3) ys(2,5) ucast_length [OF len] by (simp add: word_le_nat_alt unat_sub)
  then have room: "unat (wq_count q) + length xs \<le> length ys" using ys(2,5) by simp
  have view: "wq_queue q = ring_view ys (unat (wq_head q)) (unat (wq_count q))" using ys(1) by (simp add: wq_queue_def)
  have chk: "distinct (map pd_slot xs)" "\<forall>x\<in>set xs. storage_slot_state (wq_slots q) (pd_slot x) = STORAGE_SLOT_DMA_WRITABLE"
    using batch_check_Some [OF assms(2)] by simp_all
  from batch_store_ok [OF ys(3,4,1,2) chk room ys(6)] obtain ys' t' tail where
     "batch_store q (wq_tail q) xs = (True, q\<lparr>wq_items := Some ys', wq_slots := t'\<rparr>, tail)"
     "length ys' = length ys"
     "ring_view ys' (unat (wq_head q)) (unat (wq_count q) + length xs) = ring_view ys (unat (wq_head q)) (unat (wq_count q)) @ xs"
     "unat tail = (unat (wq_head q) + unat (wq_count q) + length xs) mod length ys" "slot_table_inv t'" "st_capacity t' = wq_capacity q"
     "storage_slot_state t' = (\<lambda>i. if i \<in> pd_slot ` set xs then STORAGE_SLOT_READY_FOR_NVME else storage_slot_state (wq_slots q) i)"
    by (elim exE conjE) rule
  with that [where ys' = ys' and t' = t' and tail = tail] room ys(2) view show ?thesis by simp
qed

lemma stored_holds:
  assumes h: "wq_holds q queued held written" and b: "batch_check q 0 [] xs = Some b" "wq_buffered_bytes q \<le> UINT64_MAX - b"
    "wq_queued_slot_count q \<le> UINT64_MAX - ucast (of_nat (length xs) :: u32)" "of_nat (length xs) \<le> wq_capacity q - wq_count q"
    and len: "length xs \<le> unat (wq_capacity q)"
  shows "\<exists>q1 tail. batch_store q (wq_tail q) xs = (True, q1, tail) \<and>
    wq_holds (batch_account q1 tail (of_nat (length xs)) b) (queued @ xs) held written"
proof -
  have inv: "wq_inv q" using h by (simp add: wq_holds_def)
  from store_succeeds [OF inv b(1,4) len] obtain ys' t' tail where
    k: "batch_store q (wq_tail q) xs = (True, q\<lparr>wq_items := Some ys', wq_slots := t'\<rparr>, tail)"
     "length ys' = unat (wq_capacity q)" "ring_view ys' (unat (wq_head q)) (unat (wq_count q) + length xs) = wq_queue q @ xs"
     "unat tail = (unat (wq_head q) + unat (wq_count q) + length xs) mod unat (wq_capacity q)" "slot_table_inv t'"
     "st_capacity t' = wq_capacity q" "unat (wq_count q) + length xs \<le> unat (wq_capacity q)"
     "storage_slot_state t' = (\<lambda>i. if i \<in> pd_slot ` set xs then STORAGE_SLOT_READY_FOR_NVME else storage_slot_state (wq_slots q) i)" .
  let ?q = "batch_account (q\<lparr>wq_items := Some ys', wq_slots := t'\<rparr>) tail (of_nat (length xs)) b"
  note chk = batch_check_Some [OF b(1)]
  have n: "unat (of_nat (length xs) :: u32) = length xs" by (rule ucast_length [OF len])
  have cnt: "unat (wq_count q + of_nat (length xs)) = unat (wq_count q) + length xs"
    using k(7) n unat_u32_less [of "wq_capacity q"] by (subst unat_add_le) (simp_all del: unat_u32_less)
  have fit: "unat (wq_buffered_bytes q + b) = unat (wq_buffered_bytes q) + total_bytes xs"
    using u64_sum_fits [OF b(2)] chk by (subst unat_add_le) simp_all
  have slots: "unat (wq_queued_slot_count q + ucast (of_nat (length xs) :: u32)) = unat (wq_queued_slot_count q) + length xs"
    using u64_sum_fits [OF b(3)] n by (subst unat_add_le) simp_all
  have st_of: "\<And>i. storage_slot_state (wq_slots q) i = STORAGE_SLOT_READY_FOR_NVME \<longleftrightarrow> i \<in> pd_slot ` set queued"
      "\<And>i. storage_slot_state (wq_slots q) i = STORAGE_SLOT_NVME_BUSY \<longleftrightarrow> i \<in> pd_slot ` set held"
    and d: "distinct (map pd_slot queued)" using h by (auto simp: wq_holds_def wq_inv_def)
  have W: "storage_slot_state (wq_slots q) i = STORAGE_SLOT_DMA_WRITABLE" if "i \<in> pd_slot ` set xs" for i using chk that by auto
  have "i \<notin> pd_slot ` set queued" if "i \<in> pd_slot ` set xs" for i using W [OF that] st_of(1) [of i] by simp
  then have "pd_slot ` set xs \<inter> pd_slot ` set queued = {}" by blast
  then have "distinct (map pd_slot (queued @ xs))" using d chk by auto
  moreover have "storage_slot_state t' i = STORAGE_SLOT_READY_FOR_NVME \<longleftrightarrow> i \<in> pd_slot ` set (queued @ xs)" for i
    using st_of(1) [of i] by (simp add: k(8) image_Un)
  moreover have "storage_slot_state t' i = STORAGE_SLOT_NVME_BUSY \<longleftrightarrow> i \<in> pd_slot ` set held" for i
    using st_of(2) [of i] W [of i] by (cases "i \<in> pd_slot ` set xs") (simp_all add: k(8))
  moreover have "wq_queue ?q = queued @ xs" using h k(3) cnt by (simp add: wq_queue_def [of ?q] wq_holds_def)
  moreover have "queue_ok (wq_items ?q) (wq_slots ?q) (wq_capacity ?q) (wq_head ?q) (wq_tail ?q) (wq_count ?q)"
    using inv k(2,4-7) cnt by (auto simp: queue_ok_def wq_inv_def word_le_nat_alt add.assoc)
  ultimately have "wq_holds ?q (queued @ xs) held written" using h fit slots by (simp add: wq_holds_def wq_inv_def)
  with k(1) show ?thesis by blast
qed

lemma push_holds:
  assumes "wq_holds q queued held written" "storage_local_queue_push_batch q xs = (rc, q')" "length xs \<le> unat (wq_capacity q)"
  shows "wq_holds q' (if rc = 0 then queued @ xs else queued) held written"
proof (cases rule: push_cases [of q xs])
  case (stored b ok q1 tail)
  from stored_holds [OF assms(1) stored(1-4) assms(3)] stored(5,6) assms(2) show ?thesis by auto
qed (use assms in auto)

lemma wq_holds_record_depth [simp]:
  "wq_holds (storage_queue_record_depth_locked q) queued held written = wq_holds q queued held written"
  by (simp add: wq_holds_def wq_inv_def wq_queue_def)

section \<open>Taking an item\<close>

lemma wq_holds_count: "wq_holds q queued held written \<Longrightarrow> wq_count q = 0 \<longleftrightarrow> queued = []"
  unfolding wq_holds_def wq_queue_def by (metis length_0_conv ring_view_length unat_zero_iff)

lemma pop_item_holds:
  assumes h: "wq_holds q (x # queued) held written"
  defines "q1 \<equiv> q\<lparr>wq_head := (wq_head q + 1) mod wq_capacity q, wq_count := wq_count q - 1\<rparr>"
  shows "the (wq_items q) ! unat (wq_head q) = x"
    and "\<exists>t. storage_local_slot_transition_locked q1 (pd_slot x) STORAGE_SLOT_READY_FOR_NVME STORAGE_SLOT_NVME_BUSY = (0, q1\<lparr>wq_slots := t\<rparr>) \<and>
      wq_holds (q1\<lparr>wq_slots := t\<rparr>) queued (held @ [x]) written"
proof -
  have inv: "wq_inv q" and qv: "wq_queue q = x # queued" using h by (simp_all add: wq_holds_def)
  then obtain ys where ys: "wq_items q = Some ys" "length ys = unat (wq_capacity q)" "slot_table_inv (wq_slots q)"
    "st_capacity (wq_slots q) = wq_capacity q" "wq_head q < wq_capacity q" "unat (wq_count q) \<le> length ys"
    "unat (wq_tail q) = (unat (wq_head q) + unat (wq_count q)) mod length ys" by (auto simp: wq_inv_def elim: queue_okE)
  have nz: "wq_count q \<noteq> 0" using wq_holds_count [OF h] by simp
  then obtain k where k: "unat (wq_count q) = Suc k" by (metis unat_zero_iff not0_implies_Suc)
  have k': "unat (wq_count q - 1) = k" using nz k by (simp add: unat_dec)
  have hl: "unat (wq_head q) < length ys" using ys(2,5) by (simp add: word_less_nat_alt)
  let ?h = "(wq_head q + 1) mod wq_capacity q"
  have h': "unat ?h = Suc (unat (wq_head q)) mod length ys" using ring_advance [OF ys(5)] ys(2) by simp
  have x: "ys ! unat (wq_head q) = x" and rest: "ring_view ys (unat ?h) k = queued"
    using ring_view_take [OF hl, of k] qv ys(1) k h' by (auto simp: wq_queue_def)
  then show "the (wq_items q) ! unat (wq_head q) = x" using ys(1) by simp
  have st_of: "\<And>i. storage_slot_state (wq_slots q) i = STORAGE_SLOT_READY_FOR_NVME \<longleftrightarrow> i \<in> pd_slot ` set (x # queued)"
      "\<And>i. storage_slot_state (wq_slots q) i = STORAGE_SLOT_NVME_BUSY \<longleftrightarrow> i \<in> pd_slot ` set held"
    and d: "distinct (map pd_slot (x # queued))" "distinct (map pd_slot held)" using h by (auto simp: wq_holds_def wq_inv_def)
  have ready: "storage_slot_state (wq_slots q1) (pd_slot x) = STORAGE_SLOT_READY_FOR_NVME" using st_of(1) [of "pd_slot x"] by (simp add: q1_def)
  have "slot_table_inv (wq_slots q1)" using ys(3) by (simp add: q1_def)
  from local_transition [OF this ready, of STORAGE_SLOT_NVME_BUSY] obtain t where
    t: "storage_local_slot_transition_locked q1 (pd_slot x) STORAGE_SLOT_READY_FOR_NVME STORAGE_SLOT_NVME_BUSY = (0, q1\<lparr>wq_slots := t\<rparr>)"
    "slot_table_inv t" "st_capacity t = wq_capacity q" "storage_slot_state t = (storage_slot_state (wq_slots q))(pd_slot x := STORAGE_SLOT_NVME_BUSY)"
    using ys(4) by (auto simp: q1_def)
  let ?q = "q1\<lparr>wq_slots := t\<rparr>"
  have "pd_slot x \<notin> pd_slot ` set held" using st_of(2) [of "pd_slot x"] ready by (simp add: q1_def)
  then have dh: "distinct (map pd_slot (held @ [x]))" using d(2) by auto
  have "wq_queue ?q = queued" using rest k' ys(1) by (simp add: wq_queue_def q1_def)
  moreover have "storage_slot_state t i = STORAGE_SLOT_READY_FOR_NVME \<longleftrightarrow> i \<in> pd_slot ` set queued"
      "storage_slot_state t i = STORAGE_SLOT_NVME_BUSY \<longleftrightarrow> i \<in> pd_slot ` set (held @ [x])" for i
    using st_of [of i] d(1) by (auto simp: t(4))
  moreover have "queue_ok (wq_items ?q) (wq_slots ?q) (wq_capacity ?q) (wq_head ?q) (wq_tail ?q) (wq_count ?q)"
    using ys t(2,3) k k' h' ring_advance_less [OF ys(5)] by (auto simp: queue_ok_def q1_def word_le_nat_alt mod_add_left_eq)
  ultimately have "wq_holds ?q queued (held @ [x]) written" using h d dh by (simp add: wq_holds_def wq_inv_def q1_def)
  with t(1) show "\<exists>t. storage_local_slot_transition_locked q1 (pd_slot x) STORAGE_SLOT_READY_FOR_NVME STORAGE_SLOT_NVME_BUSY = (0, q1\<lparr>wq_slots := t\<rparr>) \<and>
      wq_holds (q1\<lparr>wq_slots := t\<rparr>) queued (held @ [x]) written" by blast
qed

text \<open>How a pop ends: the oldest item goes to the writer, or nothing is taken.\<close>

lemma pop_holds:
  assumes h: "wq_holds q queued held written" and p: "storage_queue_pop waited q wait = (out, q')"
  shows "case out of QueuePopped STORAGE_QUEUE_POP_ITEM (Some x) \<Rightarrow>
             \<exists>rest. queued = x # rest \<and> wq_holds q' rest (held @ [x]) written
         | _ \<Rightarrow> wq_holds q' queued held written"
proof (cases "wq_error q \<or> wq_count q = 0")
  case True
  then show ?thesis using p h
    by (auto simp: storage_queue_pop_def Let_def split: if_splits option.splits)
next
  case False
  with wq_holds_count [OF h] obtain x rest where q: "queued = x # rest" by (cases queued) auto
  define w where "w = (case waited of None \<Rightarrow> 0 | Some (start_us, now) \<Rightarrow> if start_us \<noteq> 0 then elapsed_us start_us now else 0)"
  define q0 where "q0 = q\<lparr>wq_queue_empty_wait_us := wq_queue_empty_wait_us q + w, wq_writer_idle_us := wq_writer_idle_us q + w\<rparr>"
  have h0: "wq_holds q0 (x # rest) held written" unfolding q0_def q [symmetric] by (rule wq_holds_frame [OF h]) simp_all
  note item = pop_item_holds [OF h0]
  then obtain t where t: "storage_local_slot_transition_locked (q0\<lparr>wq_head := (wq_head q0 + 1) mod wq_capacity q0, wq_count := wq_count q0 - 1\<rparr>)
      (pd_slot x) STORAGE_SLOT_READY_FOR_NVME STORAGE_SLOT_NVME_BUSY =
      (0, q0\<lparr>wq_head := (wq_head q0 + 1) mod wq_capacity q0, wq_count := wq_count q0 - 1, wq_slots := t\<rparr>)"
    "wq_holds (q0\<lparr>wq_head := (wq_head q0 + 1) mod wq_capacity q0, wq_count := wq_count q0 - 1, wq_slots := t\<rparr>) rest (held @ [x]) written"
    by auto
  have "\<not> wq_error q0" "wq_count q0 \<noteq> 0" using False by (simp_all add: q0_def)
  then have "storage_queue_pop waited q wait = (QueuePopped STORAGE_QUEUE_POP_ITEM (Some x),
      storage_queue_record_depth_locked (q0\<lparr>wq_head := (wq_head q0 + 1) mod wq_capacity q0, wq_count := wq_count q0 - 1, wq_slots := t\<rparr>))"
    using False item(1) t(1) by (simp add: storage_queue_pop_def Let_def q0_def w_def)
  with p t(2) q show ?thesis by auto
qed

section \<open>Completing a slot\<close>

text \<open>A move between states neither the queue nor the writer has leaves what the queue holds alone.\<close>

lemma transition_holds:
  assumes h: "wq_holds q queued held written" and tr: "storage_local_slot_transition_locked q slot a b = (rc, q')"
    and ab: "a \<notin> {STORAGE_SLOT_READY_FOR_NVME, STORAGE_SLOT_NVME_BUSY}" "b \<notin> {STORAGE_SLOT_READY_FOR_NVME, STORAGE_SLOT_NVME_BUSY}"
  shows "wq_holds q' queued held written"
proof -
  have inv: "slot_table_inv (wq_slots q)" using h by (auto simp: wq_holds_def wq_inv_def queue_ok_def)
  show ?thesis
  proof (cases rule: slot_table.move_cases [OF inv, of slot a b, case_names moved refused])
    case (moved t)
    then have q': "q' = q\<lparr>wq_slots := t\<rparr>" using tr by (simp add: storage_local_slot_transition_locked_def Let_def)
    have cap: "st_capacity t = st_capacity (wq_slots q)" using fun_cong [OF moved(4)] by (metis linorder_neq_iff)
    have same: "storage_slot_state t i = c \<longleftrightarrow> storage_slot_state (wq_slots q) i = c"
      if "c \<in> {STORAGE_SLOT_READY_FOR_NVME, STORAGE_SLOT_NVME_BUSY}" for i c
      using that moved(3,6) ab by auto
    have "wq_queue q' = wq_queue q" by (simp add: q' wq_queue_def)
    with h moved(2) cap same show ?thesis by (auto simp: wq_holds_def wq_inv_def queue_ok_def q')
  next
    case refused
    then show ?thesis using tr h by (auto simp: storage_local_slot_transition_locked_def Let_def)
  qed
qed

lemma written_holds:
  assumes h: "wq_holds q queued held written" and x: "x \<in> set held"
    and fit: "wq_bytes_written q \<le> UINT64_MAX - pd_bytes x" "wq_completed_slot_count q \<noteq> UINT64_MAX"
    and b: "b \<in> {STORAGE_SLOT_REQUEUE_PENDING, STORAGE_SLOT_FREE}"
  shows "\<exists>t. storage_local_slot_transition_locked (count_written x q) (pd_slot x) STORAGE_SLOT_NVME_BUSY b = (0, (count_written x q)\<lparr>wq_slots := t\<rparr>) \<and>
    wq_holds ((count_written x q)\<lparr>wq_slots := t\<rparr>) queued (remove1 x held) (written @ [x])"
proof -
  let ?q1 = "count_written x q"
  have inv: "slot_table_inv (wq_slots ?q1)" using h by (auto simp: wq_holds_def wq_inv_def queue_ok_def count_written_def)
  have st_of: "\<And>i. storage_slot_state (wq_slots q) i = STORAGE_SLOT_READY_FOR_NVME \<longleftrightarrow> i \<in> pd_slot ` set queued"
      "\<And>i. storage_slot_state (wq_slots q) i = STORAGE_SLOT_NVME_BUSY \<longleftrightarrow> i \<in> pd_slot ` set held"
    and d: "distinct (map pd_slot held)" using h by (auto simp: wq_holds_def wq_inv_def)
  have busy: "storage_slot_state (wq_slots ?q1) (pd_slot x) = STORAGE_SLOT_NVME_BUSY" using st_of(2) x by (simp add: count_written_def)
  from local_transition [OF inv busy, of b] b obtain t where
    t: "storage_local_slot_transition_locked ?q1 (pd_slot x) STORAGE_SLOT_NVME_BUSY b = (0, ?q1\<lparr>wq_slots := t\<rparr>)"
    "slot_table_inv t" "st_capacity t = st_capacity (wq_slots q)" "storage_slot_state t = (storage_slot_state (wq_slots q))(pd_slot x := b)"
    by (auto simp: count_written_def)
  let ?q2 = "?q1\<lparr>wq_slots := t\<rparr>"
  have split: "total_bytes held = unat (pd_bytes x) + total_bytes (remove1 x held)" "length held = Suc (length (remove1 x held))"
    using x length_pos_if_in_set [OF x] by (simp_all add: sum_list_map_remove1 length_remove1)
  have dm: "distinct held" using d by (simp add: distinct_map)
  then have rest: "pd_slot ` set (remove1 x held) = pd_slot ` set held - {pd_slot x}"
    using d x by (auto simp: distinct_map inj_on_def)
  have "storage_slot_state t i = STORAGE_SLOT_NVME_BUSY \<longleftrightarrow> i \<in> pd_slot ` set (remove1 x held)" for i
    using st_of(2) [of i] b by (auto simp: t(4) rest)
  moreover have "storage_slot_state t i = STORAGE_SLOT_READY_FOR_NVME \<longleftrightarrow> i \<in> pd_slot ` set queued" for i
    using st_of [of "pd_slot x"] st_of(1) [of i] x b by (auto simp: t(4))
  moreover have "unat (wq_bytes_written ?q2) = total_bytes (written @ [x])"
    using u64_sum_fits [OF fit(1)] h by (simp add: count_written_def wq_holds_def unat_add_le)
  moreover have "unat (wq_completed_slot_count ?q2) = length (written @ [x])"
    using fit(2) h unat_inc [of "wq_completed_slot_count q" UINT64_MAX] by (simp add: count_written_def wq_holds_def less_le)
  moreover have "unat (wq_buffered_bytes ?q2) = total_bytes queued + total_bytes (remove1 x held)"
    using h split(1) by (auto simp: count_written_def wq_holds_def word_le_nat_alt unat_sub)
  moreover have "distinct (map pd_slot (remove1 x held))" using d dm by (auto simp: distinct_map inj_on_def)
  moreover have "wq_queue ?q2 = queued" using h by (simp add: wq_queue_def count_written_def wq_holds_def)
  ultimately have "wq_holds ?q2 queued (remove1 x held) (written @ [x])"
    using h t(2,3) split(2) by (auto simp: wq_holds_def wq_inv_def queue_ok_def count_written_def)
  with t(1) show ?thesis by blast
qed

lemma fail_locked_holds [simp]: "wq_holds (storage_queue_fail_locked q) queued held written = wq_holds q queued held written"
  by (simp add: storage_queue_fail_locked_def Let_def)

lemma set_reason_holds [simp]: "wq_holds (storage_set_writer_error_reason q r) queued held written = wq_holds q queued held written"
  by (simp add: storage_set_writer_error_reason_def)

lemma fail_fatal_holds [simp]:
  "storage_fail_fatal now q g = (q', g') \<Longrightarrow> wq_holds q' queued held written = wq_holds q queued held written"
  by (auto simp: storage_fail_fatal_def Let_def split: if_splits)

lemma hand_back_holds:
  assumes h: "wq_holds q queued held written" and b: "hand_back now sr cr x q g = (rc, q', g', ws)"
  shows "wq_holds q' queued held written"
proof -
  obtain rc1 rt1 ws1 where r: "dma_requeue_one sr cr (wq_rt q) (pd_slot x) = (rc1, rt1, ws1)" by (metis prod_cases3)
  obtain rc2 q2 where t: "storage_local_slot_transition_locked (q\<lparr>wq_rt := rt1\<rparr>) (pd_slot x) STORAGE_SLOT_REQUEUE_PENDING
      STORAGE_SLOT_DMA_WRITABLE = (rc2, q2)" by fastforce
  have "wq_holds q2 queued held written" by (rule transition_holds [OF _ t]) (use h in simp_all)
  then show ?thesis using b h r t
    by (auto simp: hand_back_def Let_def split: if_splits prod.splits)
qed

lemma complete_holds:
  assumes h: "wq_holds q queued held written" and x: "x \<in> set held"
    and c: "storage_complete_slot now sr cr q x g = (rc, q', g', ws)"
  shows "if storage_slot_state (wq_slots q') (pd_slot x) = STORAGE_SLOT_NVME_BUSY then wq_holds q' queued held written
         else wq_holds q' queued (remove1 x held) (written @ [x])"
proof -
  have busy: "storage_slot_state (wq_slots q) (pd_slot x) = STORAGE_SLOT_NVME_BUSY" using h x by (auto simp: wq_holds_def)
  then have range: "\<not> wq_capacity q \<le> pd_slot x"
    using slot_state_range [of "wq_slots q" "pd_slot x"] h by (auto simp: wq_holds_def wq_inv_def queue_ok_def)
  show ?thesis
  proof (cases "UINT64_MAX - pd_bytes x < wq_bytes_written q \<or> wq_completed_slot_count q = UINT64_MAX")
    case True
    then show ?thesis using c busy range h by (auto simp: storage_complete_slot_def)
  next
    case False
    let ?rq = "wq_requeue_enabled (count_written x q) \<and> storage_worker_can_requeue (wq_worker_state (count_written x q))"
    let ?b = "if ?rq then STORAGE_SLOT_REQUEUE_PENDING else STORAGE_SLOT_FREE"
    have b: "?b \<in> {STORAGE_SLOT_REQUEUE_PENDING, STORAGE_SLOT_FREE}" by simp
    obtain t where t: "storage_local_slot_transition_locked (count_written x q) (pd_slot x) STORAGE_SLOT_NVME_BUSY ?b =
        (0, (count_written x q)\<lparr>wq_slots := t\<rparr>)" "wq_holds ((count_written x q)\<lparr>wq_slots := t\<rparr>) queued (remove1 x held) (written @ [x])"
      using written_holds [OF h x _ _ b] False by (auto simp: not_less)
    have "wq_holds q' queued (remove1 x held) (written @ [x])"
      using c busy range False t hand_back_holds [OF t(2)]
      by (auto simp: storage_complete_slot_def Let_def split: if_splits prod.splits)
    moreover have "pd_slot x \<notin> pd_slot ` set (remove1 x held)"
      using h x by (auto simp: wq_holds_def distinct_map inj_on_def)
    ultimately show ?thesis by (auto simp: wq_holds_def)
  qed
qed

section \<open>Runs\<close>

text \<open>The steps of the producer and the writer, in any order. The writer completes an item it holds, given by its
  position; a batch has at most as many items as the ring has slots.\<close>

datatype queue_op =
    OpPush "PendingDdrSlot list"
  | OpPop "(u64 \<times> u64) option" bool
  | OpComplete nat u64 u32 u32
  | OpHarvestFailed u32
  | OpReleaseHarvested u32
  | OpReady
  | OpEnableRun
  | OpWriterReady bool
  | OpProducerReady bool
  | OpRunning
  | OpRequestStop
  | OpLatchStop
  | OpHarvesting
  | OpFinish
  | OpFinalizing
  | OpDone
  | OpAbort
  | OpFatal u64
  | OpReason string
  | OpDeferred StorageErrorCode string
  | OpSnapshot

record queue_run =
  qr_q :: StorageWriteQueue
  qr_g :: StorageGlobals
  qr_pushed :: "PendingDdrSlot list"
  qr_popped :: "PendingDdrSlot list"
  qr_held :: "PendingDdrSlot list"
  qr_written :: "PendingDdrSlot list"

definition do_push :: "PendingDdrSlot list \<Rightarrow> queue_run \<Rightarrow> queue_run" where
  "do_push xs s =
     (if unat (wq_capacity (qr_q s)) < length xs then s
      else case storage_local_queue_push_batch (qr_q s) xs of
             (rc, q) \<Rightarrow> s\<lparr>qr_q := q, qr_pushed := (if rc = 0 then qr_pushed s @ xs else qr_pushed s)\<rparr>)"

definition note_pop :: "queue_pop \<Rightarrow> StorageWriteQueue \<Rightarrow> queue_run \<Rightarrow> queue_run" where
  "note_pop out q s =
     (case out of
        QueuePopped STORAGE_QUEUE_POP_ITEM (Some x) \<Rightarrow>
          s\<lparr>qr_q := q, qr_popped := qr_popped s @ [x], qr_held := qr_held s @ [x]\<rparr>
      | _ \<Rightarrow> s\<lparr>qr_q := q\<rparr>)"

definition do_pop :: "(u64 \<times> u64) option \<Rightarrow> bool \<Rightarrow> queue_run \<Rightarrow> queue_run" where
  "do_pop waited wait s = (case storage_queue_pop waited (qr_q s) wait of (out, q) \<Rightarrow> note_pop out q s)"

definition note_complete :: "PendingDdrSlot \<Rightarrow> StorageWriteQueue \<Rightarrow> StorageGlobals \<Rightarrow> queue_run \<Rightarrow> queue_run" where
  "note_complete x q g s =
     (if storage_slot_state (wq_slots q) (pd_slot x) = STORAGE_SLOT_NVME_BUSY then s\<lparr>qr_q := q, qr_g := g\<rparr>
      else s\<lparr>qr_q := q, qr_g := g, qr_held := remove1 x (qr_held s), qr_written := qr_written s @ [x]\<rparr>)"

definition do_complete :: "nat \<Rightarrow> u64 \<Rightarrow> u32 \<Rightarrow> u32 \<Rightarrow> queue_run \<Rightarrow> queue_run" where
  "do_complete k now sr cr s =
     (if length (qr_held s) \<le> k then s
      else case storage_complete_slot now sr cr (qr_q s) (qr_held s ! k) (qr_g s) of
             (rc, q, g, ws) \<Rightarrow> note_complete (qr_held s ! k) q g s)"

fun other_op :: "queue_op \<Rightarrow> StorageWriteQueue \<Rightarrow> StorageGlobals \<Rightarrow> StorageWriteQueue \<times> StorageGlobals" where
  "other_op (OpHarvestFailed slot) q g = (storage_mark_harvest_slot_failed q slot, g)"
| "other_op (OpReleaseHarvested slot) q g = (snd (storage_release_harvested_slot q slot), g)"
| "other_op OpReady q g = (snd (storage_queue_mark_ready q), g)"
| "other_op OpEnableRun q g = (snd (storage_queue_enable_run q), g)"
| "other_op (OpWriterReady ok) q g = (storage_queue_set_writer_ready q ok, g)"
| "other_op (OpProducerReady ok) q g = (snd (storage_queue_set_producer_ready q ok), g)"
| "other_op OpRunning q g = (snd (storage_queue_mark_running q), g)"
| "other_op OpRequestStop q g = (snd (storage_queue_request_stop_state q), g)"
| "other_op OpLatchStop q g = (snd (storage_queue_latch_stop q), g)"
| "other_op OpHarvesting q g = (snd (storage_queue_mark_harvesting q), g)"
| "other_op OpFinish q g = storage_queue_finish q g"
| "other_op OpFinalizing q g = (snd (storage_queue_mark_finalizing q), g)"
| "other_op OpDone q g = (snd (storage_queue_mark_done q), g)"
| "other_op OpAbort q g = (fst (storage_queue_request_abort q None), g)"
| "other_op (OpFatal now) q g = storage_fail_fatal now q g"
| "other_op (OpReason r) q g = (storage_set_writer_error_reason q r, g)"
| "other_op (OpDeferred code r) q g = (storage_record_deferred_stop_error q code r, g)"
| "other_op OpSnapshot q g = (snd (storage_queue_snapshot q), g)"
| "other_op _ q g = (q, g)"

fun queue_step :: "queue_run \<Rightarrow> queue_op \<Rightarrow> queue_run" where
  "queue_step s (OpPush xs) = do_push xs s"
| "queue_step s (OpPop waited wait) = do_pop waited wait s"
| "queue_step s (OpComplete k now sr cr) = do_complete k now sr cr s"
| "queue_step s op = (case other_op op (qr_q s) (qr_g s) of (q, g) \<Rightarrow> s\<lparr>qr_q := q, qr_g := g\<rparr>)"

definition queue_start :: "StorageWriteQueue \<Rightarrow> StorageGlobals \<Rightarrow> queue_run" where
  "queue_start q g = \<lparr>qr_q = q, qr_g = g, qr_pushed = [], qr_popped = [], qr_held = [], qr_written = []\<rparr>"

definition run_ok :: "queue_run \<Rightarrow> bool" where
  "run_ok s \<longleftrightarrow>
     wq_holds (qr_q s) (wq_queue (qr_q s)) (qr_held s) (qr_written s) \<and>
     qr_popped s @ wq_queue (qr_q s) = qr_pushed s \<and> mset (qr_popped s) = mset (qr_held s) + mset (qr_written s)"

lemma worker_transition_holds [simp]:
  "wq_holds (snd (storage_queue_transition_locked q a b)) queued held written = wq_holds q queued held written"
  by (simp add: storage_queue_transition_locked_def split: prod.split)

lemma latch_stop_eq:
  "snd (storage_queue_latch_stop q) =
     q\<lparr>wq_worker_state := (if wq_worker_state q \<in> {WORKER_RUNNING, WORKER_WAIT_BOUNDARY} then WORKER_DMA_QUIESCING
                            else wq_worker_state q),
       wq_requeue_enabled := False, wq_rt := dma_latch_stop (wq_rt q)\<rparr>"
  by (cases "wq_worker_state q")
    (simp_all add: storage_queue_latch_stop_def storage_queue_transition_locked_def storage_worker_transition_def
      worker_transition_allowed_def worker_order)

lemma other_op_holds:
  assumes "wq_holds q queued held written" "other_op op q g = (q', g')"
  shows "wq_holds q' queued held written"
proof (cases op)
  case (OpHarvestFailed slot)
  then show ?thesis using assms transition_holds [OF assms(1), of slot STORAGE_SLOT_DMA_WRITABLE STORAGE_SLOT_DMA_COMPLETED_UNHARVESTED]
    by (cases "storage_local_slot_transition_locked q slot STORAGE_SLOT_DMA_WRITABLE STORAGE_SLOT_DMA_COMPLETED_UNHARVESTED")
      (auto simp: storage_mark_harvest_slot_failed_def Let_def split: if_splits)
next
  case (OpReleaseHarvested slot)
  then show ?thesis using assms transition_holds [OF assms(1), of slot STORAGE_SLOT_DMA_WRITABLE STORAGE_SLOT_FREE]
    by (cases "storage_local_slot_transition_locked q slot STORAGE_SLOT_DMA_WRITABLE STORAGE_SLOT_FREE")
      (auto simp: storage_release_harvested_slot_def split: if_splits)
next
  case OpFinish
  then show ?thesis using assms
    by (auto simp: storage_queue_finish_def Let_def storage_queue_transition_locked_def split: if_splits prod.splits)
next
  case OpFinalizing
  obtain rc q1 where q1: "storage_queue_transition_locked q WORKER_DRAINING WORKER_DRAINED_WAIT_STOP = (rc, q1)" by fastforce
  then have "wq_holds q1 queued held written" using assms(1) worker_transition_holds [of q WORKER_DRAINING WORKER_DRAINED_WAIT_STOP] by simp
  with q1 show ?thesis using assms(2) OpFinalizing by (auto simp: storage_queue_mark_finalizing_def split: if_splits)
next
  case OpLatchStop
  then show ?thesis using assms
    by (auto simp: latch_stop_eq)
qed (use assms in \<open>auto simp: storage_queue_mark_ready_def storage_queue_enable_run_def storage_queue_set_writer_ready_def
  storage_queue_set_producer_ready_def storage_queue_mark_running_def storage_queue_request_stop_state_def
  storage_queue_mark_harvesting_def storage_queue_mark_done_def storage_queue_request_abort_def
  storage_record_deferred_stop_error_def storage_queue_snapshot_def Let_def split: if_splits\<close>)

lemma run_ok_holds:
  assumes "run_ok s" "wq_holds q (wq_queue (qr_q s)) (qr_held s) (qr_written s)"
  shows "run_ok (s\<lparr>qr_q := q, qr_g := g\<rparr>)"
proof -
  have "wq_queue q = wq_queue (qr_q s)" using assms(2) by (simp add: wq_holds_def)
  then show ?thesis using assms by (simp add: run_ok_def)
qed

lemma push_run_ok:
  assumes ok: "run_ok s"
  shows "run_ok (do_push xs s)"
proof (cases "unat (wq_capacity (qr_q s)) < length xs")
  case False
  obtain rc q where p: "storage_local_queue_push_batch (qr_q s) xs = (rc, q)" by fastforce
  have h: "wq_holds (qr_q s) (wq_queue (qr_q s)) (qr_held s) (qr_written s)" using ok by (simp add: run_ok_def)
  have h': "wq_holds q (if rc = 0 then wq_queue (qr_q s) @ xs else wq_queue (qr_q s)) (qr_held s) (qr_written s)"
    by (rule push_holds [OF h p]) (use False in simp)
  then have "wq_queue q = (if rc = 0 then wq_queue (qr_q s) @ xs else wq_queue (qr_q s))" by (simp add: wq_holds_def)
  with h' ok p False show ?thesis by (auto simp: do_push_def run_ok_def)
qed (use ok in \<open>simp add: do_push_def\<close>)

lemma note_pop_ok:
  assumes ok: "run_ok s" and p: "storage_queue_pop waited (qr_q s) wait = (out, q)"
  shows "run_ok (note_pop out q s)"
proof -
  have h: "wq_holds (qr_q s) (wq_queue (qr_q s)) (qr_held s) (qr_written s)" using ok by (simp add: run_ok_def)
  note pop = pop_holds [OF h p]
  show ?thesis
  proof (cases "\<exists>x. out = QueuePopped STORAGE_QUEUE_POP_ITEM (Some x)")
    case True
    then obtain x where out: "out = QueuePopped STORAGE_QUEUE_POP_ITEM (Some x)" ..
    with pop obtain rest where r: "wq_queue (qr_q s) = x # rest" "wq_holds q rest (qr_held s @ [x]) (qr_written s)" by auto
    then have "wq_queue q = rest" by (simp add: wq_holds_def)
    with r ok out show ?thesis by (simp add: note_pop_def run_ok_def)
  next
    case False
    then have "wq_holds q (wq_queue (qr_q s)) (qr_held s) (qr_written s)" "note_pop out q s = s\<lparr>qr_q := q\<rparr>"
      using pop by (auto simp: note_pop_def split: queue_pop.splits StorageQueuePopResult.splits option.splits)
    then show ?thesis using run_ok_holds [OF ok, of q "qr_g s"] by simp
  qed
qed

lemma pop_run_ok: "run_ok s \<Longrightarrow> run_ok (do_pop waited wait s)"
  by (auto simp: do_pop_def intro: note_pop_ok split: prod.split)

lemma note_complete_ok:
  assumes ok: "run_ok s" and x: "x \<in> set (qr_held s)"
    and c: "storage_complete_slot now sr cr (qr_q s) x (qr_g s) = (rc, q, g, ws)"
  shows "run_ok (note_complete x q g s)"
proof -
  have h: "wq_holds (qr_q s) (wq_queue (qr_q s)) (qr_held s) (qr_written s)" using ok by (simp add: run_ok_def)
  note fin = complete_holds [OF h x c]
  show ?thesis
  proof (cases "storage_slot_state (wq_slots q) (pd_slot x) = STORAGE_SLOT_NVME_BUSY")
    case True
    then show ?thesis using fin run_ok_holds [OF ok, of q g] by (simp add: note_complete_def)
  next
    case no: False
    then have h': "wq_holds q (wq_queue (qr_q s)) (remove1 x (qr_held s)) (qr_written s @ [x])" using fin by simp
    then have "wq_queue q = wq_queue (qr_q s)" by (simp add: wq_holds_def)
    moreover have "mset (qr_held s) = add_mset x (mset (remove1 x (qr_held s)))" using x by simp
    ultimately show ?thesis using h' ok no by (simp add: note_complete_def run_ok_def)
  qed
qed

lemma complete_run_ok:
  assumes ok: "run_ok s"
  shows "run_ok (do_complete k now sr cr s)"
proof (cases "length (qr_held s) \<le> k")
  case False
  obtain rc q g ws where c: "storage_complete_slot now sr cr (qr_q s) (qr_held s ! k) (qr_g s) = (rc, q, g, ws)" by (metis prod_cases4)
  then show ?thesis using note_complete_ok [OF ok _ c] False by (simp add: do_complete_def)
qed (use ok in \<open>simp add: do_complete_def\<close>)

lemma other_step_ok:
  assumes "run_ok s"
  shows "run_ok (case other_op op (qr_q s) (qr_g s) of (q, g) \<Rightarrow> s\<lparr>qr_q := q, qr_g := g\<rparr>)"
proof -
  obtain q g where o: "other_op op (qr_q s) (qr_g s) = (q, g)" by fastforce
  have "wq_holds q (wq_queue (qr_q s)) (qr_held s) (qr_written s)"
    by (rule other_op_holds [OF _ o]) (use assms in \<open>simp add: run_ok_def\<close>)
  with run_ok_holds [OF assms] o show ?thesis by simp
qed

lemma queue_step_ok: "run_ok s \<Longrightarrow> run_ok (queue_step s op)"
  by (cases op; simp add: push_run_ok pop_run_ok complete_run_ok del: other_op.simps; rule other_step_ok; assumption)

lemma queue_run_ok: "run_ok s \<Longrightarrow> run_ok (foldl queue_step s ops)"
  by (induction ops arbitrary: s) (simp_all add: queue_step_ok)

lemma init_holds:
  assumes "storage_queue_init oks ring_size backlog config rt nrt channel fi ms task xs batch = Some q"
  shows "wq_holds q [] [] []"
proof -
  have nz: "rt_dma_desc_count rt \<noteq> 0" and q: "wq_items q = Some (replicate (unat (rt_dma_desc_count rt)) pending_slot_zero)"
      "wq_slots q = snd (storage_slot_table_init True slot_table_zero (rt_dma_desc_count rt))"
      "wq_capacity q = rt_dma_desc_count rt" "wq_head q = 0" "wq_tail q = 0" "wq_count q = 0" "wq_buffered_bytes q = 0"
      "wq_bytes_written q = 0" "wq_queued_slot_count q = 0" "wq_completed_slot_count q = 0"
    using assms by (auto simp: storage_queue_init_def storage_slot_table_init_def queue_zero_def split: prod.splits if_splits option.splits)
  let ?t = "snd (storage_slot_table_init True slot_table_zero (rt_dma_desc_count rt))"
  have cap: "st_capacity ?t = rt_dma_desc_count rt" using nz by (simp add: storage_slot_table_init_def)
  have "storage_slot_state ?t i \<in> {STORAGE_SLOT_DMA_WRITABLE, STORAGE_SLOT_INVALID}" for i
    using slot_table_init_state [OF nz, of i] slot_state_range [of ?t i] cap by auto
  then have "storage_slot_state ?t i \<noteq> STORAGE_SLOT_READY_FOR_NVME" "storage_slot_state ?t i \<noteq> STORAGE_SLOT_NVME_BUSY" for i
    by (metis insertE singletonD StorageSlotState.distinct)+
  moreover have "0 < rt_dma_desc_count rt" using nz by (simp add: word_gt_0)
  ultimately show ?thesis using q cap slot_table_init_inv [OF nz, of slot_table_zero]
    by (simp add: wq_holds_def wq_inv_def wq_queue_def queue_ok_def)
qed

lemma start_ok: "wq_holds q [] [] [] \<Longrightarrow> run_ok (queue_start q g)"
  by (auto simp: run_ok_def queue_start_def wq_holds_def)

section \<open>Properties\<close>

text \<open>C9. Whatever the producer and the writer do, in any interleaving, every harvested slot the write queue of the
  worker accepted is in exactly one place: still in the queue in the order it was pushed and marked as ready, with the writer and
  marked as busy, or written. The byte counters agree: the buffered bytes are those of the first two places, the
  written bytes those of the last.\<close>

theorem write_queue_accounts:
  assumes "storage_queue_init oks ring_size backlog config rt nrt channel fi ms task xs batch = Some q0"
    "s = foldl queue_step (queue_start q0 g) ops" "q = qr_q s"
  shows "qr_popped s @ wq_queue q = qr_pushed s \<and> mset (qr_popped s) = mset (qr_held s) + mset (qr_written s) \<and>
    (\<forall>i. storage_slot_state (wq_slots q) i = STORAGE_SLOT_READY_FOR_NVME \<longleftrightarrow> i \<in> pd_slot ` set (wq_queue q)) \<and>
    (\<forall>i. storage_slot_state (wq_slots q) i = STORAGE_SLOT_NVME_BUSY \<longleftrightarrow> i \<in> pd_slot ` set (qr_held s)) \<and>
    unat (wq_buffered_bytes q) = total_bytes (wq_queue q) + total_bytes (qr_held s) \<and>
    unat (wq_bytes_written q) = total_bytes (qr_written s)"
  using queue_run_ok [OF start_ok [OF init_holds [OF assms(1)]], of g ops] assms(2,3)
  by (simp add: run_ok_def wq_holds_def wq_inv_def)

text \<open>A ring of two slots: the first slot is written and handed back, the second is with the writer, and the first is
  harvested and queued once more.\<close>

definition small_item :: "u32 \<Rightarrow> u64 \<Rightarrow> PendingDdrSlot" where
  "small_item slot k = \<lparr>pd_slot = slot, pd_bytes = 1024, pd_media_bytes = 1024, pd_chunk_index = k, pd_file_offset = 1024 * k,
     pd_start_lba = 4096 + 2 * k, pd_sectors = 2, pd_hw_addr = 0x80000000 + 1024 * ucast slot\<rparr>"

definition small_ring :: ChannelRuntime where
  "small_ring = snd (snd (the (dma_harvest_batch two_slot_ring 2 both_done)))"

definition small_queue :: StorageWriteQueue where
  "small_queue = the (storage_queue_init (True, True, True, True, True) 2 False mock_config small_ring mock_runtime 1 1 0 ''T1''
     True 2)"

definition quiet_globals :: StorageGlobals where
  "quiet_globals = \<lparr>g_storage_stop_requested = False, g_storage_control_drain_latched = False,
     g_storage_control_stop_latched = False, g_storage_fatal_event_sent = False, g_storage_stop_epoch = 0\<rparr>"

definition small_ops :: "queue_op list" where
  "small_ops = [OpReady, OpEnableRun, OpWriterReady True, OpProducerReady True, OpRunning, OpPush [small_item 0 0, small_item 1 1],
     OpPop None True, OpComplete 0 5 0 1, OpPop None True, OpPush [small_item 0 2]]"

lemma small_queue_init:
  "storage_queue_init (True, True, True, True, True) 2 False mock_config small_ring mock_runtime 1 1 0 ''T1'' True 2 = Some small_queue"
proof -
  have "rt_dma_desc_count small_ring = 2" by code_simp
  then show ?thesis
    by (simp add: small_queue_def storage_queue_init_def storage_slot_table_init_def storage_event_ring_init_def)
qed





definition small_run :: queue_run where
  "small_run = foldl queue_step (queue_start small_queue quiet_globals) small_ops"

definition run_lists :: "queue_run \<Rightarrow> PendingDdrSlot list \<times> PendingDdrSlot list \<times> PendingDdrSlot list \<times> PendingDdrSlot list" where
  "run_lists s = (qr_pushed s, qr_popped s, qr_held s, qr_written s)"

lemma small_run_lists:
  "run_lists small_run = ([small_item 0 0, small_item 1 1, small_item 0 2], [small_item 0 0, small_item 1 1], [small_item 1 1], [small_item 0 0])"
  by code_simp

theorem write_queue_accounts_witness:
  "wq_queue (qr_q small_run) = [small_item 0 2] \<and> unat (wq_bytes_written (qr_q small_run)) = 1024 \<and>
   unat (wq_buffered_bytes (qr_q small_run)) = 2048 \<and>
   storage_slot_state (wq_slots (qr_q small_run)) 0 = STORAGE_SLOT_READY_FOR_NVME \<and>
   storage_slot_state (wq_slots (qr_q small_run)) 1 = STORAGE_SLOT_NVME_BUSY"
  using write_queue_accounts [OF small_queue_init small_run_def refl] small_run_lists
  by (auto simp: small_item_def run_lists_def)
end
