(* ===== verification/Channel_Table.thy ===== *)
theory Channel_Table
  imports Storage_Config
begin

text \<open>
  The table of channels of \<^verbatim>\<open>ccb_config.c\<close> with the lookup, and the severities of the log of
  \<^verbatim>\<open>ccb_storage_log.h\<close>. The address map of a channel is data of the board.
\<close>

section \<open>Channels\<close>

record ChannelConfig =
  ch_id :: int
  ch_name :: string
  ch_file_type :: u32
  ch_dma_base :: u64
  ch_axis_switch_base :: u64
  ch_nvme_base :: u64
  ch_pcie_bridge_base :: u64
  ch_desc_cpu_base :: u64
  ch_desc_dma_base :: u64
  ch_desc_cpu_size :: u64
  ch_ddr_cpu_base :: u64
  ch_ddr_hw_base :: u64
  ch_ddr_cpu_size :: u64
  ch_dma_ring_bytes :: u64
  ch_dma_ring_bytes_max :: u64
  ch_dma_desc_bytes_default :: u32

abbreviation HIGH_I_CHANNEL_ID :: int where "HIGH_I_CHANNEL_ID \<equiv> 0"
abbreviation HIGH_Q_CHANNEL_ID :: int where "HIGH_Q_CHANNEL_ID \<equiv> 1"
abbreviation CHANNEL_CPU_DDR_BYTES :: u64 where "CHANNEL_CPU_DDR_BYTES \<equiv> 64 * 1024 * 1024"
abbreviation CHANNEL1_DDR_BYTES :: u64 where "CHANNEL1_DDR_BYTES \<equiv> 1 * 1024 * 1024 * 1024"
abbreviation CHANNEL0_DDR_BYTES_MAX :: u64 where "CHANNEL0_DDR_BYTES_MAX \<equiv> 2 * 1024 * 1024 * 1024"
abbreviation CHANNEL1_DDR_BYTES_MAX :: u64 where "CHANNEL1_DDR_BYTES_MAX \<equiv> 2 * 1024 * 1024 * 1024"
abbreviation CHANNEL2_DDR_BYTES_MAX :: u64 where "CHANNEL2_DDR_BYTES_MAX \<equiv> CHANNEL2_DDR_BYTES"
abbreviation DMA_DESC_BYTES_CH0_DEFAULT :: u32 where "DMA_DESC_BYTES_CH0_DEFAULT \<equiv> 16 * 1024 * 1024"
abbreviation DMA_DESC_BYTES_CH2_DEFAULT :: u32 where "DMA_DESC_BYTES_CH2_DEFAULT \<equiv> 16 * 1024 * 1024"

definition kChannels :: "ChannelConfig list" where
  "kChannels =
     [\<lparr>ch_id = HIGH_I_CHANNEL_ID, ch_name = ''HIGH_I'', ch_file_type = 1, ch_dma_base = 0x41e00000,
       ch_axis_switch_base = 0x44a10000, ch_nvme_base = 0x44a00000, ch_pcie_bridge_base = 0xb0000000,
       ch_desc_cpu_base = 0x20000000, ch_desc_dma_base = 0x10000000, ch_desc_cpu_size = 0x4000,
       ch_ddr_cpu_base = 0x10000000, ch_ddr_hw_base = 0, ch_ddr_cpu_size = CHANNEL_CPU_DDR_BYTES,
       ch_dma_ring_bytes = CHANNEL0_DDR_BYTES, ch_dma_ring_bytes_max = CHANNEL0_DDR_BYTES_MAX,
       ch_dma_desc_bytes_default = DMA_DESC_BYTES_CH0_DEFAULT\<rparr>,
      \<lparr>ch_id = HIGH_Q_CHANNEL_ID, ch_name = ''HIGH_Q'', ch_file_type = 2, ch_dma_base = 0xa0060000,
       ch_axis_switch_base = 0xa0070000, ch_nvme_base = 0xa0080000, ch_pcie_bridge_base = 0xd0000000,
       ch_desc_cpu_base = 0x30000000, ch_desc_dma_base = 0x10000000, ch_desc_cpu_size = 0x4000,
       ch_ddr_cpu_base = 0xd0000000, ch_ddr_hw_base = 0, ch_ddr_cpu_size = CHANNEL_CPU_DDR_BYTES,
       ch_dma_ring_bytes = CHANNEL1_DDR_BYTES, ch_dma_ring_bytes_max = CHANNEL1_DDR_BYTES_MAX,
       ch_dma_desc_bytes_default = DMA_DESC_BYTES_CH0_DEFAULT\<rparr>,
      \<lparr>ch_id = uint LOW_SPEED_CHANNEL_ID, ch_name = ''LOW_SPEED'', ch_file_type = 0, ch_dma_base = 0x00030000,
       ch_axis_switch_base = 0x00040000, ch_nvme_base = 0x00010000, ch_pcie_bridge_base = 0,
       ch_desc_cpu_base = 0x20004000, ch_desc_dma_base = 0x10000000, ch_desc_cpu_size = 0x4000,
       ch_ddr_cpu_base = 0xc0000000, ch_ddr_hw_base = 0, ch_ddr_cpu_size = CHANNEL_CPU_DDR_BYTES,
       ch_dma_ring_bytes = CHANNEL2_DDR_BYTES, ch_dma_ring_bytes_max = CHANNEL2_DDR_BYTES_MAX,
       ch_dma_desc_bytes_default = DMA_DESC_BYTES_CH2_DEFAULT\<rparr>]"

definition find_channel :: "int \<Rightarrow> ChannelConfig option" where
  "find_channel i = find (\<lambda>c. ch_id c = i) kChannels"

lemma find_channel_iff: "find_channel i \<noteq> None \<longleftrightarrow> i \<in> {0, 1, 2}"
  by (auto simp: find_channel_def kChannels_def)

lemma find_channel_id: "find_channel i = Some c \<Longrightarrow> ch_id c = i"
  by (auto simp: find_channel_def find_Some_iff)

lemma channel_geometry:
  "find_channel i = Some c \<Longrightarrow> ch_dma_ring_bytes c \<le> ch_dma_ring_bytes_max c \<and> ch_ddr_cpu_size c \<le> ch_dma_ring_bytes c \<and>
     ch_dma_ring_bytes c mod ucast (ch_dma_desc_bytes_default c) = 0 \<and>
     ch_dma_ring_bytes c div ucast (ch_dma_desc_bytes_default c) \<le> ch_desc_cpu_size c div 64"
  by (auto simp: find_channel_def kChannels_def split: if_splits)

section \<open>Severities\<close>

datatype StorageLogSeverity =
    STORAGE_LOG_ALWAYS_CRITICAL
  | STORAGE_LOG_SUMMARY
  | STORAGE_LOG_DEBUG
  | STORAGE_LOG_TRACE

primrec severity_code :: "StorageLogSeverity \<Rightarrow> nat" where
  "severity_code STORAGE_LOG_ALWAYS_CRITICAL = 0"
| "severity_code STORAGE_LOG_SUMMARY = 1"
| "severity_code STORAGE_LOG_DEBUG = 2"
| "severity_code STORAGE_LOG_TRACE = 3"

definition storage_log_level_from_config :: "CcbLogLevel \<Rightarrow> StorageLogSeverity" where
  "storage_log_level_from_config level =
     (if level = CCB_LOG_DEBUG then STORAGE_LOG_DEBUG
      else if level = CCB_LOG_INFO \<or> level = CCB_LOG_PERF then STORAGE_LOG_SUMMARY
      else STORAGE_LOG_ALWAYS_CRITICAL)"

definition storage_log_effective_level :: "AppConfig option \<Rightarrow> StorageLogSeverity" where
  "storage_log_effective_level config =
     (case config of None \<Rightarrow> STORAGE_LOG_ALWAYS_CRITICAL | Some c \<Rightarrow> storage_log_level_from_config (ac_log_level c))"

definition storage_log_severity_enabled :: "AppConfig option \<Rightarrow> StorageLogSeverity \<Rightarrow> bool" where
  "storage_log_severity_enabled config severity \<longleftrightarrow>
     severity = STORAGE_LOG_ALWAYS_CRITICAL \<or>
     severity_code severity \<le> severity_code (storage_log_effective_level config)"

lemma trace_never_enabled: "\<not> storage_log_severity_enabled config STORAGE_LOG_TRACE"
  by (auto simp: storage_log_severity_enabled_def storage_log_effective_level_def storage_log_level_from_config_def
      split: option.split)

end
