(* ===== verification/Worker_Config.thy ===== *)
theory Worker_Config
  imports Channel_Table Storage_Stop Dma_Ring Nvme_Engine
begin

text \<open>
  The settings a storage worker reads from the environment when it starts, the first part of
  \<^verbatim>\<open>ccb_commands.c\<close>: numbers with a limit, the timeouts of the stop, the parameters of the cross-slot writer with
  their candidates and their precedence, scheduling and the layout of the ring. The environment and the
  configuration \<^verbatim>\<open>storage_config_get\<close> returns are arguments, warnings are left out.
\<close>

section \<open>Numbers\<close>

text \<open>A whole number without rest and without overflow, base from the prefix.\<close>

definition whole_number :: "int \<Rightarrow> string \<Rightarrow> int option" where
  "whole_number range_max s =
     (let r = strtoul range_max 0 s
      in if su_range_error r \<or> \<not> su_converted r \<or> su_end r \<noteq> [] then None else Some (su_value r))"

lemma whole_number_range: "0 \<le> m \<Longrightarrow> whole_number m s = Some v \<Longrightarrow> 0 \<le> v \<and> v \<le> m"
  using strtoul_range [of m 0 s] by (auto simp: whole_number_def Let_def split: if_splits)

abbreviation ULLONG_MAX :: int where "ULLONG_MAX \<equiv> 18446744073709551615"

definition storage_env_u32_limit :: "int \<Rightarrow> environment \<Rightarrow> string \<Rightarrow> u32 \<Rightarrow> u32 \<Rightarrow> u32" where
  "storage_env_u32_limit ulong_max env name fallback max_value =
     (case storage_config_compat_getenv env (Some name) of
        None \<Rightarrow> fallback
      | Some s \<Rightarrow>
          if s = [] then fallback
          else case whole_number ulong_max s of
                 None \<Rightarrow> fallback
               | Some v \<Rightarrow> if uint max_value < v then fallback else of_int v)"

definition storage_channel_env_u32 ::
  "int \<Rightarrow> environment \<Rightarrow> int \<Rightarrow> string \<Rightarrow> string option \<Rightarrow> u32 \<Rightarrow> u32 \<Rightarrow> u32" where
  "storage_channel_env_u32 ulong_max env channel suffix global_fallback fallback max_value =
     (let name = snprintf_s 96 (''SRC_REAL_CH'' @ decimal_int channel @ ''_'' @ suffix)
      in if storage_config_compat_getenv env (Some name) \<noteq> None
         then storage_env_u32_limit ulong_max env name fallback max_value
         else case global_fallback of
                None \<Rightarrow> fallback
              | Some g \<Rightarrow> if storage_config_compat_getenv env (Some g) \<noteq> None
                          then storage_env_u32_limit ulong_max env g fallback max_value else fallback)"

definition storage_env_flag_enabled :: "environment \<Rightarrow> string \<Rightarrow> bool" where
  "storage_env_flag_enabled env name = (\<not> text_is_false (storage_config_compat_getenv env (Some name)))"

definition storage_env_u64 :: "environment \<Rightarrow> string \<Rightarrow> u64 option" where
  "storage_env_u64 env name =
     (case storage_config_compat_getenv env (Some name) of
        None \<Rightarrow> None
      | Some s \<Rightarrow> if s = [] then None else map_option of_int (whole_number ULLONG_MAX s))"

definition storage_idle_notice_ms :: "int \<Rightarrow> environment \<Rightarrow> u32" where
  "storage_idle_notice_ms ulong_max env =
     storage_env_u32_limit ulong_max env ''SRC_REAL_STORAGE_IDLE_NOTICE_MS'' 5000 UINT32_MAX"

definition storage_pipeline_stats_ms :: "int \<Rightarrow> AppConfig option \<Rightarrow> environment \<Rightarrow> u32" where
  "storage_pipeline_stats_ms ulong_max config env =
     (if \<not> storage_log_severity_enabled config STORAGE_LOG_SUMMARY then 0
      else storage_env_u32_limit ulong_max env ''SRC_REAL_PIPELINE_STATS_SEC'' 5 (UINT32_MAX div 1000) * 1000)"

definition storage_perf_log_interval_ms :: "int \<Rightarrow> environment \<Rightarrow> u32" where
  "storage_perf_log_interval_ms ulong_max env =
     storage_env_u32_limit ulong_max env ''SRC_REAL_PERF_LOG_INTERVAL_SEC'' 5 (UINT32_MAX div 1000) * 1000"

definition storage_dma_idle_done_ms :: "int \<Rightarrow> environment \<Rightarrow> u32" where
  "storage_dma_idle_done_ms ulong_max env = storage_env_u32_limit ulong_max env ''SRC_REAL_DMA_IDLE_DONE_MS'' 5000 3600000"

definition storage_slot_perf_interval :: "int \<Rightarrow> AppConfig option \<Rightarrow> environment \<Rightarrow> u32" where
  "storage_slot_perf_interval ulong_max config env =
     (if \<not> storage_env_flag_enabled env ''SRC_REAL_SLOT_WRITE_PERF'' \<or>
         \<not> storage_log_severity_enabled config STORAGE_LOG_DEBUG then 0
      else storage_env_u32_limit ulong_max env ''SRC_REAL_SLOT_WRITE_PERF_SAMPLE'' 0 1000000)"

definition storage_should_print_periodic_stats :: "int \<Rightarrow> AppConfig option \<Rightarrow> environment \<Rightarrow> bool" where
  "storage_should_print_periodic_stats ulong_max config env \<longleftrightarrow>
     storage_log_severity_enabled config STORAGE_LOG_SUMMARY \<and> storage_pipeline_stats_ms ulong_max config env \<noteq> 0"

definition storage_should_print_slot_perf :: "int \<Rightarrow> AppConfig option \<Rightarrow> environment \<Rightarrow> u64 \<Rightarrow> bool" where
  "storage_should_print_slot_perf ulong_max config env chunk_index =
     (let sample = storage_slot_perf_interval ulong_max config env
      in if sample = 0 then False
         else if sample = 1 \<and> \<not> storage_log_severity_enabled config STORAGE_LOG_TRACE then False
         else chunk_index mod ucast sample = 0)"

definition storage_trace_chunk_enabled :: "AppConfig option \<Rightarrow> environment \<Rightarrow> u64 \<Rightarrow> u32 \<Rightarrow> bool" where
  "storage_trace_chunk_enabled config env chunk_index slot =
     (let trace_slot = storage_env_u64 env ''SRC_REAL_STORAGE_TRACE_SLOT''
      in if \<not> storage_log_severity_enabled config STORAGE_LOG_TRACE then False
         else let trace_chunk = storage_env_u64 env ''SRC_REAL_STORAGE_TRACE_CHUNK''
              in if trace_chunk = None \<and> trace_slot = None then False
                 else if trace_chunk \<noteq> None \<and> the trace_chunk \<noteq> chunk_index then False
                 else if trace_slot \<noteq> None \<and> the trace_slot \<noteq> ucast slot then False
                 else True)"

section \<open>Timeouts of the stop\<close>

record StorageStopTimeouts =
  to_compat_us :: u64
  to_dma_quiesce_us :: u64
  to_stop_harvest_us :: u64
  to_writer_drain_us :: u64
  to_nvme_abort_us :: u64

definition storage_timeout_us :: "environment \<Rightarrow> string option \<Rightarrow> string option \<Rightarrow> u64 \<Rightarrow> u64" where
  "storage_timeout_us env us_name ms_name fallback_us =
     (let number = (\<lambda>name limit.
            case name of
              None \<Rightarrow> None
            | Some n \<Rightarrow>
                (case storage_config_compat_getenv env (Some n) of
                   None \<Rightarrow> None
                 | Some s \<Rightarrow>
                     if s = [] then None
                     else case whole_number ULLONG_MAX s of
                            None \<Rightarrow> None
                          | Some v \<Rightarrow> if 0 < v \<and> v \<le> limit then Some (of_int v :: u64) else None))
      in case number us_name ULLONG_MAX of
           Some v \<Rightarrow> v
         | None \<Rightarrow> (case number ms_name (ULLONG_MAX div 1000) of Some v \<Rightarrow> v * 1000 | None \<Rightarrow> fallback_us))"

abbreviation DEFAULT_TIMEOUT_US :: u64 where "DEFAULT_TIMEOUT_US \<equiv> 5000000"

definition storage_stop_timeouts :: "environment \<Rightarrow> u32 \<Rightarrow> StorageStopTimeouts" where
  "storage_stop_timeouts env timeout_us =
     (let compat = storage_timeout_us env (Some ''SRC_REAL_STORAGE_STOP_TIMEOUT_US'') (Some ''SRC_REAL_STORAGE_STOP_TIMEOUT_MS'')
                     (if timeout_us \<noteq> 0 then ucast timeout_us else DEFAULT_TIMEOUT_US);
          writer_drain = storage_timeout_us env (Some ''SRC_REAL_WRITER_DRAIN_TIMEOUT_US'') None compat
      in \<lparr>to_compat_us = compat,
          to_dma_quiesce_us = storage_dma_quiesce_wait_us
            (storage_timeout_us env (Some ''SRC_REAL_DMA_QUIESCE_TIMEOUT_US'') None compat),
          to_stop_harvest_us = storage_timeout_us env (Some ''SRC_REAL_STOP_HARVEST_TIMEOUT_US'') None compat,
          to_writer_drain_us = writer_drain,
          to_nvme_abort_us = storage_timeout_us env (Some ''SRC_REAL_NVME_ABORT_TIMEOUT_US'') None
            (if writer_drain < compat then compat else writer_drain)\<rparr>)"

definition storage_first_dma_timeout_us :: "int \<Rightarrow> environment \<Rightarrow> int option \<Rightarrow> u64" where
  "storage_first_dma_timeout_us ulong_max env channel =
     (let fallback = storage_env_u32_limit ulong_max env ''SRC_REAL_FIRST_DMA_TIMEOUT_US'' 0 UINT32_MAX
      in case channel of
           None \<Rightarrow> ucast fallback
         | Some c \<Rightarrow> ucast (storage_env_u32_limit ulong_max env
                             (snprintf_s 80 (''SRC_REAL_FIRST_DMA_TIMEOUT_US_CH'' @ decimal_int c)) fallback UINT32_MAX))"

section \<open>Parameters of the cross-slot writer\<close>

datatype StorageCrossSlotConfigParam =
    STORAGE_CROSS_SLOT_CONFIG_ENABLED
  | STORAGE_CROSS_SLOT_CONFIG_MAX_ACTIVE
  | STORAGE_CROSS_SLOT_CONFIG_TARGET_QD
  | STORAGE_CROSS_SLOT_CONFIG_CQ_BATCH
  | STORAGE_CROSS_SLOT_CONFIG_WRITER_BUDGET_US
  | STORAGE_CROSS_SLOT_CONFIG_BUSY_POLL_US
  | STORAGE_CROSS_SLOT_CONFIG_EMPTY_SLEEP_US
  | STORAGE_CROSS_SLOT_CONFIG_NO_PROGRESS_TIMEOUT_US

datatype StorageCrossSlotSourceKind =
    STORAGE_CROSS_SLOT_SOURCE_CHANNEL_NEW
  | STORAGE_CROSS_SLOT_SOURCE_CHANNEL_LEGACY
  | STORAGE_CROSS_SLOT_SOURCE_GLOBAL_NEW
  | STORAGE_CROSS_SLOT_SOURCE_GLOBAL_LEGACY
  | STORAGE_CROSS_SLOT_SOURCE_DEFAULT

record StorageCrossSlotResolution =
  sr_value :: u32
  sr_source_kind :: StorageCrossSlotSourceKind
  sr_source_name :: string
  sr_invalid_source_name :: string
  sr_fallback_source_name :: string

record StorageCrossSlotCandidate =
  cd_name :: string
  cd_kind :: StorageCrossSlotSourceKind

definition storage_cross_slot_resolution_default :: "u32 \<Rightarrow> bool \<Rightarrow> StorageCrossSlotResolution" where
  "storage_cross_slot_resolution_default fallback profile_source =
     \<lparr>sr_value = fallback, sr_source_kind = STORAGE_CROSS_SLOT_SOURCE_DEFAULT,
      sr_source_name = (if profile_source then ''profile'' else ''default''), sr_invalid_source_name = [],
      sr_fallback_source_name = (if profile_source then ''profile'' else ''default'')\<rparr>"

primrec storage_cross_slot_source_kind_name :: "StorageCrossSlotSourceKind \<Rightarrow> string" where
  "storage_cross_slot_source_kind_name STORAGE_CROSS_SLOT_SOURCE_CHANNEL_NEW = ''channel_new''"
| "storage_cross_slot_source_kind_name STORAGE_CROSS_SLOT_SOURCE_CHANNEL_LEGACY = ''channel_legacy''"
| "storage_cross_slot_source_kind_name STORAGE_CROSS_SLOT_SOURCE_GLOBAL_NEW = ''global_new''"
| "storage_cross_slot_source_kind_name STORAGE_CROSS_SLOT_SOURCE_GLOBAL_LEGACY = ''global_legacy''"
| "storage_cross_slot_source_kind_name STORAGE_CROSS_SLOT_SOURCE_DEFAULT = ''default''"

definition storage_cross_slot_parse_u32 :: "int \<Rightarrow> string \<Rightarrow> u32 \<Rightarrow> u32 option" where
  "storage_cross_slot_parse_u32 ulong_max s max_value =
     (if s = [] then None
      else case whole_number ulong_max s of
             None \<Rightarrow> None
           | Some v \<Rightarrow> if uint max_value < v then None else Some (of_int v))"

definition storage_cross_slot_parse_enabled :: "int \<Rightarrow> string \<Rightarrow> u32 option" where
  "storage_cross_slot_parse_enabled ulong_max s =
     (if s \<in> {''true'', ''TRUE'', ''on'', ''ON'', ''yes'', ''YES''} then Some 1
      else if s \<in> {''false'', ''FALSE'', ''off'', ''OFF'', ''no'', ''NO''} then Some 0
      else case storage_cross_slot_parse_u32 ulong_max s UINT32_MAX of
             None \<Rightarrow> None
           | Some v \<Rightarrow> Some (if v \<noteq> 0 then 1 else 0))"

text \<open>The first candidate that is present decides, also when its text is invalid.\<close>

fun resolve_loop ::
  "int \<Rightarrow> environment \<Rightarrow> u32 \<Rightarrow> bool \<Rightarrow> StorageCrossSlotResolution \<Rightarrow> StorageCrossSlotCandidate list
     \<Rightarrow> StorageCrossSlotResolution" where
  "resolve_loop ulong_max env max_value enabled out [] = out"
| "resolve_loop ulong_max env max_value enabled out (c # cs) =
     (case storage_config_compat_getenv env (Some (cd_name c)) of
        None \<Rightarrow> resolve_loop ulong_max env max_value enabled out cs
      | Some s \<Rightarrow>
          (case (if enabled then storage_cross_slot_parse_enabled ulong_max s
                 else storage_cross_slot_parse_u32 ulong_max s max_value) of
             Some v \<Rightarrow> out\<lparr>sr_value := v, sr_source_kind := cd_kind c, sr_source_name := snprintf_s 96 (cd_name c),
                          sr_invalid_source_name := [], sr_fallback_source_name := []\<rparr>
           | None \<Rightarrow> out\<lparr>sr_invalid_source_name := snprintf_s 96 (cd_name c)\<rparr>))"

definition storage_cross_slot_resolve_candidates ::
  "int \<Rightarrow> environment \<Rightarrow> u32 \<Rightarrow> u32 \<Rightarrow> bool \<Rightarrow> bool \<Rightarrow> StorageCrossSlotCandidate list \<Rightarrow> StorageCrossSlotResolution" where
  "storage_cross_slot_resolve_candidates ulong_max env fallback max_value enabled profile_source candidates =
     resolve_loop ulong_max env max_value enabled (storage_cross_slot_resolution_default fallback profile_source) candidates"

definition cross_slot_add :: "StorageCrossSlotSourceKind \<Rightarrow> string \<Rightarrow> StorageCrossSlotCandidate" where
  "cross_slot_add kind name = \<lparr>cd_name = snprintf_s 96 name, cd_kind = kind\<rparr>"

definition enabled_candidates :: "string \<Rightarrow> StorageCrossSlotCandidate list" where
  "enabled_candidates ch =
     [cross_slot_add STORAGE_CROSS_SLOT_SOURCE_CHANNEL_NEW (''SRC_REAL_CROSS_SLOT_CH'' @ ch),
      cross_slot_add STORAGE_CROSS_SLOT_SOURCE_CHANNEL_LEGACY (''SRC_REAL_CROSS_SLOT_ENABLED_CH'' @ ch),
      cross_slot_add STORAGE_CROSS_SLOT_SOURCE_CHANNEL_LEGACY (''SRC_REAL_NVME_CROSS_SLOT_QD_CH'' @ ch),
      cross_slot_add STORAGE_CROSS_SLOT_SOURCE_GLOBAL_NEW ''SRC_REAL_CROSS_SLOT'',
      cross_slot_add STORAGE_CROSS_SLOT_SOURCE_GLOBAL_LEGACY ''SRC_REAL_CROSS_SLOT_ENABLED'',
      cross_slot_add STORAGE_CROSS_SLOT_SOURCE_GLOBAL_LEGACY ''SRC_REAL_NVME_CROSS_SLOT_QD'']"

definition max_active_candidates :: "string \<Rightarrow> StorageCrossSlotCandidate list" where
  "max_active_candidates ch =
     [cross_slot_add STORAGE_CROSS_SLOT_SOURCE_CHANNEL_NEW (''SRC_REAL_MAX_ACTIVE_CH'' @ ch),
      cross_slot_add STORAGE_CROSS_SLOT_SOURCE_CHANNEL_LEGACY (''SRC_REAL_CROSS_SLOT_BATCH_CH'' @ ch),
      cross_slot_add STORAGE_CROSS_SLOT_SOURCE_CHANNEL_LEGACY (''SRC_REAL_NVME_CROSS_SLOT_MAX_ACTIVE_CH'' @ ch),
      cross_slot_add STORAGE_CROSS_SLOT_SOURCE_CHANNEL_LEGACY (''SRC_REAL_NVME_CROSS_SLOT_BATCH_CH'' @ ch),
      cross_slot_add STORAGE_CROSS_SLOT_SOURCE_CHANNEL_LEGACY (''SRC_REAL_CH'' @ ch @ ''_NVME_CROSS_SLOT_MAX_ACTIVE''),
      cross_slot_add STORAGE_CROSS_SLOT_SOURCE_CHANNEL_LEGACY (''SRC_REAL_CH'' @ ch @ ''_CROSS_SLOT_BATCH''),
      cross_slot_add STORAGE_CROSS_SLOT_SOURCE_GLOBAL_NEW ''SRC_REAL_MAX_ACTIVE'',
      cross_slot_add STORAGE_CROSS_SLOT_SOURCE_GLOBAL_LEGACY ''SRC_REAL_CROSS_SLOT_BATCH'',
      cross_slot_add STORAGE_CROSS_SLOT_SOURCE_GLOBAL_LEGACY ''SRC_REAL_CROSS_SLOT_MAX_ACTIVE'',
      cross_slot_add STORAGE_CROSS_SLOT_SOURCE_GLOBAL_LEGACY ''SRC_REAL_NVME_CROSS_SLOT_MAX_ACTIVE'',
      cross_slot_add STORAGE_CROSS_SLOT_SOURCE_GLOBAL_LEGACY ''SRC_REAL_NVME_CROSS_SLOT_BATCH'']"

definition named_candidates :: "string \<Rightarrow> string \<Rightarrow> StorageCrossSlotCandidate list" where
  "named_candidates short_name ch =
     [cross_slot_add STORAGE_CROSS_SLOT_SOURCE_CHANNEL_NEW (''SRC_REAL_'' @ short_name @ ''_CH'' @ ch),
      cross_slot_add STORAGE_CROSS_SLOT_SOURCE_CHANNEL_LEGACY (''SRC_REAL_CH'' @ ch @ ''_'' @ short_name),
      cross_slot_add STORAGE_CROSS_SLOT_SOURCE_CHANNEL_LEGACY (''SRC_REAL_NVME_CROSS_SLOT_'' @ short_name @ ''_CH'' @ ch),
      cross_slot_add STORAGE_CROSS_SLOT_SOURCE_GLOBAL_NEW (''SRC_REAL_'' @ short_name),
      cross_slot_add STORAGE_CROSS_SLOT_SOURCE_GLOBAL_LEGACY (''SRC_REAL_NVME_CROSS_SLOT_'' @ short_name)]"

definition storage_cross_slot_default_target_qd :: "AppConfig option \<Rightarrow> int \<Rightarrow> u32" where
  "storage_cross_slot_default_target_qd config channel_id =
     (case (if 0 \<le> channel_id then storage_config_channel config (of_int channel_id) else None) of
        Some p \<Rightarrow> cs_nvme_qd p
      | None \<Rightarrow> if channel_id = 2 then 4 else 8)"

text \<open>What a parameter falls back to, whether that is the profile, the largest value and the candidates.\<close>

fun param_plan ::
  "AppConfig option \<Rightarrow> int \<Rightarrow> StorageCrossSlotConfigParam \<Rightarrow> u32 \<times> bool \<times> u32 \<times> StorageCrossSlotCandidate list" where
  "param_plan config channel_id STORAGE_CROSS_SLOT_CONFIG_ENABLED =
     (let profile = storage_config_channel config (of_int channel_id)
      in (case profile of Some p \<Rightarrow> if cs_writer_mode p = STORAGE_WRITER_CROSS_SLOT then 1 else 0
                        | None \<Rightarrow> if channel_id = 2 then 0 else 1,
          profile \<noteq> None, 1, enabled_candidates (decimal_int channel_id)))"
| "param_plan config channel_id STORAGE_CROSS_SLOT_CONFIG_MAX_ACTIVE =
     (let profile = storage_config_channel config (of_int channel_id)
      in (case profile of Some p \<Rightarrow> cs_max_active_slots p | None \<Rightarrow> if channel_id = 2 then 1 else 4,
          profile \<noteq> None, 64, max_active_candidates (decimal_int channel_id)))"
| "param_plan config channel_id STORAGE_CROSS_SLOT_CONFIG_TARGET_QD =
     (let profile = storage_config_channel config (of_int channel_id)
      in (case profile of Some p \<Rightarrow> cs_nvme_qd p | None \<Rightarrow> storage_cross_slot_default_target_qd config channel_id,
          profile \<noteq> None, 64, named_candidates ''TARGET_QD'' (decimal_int channel_id)))"
| "param_plan config channel_id STORAGE_CROSS_SLOT_CONFIG_CQ_BATCH =
     (let profile = storage_config_channel config (of_int channel_id)
      in (case profile of Some p \<Rightarrow> cs_cq_batch p | None \<Rightarrow> 32,
          profile \<noteq> None, 64, named_candidates ''CQ_BATCH'' (decimal_int channel_id)))"
| "param_plan config channel_id STORAGE_CROSS_SLOT_CONFIG_WRITER_BUDGET_US =
     (300, False, 1000000, named_candidates ''WRITER_BUDGET_US'' (decimal_int channel_id))"
| "param_plan config channel_id STORAGE_CROSS_SLOT_CONFIG_BUSY_POLL_US =
     (20, False, 1000000, named_candidates ''BUSY_POLL_US'' (decimal_int channel_id))"
| "param_plan config channel_id STORAGE_CROSS_SLOT_CONFIG_EMPTY_SLEEP_US =
     (1, False, 1000000, named_candidates ''EMPTY_SLEEP_US'' (decimal_int channel_id))"
| "param_plan config channel_id STORAGE_CROSS_SLOT_CONFIG_NO_PROGRESS_TIMEOUT_US =
     (5000000, False, UINT32_MAX, named_candidates ''NO_PROGRESS_TIMEOUT_US'' (decimal_int channel_id))"

definition storage_cross_slot_resolve_config ::
  "int \<Rightarrow> environment \<Rightarrow> AppConfig option \<Rightarrow> int \<Rightarrow> StorageCrossSlotConfigParam \<Rightarrow> StorageCrossSlotResolution" where
  "storage_cross_slot_resolve_config ulong_max env config channel_id param =
     (if channel_id < 0 then storage_cross_slot_resolution_default 0 False
      else case param_plan config channel_id param of
             (fallback, profile_source, max_value, candidates) \<Rightarrow>
               storage_cross_slot_resolve_candidates ulong_max env fallback max_value
                 (param = STORAGE_CROSS_SLOT_CONFIG_ENABLED) profile_source candidates)"

definition storage_cross_slot_active_slots_for_channel :: "int \<Rightarrow> environment \<Rightarrow> AppConfig option \<Rightarrow> int \<Rightarrow> u32" where
  "storage_cross_slot_active_slots_for_channel ulong_max env config channel_id =
     sr_value (storage_cross_slot_resolve_config ulong_max env config channel_id STORAGE_CROSS_SLOT_CONFIG_MAX_ACTIVE)"

definition storage_cross_slot_enabled_for_channel :: "int \<Rightarrow> environment \<Rightarrow> AppConfig option \<Rightarrow> int \<Rightarrow> bool" where
  "storage_cross_slot_enabled_for_channel ulong_max env config channel_id \<longleftrightarrow>
     sr_value (storage_cross_slot_resolve_config ulong_max env config channel_id STORAGE_CROSS_SLOT_CONFIG_ENABLED) \<noteq> 0"

text \<open>The settings \<^verbatim>\<open>execute_write\<close> hands to the writer thread, which creates the engine from them.\<close>

definition worker_cross_slot_config :: "int \<Rightarrow> environment \<Rightarrow> AppConfig option \<Rightarrow> int \<Rightarrow> NvmeCrossSlotConfig" where
  "worker_cross_slot_config ulong_max env config channel_id =
     (let resolved = (\<lambda>param. sr_value (storage_cross_slot_resolve_config ulong_max env config channel_id param))
      in \<lparr>cc_max_active_slots = resolved STORAGE_CROSS_SLOT_CONFIG_MAX_ACTIVE,
          cc_target_qd = resolved STORAGE_CROSS_SLOT_CONFIG_TARGET_QD,
          cc_cq_batch = resolved STORAGE_CROSS_SLOT_CONFIG_CQ_BATCH,
          cc_writer_budget_us = resolved STORAGE_CROSS_SLOT_CONFIG_WRITER_BUDGET_US,
          cc_busy_poll_us = resolved STORAGE_CROSS_SLOT_CONFIG_BUSY_POLL_US,
          cc_empty_sleep_us = resolved STORAGE_CROSS_SLOT_CONFIG_EMPTY_SLEEP_US,
          cc_no_progress_timeout_us = ucast (resolved STORAGE_CROSS_SLOT_CONFIG_NO_PROGRESS_TIMEOUT_US)\<rparr>)"

section \<open>Scheduling\<close>

abbreviation SCHED_OTHER :: int where "SCHED_OTHER \<equiv> 0"
abbreviation SCHED_FIFO :: int where "SCHED_FIFO \<equiv> 1"
abbreviation SCHED_RR :: int where "SCHED_RR \<equiv> 2"

definition storage_writer_rt_prio :: "int \<Rightarrow> environment \<Rightarrow> AppConfig option \<Rightarrow> int \<Rightarrow> u32" where
  "storage_writer_rt_prio ulong_max env config channel =
     (let name = snprintf_s 64 (''SRC_REAL_CH'' @ decimal_int channel @ ''_WRITER_RT_PRIO'')
      in if storage_config_compat_getenv env (Some name) \<noteq> None then storage_env_u32_limit ulong_max env name 0 99
         else case storage_config_channel config (of_int channel) of Some p \<Rightarrow> cs_writer_priority p | None \<Rightarrow> 0)"

definition storage_producer_rt_prio :: "int \<Rightarrow> environment \<Rightarrow> AppConfig option \<Rightarrow> int \<Rightarrow> u32" where
  "storage_producer_rt_prio ulong_max env config channel =
     (let name = snprintf_s 64 (''SRC_REAL_CH'' @ decimal_int channel @ ''_PRODUCER_RT_PRIO'')
      in if storage_config_compat_getenv env (Some name) \<noteq> None then storage_env_u32_limit ulong_max env name 0 99
         else case storage_config_channel config (of_int channel) of Some p \<Rightarrow> cs_producer_priority p | None \<Rightarrow> 0)"

definition storage_profile_rt_policy :: "AppConfig option \<Rightarrow> int \<Rightarrow> bool \<Rightarrow> int" where
  "storage_profile_rt_policy config channel writer =
     (case storage_config_channel config (of_int channel) of
        None \<Rightarrow> SCHED_OTHER
      | Some p \<Rightarrow> if (if writer then cs_writer_realtime p else cs_producer_realtime p) then SCHED_RR else SCHED_OTHER)"

definition storage_rt_policy :: "environment \<Rightarrow> string \<Rightarrow> int \<Rightarrow> int" where
  "storage_rt_policy env name fallback =
     (case storage_config_compat_getenv env (Some name) of
        None \<Rightarrow> fallback
      | Some s \<Rightarrow> if s = ''rr'' then SCHED_RR else if s = ''fifo'' then SCHED_FIFO else if s = ''other'' then SCHED_OTHER
                  else fallback)"

definition storage_rt_policy_name :: "int \<Rightarrow> string" where
  "storage_rt_policy_name policy = (if policy = SCHED_RR then ''rr'' else if policy = SCHED_FIFO then ''fifo'' else ''other'')"

definition storage_require_rt :: "environment \<Rightarrow> bool" where
  "storage_require_rt env = storage_env_flag_enabled env ''SRC_REAL_REQUIRE_RT''"

text \<open>The effective policy and priority and the result; \<open>set\<close> is the outcome of \<^verbatim>\<open>pthread_setschedparam\<close>, called with the policy
  and the priority.\<close>

definition storage_apply_producer_rt ::
  "(int \<Rightarrow> int \<Rightarrow> int) \<Rightarrow> int \<Rightarrow> environment \<Rightarrow> AppConfig option \<Rightarrow> int \<Rightarrow> int \<times> int \<times> u32" where
  "storage_apply_producer_rt setsched ulong_max env config channel =
     (let prio = storage_producer_rt_prio ulong_max env config channel;
          policy = storage_rt_policy env ''SRC_REAL_PRODUCER_RT_POLICY'' (storage_profile_rt_policy config channel False);
          rc = setsched policy (if policy = SCHED_OTHER then 0 else uint prio)
      in if rc \<noteq> 0 then (if storage_require_rt env then -1 else 0, SCHED_OTHER, 0) else (0, policy, prio))"

section \<open>Layout of the ring\<close>

definition storage_requested_ring_bytes :: "environment \<Rightarrow> ChannelConfig \<Rightarrow> u64" where
  "storage_requested_ring_bytes env cfg =
     (let own = storage_config_compat_getenv env
                  (Some (snprintf_s 64 (''SRC_REAL_STORAGE_RING_BYTES_CH'' @ decimal_int (ch_id cfg))));
          text = (if env_set own then own else storage_config_compat_getenv env (Some ''SRC_REAL_STORAGE_RING_BYTES''))
      in case text of
           None \<Rightarrow> ch_dma_ring_bytes cfg
         | Some s \<Rightarrow>
             if s = [] then ch_dma_ring_bytes cfg
             else case whole_number ULLONG_MAX s of None \<Rightarrow> ch_dma_ring_bytes cfg | Some v \<Rightarrow> of_int v)"

definition storage_ring_clamp_reason :: "ChannelRuntime \<Rightarrow> u64 \<Rightarrow> string" where
  "storage_ring_clamp_reason rt requested =
     (if requested = rt_dma_ring_bytes rt then ''none''
      else if rt_dma_ring_bytes rt < requested then ''exceeds_hw_span'' else ''configured'')"

definition storage_default_dma_desc_bytes :: "ChannelConfig option \<Rightarrow> u32" where
  "storage_default_dma_desc_bytes cfg =
     (case cfg of
        Some c \<Rightarrow> if ch_id c = HIGH_I_CHANNEL_ID \<or> ch_id c = HIGH_Q_CHANNEL_ID then 8 * 1024 * 1024 else ch_dma_desc_bytes_default c
      | None \<Rightarrow> DMA_DESC_BYTES_CH2_DEFAULT)"

text \<open>The reason why a layout is refused, the number of descriptors and the room for them.\<close>

definition storage_ring_layout_error_reason :: "ChannelConfig \<Rightarrow> u64 \<Rightarrow> u32 \<Rightarrow> string option \<times> u32 \<times> u32" where
  "storage_ring_layout_error_reason cfg ring_bytes desc_bytes =
     (if desc_bytes = 0 then (Some ''invalid_slot_bytes'', 0, 0)
      else let desc_capacity = ucast (ch_desc_cpu_size cfg div 64)
           in if ring_bytes = 0 then (Some ''zero_ring'', 0, 0)
              else if ring_bytes mod ucast desc_bytes \<noteq> 0 then (Some ''slot_bytes_not_divisor'', 0, 0)
              else let desc_count = ucast (ring_bytes div ucast desc_bytes)
                   in (if desc_count = 0 then Some ''zero_slots''
                       else if desc_capacity = 0 then Some ''zero_desc_capacity''
                       else if desc_capacity < desc_count then Some ''max_slots''
                       else if ch_dma_ring_bytes cfg < ring_bytes then Some ''exceeds_hw_span''
                       else None, desc_count, desc_capacity))"

section \<open>Facts\<close>

definition blocked :: "StorageCrossSlotCandidate list \<Rightarrow> bool" where
  "blocked cs \<longleftrightarrow> list_all (\<lambda>c. is_profile_override_name (cd_name c)) cs"

lemma compat_getenv_blocked:
  assumes "\<not> storage_config_legacy_compat_enabled env" "is_profile_override_name n"
  shows "storage_config_compat_getenv env (Some n) \<in> {None, Some []}"
  using assms by (auto simp: storage_config_compat_getenv_def env_set_def split: option.splits)

lemma parse_empty: "storage_cross_slot_parse_u32 m [] k = None" "storage_cross_slot_parse_enabled m [] = None"
  by (simp_all add: storage_cross_slot_parse_u32_def storage_cross_slot_parse_enabled_def)

lemma resolve_blocked:
  assumes "\<not> storage_config_legacy_compat_enabled env" "blocked cs"
  shows "sr_value (resolve_loop m env k enabled out cs) = sr_value out"
  using assms(2)
proof (induction cs)
  case (Cons c cs)
  then have "storage_config_compat_getenv env (Some (cd_name c)) \<in> {None, Some []}"
    using compat_getenv_blocked [OF assms(1)] by (simp add: blocked_def)
  moreover have "blocked cs" using Cons.prems by (simp add: blocked_def)
  ultimately show ?case using Cons.IH by (auto simp: parse_empty)
qed simp

lemma candidates_blocked:
  assumes "ch \<in> {''0'', ''1'', ''2''}"
  shows "blocked (enabled_candidates ch)" "blocked (max_active_candidates ch)"
    "blocked (named_candidates ''TARGET_QD'' ch)" "blocked (named_candidates ''CQ_BATCH'' ch)"
  using assms by (elim insertE; simp; code_simp)+

lemma decimal_channel: "ch \<in> {0, 1, 2} \<Longrightarrow> decimal_int ch \<in> {''0'', ''1'', ''2''}"
proof -
  have "decimal_int 0 = ''0''" "decimal_int 1 = ''1''" "decimal_int 2 = ''2''" by code_simp+
  then show "ch \<in> {0, 1, 2} \<Longrightarrow> decimal_int ch \<in> {''0'', ''1'', ''2''}" by auto
qed

lemma resolve_loop_range:
  assumes "0 \<le> m" "sr_value out \<le> k"
  shows "sr_value (resolve_loop m env k False out cs) \<le> k"
proof (induction cs)
  case (Cons c cs)
  have "v \<le> k" if "storage_cross_slot_parse_u32 m s k = Some v" for s v
  proof -
    from that obtain i where i: "whole_number m s = Some i" "i \<le> uint k" "v = of_int i"
      by (auto simp: storage_cross_slot_parse_u32_def split: if_splits option.splits)
    then have "0 \<le> i" "i < 2 ^ LENGTH(32)" using whole_number_range [OF assms(1) i(1)] uint_lt2p [of k] by linarith+
    then have "uint v = i" using i(3) by (simp add: uint_word_of_int_eq take_bit_int_eq_self)
    then show ?thesis using i(2) by (simp add: word_le_def)
  qed
  then show ?case using Cons assms(2) by (auto split: option.split)
qed (use assms in simp)

lemma engine_accepts:
  assumes "cc_max_active_slots s \<noteq> 0" "cc_target_qd s \<noteq> 0" "cc_cq_batch s \<noteq> 0"
    "cc_max_active_slots s \<le> 32" "cc_target_qd s \<le> 32"
  shows "nvme_cross_slot_engine_create_with_ops_config True rt s \<noteq> None"
proof -
  have "\<not> NVME_PENDING_CAPACITY < unat (cc_max_active_slots s)" "\<not> NVME_PENDING_CAPACITY < unat (cc_target_qd s)"
    using assms(4,5) by (simp_all add: NVME_PENDING_CAPACITY_def word_le_nat_alt)
  then show ?thesis using assms(1-3) by (simp add: nvme_cross_slot_engine_create_with_ops_config_def)
qed

lemma loaded_profile:
  assumes "fst (storage_config_get m env None) = Some c" "storage_config_channel (Some c) ch = Some p"
  shows "\<exists>safe. p = channel_profile safe ch"
proof -
  have c: "ac_channels c = map (channel_profile (ac_storage_profile c = STORAGE_PROFILE_SAFE_QD1)) [0, 1, 2]"
    using assms(1) by (auto simp: storage_config_get_def storage_config_load_global_def storage_config_load_def Let_def
        set_channel_profile_def split: option.splits sum.splits if_splits)
  have "ch < 3" "p = ac_channels c ! unat ch" using assms(2) by (auto simp: storage_config_channel_def split: if_splits)
  moreover from \<open>ch < 3\<close> have "unat ch < 3" by (simp add: word_less_nat_alt)
  then have "unat ch = 0 \<or> unat ch = 1 \<or> unat ch = 2" by arith
  then have "unat ch = unat (0 :: u32) \<or> unat ch = unat (1 :: u32) \<or> unat ch = unat (2 :: u32)" by simp
  then have "ch = 0 \<or> ch = 1 \<or> ch = 2" by (simp only: unat_eq_iff)
  ultimately show ?thesis by (auto simp: c)
qed

lemma loaded_fallbacks:
  fixes m env ch
  defines "config \<equiv> fst (storage_config_get m env None)"
  shows "fst (param_plan config ch STORAGE_CROSS_SLOT_CONFIG_MAX_ACTIVE) \<in> {1, 4}"
    "fst (param_plan config ch STORAGE_CROSS_SLOT_CONFIG_TARGET_QD) \<in> {1, 4, 8}"
    "fst (param_plan config ch STORAGE_CROSS_SLOT_CONFIG_CQ_BATCH) \<in> {1, 8, 32}"
proof -
  have "(\<exists>safe. p = channel_profile safe (of_int ch))" if "storage_config_channel config (of_int ch) = Some p" for p
    using that loaded_profile [of m env _ "of_int ch" p] by (cases config) (auto simp: config_def storage_config_channel_def)
  then show "fst (param_plan config ch STORAGE_CROSS_SLOT_CONFIG_MAX_ACTIVE) \<in> {1, 4}"
    "fst (param_plan config ch STORAGE_CROSS_SLOT_CONFIG_TARGET_QD) \<in> {1, 4, 8}"
    "fst (param_plan config ch STORAGE_CROSS_SLOT_CONFIG_CQ_BATCH) \<in> {1, 8, 32}"
    by (auto simp: Let_def channel_profile_def storage_cross_slot_default_target_qd_def split: option.splits if_splits)
qed

section \<open>Properties\<close>

text \<open>C36. Without the compatibility mode no environment variable changes what the storage profile says about the
  cross-slot writer of a channel: whether it is used, how many slots it keeps active, its queue depth and its
  completion batch are those of the profile.\<close>

theorem profile_decides_without_compat:
  assumes "\<not> storage_config_legacy_compat_enabled env" "ch \<in> {0, 1, 2}" "storage_config_channel config (of_int ch) = Some p"
  shows "(storage_cross_slot_enabled_for_channel m env config ch = (cs_writer_mode p = STORAGE_WRITER_CROSS_SLOT)) \<and>
    storage_cross_slot_active_slots_for_channel m env config ch = cs_max_active_slots p \<and>
    sr_value (storage_cross_slot_resolve_config m env config ch STORAGE_CROSS_SLOT_CONFIG_TARGET_QD) = cs_nvme_qd p \<and>
    sr_value (storage_cross_slot_resolve_config m env config ch STORAGE_CROSS_SLOT_CONFIG_CQ_BATCH) = cs_cq_batch p"
proof -
  have nn: "\<not> ch < 0" using assms(2) by auto
  note b = candidates_blocked [OF decimal_channel [OF assms(2)]]
  show ?thesis using nn assms(3) b
    by (simp add: storage_cross_slot_enabled_for_channel_def storage_cross_slot_active_slots_for_channel_def
        storage_cross_slot_resolve_config_def storage_cross_slot_resolve_candidates_def resolve_blocked [OF assms(1)]
        storage_cross_slot_resolution_default_def Let_def)
qed

definition override_env :: environment where
  "override_env name = (if name = ''SRC_REAL_TARGET_QD_CH1'' then Some ''64'' else if name = ''SRC_REAL_CROSS_SLOT'' then Some ''0'' else None)"

definition perf_config :: AppConfig where
  "perf_config = (case storage_config_load ULLONG_MAX (\<lambda>_. None) of Inr c \<Rightarrow> c)"

theorem profile_decides_without_compat_witness:
  "sr_value (storage_cross_slot_resolve_config ULLONG_MAX override_env (Some perf_config) 1 STORAGE_CROSS_SLOT_CONFIG_TARGET_QD) = 8 \<and>
   storage_cross_slot_enabled_for_channel ULLONG_MAX override_env (Some perf_config) 1"
proof -
  have c: "\<not> storage_config_legacy_compat_enabled override_env" by code_simp
  have p: "storage_config_channel (Some perf_config) (of_int 1) = Some (channel_profile False 1)" by code_simp
  show ?thesis using profile_decides_without_compat [OF c _ p, of ULLONG_MAX] by (simp add: channel_profile_def)
qed

text \<open>C37. Whatever the environment says, with and without the compatibility mode, the settings a worker gives to the
  cross-slot writer are within the limits of the resolver: at most 64 active slots, a queue depth of at most 64, a
  completion batch of at most 64, and a time budget, a busy poll and a sleep of at most a second. The profile is the one
  \<^verbatim>\<open>storage_config_get\<close> returns, or none when loading failed. The engine is stricter, its table has 32 places: the
  limits of the resolver alone do not make it accept the settings, but without the compatibility mode it does for every
  channel of the program.\<close>

theorem cross_slot_settings_bounded:
  assumes "0 \<le> m" "config = fst (storage_config_get m env\<^sub>0 None)" "s = worker_cross_slot_config m env config ch"
  shows "cc_max_active_slots s \<le> 64 \<and> cc_target_qd s \<le> 64 \<and> cc_cq_batch s \<le> 64 \<and>
    cc_writer_budget_us s \<le> 1000000 \<and> cc_busy_poll_us s \<le> 1000000 \<and> cc_empty_sleep_us s \<le> 1000000 \<and>
    (\<not> storage_config_legacy_compat_enabled env \<longrightarrow> ch \<in> {0, 1, 2} \<longrightarrow>
       nvme_cross_slot_engine_create_with_ops_config True rt s \<noteq> None)"
proof -
  have r: "sr_value (storage_cross_slot_resolve_config m env config ch param) \<le> k"
    if "ch < 0 \<or> (param \<noteq> STORAGE_CROSS_SLOT_CONFIG_ENABLED \<and> fst (param_plan config ch param) \<le> k \<and>
      fst (snd (snd (param_plan config ch param))) = k)" for param k
    using that resolve_loop_range [OF assms(1)]
    by (cases "param_plan config ch param")
      (auto simp: storage_cross_slot_resolve_config_def storage_cross_slot_resolve_candidates_def
        storage_cross_slot_resolution_default_def)
  have f: "fst (param_plan config ch STORAGE_CROSS_SLOT_CONFIG_MAX_ACTIVE) \<in> {1, 4}"
    "fst (param_plan config ch STORAGE_CROSS_SLOT_CONFIG_TARGET_QD) \<in> {1, 4, 8}"
    "fst (param_plan config ch STORAGE_CROSS_SLOT_CONFIG_CQ_BATCH) \<in> {1, 8, 32}"
    unfolding assms(2) by (rule loaded_fallbacks)+
  have "cc_max_active_slots s \<le> 64" "cc_target_qd s \<le> 64" "cc_cq_batch s \<le> 64"
    using f by (auto simp: assms(3) worker_cross_slot_config_def Let_def intro!: r)
  moreover have "cc_writer_budget_us s \<le> 1000000" "cc_busy_poll_us s \<le> 1000000" "cc_empty_sleep_us s \<le> 1000000"
    by (simp_all add: assms(3) worker_cross_slot_config_def Let_def r)
  moreover have "nvme_cross_slot_engine_create_with_ops_config True rt s \<noteq> None"
    if "\<not> storage_config_legacy_compat_enabled env" "ch \<in> {0, 1, 2}"
  proof -
    have "sr_value (storage_cross_slot_resolve_config m env config ch param) = fst (param_plan config ch param)"
      if "param \<in> {STORAGE_CROSS_SLOT_CONFIG_MAX_ACTIVE, STORAGE_CROSS_SLOT_CONFIG_TARGET_QD,
        STORAGE_CROSS_SLOT_CONFIG_CQ_BATCH}" for param
      using that candidates_blocked [OF decimal_channel [OF \<open>ch \<in> {0, 1, 2}\<close>]] \<open>ch \<in> {0, 1, 2}\<close>
      by (auto simp: storage_cross_slot_resolve_config_def storage_cross_slot_resolve_candidates_def
          resolve_blocked [OF \<open>\<not> storage_config_legacy_compat_enabled env\<close>] storage_cross_slot_resolution_default_def Let_def)
    then have "cc_max_active_slots s \<in> {1, 4}" "cc_target_qd s \<in> {1, 4, 8}" "cc_cq_batch s \<in> {1, 8, 32}"
      using f by (simp_all only: assms(3) worker_cross_slot_config_def Let_def NvmeCrossSlotConfig.select_convs insert_iff simp_thms)
    then show ?thesis by (intro engine_accepts) auto
  qed
  ultimately show ?thesis by simp
qed

definition compat_env :: environment where
  "compat_env name = (if name = ''CCB_STORAGE_COMPAT_MODE'' then Some ''1'' else override_env name)"

text \<open>The witness has a variable that asks for a queue depth of 64 on channel 1. Without the compatibility mode it is
  ignored and the engine is created; with it the resolver passes 64 on and the engine refuses.\<close>

theorem cross_slot_settings_bounded_witness:
  "nvme_cross_slot_engine_create_with_ops_config True mock_runtime
     (worker_cross_slot_config ULLONG_MAX override_env (Some perf_config) 1) \<noteq> None \<and>
   cc_target_qd (worker_cross_slot_config ULLONG_MAX compat_env (Some perf_config) 1) = 64 \<and>
   nvme_cross_slot_engine_create_with_ops_config True mock_runtime
     (worker_cross_slot_config ULLONG_MAX compat_env (Some perf_config) 1) = None"
proof -
  have c: "\<not> storage_config_legacy_compat_enabled override_env" by code_simp
  have p: "Some perf_config = fst (storage_config_get ULLONG_MAX (\<lambda>_. None) None)" by code_simp
  have q: "cc_target_qd (worker_cross_slot_config ULLONG_MAX compat_env (Some perf_config) 1) = 64" by code_simp
  then have "nvme_cross_slot_engine_create_with_ops_config True mock_runtime
     (worker_cross_slot_config ULLONG_MAX compat_env (Some perf_config) 1) = None"
    by (simp add: nvme_cross_slot_engine_create_with_ops_config_def NVME_PENDING_CAPACITY_def)
  with q show ?thesis using c cross_slot_settings_bounded [OF _ p refl, of override_env 1 mock_runtime] by simp
qed

lemma ring_layout_accepted:
  assumes "storage_ring_layout_error_reason cfg ring_bytes desc_bytes = (None, count, capacity)"
    "unat (ring_bytes div ucast desc_bytes) < 2 ^ 32"
  shows "count \<noteq> 0 \<and> count \<le> capacity \<and> ring_bytes \<le> ch_dma_ring_bytes cfg \<and>
    unat count * unat desc_bytes = unat ring_bytes"
proof -
  have r: "desc_bytes \<noteq> 0" "ring_bytes mod ucast desc_bytes = 0" "count = ucast (ring_bytes div ucast desc_bytes)"
    "count \<noteq> 0" "count \<le> capacity" "ring_bytes \<le> ch_dma_ring_bytes cfg"
    using assms(1) by (auto simp: storage_ring_layout_error_reason_def Let_def split: if_splits)
  have "unat (ring_bytes mod ucast desc_bytes) = 0" using r(2) by simp
  then have "unat ring_bytes mod unat desc_bytes = 0" by (simp add: unat_mod_word)
  moreover have "unat count = unat ring_bytes div unat desc_bytes"
    using assms(2) r(3) by (simp add: unsigned_ucast_eq unat_div_distrib take_bit_nat_eq_self unat_word_ariths)
  ultimately show ?thesis using r by (simp add: mod_0_imp_dvd)
qed

end
