(* ===== verification/Writer_Thread.thy ===== *)
theory Writer_Thread
  imports Write_Account Nvme_Promises Worker_Config
begin

text \<open>
  The writer thread of one channel, \<^verbatim>\<open>storage_nvme_cross_slot_writer_thread\<close> of \<^verbatim>\<open>ccb_commands.c\<close>: it takes harvested
  slots off the write queue, hands them to the cross-slot engine, steps the engine and tells the queue through
  the callback which slots are written. The other threads may run before every operation on the queue; what
  they do is an input, as are the device, the clock and the registers of the DMA. The calls of the engine
  are recorded in a trace that no definition reads.
\<close>

section \<open>The world of the thread\<close>

record 'd writer_env =
  we_device :: "'d NvmeCrossSlotOps"
  we_wall :: "'d \<Rightarrow> u64 \<times> 'd"
  we_dma :: "'d \<Rightarrow> u32 \<times> u32 \<times> 'd"
  we_unresolved :: "'d \<Rightarrow> bool"
  we_others :: "'d \<Rightarrow> queue_op list \<times> 'd"

record 'd writer_world =
  ww_run :: queue_run
  ww_device :: 'd
  ww_writes :: register_writes

abbreviation ww_q :: "'d writer_world \<Rightarrow> StorageWriteQueue" where "ww_q w \<equiv> qr_q (ww_run w)"

definition on_queue :: "(StorageWriteQueue \<Rightarrow> StorageWriteQueue) \<Rightarrow> 'd writer_world \<Rightarrow> 'd writer_world" where
  "on_queue f w = w\<lparr>ww_run := (ww_run w)\<lparr>qr_q := f (ww_q w)\<rparr>\<rparr>"

text \<open>Only the writer pops and completes.\<close>

fun others_op :: "queue_op \<Rightarrow> bool" where
  "others_op (OpPop _ _) = False"
| "others_op (OpComplete _ _ _ _) = False"
| "others_op _ = True"

definition others :: "'d writer_env \<Rightarrow> 'd writer_world \<Rightarrow> string option \<times> 'd writer_world" where
  "others env w =
     (case we_others env (ww_device w) of
        (ops, d) \<Rightarrow>
          (if OpAbort \<in> set ops then Some ''writer_abort_requested'' else None,
           w\<lparr>ww_run := foldl queue_step (ww_run w) (filter others_op ops), ww_device := d\<rparr>))"

text \<open>The other threads run; an abort they request reaches the published engine.\<close>

definition disturb :: "'d writer_env \<Rightarrow> NvmeCrossSlotEngine \<Rightarrow> 'd writer_world \<Rightarrow> NvmeCrossSlotEngine \<times> 'd writer_world" where
  "disturb env e w =
     (case others env w of
        (None, w1) \<Rightarrow> (e, w1)
      | (Some reason, w1) \<Rightarrow> (nvme_cross_slot_engine_request_abort reason e, w1))"

definition wall :: "'d writer_env \<Rightarrow> 'd writer_world \<Rightarrow> u64 \<times> 'd writer_world" where
  "wall env w = (case we_wall env (ww_device w) of (t, d) \<Rightarrow> (t, w\<lparr>ww_device := d\<rparr>))"

text \<open>The flag the submission sets in the shared runtime.\<close>

definition sync_ownership :: "'d writer_env \<Rightarrow> 'd writer_world \<Rightarrow> 'd writer_world" where
  "sync_ownership env w =
     on_queue (\<lambda>q. q\<lparr>wq_nvme := (wq_nvme q)\<lparr>nr_ownership_unresolved := we_unresolved env (ww_device w)\<rparr>\<rparr>) w"

text \<open>The callback of the engine.\<close>

definition slot_done :: "'d writer_env \<Rightarrow> 'd writer_world \<Rightarrow> NvmeWriteSlotReq \<Rightarrow> int \<times> 'd writer_world" where
  "slot_done env w0 req =
     (case wall env (sync_ownership env w0) of
        (now, w) \<Rightarrow>
          case we_dma env (ww_device w) of
            (sr, cr, d) \<Rightarrow>
              case storage_cross_slot_done_cb now sr cr (ww_q w) req (qr_g (ww_run w)) of
                (rc, q, g, ws) \<Rightarrow>
                  (rc, w\<lparr>ww_run := note_complete (done_item req) q g (ww_run w), ww_device := d, ww_writes := ww_writes w @ ws\<rparr>))"

definition writer_ops :: "'d writer_env \<Rightarrow> 'd writer_world NvmeCrossSlotOps" where
  "writer_ops env =
     (let dev = we_device env
      in \<lparr>op_submit = (\<lambda>w cid lba n ddr. case op_submit dev (ww_device w) cid lba n ddr of (rc, d) \<Rightarrow> (rc, w\<lparr>ww_device := d\<rparr>)),
          op_poll_completion = (\<lambda>w. case op_poll_completion dev (ww_device w) of (rc, cpl, d) \<Rightarrow> (rc, cpl, w\<lparr>ww_device := d\<rparr>)),
          op_monotonic_us = (\<lambda>w. case op_monotonic_us dev (ww_device w) of (t, d) \<Rightarrow> (t, w\<lparr>ww_device := d\<rparr>)),
          op_sleep_us = map_option (\<lambda>f w us. w\<lparr>ww_device := f (ww_device w) us\<rparr>) (op_sleep_us dev),
          op_yield_cpu = map_option (\<lambda>f w. w\<lparr>ww_device := f (ww_device w)\<rparr>) (op_yield_cpu dev),
          op_reset = map_option (\<lambda>f w. case f (ww_device w) of (rc, d) \<Rightarrow> (rc, w\<lparr>ww_device := d\<rparr>)) (op_reset dev),
          op_done = Some (slot_done env),
          op_producer = others env\<rparr>)"

section \<open>Preparing a slot\<close>

text \<open>The place of a slot in the ring and, when the whole slot is visible to the processor, its address there.\<close>

definition storage_slot_addresses :: "u64 \<times> u64 \<Rightarrow> ChannelRuntime \<Rightarrow> PendingDdrSlot \<Rightarrow> (u64 \<times> u64) option" where
  "storage_slot_addresses cpu rt x =
     (let media_bytes = (if pd_media_bytes x \<noteq> 0 then pd_media_bytes x else pd_bytes x);
          offset = ucast (pd_slot x) * ucast (rt_dma_desc_bytes rt) :: u64
      in if rt_dma_desc_count rt \<le> pd_slot x \<or> pd_bytes x = 0 \<or> media_bytes < pd_bytes x \<or>
            ucast (rt_dma_desc_bytes rt) < media_bytes
         then None
         else if rt_dma_ring_bytes rt < offset \<or> rt_dma_ring_bytes rt - offset < media_bytes then None
         else Some (offset, if offset + media_bytes \<le> snd cpu then fst cpu + offset else 0))"

definition storage_zero_tail_padding :: "bool \<Rightarrow> PendingDdrSlot \<Rightarrow> NvmeRuntime \<Rightarrow> int \<times> NvmeRuntime" where
  "storage_zero_tail_padding dry_run x nrt =
     (let media_bytes = (if pd_media_bytes x \<noteq> 0 then pd_media_bytes x else pd_bytes x)
      in if media_bytes < pd_bytes x then (-1, nrt)
         else if media_bytes - pd_bytes x = 0 \<or> dry_run then (0, nrt)
         else (-1, nrt\<lparr>nr_last_error := ''unaligned_payload_not_safely_paddable''\<rparr>))"

definition slot_request :: "PendingDdrSlot \<Rightarrow> NvmeWriteSlotReq" where
  "slot_request x =
     \<lparr>wr_slot = pd_slot x, wr_start_lba = pd_start_lba x, wr_sectors = pd_sectors x, wr_hw_addr = pd_hw_addr x,
      wr_bytes = pd_bytes x, wr_chunk_index = pd_chunk_index x, wr_file_offset = pd_file_offset x,
      wr_media_bytes = pd_media_bytes x\<rparr>"

section \<open>The loop\<close>

text \<open>How an iteration ends: it goes on with the time the next one is expected at, the queue is drained, it failed, it still
  waits for the queue, or the engine ran out of fuel.\<close>

datatype iteration = ItContinue u64 | ItDrained | ItFailed | ItWaiting | ItNoFuel

type_synonym 'd traced_world = "'d writer_world \<times> nvme_event list"

definition fail_with ::
  "'d writer_env \<Rightarrow> string \<Rightarrow> NvmeCrossSlotEngine \<Rightarrow> 'd traced_world \<Rightarrow> iteration \<times> NvmeCrossSlotEngine \<times> 'd traced_world" where
  "fail_with env reason e wl =
     (case disturb env e (fst wl) of
        (e1, w) \<Rightarrow> (ItFailed, e1, on_queue (\<lambda>q. storage_set_writer_error_reason q reason) w, snd wl))"

text \<open>The pop with its wait; \<open>started\<close> is the time the wait began. The other threads run before every look.\<close>

fun wait_pop ::
  "nat \<Rightarrow> 'd writer_env \<Rightarrow> u64 option \<Rightarrow> bool \<Rightarrow> NvmeCrossSlotEngine \<Rightarrow> 'd writer_world
     \<Rightarrow> queue_pop \<times> NvmeCrossSlotEngine \<times> 'd writer_world" where
  "wait_pop 0 env started wait e w = (QueueBlocked, e, w)"
| "wait_pop (Suc n) env started wait e0 w0 =
     (case disturb env e0 w0 of
        (e, w) \<Rightarrow>
          case storage_queue_pop None (ww_q w) wait of
            (QueueBlocked, _) \<Rightarrow>
              (case started of
                 Some t \<Rightarrow> wait_pop n env started wait e w
               | None \<Rightarrow> (case wall env w of (t, w1) \<Rightarrow> wait_pop n env (Some t) wait e w1))
          | (out, q) \<Rightarrow>
              (case started of
                 None \<Rightarrow> (out, e, w\<lparr>ww_run := note_pop out q (ww_run w)\<rparr>)
               | Some t \<Rightarrow>
                   (case wall env w of
                      (now, w1) \<Rightarrow>
                        case storage_queue_pop (Some (t, now)) (ww_q w1) wait of
                          (out1, q1) \<Rightarrow> (out1, e, w1\<lparr>ww_run := note_pop out1 q1 (ww_run w1)\<rparr>))))"

text \<open>Handing an item to the engine: the reason of a failure, or the engine with the slot.\<close>

definition accept_item ::
  "ChannelRuntime \<Rightarrow> PendingDdrSlot \<Rightarrow> NvmeCrossSlotEngine \<Rightarrow> string option \<times> NvmeCrossSlotEngine" where
  "accept_item rt x e =
     (let padded = (case storage_slot_addresses (0, 0) rt x of
                      None \<Rightarrow> (-1, en_rt e)
                    | Some _ \<Rightarrow> storage_zero_tail_padding (rt_dry_run rt) x (en_rt e));
          e1 = e\<lparr>en_rt := snd padded\<rparr>
      in if fst padded \<noteq> 0
         then (Some (if nr_last_error (en_rt e1) \<noteq> [] then nr_last_error (en_rt e1) else ''slot_padding_failed''), e1)
         else case nvme_cross_slot_engine_add (slot_request x) e1 of
                (rc, e2) \<Rightarrow> (if rc \<noteq> 0 then Some (nvme_cross_slot_engine_last_error e2) else None, e2))"

text \<open>After the step: account for its time, then decide.\<close>

definition account_step ::
  "'d writer_env \<Rightarrow> u64 \<Rightarrow> NvmeCrossSlotEngine \<Rightarrow> 'd writer_world \<Rightarrow> 'd writer_world" where
  "account_step env step_start_us e w0 =
     (case wall env w0 of
        (now, w) \<Rightarrow>
          on_queue (\<lambda>q. storage_cross_slot_update_stats
                          (q\<lparr>wq_writer_active_us := wq_writer_active_us q + elapsed_us step_start_us now\<rparr>) e) w)"

definition decide_next ::
  "'d writer_env \<Rightarrow> NvmeCrossSlotEngine \<Rightarrow> 'd traced_world \<Rightarrow> iteration \<times> NvmeCrossSlotEngine \<times> 'd traced_world" where
  "decide_next env e0 wl =
     (case wall env (fst wl) of
        (expected_run_us, w0) \<Rightarrow>
          case disturb env e0 w0 of
            (e, w) \<Rightarrow>
              case storage_cross_slot_writer_decision_locked (ww_q w) e of
                STORAGE_CROSS_SLOT_WRITER_QUEUE_ERROR \<Rightarrow> fail_with env ''storage_queue_error'' e (w, snd wl)
              | STORAGE_CROSS_SLOT_WRITER_DRAINED \<Rightarrow>
                  (case wall env w of
                     (now, w1) \<Rightarrow>
                       (ItDrained, e,
                        on_queue (\<lambda>q. q\<lparr>wq_writer_event_ring := storage_ring_event now (wq_writer_event_ring q)
                                          STORAGE_EVENT_STOP_DRAINED (wq_channel q) 0 0 False\<rparr>) w1, snd wl))
              | _ \<Rightarrow> (ItContinue expected_run_us, e, w, snd wl))"

definition step_engine ::
  "'d writer_env \<Rightarrow> nat \<Rightarrow> NvmeCrossSlotEngine \<Rightarrow> 'd traced_world \<Rightarrow> iteration \<times> NvmeCrossSlotEngine \<times> 'd traced_world" where
  "step_engine env fuel e wl =
     (case wall env (fst wl) of
        (step_start_us, w) \<Rightarrow>
          case nvme_cross_slot_engine_step fuel (logged (writer_ops env)) (wq_writer_budget_override_us (ww_q w)) e (w, snd wl) of
            (FReturn rc, e1, w1, l1) \<Rightarrow>
              (let w2 = account_step env step_start_us e1 w1
               in if rc \<noteq> 0 then fail_with env (nvme_cross_slot_engine_last_error e1) e1 (w2, l1)
                  else decide_next env e1 (w2, l1))
          | (_, e1, wl1) \<Rightarrow> (ItNoFuel, e1, wl1))"

definition note_gap :: "'d writer_env \<Rightarrow> u64 \<Rightarrow> 'd writer_world \<Rightarrow> 'd writer_world" where
  "note_gap env expected_run_us w0 =
     (case wall env w0 of
        (actual, w1) \<Rightarrow>
          case wall env w1 of
            (now, w) \<Rightarrow> on_queue (\<lambda>q. storage_record_writer_schedule_gap now q expected_run_us actual) w)"

definition writer_iteration ::
  "'d writer_env \<Rightarrow> nat \<Rightarrow> u64 \<Rightarrow> NvmeCrossSlotEngine \<Rightarrow> 'd traced_world \<Rightarrow> iteration \<times> NvmeCrossSlotEngine \<times> 'd traced_world" where
  "writer_iteration env fuel expected_run_us e0 wl =
     (let wait_for_item = (nvme_cross_slot_engine_active e0 = 0)
      in case disturb env e0 (fst wl) of
           (e, w) \<Rightarrow>
             if storage_queue_abort_requested (ww_q w) then fail_with env ''writer_abort_requested'' e (w, snd wl)
             else let w1 = (if wait_for_item then w else note_gap env expected_run_us w)
                  in if nvme_cross_slot_engine_can_accept e
                     then case wait_pop fuel env None wait_for_item e w1 of
                            (QueueBlocked, e1, w2) \<Rightarrow> (ItWaiting, e1, w2, snd wl)
                          | (QueuePopped STORAGE_QUEUE_POP_ERROR _, e1, w2) \<Rightarrow>
                              fail_with env ''storage_queue_pop_failed'' e1 (w2, snd wl)
                          | (QueuePopped STORAGE_QUEUE_POP_ITEM (Some x), e1, w2) \<Rightarrow>
                              (case accept_item (wq_rt (ww_q w2)) x e1 of
                                 (Some reason, e2) \<Rightarrow> fail_with env reason e2 (w2, snd wl)
                               | (None, e2) \<Rightarrow> step_engine env fuel e2 (w2, snd wl @ [EvAdd (slot_request x)]))
                          | (_, e1, w2) \<Rightarrow> step_engine env fuel e1 (w2, snd wl)
                     else step_engine env fuel e (w1, snd wl))"

text \<open>The loop, for at most \<open>n\<close> iterations.\<close>

fun writer_loop ::
  "nat \<Rightarrow> 'd writer_env \<Rightarrow> nat \<Rightarrow> u64 \<Rightarrow> NvmeCrossSlotEngine \<Rightarrow> 'd traced_world \<Rightarrow> iteration \<times> NvmeCrossSlotEngine \<times> 'd traced_world" where
  "writer_loop 0 env fuel expected e wl = (ItContinue expected, e, wl)"
| "writer_loop (Suc n) env fuel expected e wl =
     (case writer_iteration env fuel expected e wl of
        (ItContinue expected1, e1, wl1) \<Rightarrow> writer_loop n env fuel expected1 e1 wl1
      | r \<Rightarrow> r)"

section \<open>Start and end of the thread\<close>

text \<open>After a failure the commands in flight are drained. The engine is destroyed only when the device owns nothing.\<close>

definition drain_deadline :: "StorageWriteQueue \<Rightarrow> NvmeCrossSlotEngine \<Rightarrow> u64 \<Rightarrow> u64" where
  "drain_deadline q e now =
     now + (if wq_nvme_abort_timeout_us q \<noteq> 0 then wq_nvme_abort_timeout_us q
            else if cc_no_progress_timeout_us (wq_cross_slot_config q) \<noteq> 0
            then cc_no_progress_timeout_us (wq_cross_slot_config q)
            else ucast (nr_timeout_us (en_rt e)))"

definition set_quiesced :: "NvmeCrossSlotEngine \<Rightarrow> 'd writer_world \<Rightarrow> 'd writer_world" where
  "set_quiesced e w = on_queue (\<lambda>q. q\<lparr>wq_nvme_engine_quiesced := nvme_cross_slot_engine_is_quiesced e\<rparr>) w"

definition report_fatal :: "'d writer_env \<Rightarrow> 'd writer_world \<Rightarrow> 'd writer_world" where
  "report_fatal env w0 =
     (case wall env (sync_ownership env w0) of
        (now, w) \<Rightarrow>
          case storage_fail_fatal now (ww_q w) (qr_g (ww_run w)) of
            (q, g) \<Rightarrow> w\<lparr>ww_run := (ww_run w)\<lparr>qr_q := q, qr_g := g\<rparr>\<rparr>)"

definition drop_engine :: "NvmeCrossSlotEngine \<Rightarrow> 'd writer_world \<Rightarrow> NvmeCrossSlotEngine option \<times> 'd writer_world" where
  "drop_engine e w =
     (if wq_nvme_engine_quiesced (ww_q w)
      then case storage_queue_destroy_engine (ww_q w) e of
             (q, eng) \<Rightarrow> (eng, on_queue (\<lambda>_. q) w)
      else (Some e, w))"

definition writer_failed ::
  "'d writer_env \<Rightarrow> nat \<Rightarrow> NvmeCrossSlotEngine \<Rightarrow> 'd traced_world \<Rightarrow> bool \<times> NvmeCrossSlotEngine option \<times> 'd traced_world" where
  "writer_failed env fuel e0 wl =
     (case wall env (fst wl) of
        (now_us, w) \<Rightarrow>
          let e = nvme_cross_slot_engine_request_abort (nvme_cross_slot_engine_last_error e0) e0
          in case nvme_cross_slot_engine_drain_abort fuel (logged (writer_ops env)) (drain_deadline (ww_q w) e now_us) e (w, snd wl) of
               (FReturn _, e1, w1, l1) \<Rightarrow>
                 (case drop_engine e1 (report_fatal env
                         (on_queue (\<lambda>q. storage_cross_slot_update_stats q e1) (set_quiesced e1 w1))) of
                    (eng, w2) \<Rightarrow> (True, eng, w2, l1 @ drain_events e e1))
             | (_, e1, wl1) \<Rightarrow> (False, Some e1, wl1))"

datatype writer_end = WriterRefused | WriterDrained | WriterFailed | WriterRunning

text \<open>A start that fails: the writer is not ready, which fails the worker, and the process is asked to stop.\<close>

definition refuse_start :: "'d writer_env \<Rightarrow> string \<Rightarrow> 'd writer_world \<Rightarrow> 'd writer_world" where
  "refuse_start env reason w0 =
     (case wall env w0 of
        (now, w) \<Rightarrow>
          let q1 = storage_queue_set_writer_ready (storage_set_writer_error_reason (ww_q w) reason) False;
              q2 = q1\<lparr>wq_writer_event_ring := storage_ring_event now (wq_writer_event_ring q1) STORAGE_EVENT_WORKER_FATAL
                         (wq_channel q1) 0 0 True\<rparr>
          in w\<lparr>ww_run := (ww_run w)\<lparr>qr_q := q2, qr_g := storage_write_request_stop (qr_g (ww_run w))\<rparr>\<rparr>)"

fun wait_run :: "nat \<Rightarrow> 'd writer_env \<Rightarrow> 'd writer_world \<Rightarrow> int option \<times> 'd writer_world" where
  "wait_run 0 env w = (None, w)"
| "wait_run (Suc n) env w =
     (case storage_queue_wait_run (ww_q w) of
        Some rc \<Rightarrow> (Some rc, w)
      | None \<Rightarrow> wait_run n env (snd (others env w)))"

text \<open>Scheduling of the thread; the settings are the environment, the configuration and the outcome of
  \<^verbatim>\<open>pthread_setschedparam\<close>.\<close>

record thread_settings =
  ts_ulong_max :: int
  ts_env :: environment
  ts_config :: "AppConfig option"
  ts_setsched :: "int \<Rightarrow> int \<Rightarrow> int"

definition storage_apply_writer_rt :: "thread_settings \<Rightarrow> StorageWriteQueue \<Rightarrow> int \<times> StorageWriteQueue" where
  "storage_apply_writer_rt ts q =
     (let channel = uint (wq_channel q);
          prio = storage_writer_rt_prio (ts_ulong_max ts) (ts_env ts) (ts_config ts) channel;
          q1 = q\<lparr>wq_writer_rt_prio := prio\<rparr>
      in if prio = 0 then (0, q1\<lparr>wq_writer_rt_policy := SCHED_OTHER, wq_writer_rt_enabled := False\<rparr>)
         else let policy = storage_rt_policy (ts_env ts) ''SRC_REAL_WRITER_RT_POLICY''
                             (storage_profile_rt_policy (ts_config ts) channel True);
                  q2 = q1\<lparr>wq_writer_rt_policy := policy\<rparr>
              in if ts_setsched ts policy (if policy = SCHED_OTHER then 0 else uint prio) = 0
                 then (0, q2\<lparr>wq_writer_rt_enabled := True\<rparr>)
                 else (if storage_require_rt (ts_env ts) then -1 else 0,
                       q2\<lparr>wq_writer_rt_policy := SCHED_OTHER, wq_writer_rt_prio := 0, wq_writer_rt_enabled := False\<rparr>))"

definition storage_nvme_cross_slot_writer_thread ::
  "'d writer_env \<Rightarrow> thread_settings \<Rightarrow> bool \<Rightarrow> nat \<Rightarrow> nat \<Rightarrow> 'd writer_world
     \<Rightarrow> writer_end \<times> NvmeCrossSlotEngine option \<times> 'd traced_world" where
  "storage_nvme_cross_slot_writer_thread env ts alloc_ok n fuel w0 =
     (case wait_run fuel env w0 of
        (None, w) \<Rightarrow> (WriterRunning, None, w, [])
      | (Some rc, w) \<Rightarrow>
          if rc \<noteq> 0 then (WriterRefused, None, w, [])
          else case storage_apply_writer_rt ts (ww_q w) of
                 (sched_rc, q1) \<Rightarrow>
                   (let w1 = on_queue (\<lambda>_. q1) w
                    in if sched_rc \<noteq> 0 then (WriterRefused, None, refuse_start env [] w1, [])
                       else case nvme_cross_slot_engine_create_with_ops_config alloc_ok (wq_nvme q1) (wq_cross_slot_config q1) of
                              None \<Rightarrow> (WriterRefused, None, refuse_start env ''cross_slot_engine_create_failed'' w1, [])
                            | Some e0 \<Rightarrow>
                                (let w2 = snd (others env w1);
                                     (q2, e1) = storage_queue_set_engine (ww_q w2) e0;
                                     (e2, w3) = disturb env e1 (on_queue (\<lambda>_. q2) w2);
                                     w4 = on_queue (\<lambda>q. storage_queue_set_writer_ready q True) w3
                                 in case writer_loop n env fuel 0 e2 (w4, []) of
                                      (ItDrained, e, w5, l) \<Rightarrow>
                                        (case drop_engine e (set_quiesced e w5) of
                                           (eng, w6) \<Rightarrow> (WriterDrained, eng, w6, l))
                                    | (ItFailed, e, wl) \<Rightarrow>
                                        (case writer_failed env fuel e wl of
                                           (ended, eng, wl1) \<Rightarrow> (if ended then WriterFailed else WriterRunning, eng, wl1))
                                    | (_, e, wl) \<Rightarrow> (WriterRunning, Some e, wl))))"

end
