(* ===== verification/Write_Lifecycle.thy ===== *)
theory Write_Lifecycle
  imports Write_Account
begin

text \<open>
  The lifecycle of the worker as the write queue keeps it: the worker runs only after both of its threads have
  reported that they are ready, and once the stop is latched no descriptor goes back to the hardware.
\<close>

section \<open>Fields the data path leaves alone\<close>

definition queue_life ::
  "StorageWriteQueue \<Rightarrow> bool \<times> ChannelRuntime \<times> u64 \<times> StorageWorkerState \<times> bool \<times> bool \<times> NvmeRuntime" where
  "queue_life q = (wq_requeue_enabled q, wq_rt q, wq_recycled_slot_count q, wq_worker_state q, wq_writer_ready q,
     wq_producer_ready q, wq_nvme q)"

lemma slot_transition_life: "storage_local_slot_transition_locked q slot a b = (rc, q') \<Longrightarrow> queue_life q' = queue_life q"
  by (auto simp: storage_local_slot_transition_locked_def queue_life_def Let_def split: prod.splits if_splits)

lemma batch_store_life: "batch_store q tail xs = (ok, q', tail') \<Longrightarrow> queue_life q' = queue_life q"
proof (induction xs arbitrary: q tail)
  case (Cons x xs)
  let ?q1 = "q\<lparr>wq_items := map_option (\<lambda>ys. ys[unat tail := x]) (wq_items q)\<rparr>"
  obtain rc1 q2 where t1: "storage_local_slot_transition_locked ?q1 (pd_slot x) STORAGE_SLOT_DMA_WRITABLE
    STORAGE_SLOT_DMA_COMPLETED_UNHARVESTED = (rc1, q2)" by fastforce
  obtain rc2 q3 where t2: "storage_local_slot_transition_locked q2 (pd_slot x) STORAGE_SLOT_DMA_COMPLETED_UNHARVESTED
    STORAGE_SLOT_READY_FOR_NVME = (rc2, q3)" by fastforce
  have l: "queue_life q2 = queue_life q" "queue_life q3 = queue_life q2"
    using slot_transition_life [OF t1] slot_transition_life [OF t2] by (simp_all add: queue_life_def)
  show ?case using Cons t1 t2 l by (simp add: Let_def split: if_splits)
qed simp

lemma push_life: "queue_life (snd (storage_local_queue_push_batch q xs)) = queue_life q"
proof -
  obtain ok q1 tail where b: "batch_store q (wq_tail q) xs = (ok, q1, tail)" by (metis prod_cases3)
  have e: "queue_life (p\<lparr>wq_error := e\<rparr>) = queue_life p" for p e by (simp add: queue_life_def)
  have a: "queue_life (batch_account p t n m) = queue_life p" for p t n m
    by (simp add: batch_account_def queue_life_def storage_queue_record_depth_locked_def Let_def)
  show ?thesis using batch_store_life [OF b] b
    by (simp add: storage_local_queue_push_batch_def Let_def e a split: option.split)
qed

lemma pop_life: "queue_life (snd (storage_queue_pop waited q wait)) = queue_life q"
proof -
  let ?w = "case waited of None \<Rightarrow> 0 | Some (start_us, now) \<Rightarrow> if start_us \<noteq> 0 then elapsed_us start_us now else 0"
  let ?q0 = "q\<lparr>wq_queue_empty_wait_us := wq_queue_empty_wait_us q + ?w, wq_writer_idle_us := wq_writer_idle_us q + ?w\<rparr>"
  let ?q1 = "?q0\<lparr>wq_head := (wq_head ?q0 + 1) mod wq_capacity ?q0, wq_count := wq_count ?q0 - 1\<rparr>"
  let ?x = "the (wq_items ?q0) ! unat (wq_head ?q0)"
  obtain rc q2 where t: "storage_local_slot_transition_locked ?q1 (pd_slot ?x) STORAGE_SLOT_READY_FOR_NVME STORAGE_SLOT_NVME_BUSY = (rc, q2)"
    by fastforce
  have l: "queue_life q2 = queue_life q" "queue_life ?q0 = queue_life q" using slot_transition_life [OF t] by (simp_all add: queue_life_def)
  have d: "queue_life (storage_queue_record_depth_locked p) = queue_life p" for p
    by (simp add: queue_life_def storage_queue_record_depth_locked_def)
  show ?thesis using t l d by (simp add: storage_queue_pop_def Let_def)
qed

lemma harvest_life:
  "queue_life (storage_mark_harvest_slot_failed q slot) = queue_life q"
  "queue_life (snd (storage_release_harvested_slot q slot)) = queue_life q"
proof -
  have s: "queue_life (snd (storage_local_slot_transition_locked q slot a b)) = queue_life q" for a b
    using slot_transition_life by (metis prod.collapse)
  have e: "queue_life (p\<lparr>wq_error := e\<rparr>) = queue_life p" for p e by (simp add: queue_life_def)
  show "queue_life (storage_mark_harvest_slot_failed q slot) = queue_life q"
    by (simp add: storage_mark_harvest_slot_failed_def Let_def e s)
  show "queue_life (snd (storage_release_harvested_slot q slot)) = queue_life q"
    by (simp add: storage_release_harvested_slot_def s)
qed

text \<open>What a failure may change: the worker becomes failed, nothing else of its life.\<close>

definition same_or_failed :: "StorageWriteQueue \<Rightarrow> StorageWriteQueue \<Rightarrow> bool" where
  "same_or_failed q q' \<longleftrightarrow>
     wq_requeue_enabled q' = wq_requeue_enabled q \<and> wq_writer_ready q' = wq_writer_ready q \<and>
     wq_producer_ready q' = wq_producer_ready q \<and> wq_worker_state q' \<in> {wq_worker_state q, WORKER_FAILED} \<and>
     wq_nvme q' = wq_nvme q"

definition same_ring :: "StorageWriteQueue \<Rightarrow> StorageWriteQueue \<Rightarrow> bool" where
  "same_ring q q' \<longleftrightarrow> wq_rt q' = wq_rt q \<and> wq_recycled_slot_count q' = wq_recycled_slot_count q"

lemma life_same: "queue_life q' = queue_life q \<Longrightarrow> same_or_failed q q' \<and> same_ring q q'"
  by (simp add: same_or_failed_def same_ring_def queue_life_def)

lemma same_trans:
  "same_or_failed a b \<Longrightarrow> same_or_failed b c \<Longrightarrow> same_or_failed a c"
  "same_ring a b \<Longrightarrow> same_ring b c \<Longrightarrow> same_ring a c"
  by (auto simp: same_or_failed_def same_ring_def)

lemma fail_locked_same: "same_or_failed q (storage_queue_fail_locked q)" "same_ring q (storage_queue_fail_locked q)"
  by (auto simp: same_or_failed_def same_ring_def storage_queue_fail_locked_def storage_worker_transition_def Let_def)

lemma reason_same:
  "same_or_failed q (storage_set_writer_error_reason q r)" "same_ring q (storage_set_writer_error_reason q r)"
  by (auto simp: same_or_failed_def same_ring_def storage_set_writer_error_reason_def)

lemma fatal_same:
  assumes "storage_fail_fatal now q g = (q', g')"
  shows "same_or_failed q q'" "same_ring q q'"
proof -
  define q1 where "q1 = storage_set_writer_error_reason q ''storage_writer_error''"
  define q2 where "q2 = (if nr_ownership_unresolved (wq_nvme q1) then q1\<lparr>wq_nvme_engine_quiesced := False\<rparr> else q1)"
  have "same_or_failed q1 q2" "same_ring q1 q2" by (simp_all add: same_or_failed_def same_ring_def q2_def)
  note 12 = same_trans(1) [OF same_trans(1) [OF reason_same(1) [of q "''storage_writer_error''", folded q1_def] this(1)] fail_locked_same(1)]
    same_trans(2) [OF same_trans(2) [OF reason_same(2) [of q "''storage_writer_error''", folded q1_def] this(2)] fail_locked_same(2)]
  obtain r where "q' = (storage_queue_fail_locked q2)\<lparr>wq_writer_event_ring := r\<rparr>"
    using assms unfolding storage_fail_fatal_def Let_def q1_def [symmetric] q2_def [symmetric] by blast
  with 12 show "same_or_failed q q'" "same_ring q q'" by (simp_all add: same_or_failed_def same_ring_def)
qed

lemma hand_back_same:
  assumes b: "hand_back now sr cr x q g = (rc, q', g', ws)"
  shows "same_or_failed q q'"
proof -
  obtain rc1 rt1 ws1 where r: "dma_requeue_one sr cr (wq_rt q) (pd_slot x) = (rc1, rt1, ws1)" by (metis prod_cases3)
  define q1 where "q1 = q\<lparr>wq_rt := rt1\<rparr>"
  have q1: "same_or_failed q q1" by (simp add: q1_def same_or_failed_def)
  obtain rc2 q2 where t: "storage_local_slot_transition_locked q1 (pd_slot x) STORAGE_SLOT_REQUEUE_PENDING
      STORAGE_SLOT_DMA_WRITABLE = (rc2, q2)" by fastforce
  define qf where "qf = storage_queue_fail_locked q1"
  define q3 where "q3 = (if wq_error_reason qf = [] then qf\<lparr>wq_error_reason := ''dma_requeue_failed''\<rparr> else qf)"
  obtain q4 g4 where f: "storage_fail_fatal now q3 g = (q4, g4)" by fastforce
  have "same_or_failed qf q3" by (simp add: same_or_failed_def q3_def)
  with q1 fail_locked_same(1) [of q1] fatal_same(1) [OF f] have s4: "same_or_failed q q4" unfolding qf_def by (blast intro: same_trans(1))
  have s2: "same_or_failed q q2" using life_same [OF slot_transition_life [OF t]] q1 by (blast intro: same_trans(1))
  have "hand_back now sr cr x q g =
     (if wq_recycled_slot_count q = UINT64_MAX then (-1, q\<lparr>wq_error := True\<rparr>, g, [])
      else if rc1 \<noteq> 0 then (-1, q4, g4, ws1) else if rc2 \<noteq> 0 then (-1, q2, g, ws1)
      else (0, q2\<lparr>wq_recycled_slot_count := wq_recycled_slot_count q2 + 1\<rparr>, g, ws1))"
    by (simp only: hand_back_def Let_def r t [unfolded q1_def] f [unfolded q3_def qf_def q1_def] prod.case)
  with b have "q' \<in> {q\<lparr>wq_error := True\<rparr>, q4, q2, q2\<lparr>wq_recycled_slot_count := wq_recycled_slot_count q2 + 1\<rparr>}"
    by (simp split: if_splits)
  then show ?thesis using s2 s4 by (auto simp: same_or_failed_def)
qed

lemma complete_cases:
  assumes c: "storage_complete_slot now sr cr q x g = (rc, q', g', ws)"
  obtains (plain) "same_or_failed q q'" "same_ring q q'"
  | (requeued) q2 where "wq_requeue_enabled q" "same_or_failed q q2" "hand_back now sr cr x q2 g = (rc, q', g', ws)"
proof -
  define q1 where "q1 = count_written x q"
  define rq where "rq \<longleftrightarrow> wq_requeue_enabled q1 \<and> storage_worker_can_requeue (wq_worker_state q1)"
  obtain rc2 q2 where t: "storage_local_slot_transition_locked q1 (pd_slot x) STORAGE_SLOT_NVME_BUSY
      (if rq then STORAGE_SLOT_REQUEUE_PENDING else STORAGE_SLOT_FREE) = (rc2, q2)" by fastforce
  have "queue_life q2 = queue_life q" using slot_transition_life [OF t] by (simp add: queue_life_def count_written_def q1_def)
  then have s2: "same_or_failed q q2" "same_ring q q2" using life_same by blast+
  obtain q3 g3 where f: "storage_fail_fatal now (storage_set_writer_error_reason q2 ''requeue_after_stop_latched'') g = (q3, g3)"
    by fastforce
  have s3: "same_or_failed q q3" "same_ring q q3"
    using s2 reason_same [of q2 "''requeue_after_stop_latched''"] fatal_same [OF f] by (blast intro: same_trans)+
  have s0: "same_or_failed q (q\<lparr>wq_error := True\<rparr>)" "same_ring q (q\<lparr>wq_error := True\<rparr>)" "same_or_failed q q" "same_ring q q"
    by (simp_all add: same_or_failed_def same_ring_def)
  have "q' \<in> {q, q\<lparr>wq_error := True\<rparr>, q2, q3} \<or> rq \<and> hand_back now sr cr x q2 g = (rc, q', g', ws)"
    using c t f unfolding storage_complete_slot_def Let_def q1_def [symmetric] rq_def [symmetric]
    by (cases rq; cases "rc2 = 0"; simp split: if_splits)
  moreover have "rq \<Longrightarrow> wq_requeue_enabled q" by (simp add: rq_def q1_def count_written_def)
  ultimately show thesis using s0 s2 s3 plain requeued by blast
qed

lemma complete_same:
  assumes "storage_complete_slot now sr cr q x g = (rc, q', g', ws)"
  shows "same_or_failed q q'" "\<not> wq_requeue_enabled q \<Longrightarrow> same_ring q q'"
  using complete_cases [OF assms] hand_back_same same_trans(1) by metis+

section \<open>Readiness\<close>

definition ready_ok :: "StorageWriteQueue \<Rightarrow> bool" where
  "ready_ok q \<longleftrightarrow>
     wq_worker_state q \<in> {WORKER_INIT, WORKER_READY, WORKER_ARMED, WORKER_FAILED} \<or> wq_writer_ready q \<and> wq_producer_ready q"

lemma same_ready: "same_or_failed q q' \<Longrightarrow> ready_ok q \<Longrightarrow> ready_ok q'"
  by (auto simp: same_or_failed_def ready_ok_def)

lemma transition_ready:
  assumes "ready_ok q" "b \<in> {WORKER_INIT, WORKER_READY, WORKER_ARMED, WORKER_FAILED} \<or> wq_writer_ready q \<and> wq_producer_ready q \<or>
    a \<notin> {WORKER_INIT, WORKER_READY, WORKER_ARMED, WORKER_FAILED}"
  shows "ready_ok (snd (storage_queue_transition_locked q a b))"
  using assms by (auto simp: ready_ok_def storage_queue_transition_locked_def storage_worker_transition_def)

lemma latch_ready: "ready_ok q \<Longrightarrow> ready_ok (snd (storage_queue_latch_stop q))"
  unfolding latch_stop_eq by (auto simp: ready_ok_def)

lemma fail_ready: "ready_ok q \<Longrightarrow> ready_ok (storage_queue_fail_locked q)"
  using same_ready fail_locked_same(1) by blast

lemma finish_ready: "ready_ok q \<Longrightarrow> ready_ok (fst (storage_queue_finish q g))"
  using transition_ready [of q WORKER_DRAINING WORKER_RUNNING] transition_ready [of q WORKER_DRAINING WORKER_HARVESTING]
  by (auto simp: storage_queue_finish_def Let_def fail_ready split: prod.split)

lemma finalizing_ready: "ready_ok q \<Longrightarrow> ready_ok (snd (storage_queue_mark_finalizing q))"
  using transition_ready [of q WORKER_DRAINED_WAIT_STOP WORKER_DRAINING]
  by (auto simp: storage_queue_mark_finalizing_def intro!: transition_ready split: prod.split)

lemma other_ready:
  assumes "ready_ok q"
  shows "ready_ok (fst (other_op op q g))"
proof (cases op)
  case (OpHarvestFailed slot)
  then show ?thesis using life_same [OF harvest_life(1)] same_ready [OF _ assms] by simp
next
  case (OpReleaseHarvested slot)
  then show ?thesis using life_same [OF harvest_life(2)] same_ready [OF _ assms] by simp
next
  case (OpFatal now)
  then show ?thesis using fatal_same(1) [of now q g] same_ready [OF _ assms] by (cases "storage_fail_fatal now q g") auto
next
  case (OpReason r)
  then show ?thesis using reason_same(1) same_ready [OF _ assms] by auto
next
  case (OpDeferred code r)
  then show ?thesis using assms by (auto simp: storage_record_deferred_stop_error_def ready_ok_def)
next
  case OpSnapshot
  then show ?thesis using assms by (auto simp: storage_queue_snapshot_def ready_ok_def Let_def)
next
  case (OpWriterReady ok)
  then show ?thesis using assms fail_ready by (auto simp: storage_queue_set_writer_ready_def ready_ok_def)
next
  case (OpProducerReady ok)
  then show ?thesis using assms fail_ready by (auto simp: storage_queue_set_producer_ready_def ready_ok_def)
qed (use assms in \<open>auto simp: storage_queue_mark_ready_def storage_queue_enable_run_def storage_queue_mark_running_def
  storage_queue_request_stop_state_def storage_queue_mark_harvesting_def storage_queue_mark_done_def
  storage_queue_request_abort_def fail_ready finish_ready finalizing_ready latch_ready intro!: transition_ready\<close>)

section \<open>The runtime of the device\<close>

lemma transition_nvme: "storage_queue_transition_locked q a b = (rc, q') \<Longrightarrow> wq_nvme q' = wq_nvme q"
  by (auto simp: storage_queue_transition_locked_def split: prod.splits if_splits)

lemma transition_snd_nvme: "wq_nvme (snd (storage_queue_transition_locked q a b)) = wq_nvme q"
  using transition_nvme by (metis prod.collapse)

lemma fail_nvme: "wq_nvme (storage_queue_fail_locked q) = wq_nvme q"
  by (simp add: storage_queue_fail_locked_def Let_def)

lemma other_nvme: "wq_nvme (fst (other_op op q g)) = wq_nvme q"
proof (cases op)
  case (OpHarvestFailed slot)
  then show ?thesis using life_same [OF harvest_life(1)] by (simp add: same_or_failed_def)
next
  case (OpReleaseHarvested slot)
  then show ?thesis using life_same [OF harvest_life(2)] by (simp add: same_or_failed_def)
next
  case (OpFatal now)
  then show ?thesis using fatal_same(1) [of now q g] by (cases "storage_fail_fatal now q g") (auto simp: same_or_failed_def)
next
  case OpFinish
  then show ?thesis
    by (auto simp: storage_queue_finish_def Let_def fail_nvme dest: transition_nvme split: prod.split)
next
  case OpFinalizing
  then show ?thesis
    by (auto simp: storage_queue_mark_finalizing_def transition_snd_nvme dest: transition_nvme split: prod.split)
next
  case OpLatchStop
  then show ?thesis by (simp add: latch_stop_eq)
qed (auto simp: storage_queue_mark_ready_def storage_queue_enable_run_def storage_queue_mark_running_def
  storage_queue_request_stop_state_def storage_queue_mark_harvesting_def storage_queue_mark_done_def
  storage_queue_request_abort_def storage_queue_set_writer_ready_def storage_queue_set_producer_ready_def
  storage_set_writer_error_reason_def storage_record_deferred_stop_error_def storage_queue_snapshot_def Let_def fail_nvme
  transition_snd_nvme)

section \<open>After the stop is latched\<close>

definition stopped :: "ChannelRuntime \<Rightarrow> u64 \<Rightarrow> StorageWriteQueue \<Rightarrow> bool" where
  "stopped rt n q \<longleftrightarrow> \<not> wq_requeue_enabled q \<and> wq_rt q = rt \<and> wq_recycled_slot_count q = n"

lemma same_stopped: "same_or_failed q q' \<Longrightarrow> same_ring q q' \<Longrightarrow> stopped rt n q \<Longrightarrow> stopped rt n q'"
  by (auto simp: same_or_failed_def same_ring_def stopped_def)

lemma transition_stopped: "stopped rt n (snd (storage_queue_transition_locked q a b)) = stopped rt n q"
  by (simp add: stopped_def storage_queue_transition_locked_def split: prod.split)

lemma transition_stopped_pair: "storage_queue_transition_locked q a b = (rc, q') \<Longrightarrow> stopped rt n q' = stopped rt n q"
  using transition_stopped [of rt n q a b] by simp

lemma latch_stopped:
  "stopped (dma_latch_stop (wq_rt q)) (wq_recycled_slot_count q) (snd (storage_queue_latch_stop q))"
  "stopped rt n q \<Longrightarrow> dma_latch_stop rt = rt \<Longrightarrow> stopped rt n (snd (storage_queue_latch_stop q))"
  unfolding latch_stop_eq by (auto simp: stopped_def)

lemma fail_stopped: "stopped rt n (storage_queue_fail_locked q) = stopped rt n q"
  by (simp add: stopped_def storage_queue_fail_locked_def Let_def)

lemma finish_stopped: "stopped rt n (fst (storage_queue_finish q g)) = stopped rt n q"
  by (auto simp: storage_queue_finish_def fail_stopped transition_stopped_pair split: prod.split)

lemma finalizing_stopped: "stopped rt n (snd (storage_queue_mark_finalizing q)) = stopped rt n q"
  by (auto simp: storage_queue_mark_finalizing_def transition_stopped transition_stopped_pair split: prod.split)

lemma other_stopped:
  assumes st: "stopped rt n q" and latched: "dma_latch_stop rt = rt"
  shows "stopped rt n (fst (other_op op q g))"
proof (cases op)
  case (OpHarvestFailed slot)
  then show ?thesis using life_same [OF harvest_life(1)] same_stopped [OF _ _ st] by simp
next
  case (OpReleaseHarvested slot)
  then show ?thesis using life_same [OF harvest_life(2)] same_stopped [OF _ _ st] by simp
next
  case (OpFatal now)
  then show ?thesis using fatal_same [of now q g] same_stopped [OF _ _ st] by (cases "storage_fail_fatal now q g") auto
next
  case (OpReason r)
  then show ?thesis using reason_same same_stopped [OF _ _ st] by auto
next
  case (OpDeferred code r)
  then show ?thesis using st by (auto simp: storage_record_deferred_stop_error_def stopped_def)
next
  case OpSnapshot
  then show ?thesis using st by (auto simp: storage_queue_snapshot_def stopped_def Let_def)
next
  case (OpWriterReady ok)
  then show ?thesis using st by (auto simp: storage_queue_set_writer_ready_def fail_stopped) (auto simp: stopped_def)
next
  case (OpProducerReady ok)
  then show ?thesis using st by (auto simp: storage_queue_set_producer_ready_def fail_stopped) (auto simp: stopped_def)
qed (use st latched in \<open>auto simp: storage_queue_mark_ready_def storage_queue_enable_run_def storage_queue_mark_running_def
  storage_queue_request_stop_state_def storage_queue_mark_harvesting_def storage_queue_mark_done_def
  storage_queue_request_abort_def fail_stopped finish_stopped finalizing_stopped latch_stopped(2) transition_stopped\<close>)

section \<open>Runs\<close>

lemma life_push_step: "same_or_failed (qr_q s) (qr_q (do_push xs s)) \<and> same_ring (qr_q s) (qr_q (do_push xs s))"
  using life_same [OF push_life [of "qr_q s" xs]] life_same [of "qr_q s" "qr_q s"]
  by (cases "storage_local_queue_push_batch (qr_q s) xs") (auto simp: do_push_def)

lemma life_pop_step: "same_or_failed (qr_q s) (qr_q (do_pop w b s)) \<and> same_ring (qr_q s) (qr_q (do_pop w b s))"
  using life_same [OF pop_life [of w "qr_q s" b]]
  by (cases "storage_queue_pop w (qr_q s) b")
    (auto simp: do_pop_def note_pop_def split: queue_pop.split StorageQueuePopResult.split option.split)

lemma complete_step:
  "same_or_failed (qr_q s) (qr_q (do_complete k now sr cr s))"
  "\<not> wq_requeue_enabled (qr_q s) \<Longrightarrow> same_ring (qr_q s) (qr_q (do_complete k now sr cr s))"
proof -
  obtain rc q g ws where c: "storage_complete_slot now sr cr (qr_q s) (qr_held s ! k) (qr_g s) = (rc, q, g, ws)"
    by (metis prod_cases4)
  have r: "qr_q (do_complete k now sr cr s) \<in> {qr_q s, q}" using c by (simp add: do_complete_def note_complete_def)
  have i: "same_or_failed (qr_q s) (qr_q s)" "same_ring (qr_q s) (qr_q s)" by (simp_all add: same_or_failed_def same_ring_def)
  show "same_or_failed (qr_q s) (qr_q (do_complete k now sr cr s))" using r i(1) complete_same(1) [OF c] by auto
  show "same_ring (qr_q s) (qr_q (do_complete k now sr cr s))" if "\<not> wq_requeue_enabled (qr_q s)"
    using r i(2) complete_same(2) [OF c that] by auto
qed

lemma step_cases:
  obtains (data) "same_or_failed (qr_q s) (qr_q (queue_step s op))"
      "\<not> wq_requeue_enabled (qr_q s) \<longrightarrow> same_ring (qr_q s) (qr_q (queue_step s op))"
  | (control) "qr_q (queue_step s op) = fst (other_op op (qr_q s) (qr_g s))"
  by (cases op) (use life_push_step life_pop_step complete_step in \<open>auto simp del: other_op.simps split: prod.splits\<close>)

lemma step_ready: "ready_ok (qr_q s) \<Longrightarrow> ready_ok (qr_q (queue_step s op))"
  by (cases s op rule: step_cases) (auto intro: same_ready other_ready)

lemma step_stopped:
  "stopped rt n (qr_q s) \<Longrightarrow> dma_latch_stop rt = rt \<Longrightarrow> stopped rt n (qr_q (queue_step s op))"
proof (cases s op rule: step_cases)
  case data
  assume "stopped rt n (qr_q s)"
  with data same_stopped show ?thesis by (auto simp: stopped_def)
qed (simp add: other_stopped)

lemma step_nvme: "wq_nvme (qr_q (queue_step s op)) = wq_nvme (qr_q s)"
  by (cases s op rule: step_cases) (auto simp: same_or_failed_def other_nvme)

lemma run_nvme: "wq_nvme (qr_q (foldl queue_step s ops)) = wq_nvme (qr_q s)"
  by (induction ops arbitrary: s) (simp_all add: step_nvme)

lemma run_ready: "ready_ok (qr_q s) \<Longrightarrow> ready_ok (qr_q (foldl queue_step s ops))"
  by (induction ops arbitrary: s) (simp_all add: step_ready)

lemma run_stopped:
  "stopped rt n (qr_q s) \<Longrightarrow> dma_latch_stop rt = rt \<Longrightarrow> stopped rt n (qr_q (foldl queue_step s ops))"
  by (induction ops arbitrary: s) (simp_all add: step_stopped)

section \<open>Properties\<close>

lemma init_ready:
  assumes "storage_queue_init oks ring_size backlog config rt nrt channel fi ms task xs batch = Some q0"
  shows "ready_ok q0"
  using assms by (auto simp: storage_queue_init_def ready_ok_def split: prod.splits if_splits option.splits)

text \<open>C11. The worker is never running, quiescing, harvesting, draining or done before both the writer thread and the
  producer thread have reported that they are ready, whatever calls are made on the write queue and in whatever order.\<close>

theorem worker_runs_when_ready:
  assumes "storage_queue_init oks ring_size backlog config rt nrt channel fi ms task xs batch = Some q0"
    "q = qr_q (foldl queue_step (queue_start q0 g) ops)"
    "wq_worker_state q \<notin> {WORKER_INIT, WORKER_READY, WORKER_ARMED, WORKER_FAILED}"
  shows "wq_writer_ready q \<and> wq_producer_ready q"
  using run_ready [of "queue_start q0 g" ops] init_ready [OF assms(1)] assms(2,3)
  by (auto simp: ready_ok_def queue_start_def)

theorem worker_runs_when_ready_witness:
  "wq_worker_state (qr_q small_run) = WORKER_RUNNING \<and> wq_writer_ready (qr_q small_run) \<and> wq_producer_ready (qr_q small_run)"
proof -
  have r: "wq_worker_state (qr_q small_run) = WORKER_RUNNING" by code_simp
  with worker_runs_when_ready [OF small_queue_init arg_cong [OF small_run_def, of qr_q]] show ?thesis by simp
qed

text \<open>C10. Once the stop is latched no later call on the write queue, completions of slots still with the writer
  included, hands a descriptor back to the hardware: the state of the DMA ring stays as the latch left it and the
  count of recycled slots does not change.\<close>

theorem no_recycle_after_stop:
  assumes "s0 = foldl queue_step s ops1" "s1 = foldl queue_step (queue_step s0 OpLatchStop) ops2"
  shows "wq_rt (qr_q s1) = dma_latch_stop (wq_rt (qr_q s0)) \<and>
    wq_recycled_slot_count (qr_q s1) = wq_recycled_slot_count (qr_q s0)"
proof -
  let ?rt = "dma_latch_stop (wq_rt (qr_q s0))"
  have "stopped ?rt (wq_recycled_slot_count (qr_q s0)) (qr_q (queue_step s0 OpLatchStop))"
    using latch_stopped(1) [of "qr_q s0"] by simp
  from run_stopped [OF this, of ops2] assms(2) show ?thesis by (simp add: stopped_def dma_latch_stop_def)
qed

definition late_run :: queue_run where
  "late_run = foldl queue_step (queue_step small_run OpLatchStop) [OpComplete 0 9 0 1]"

theorem no_recycle_after_stop_witness:
  "length (qr_written late_run) = 2 \<and> wq_rt (qr_q late_run) = dma_latch_stop (wq_rt (qr_q small_run)) \<and>
   wq_recycled_slot_count (qr_q late_run) = 1"
proof -
  have w: "length (qr_written late_run) = 2" "wq_recycled_slot_count (qr_q small_run) = 1" by code_simp+
  with no_recycle_after_stop [OF small_run_def late_run_def] show ?thesis by simp
qed

end
