(* ===== verification/Engine_Context.thy ===== *)
theory Engine_Context
  imports Nvme_Engine
begin

text \<open>
  What a client of the cross-slot engine keeps: the engine touches the context of its operations only by calling
  them, so a property of the context that every operation keeps holds after any call of the engine. The
  interface is a locale per kind of call; the writer thread interprets them on its queue.
\<close>

section \<open>Operations of the device\<close>

locale kept_calls =
  fixes ops :: "'c NvmeCrossSlotOps" and P :: "'c \<Rightarrow> bool"
  assumes keep_submit: "P c \<Longrightarrow> op_submit ops c cid lba n ddr = (rc, c') \<Longrightarrow> P c'"
    and keep_poll: "P c \<Longrightarrow> op_poll_completion ops c = (rc, cpl, c') \<Longrightarrow> P c'"
    and keep_time: "P c \<Longrightarrow> op_monotonic_us ops c = (t, c') \<Longrightarrow> P c'"
    and keep_sleep: "op_sleep_us ops = Some sl \<Longrightarrow> P c \<Longrightarrow> P (sl c us)"
    and keep_yield: "op_yield_cpu ops = Some y \<Longrightarrow> P c \<Longrightarrow> P (y c)"
    and keep_producer: "P c \<Longrightarrow> op_producer ops c = (a, c') \<Longrightarrow> P c'"
begin

lemma keep_diag: "P c \<Longrightarrow> diag_now ops e c = (t, c') \<Longrightarrow> P c'"
  by (auto simp: diag_now_def intro: keep_time split: if_splits)

lemma keep_yield_once: "P c \<Longrightarrow> P (yield_once ops c)"
  by (cases "op_yield_cpu ops") (simp_all add: yield_once_def keep_yield)

lemma keep_pause: "P c \<Longrightarrow> P (drain_pause ops e c)"
  using keep_yield_once [of c]
  by (cases "op_sleep_us ops") (simp_all add: drain_pause_def Let_def keep_sleep flip: yield_once_def)

lemma keep_abort: "P c \<Longrightarrow> observe_abort ops e c = (e', c') \<Longrightarrow> P c'"
  by (auto simp: observe_abort_def intro: keep_producer split: prod.splits option.splits)

lemma keep_completion: "P c \<Longrightarrow> cross_slot_handle_completion ops cpl e c = (rc, e', c') \<Longrightarrow> P c'"
  by (auto simp: cross_slot_handle_completion_def Let_def intro: keep_diag split: option.splits prod.splits if_splits)

lemma keep_process: "P c \<Longrightarrow> process_completion ops t cpl e c = (rc, e', c') \<Longrightarrow> P c'"
  by (auto simp: process_completion_def Let_def dest: keep_completion intro: keep_time split: prod.splits if_splits)

lemma keep_cq: "P c \<Longrightarrow> cq_loop n ops p e c = (f, e', c') \<Longrightarrow> P c'"
proof (induction n arbitrary: p e c)
  case (Suc n)
  obtain prc cpl c1 where p: "op_poll_completion ops c = (prc, cpl, c1)" by (metis prod_cases3)
  obtain t c2 where t: "op_monotonic_us ops c1 = (t, c2)" by fastforce
  obtain rc e1 c3 where r: "process_completion ops t cpl (cross_slot_clear_cq_empty t e) c2 = (rc, e1, c3)" by (metis prod_cases3)
  have "P c2" using Suc.prems(1) p t by (blast intro: keep_poll keep_time)
  moreover from this have "P c3" using r by (rule keep_process)
  ultimately show ?case using Suc p t r by (auto split: if_splits)
qed simp

lemma keep_timed_submit: "P c \<Longrightarrow> timed_submit ops p e c = (src, t, e', c') \<Longrightarrow> P c'"
proof -
  assume c: "P c" and s: "timed_submit ops p e c = (src, t, e', c')"
  obtain t1 c1 where 1: "diag_now ops e c = (t1, c1)" by fastforce
  obtain s2 c2 where 2: "op_submit ops c1 (pc_cid p) (pc_lba p) (pc_sectors p) (pc_ddr_addr p) = (s2, c2)" by fastforce
  obtain t3 c3 where 3: "diag_now ops e c2 = (t3, c3)" by fastforce
  have "P c3" using c 1 2 3 by (blast intro: keep_diag keep_submit)
  then show "P c'" using s 1 2 3 by (auto simp: timed_submit_def Let_def intro: keep_time split: if_splits prod.splits)
qed

lemma keep_refill_one:
  assumes c: "P c" and r: "refill_one ops limit e c = (f, e', c')"
  shows "P c'"
proof -
  obtain e0 c0 where o: "observe_abort ops e c = (e0, c0)" by fastforce
  have c0: "P c0" using c o by (rule keep_abort)
  then show ?thesis using r
    by (auto simp: refill_one_def Let_def o dest: keep_timed_submit [OF c0] split: prod.splits if_splits option.splits)
qed

lemma keep_refill: "P c \<Longrightarrow> ops' = ops \<Longrightarrow> refill_loop ops' limit p e c = (f, e', c') \<Longrightarrow> P c'"
proof (induction ops' limit p e c rule: refill_loop.induct)
  case (1 ops' limit p e c)
  obtain f1 e1 c1 where r: "refill_one ops' limit e c = (f1, e1, c1)" by (metis prod_cases3)
  have c1: "P c1" using 1(2,3) r keep_refill_one by blast
  have u: "refill_loop ops' limit p e c =
      (if en_global_inflight e < cc_target_qd (en_config e)
       then case f1 of FGo True \<Rightarrow> refill_loop ops' limit True e1 c1 | FGo False \<Rightarrow> (FGo p, e1, c1) | _ \<Rightarrow> (f1, e1, c1)
       else (FGo p, e, c))"
    by (subst refill_loop.simps) (simp add: r split: flow.split bool.split)
  show ?case
  proof (cases "en_global_inflight e < cc_target_qd (en_config e) \<and> f1 = FGo True")
    case True
    then show ?thesis using 1(1) [OF _ r [symmetric] _ _ refl c1 1(3)] 1(4) u by simp
  next
    case False
    then show ?thesis using 1(2,4) u c1 by (auto split: if_splits flow.splits bool.splits)
  qed
qed

lemma keep_busy: "P c \<Longrightarrow> busy_loop n ops d e c = (f, e', c') \<Longrightarrow> P c'"
proof (induction n arbitrary: e c)
  case (Suc n)
  obtain now c1 where now: "op_monotonic_us ops c = (now, c1)" by fastforce
  obtain prc cpl c2 where p: "op_poll_completion ops c1 = (prc, cpl, c2)" by (metis prod_cases3)
  obtain t c3 where t: "op_monotonic_us ops c2 = (t, c3)" by fastforce
  obtain rc e1 c4 where r: "process_completion ops t cpl (cross_slot_clear_cq_empty t e) c3 = (rc, e1, c4)" by (metis prod_cases3)
  have c1: "P c1" and c3: "P c3" using Suc.prems(1) now p t by (blast intro: keep_poll keep_time)+
  then have c4: "P c4" using r by (blast intro: keep_process)
  from c1 c3 c4 show ?case using Suc now p t r by (auto split: if_splits)
qed simp

lemma keep_look:
  assumes c: "P c" and l: "last_look ops e c = (f, e', c')"
  shows "P c'"
proof -
  obtain prc cpl c1 where p: "op_poll_completion ops c = (prc, cpl, c1)" by (metis prod_cases3)
  obtain t c2 where d: "diag_now ops e c1 = (t, c2)" by fastforce
  obtain rc e1 c3 where r: "process_completion ops t cpl e c2 = (rc, e1, c3)" by (metis prod_cases3)
  obtain t4 c4 where t: "op_monotonic_us ops c1 = (t4, c4)" by fastforce
  have c1: "P c1" using c p by (rule keep_poll)
  then have "P c4" using t by (rule keep_time)
  moreover have "P c3" using keep_process [OF keep_diag [OF c1 d] r] .
  ultimately show ?thesis using l c c1 p d r t by (auto simp: last_look_def split: if_splits)
qed

lemma keep_rest: "P c \<Longrightarrow> rest_and_check ops s b e c = (f, e', c') \<Longrightarrow> P c'"
  by (auto simp: rest_and_check_def Let_def dest: keep_time keep_sleep split: if_splits prod.splits)

lemma keep_idle: "P c \<Longrightarrow> idle_phase n ops s b e c = (f, e', c') \<Longrightarrow> P c'"
proof -
  assume c: "P c" and i: "idle_phase n ops s b e c = (f, e', c')"
  obtain now c1 where now: "op_monotonic_us ops c = (now, c1)" by fastforce
  define e1 where "e1 = (if en_no_progress_start_us e = 0 then e\<lparr>en_no_progress_start_us := now\<rparr> else e)"
  obtain f2 e2 c2 where b: "busy_loop n ops (now + ucast (cc_busy_poll_us (en_config e))) e1 c1 = (f2, e2, c2)" by (metis prod_cases3)
  obtain f3 e3 c3 where l: "last_look ops e2 (yield_once ops c2) = (f3, e3, c3)" by (metis prod_cases3)
  have "P c2" using c now b by (blast intro: keep_time keep_busy)
  moreover from this have "P c3" using l keep_yield_once keep_look by blast
  ultimately show "P c'" using i now b l keep_rest
    by (auto simp: idle_phase_def e1_def Let_def split: flow.splits bool.splits)
qed

lemma keep_progress: "P c \<Longrightarrow> progress_phase ops s b e c = (f, e', c') \<Longrightarrow> P c'"
  by (auto simp: progress_phase_def Let_def dest: keep_time intro: keep_yield_once split: if_splits prod.splits)

lemma keep_drain: "P c \<Longrightarrow> drain_loop n ops d e c = (f, e', c') \<Longrightarrow> P c'"
proof (induction n arbitrary: e c)
  case (Suc n)
  obtain now c1 where now: "op_monotonic_us ops c = (now, c1)" by fastforce
  obtain rc cpl c2 where p: "op_poll_completion ops c1 = (rc, cpl, c2)" by (metis prod_cases3)
  obtain r e1 c3 where h: "cross_slot_handle_completion ops cpl e c2 = (r, e1, c3)" by (metis prod_cases3)
  have c1: "P c1" and c2: "P c2" using Suc.prems(1) now p by (blast intro: keep_poll keep_time)+
  then have c3: "P c3" using h by (blast intro: keep_completion)
  from c1 c2 c3 show ?case using Suc now p h keep_pause by (auto split: if_splits)
qed simp

end

section \<open>Reports\<close>

text \<open>A report that succeeds keeps the strong property, any report gives the weak one. A report that fails ends the
  step, so the strong property holds whenever the step succeeds.\<close>

locale kept_reports = kept_calls ops P for ops :: "'c NvmeCrossSlotOps" and P :: "'c \<Rightarrow> bool" +
  fixes Q :: "'c \<Rightarrow> bool"
  assumes keep_done: "P c \<Longrightarrow> call_done ops r c = (0, c') \<Longrightarrow> P c'"
    and done_weak: "P c \<Longrightarrow> call_done ops r c = (rc, c') \<Longrightarrow> Q c'"
    and weaken: "P c \<Longrightarrow> Q c"
begin

definition kept :: "flow \<Rightarrow> 'c \<Rightarrow> bool" where
  "kept f c \<longleftrightarrow> Q c \<and> ((\<exists>b. f = FGo b) \<or> f = FReturn 0 \<longrightarrow> P c)"

lemma keptI: "P c \<Longrightarrow> kept f c"
  by (simp add: kept_def weaken)

lemma keep_reports: "P c \<Longrightarrow> done_loop is ops p e c = (f, e', c') \<Longrightarrow> kept f c'"
proof (induction "is" arbitrary: p e c)
  case (Cons i "is")
  obtain rc c1 where d: "call_done ops (en_reqs e ! i) c = (rc, c1)" by fastforce
  have q: "Q c1" using Cons.prems(1) d by (rule done_weak)
  have p: "P c1" if "rc = 0" using Cons.prems(1) d that keep_done by simp
  show ?case using Cons d q p by (auto simp: kept_def weaken split: if_splits)
qed (simp add: keptI)

lemma keep_work:
  assumes c: "P c" and w: "work_phase ops limit e c = (f, e', c')"
  shows "kept f c'"
proof -
  obtain e0 c0 where o: "observe_abort ops e c = (e0, c0)" by fastforce
  obtain rc e1 where v: "cross_slot_validate e0 = (rc, e1)" by fastforce
  obtain f2 e2 c2 where q: "cq_loop (unat (cc_cq_batch (en_config e1))) ops False e1 c0 = (f2, e2, c2)" by (metis prod_cases3)
  have c0: "P c0" using c o by (rule keep_abort)
  then have c2: "P c2" using q by (rule keep_cq)
  have u: "work_phase ops limit e c =
     (if en_state e0 \<noteq> NVME_CROSS_SLOT_RUNNING then (FReturn (-1), e0, c0) else if rc \<noteq> 0 then (FReturn (-1), e1, c0)
      else case f2 of FGo p1 \<Rightarrow> (case done_loop [0..<NVME_PENDING_CAPACITY] ops p1 e2 c2 of
                                  (FGo p2, e3, c3) \<Rightarrow> refill_loop ops limit p2 e3 c3 | r \<Rightarrow> r)
           | _ \<Rightarrow> (f2, e2, c2))"
    by (simp add: work_phase_def o v q split: flow.split)
  have "kept f3 c3" if "(case done_loop [0..<NVME_PENDING_CAPACITY] ops p1 e2 c2 of
      (FGo p2, e3, c3) \<Rightarrow> refill_loop ops limit p2 e3 c3 | r \<Rightarrow> r) = (f3, e3, c3)" for p1 f3 e3 c3
  proof -
    obtain f4 e4 c4 where d: "done_loop [0..<NVME_PENDING_CAPACITY] ops p1 e2 c2 = (f4, e4, c4)" by (metis prod_cases3)
    have k: "kept f4 c4" using c2 d by (rule keep_reports)
    show ?thesis
    proof (cases f4)
      case (FGo p2)
      then have "P c4" "refill_loop ops limit p2 e4 c4 = (f3, e3, c3)" using that d k by (simp_all add: kept_def)
      then show ?thesis using keep_refill [OF _ refl] keptI by blast
    qed (use that d k in simp_all)
  qed
  then show ?thesis using w c0 c2 unfolding u by (auto simp: keptI split: if_splits flow.splits)
qed

lemma keep_steps: "P c \<Longrightarrow> step_loop n ops limit s b e c = (f, e', c') \<Longrightarrow> kept f c'"
proof (induction n arbitrary: e c)
  case (Suc n)
  obtain f1 e1 c1 where w: "work_phase ops limit e c = (f1, e1, c1)" by (metis prod_cases3)
  have k1: "kept f1 c1" using Suc.prems(1) w by (rule keep_work)
  show ?case
  proof (cases "\<exists>p. f1 = FGo p")
    case True
    then obtain p where p: "f1 = FGo p" ..
    with k1 have c1: "P c1" by (simp add: kept_def)
    obtain f2 e2 c2 where x: "(if p then progress_phase ops s b e1 c1 else idle_phase n ops s b e1 c1) = (f2, e2, c2)" by (metis prod_cases3)
    have c2: "P c2" by (cases p) (use x keep_progress [OF c1] keep_idle [OF c1] in simp_all)
    have u: "step_loop (Suc n) ops limit s b e c = (if en_active_count e = 0 then (FGo False, e, c)
        else case f2 of FGo True \<Rightarrow> step_loop n ops limit s b e2 c2 | _ \<Rightarrow> (f2, e2, c2))"
      by (simp only: step_loop.simps w p x prod.case flow.case) (simp split: flow.split bool.split)
    show ?thesis
    proof (cases "f2 = FGo True")
      case True
      then show ?thesis using Suc c2 unfolding u by (auto simp: keptI split: if_splits)
    next
      case False
      then have "(case f2 of FGo True \<Rightarrow> step_loop n ops limit s b e2 c2 | _ \<Rightarrow> (f2, e2, c2)) = (f2, e2, c2)"
        by (cases f2) (auto split: bool.split)
      then show ?thesis using Suc.prems c2 unfolding u by (auto simp: keptI split: if_splits)
    qed
  next
    case False
    then have "step_loop (Suc n) ops limit s b e c = (if en_active_count e = 0 then (FGo False, e, c) else (f1, e1, c1))"
      using w by (auto split: flow.split)
    with Suc.prems k1 show ?thesis by (auto simp: keptI split: if_splits)
  qed
qed (simp add: keptI)

lemma keep_step:
  assumes c: "P c" and s: "nvme_cross_slot_engine_step n ops b e c = (f, e', c')"
  shows "Q c'" "f = FReturn 0 \<Longrightarrow> P c'"
proof -
  let ?limit = "if nr_cmd_sectors (en_rt e) \<noteq> 0 then ucast (nr_cmd_sectors (en_rt e)) else 512 :: u64"
  let ?b = "if b \<noteq> 0 then b else cc_writer_budget_us (en_config e)"
  obtain t c1 where t: "op_monotonic_us ops c = (t, c1)" by fastforce
  define e1 where "e1 = e\<lparr>en_rt := nvme_update_active_qd (en_global_inflight e) t (en_rt e)\<rparr>"
  obtain f2 e2 c2 where l: "step_loop n ops ?limit t ?b e1 c1 = (f2, e2, c2)" by (metis prod_cases3)
  obtain t3 c3 where t3: "op_monotonic_us ops c2 = (t3, c3)" by fastforce
  have k: "kept f2 c2" using keep_steps [OF keep_time [OF c t] l] .
  have k3: "P c3" if "f2 = FGo b" for b using k that keep_time [OF _ t3] by (simp add: kept_def)
  have "kept f c'"
    using s c k k3 by (auto simp: nvme_cross_slot_engine_step_def t l [unfolded e1_def] t3 keptI Let_def split: if_splits flow.splits)
  then show "Q c'" "f = FReturn 0 \<Longrightarrow> P c'" by (auto simp: kept_def)
qed

end

section \<open>Draining\<close>

locale kept_drain = kept_calls ops P for ops :: "'c NvmeCrossSlotOps" and P :: "'c \<Rightarrow> bool" +
  assumes keep_reset: "op_reset ops = Some rs \<Longrightarrow> P c \<Longrightarrow> rs c = (rc, c') \<Longrightarrow> P c'"
begin

lemma keep_finish: "P c \<Longrightarrow> drain_finish ops e c = (rc, e', c') \<Longrightarrow> P c'"
  by (auto simp: drain_finish_def Let_def dest: keep_reset split: if_splits option.splits prod.splits)

lemma keep_drain_abort:
  assumes c: "P c" and d: "nvme_cross_slot_engine_drain_abort n ops deadline e c = (f, e', c')"
  shows "P c'"
proof -
  define e1 where "e1 = nvme_cross_slot_engine_request_abort ''abort_requested'' e"
  obtain f2 e2 c2 where l: "drain_loop n ops deadline (e1\<lparr>en_state := NVME_CROSS_SLOT_DRAINING_INFLIGHT\<rparr>) c = (f2, e2, c2)"
    by (metis prod_cases3)
  obtain rc e3 c3 where r: "drain_finish ops e2 c2 = (rc, e3, c3)" by (metis prod_cases3)
  have c2: "P c2" using c l by (rule keep_drain)
  then have "P c3" using r by (rule keep_finish)
  with c c2 d l r show ?thesis
    unfolding nvme_cross_slot_engine_drain_abort_def e1_def [symmetric] Let_def by (auto split: if_splits flow.splits)
qed

end

end
