(* ===== verification/Writer_Proof.thy ===== *)
theory Writer_Proof
  imports Writer_Thread Write_Lifecycle Engine_Context
begin

text \<open>
  The writer thread, the write queue and the cross-slot engine together: what the queue counts as written is on
  the device, and a writer that ends because everything is drained has written every slot it was given.
\<close>

section \<open>Items and requests\<close>

definition item_fit :: "PendingDdrSlot \<Rightarrow> bool" where
  "item_fit x \<longleftrightarrow> pd_media_bytes x \<noteq> 0 \<and> unat (pd_sectors x) < 2 ^ 32"

lemma done_item_request: "item_fit x \<Longrightarrow> done_item (slot_request x) = x"
  by (simp add: done_item_def slot_request_def item_fit_def)

lemma sectors_small:
  assumes "b \<le> ucast (d :: u32)"
  shows "unat (bytes_to_sectors b) < 2 ^ 32"
proof -
  have "unat b \<le> unat d" using assms by (simp add: word_le_nat_alt)
  then have b: "unat b < 4294967296" using unat_u32_less [of d] by linarith
  have "unat (b div 512) = unat b div 512" by (simp add: unat_div_distrib)
  then have "unat (b div 512) + 1 < 2 ^ 32" using b by simp
  moreover from this have "unat (b div 512 + 1) = unat (b div 512) + 1" by (simp add: unat_add_le)
  ultimately show ?thesis by (simp add: bytes_to_sectors_def)
qed

lemma accepted_fit: "\<not> item_rejected q b seen x \<Longrightarrow> item_fit x"
  using sectors_small [of "pd_bytes x" "rt_dma_desc_bytes (wq_rt q)"]
  by (auto simp: item_rejected_def item_fit_def Let_def not_less)

lemma checked_fit: "batch_check q b seen xs = Some n \<Longrightarrow> x \<in> set xs \<Longrightarrow> item_fit x"
  by (induction q b seen xs rule: batch_check.induct) (auto split: if_splits dest: accepted_fit)

lemma pushed_fit:
  assumes "storage_local_queue_push_batch q xs = (0, q')" "x \<in> set xs"
  shows "item_fit x"
  using assms checked_fit [of q 0 "[]" xs _ x]
  by (auto simp: storage_local_queue_push_batch_def Let_def split: if_splits option.splits prod.splits)

section \<open>What holds of the world\<close>

definition acct :: "'d traced_world \<Rightarrow> bool" where
  "acct wl \<longleftrightarrow>
     (let s = ww_run (fst wl)
      in run_ok s \<and> (\<forall>x\<in>set (qr_pushed s). item_fit x) \<and>
         (\<forall>x\<in>set (qr_written s). \<forall>k<unat (pd_sectors x). sector_written (snd wl) (slot_request x) k))"

definition jobs_held :: "jobs \<Rightarrow> PendingDdrSlot list \<Rightarrow> bool" where
  "jobs_held \<sigma> held \<longleftrightarrow>
     (\<forall>s r. map_option jb_req (\<sigma> s) = Some r \<longrightarrow> (\<exists>x\<in>set held. r = slot_request x \<and> pd_slot x = s)) \<and>
     (\<forall>x\<in>set held. map_option jb_req (\<sigma> (pd_slot x)) = Some (slot_request x))"

lemma jobs_heldD:
  assumes "jobs_held \<sigma> held"
  shows "\<sigma> s = Some j \<Longrightarrow> \<exists>x\<in>set held. jb_req j = slot_request x \<and> pd_slot x = s"
    "x \<in> set held \<Longrightarrow> \<exists>j. \<sigma> (pd_slot x) = Some j \<and> jb_req j = slot_request x"
  using assms by (auto simp: jobs_held_def)

lemma jobs_heldI:
  assumes "\<And>s j. \<sigma> s = Some j \<Longrightarrow> \<exists>x\<in>set held. jb_req j = slot_request x \<and> pd_slot x = s"
    "\<And>x. x \<in> set held \<Longrightarrow> \<exists>j. \<sigma> (pd_slot x) = Some j \<and> jb_req j = slot_request x"
  shows "jobs_held \<sigma> held"
  unfolding jobs_held_def using assms by fastforce

definition strong :: "'d traced_world \<Rightarrow> bool" where
  "strong wl \<longleftrightarrow> (\<forall>\<sigma>. job_trace (snd wl) \<sigma> \<longrightarrow> acct wl \<and> jobs_held \<sigma> (qr_held (ww_run (fst wl))))"

definition weak :: "'d traced_world \<Rightarrow> bool" where
  "weak wl \<longleftrightarrow> (\<forall>\<sigma>. job_trace (snd wl) \<sigma> \<longrightarrow> acct wl)"

lemma strong_weak: "strong wl \<Longrightarrow> weak wl"
  by (simp add: strong_def weak_def)

lemma sector_written_append: "sector_written l r k \<Longrightarrow> sector_written (l @ l') r k"
  unfolding sector_written_def using handed_over_append came_back_append by blast

lemma acct_trace: "acct (w, l) \<Longrightarrow> ww_run w' = ww_run w \<Longrightarrow> acct (w', l @ l')"
  by (auto simp: acct_def Let_def intro: sector_written_append)

lemma acct_same: "acct (w, l) \<Longrightarrow> ww_run w' = ww_run w \<Longrightarrow> acct (w', l)"
  by (simp add: acct_def Let_def)

lemma held_fit:
  assumes "acct wl" "x \<in> set (qr_held (ww_run (fst wl)))"
  shows "item_fit x"
proof -
  let ?s = "ww_run (fst wl)"
  have m: "mset (qr_popped ?s) = mset (qr_held ?s) + mset (qr_written ?s)" and p: "qr_popped ?s @ wq_queue (qr_q ?s) = qr_pushed ?s"
    using assms(1) by (auto simp: acct_def run_ok_def Let_def)
  have "x \<in># mset (qr_popped ?s)" unfolding m using assms(2) by simp
  then have "x \<in> set (qr_pushed ?s)" by (metis p Un_iff set_append set_mset_mset)
  then show ?thesis using assms(1) by (simp add: acct_def Let_def)
qed

text \<open>A step of the abstract machine that only talks to the device keeps the requests.\<close>

lemma jobs_held_reqs:
  assumes "map_option jb_req \<circ> \<sigma>' = map_option jb_req \<circ> \<sigma>"
  shows "jobs_held \<sigma>' held = jobs_held \<sigma> held"
  using fun_cong [OF assms] by (simp add: jobs_held_def)

inductive_cases job_step_submitE: "job_step \<sigma> (EvSubmit cid lba n ddr rc) \<sigma>'"
inductive_cases job_step_pollE: "job_step \<sigma> (EvPoll rc cpl) \<sigma>'"
inductive_cases job_step_addE: "job_step \<sigma> (EvAdd r) \<sigma>'"
inductive_cases job_trace_snocE: "job_trace (l @ [ev]) \<sigma>"

lemma device_step_reqs:
  assumes "job_step \<sigma> ev \<sigma>'" "(\<exists>cid lba n ddr rc. ev = EvSubmit cid lba n ddr rc) \<or> (\<exists>rc cpl. ev = EvPoll rc cpl)"
  shows "map_option jb_req \<circ> \<sigma>' = map_option jb_req \<circ> \<sigma>"
  using assms by cases (auto simp: fun_eq_iff)

lemma strong_device:
  assumes "strong (w, l)" "ww_run w' = ww_run w"
    "(\<exists>cid lba n ddr rc. ev = EvSubmit cid lba n ddr rc) \<or> (\<exists>rc cpl. ev = EvPoll rc cpl)"
  shows "strong (w', l @ [ev])"
  unfolding strong_def
proof (intro allI impI)
  fix \<sigma>'
  assume "job_trace (snd (w', l @ [ev])) \<sigma>'"
  then obtain \<sigma> where t: "job_trace l \<sigma>" "job_step \<sigma> ev \<sigma>'" by (auto elim: job_trace_snocE)
  from assms(1) t(1) have "acct (w, l)" "jobs_held \<sigma> (qr_held (ww_run w))" by (auto simp: strong_def)
  then show "acct (w', l @ [ev]) \<and> jobs_held \<sigma>' (qr_held (ww_run (fst (w', l @ [ev]))))"
    using acct_trace [OF _ assms(2)] jobs_held_reqs [OF device_step_reqs [OF t(2) assms(3)]] assms(2) by simp
qed

lemma weak_trace:
  assumes "weak (w, l)" "ww_run w' = ww_run w"
  shows "weak (w', l @ l')"
  using assms trace_prefix acct_trace unfolding weak_def by (metis fst_conv snd_conv)

lemma same_run: "strong (w, l) \<Longrightarrow> ww_run w' = ww_run w \<Longrightarrow> strong (w', l)" "weak (w, l) \<Longrightarrow> ww_run w' = ww_run w \<Longrightarrow> weak (w', l)"
  by (auto simp: strong_def weak_def intro: acct_same)

section \<open>The other threads\<close>

lemma others_step:
  assumes "run_ok s" "others_op op" "\<forall>x\<in>set (qr_pushed s). item_fit x"
  shows "run_ok (queue_step s op)" "qr_held (queue_step s op) = qr_held s" "qr_written (queue_step s op) = qr_written s"
    "\<forall>x\<in>set (qr_pushed (queue_step s op)). item_fit x"
proof -
  show "run_ok (queue_step s op)" using assms(1) by (rule queue_step_ok)
  show "qr_held (queue_step s op) = qr_held s" "qr_written (queue_step s op) = qr_written s"
    using assms(2) by (cases op; auto simp: do_push_def simp del: other_op.simps split: prod.split)+
  show "\<forall>x\<in>set (qr_pushed (queue_step s op)). item_fit x"
    using assms(2,3) by (cases op) (auto simp: do_push_def simp del: other_op.simps dest: pushed_fit split: prod.split)
qed

lemma others_run:
  assumes "run_ok s" "list_all others_op ops" "\<forall>x\<in>set (qr_pushed s). item_fit x"
  shows "run_ok (foldl queue_step s ops) \<and> qr_held (foldl queue_step s ops) = qr_held s \<and>
    qr_written (foldl queue_step s ops) = qr_written s \<and> (\<forall>x\<in>set (qr_pushed (foldl queue_step s ops)). item_fit x)"
  using assms
proof (induction ops arbitrary: s)
  case (Cons op ops)
  from Cons.prems have "others_op op" by simp
  note s = others_step [OF Cons.prems(1) this Cons.prems(3)]
  with Cons.IH [OF s(1) _ s(4)] Cons.prems(2) show ?case by simp
qed simp

lemma others_acct:
  assumes "others env w = (a, w')" "acct (w, l)"
  shows "acct (w', l)" "qr_held (ww_run w') = qr_held (ww_run w)"
proof -
  obtain ops d where o: "we_others env (ww_device w) = (ops, d)" by fastforce
  have w': "ww_run w' = foldl queue_step (ww_run w) (filter others_op ops)" using assms(1) o by (auto simp: others_def)
  have "list_all others_op (filter others_op ops)" by (simp add: list_all_iff)
  from others_run [OF _ this, of "ww_run w"] assms(2) w' show "acct (w', l)" "qr_held (ww_run w') = qr_held (ww_run w)"
    by (auto simp: acct_def Let_def)
qed

lemma others_kept:
  assumes "others env w = (a, w')"
  shows "strong (w, l) \<Longrightarrow> strong (w', l)" "weak (w, l) \<Longrightarrow> weak (w', l)"
  using others_acct [OF assms] by (auto simp: strong_def weak_def)

section \<open>The report of a slot\<close>

lemma hand_back_count:
  assumes "hand_back now sr cr x q g = (0, q', g', ws)"
  shows "wq_completed_slot_count q' = wq_completed_slot_count q"
  using assms
  by (auto simp: hand_back_def storage_local_slot_transition_locked_def Let_def split: if_splits prod.splits)

lemma complete_count:
  assumes "storage_complete_slot now sr cr q x g = (0, q', g', ws)"
  shows "wq_completed_slot_count q' = wq_completed_slot_count q + 1"
proof -
  let ?rq = "wq_requeue_enabled (count_written x q) \<and> storage_worker_can_requeue (wq_worker_state (count_written x q))"
  obtain rc2 q2 where t: "storage_local_slot_transition_locked (count_written x q) (pd_slot x) STORAGE_SLOT_NVME_BUSY
      (if ?rq then STORAGE_SLOT_REQUEUE_PENDING else STORAGE_SLOT_FREE) = (rc2, q2)" by fastforce
  have "wq_completed_slot_count q2 = wq_completed_slot_count q + 1"
    using t by (auto simp: storage_local_slot_transition_locked_def count_written_def Let_def split: prod.splits if_splits)
  moreover have "q' = q2 \<or> hand_back now sr cr x q2 g = (0, q', g', ws)"
    using assms t unfolding storage_complete_slot_def Let_def by (auto split: if_splits prod.splits)
  ultimately show ?thesis using hand_back_count by metis
qed

lemma complete_released:
  assumes h: "wq_holds q queued held written" and x: "x \<in> set held"
    and c: "storage_complete_slot now sr cr q x g = (0, q', g', ws)"
  shows "storage_slot_state (wq_slots q') (pd_slot x) \<noteq> STORAGE_SLOT_NVME_BUSY"
proof
  assume "storage_slot_state (wq_slots q') (pd_slot x) = STORAGE_SLOT_NVME_BUSY"
  then have "wq_holds q' queued held written" using complete_holds [OF h x c] by simp
  then have "unat (wq_completed_slot_count q') = unat (wq_completed_slot_count q)" using h by (simp add: wq_holds_def)
  then show False using complete_count [OF c] by simp
qed

lemma sync_run_ok: "run_ok (ww_run (sync_ownership env w)) = run_ok (ww_run w)"
proof -
  have "wq_queue (q\<lparr>wq_nvme := r\<rparr>) = wq_queue q" "wq_holds (q\<lparr>wq_nvme := r\<rparr>) a b c = wq_holds q a b c" for q r a b c
    by (simp_all add: wq_queue_def wq_holds_def wq_inv_def)
  then show ?thesis by (simp add: sync_ownership_def on_queue_def run_ok_def)
qed

lemma sync_lists:
  "qr_held (ww_run (sync_ownership env w)) = qr_held (ww_run w)" "qr_written (ww_run (sync_ownership env w)) = qr_written (ww_run w)"
  "qr_pushed (ww_run (sync_ownership env w)) = qr_pushed (ww_run w)"
  by (simp_all add: sync_ownership_def on_queue_def)

lemma note_complete_lists:
  "qr_pushed (note_complete x q g s) = qr_pushed s"
  "set (qr_written (note_complete x q g s)) \<subseteq> insert x (set (qr_written s))"
  "storage_slot_state (wq_slots q) (pd_slot x) \<noteq> STORAGE_SLOT_NVME_BUSY \<Longrightarrow> qr_held (note_complete x q g s) = remove1 x (qr_held s)"
  by (auto simp: note_complete_def)

text \<open>What the callback does for a slot that is held.\<close>

lemma slot_done_acct:
  assumes ok: "acct (w, l)" and x: "x \<in> set (qr_held (ww_run w))" and d: "slot_done env w (slot_request x) = (rc, w')"
    and sw: "\<forall>k<unat (pd_sectors x). sector_written l (slot_request x) k"
  shows "acct (w', l @ l')" "rc = 0 \<Longrightarrow> qr_held (ww_run w') = remove1 x (qr_held (ww_run w))"
proof -
  let ?s = "ww_run (sync_ownership env w)"
  have fit: "done_item (slot_request x) = x" using held_fit [OF ok] x by (simp add: done_item_request)
  obtain now w1 where n: "wall env (sync_ownership env w) = (now, w1)" by fastforce
  have w1: "ww_run w1 = ?s" using n by (auto simp: wall_def split: prod.splits)
  obtain sr cr d1 where r: "we_dma env (ww_device w1) = (sr, cr, d1)" by (metis prod_cases3)
  obtain rc' q g ws where c: "storage_complete_slot now sr cr (qr_q ?s) x (qr_g ?s) = (rc', q, g, ws)" by (metis prod_cases4)
  have res: "rc' = rc" "ww_run w' = note_complete x q g ?s"
    using d n r c by (auto simp: slot_done_def storage_cross_slot_done_cb_def fit w1)
  have s: "run_ok ?s" using ok sync_run_ok by (auto simp: acct_def Let_def)
  have xs: "x \<in> set (qr_held ?s)" using x by (simp add: sync_lists)
  have run: "run_ok (ww_run w')" unfolding res(2) by (rule note_complete_ok [OF s xs c])
  have sw': "sector_written (l @ l') (slot_request y) k" if "y \<in> insert x (set (qr_written (ww_run w)))" "k < unat (pd_sectors y)" for y k
    using that sw ok by (auto simp: acct_def Let_def intro: sector_written_append)
  show "acct (w', l @ l')"
    using run ok sw' note_complete_lists(1,2) [of x q g ?s] by (auto simp: acct_def Let_def res(2) sync_lists)
  show "qr_held (ww_run w') = remove1 x (qr_held (ww_run w))" if "rc = 0"
  proof -
    have h: "wq_holds (qr_q ?s) (wq_queue (qr_q ?s)) (qr_held ?s) (qr_written ?s)" using s by (simp add: run_ok_def)
    have "storage_slot_state (wq_slots q) (pd_slot x) \<noteq> STORAGE_SLOT_NVME_BUSY"
      using complete_released [OF h xs] c res(1) that by simp
    then show ?thesis using note_complete_lists(3) by (simp add: res(2) sync_lists)
  qed
qed

lemma jobs_held_done:
  assumes j: "jobs_held \<sigma> held" and x: "x \<in> set held" and d: "distinct (map pd_slot held)"
  shows "jobs_held (\<sigma>(pd_slot x := None)) (remove1 x held)"
proof -
  have dm: "distinct held" using d by (simp add: distinct_map)
  have u: "y = x" if "y \<in> set held" "pd_slot y = pd_slot x" for y using that x d by (auto simp: distinct_map inj_on_def)
  show ?thesis
  proof (rule jobs_heldI)
    fix s j'
    assume "(\<sigma>(pd_slot x := None)) s = Some j'"
    then show "\<exists>y\<in>set (remove1 x held). jb_req j' = slot_request y \<and> pd_slot y = s"
      using jobs_heldD(1) [OF j, of s j'] dm by (auto split: if_splits)
  next
    fix y
    assume "y \<in> set (remove1 x held)"
    then show "\<exists>j'. (\<sigma>(pd_slot x := None)) (pd_slot y) = Some j' \<and> jb_req j' = slot_request y"
      using jobs_heldD(2) [OF j, of y] dm u by auto
  qed
qed

lemma held_distinct: "acct wl \<Longrightarrow> distinct (map pd_slot (qr_held (ww_run (fst wl))))"
  by (auto simp: acct_def run_ok_def wq_holds_def Let_def)

lemma report_kept:
  assumes st: "strong (w, l)" and d: "slot_done env w r = (rc, w')"
  shows "weak (w', l @ [EvDone r rc])" "rc = 0 \<Longrightarrow> strong (w', l @ [EvDone r rc])"
proof -
  have main: "acct (w', l @ [EvDone r rc]) \<and> (rc = 0 \<longrightarrow> jobs_held \<sigma>' (qr_held (ww_run w')))"
    if t': "job_trace (l @ [EvDone r rc]) \<sigma>'" for \<sigma>'
  proof -
    from t' obtain \<sigma> where t: "job_trace l \<sigma>" "job_step \<sigma> (EvDone r rc) \<sigma>'" by (auto elim: job_trace_snocE)
    from st t(1) have a: "acct (w, l)" and jh: "jobs_held \<sigma> (qr_held (ww_run w))" by (auto simp: strong_def)
    from t(2) obtain j where j: "\<sigma> (wr_slot r) = Some j" "jb_req j = r" "\<sigma>' = (if rc = 0 then \<sigma>(wr_slot r := None) else \<sigma>)"
      by (rule job_step_doneE) simp
    from jobs_heldD(1) [OF jh j(1)] j(2) obtain x where x: "x \<in> set (qr_held (ww_run w))" "r = slot_request x" by auto
    have "sector_written l r k" if "k < unat (pd_sectors x)" for k
      using done_written [of l r rc "[]" \<sigma>'] t' that x(2) by (simp add: slot_request_def)
    then have sw: "\<forall>k<unat (pd_sectors x). sector_written l (slot_request x) k" using x(2) by simp
    note sd = slot_done_acct [OF a x(1) d [unfolded x(2)] sw]
    have "jobs_held \<sigma>' (qr_held (ww_run w'))" if "rc = 0"
      using sd(2) [OF that] jobs_held_done [OF jh x(1)] held_distinct [OF a] j(3) that x(2) by (simp add: slot_request_def)
    with sd(1) [of "[EvDone r rc]"] show ?thesis by simp
  qed
  from main show "weak (w', l @ [EvDone r rc])" by (auto simp: weak_def)
  from main show "strong (w', l @ [EvDone r rc])" if "rc = 0" using that by (auto simp: strong_def)
qed

section \<open>The engine in the writer\<close>

lemma call_done_writer:
  assumes "call_done (logged (writer_ops env)) r wl = (rc, wl')"
  shows "\<exists>w'. slot_done env (fst wl) r = (rc, w') \<and> wl' = (w', snd wl @ [EvDone r rc])"
  using assms by (cases wl) (auto simp: call_done_def logged_def writer_ops_def Let_def split: prod.splits)

interpretation reports: kept_reports "logged (writer_ops env)" strong weak for env :: "'d writer_env"
proof unfold_locales
  let ?ops = "logged (writer_ops env)"
  fix c :: "'d traced_world" and c' cid lba n ddr rc
  show "strong c \<Longrightarrow> op_submit ?ops c cid lba n ddr = (rc, c') \<Longrightarrow> strong c'"
    by (cases c) (auto simp: logged_def writer_ops_def Let_def intro: strong_device split: prod.splits)
next
  let ?ops = "logged (writer_ops env)"
  fix c :: "'d traced_world" and c' rc cpl
  show "strong c \<Longrightarrow> op_poll_completion ?ops c = (rc, cpl, c') \<Longrightarrow> strong c'"
    by (cases c) (auto simp: logged_def writer_ops_def Let_def intro: strong_device split: prod.splits)
next
  let ?ops = "logged (writer_ops env)"
  fix c :: "'d traced_world" and c' t
  show "strong c \<Longrightarrow> op_monotonic_us ?ops c = (t, c') \<Longrightarrow> strong c'"
    by (cases c) (auto simp: logged_def writer_ops_def Let_def intro: same_run split: prod.splits)
next
  fix c :: "'d traced_world" and sl us
  show "op_sleep_us (logged (writer_ops env)) = Some sl \<Longrightarrow> strong c \<Longrightarrow> strong (sl c us)"
    by (cases c) (auto simp: logged_def writer_ops_def Let_def intro: same_run)
next
  fix c :: "'d traced_world" and y
  show "op_yield_cpu (logged (writer_ops env)) = Some y \<Longrightarrow> strong c \<Longrightarrow> strong (y c)"
    by (cases c) (auto simp: logged_def writer_ops_def Let_def intro: same_run)
next
  fix c :: "'d traced_world" and a c'
  show "strong c \<Longrightarrow> op_producer (logged (writer_ops env)) c = (a, c') \<Longrightarrow> strong c'"
    by (cases c) (auto simp: logged_def writer_ops_def Let_def dest: others_kept split: prod.splits)
next
  fix c :: "'d traced_world" and r c'
  show "strong c \<Longrightarrow> call_done (logged (writer_ops env)) r c = (0, c') \<Longrightarrow> strong c'"
    using call_done_writer [of env r c 0 c'] report_kept(2) [of "fst c" "snd c" env r 0] by auto
next
  fix c :: "'d traced_world" and r rc c'
  show "strong c \<Longrightarrow> call_done (logged (writer_ops env)) r c = (rc, c') \<Longrightarrow> weak c'"
    using call_done_writer [of env r c rc c'] report_kept(1) [of "fst c" "snd c" env r rc] by auto
next
  fix c :: "'d traced_world"
  show "strong c \<Longrightarrow> weak c" by (rule strong_weak)
qed

interpretation drain: kept_drain "logged (writer_ops env)" weak for env :: "'d writer_env"
proof unfold_locales
  fix c :: "'d traced_world" and c' cid lba n ddr rc
  show "weak c \<Longrightarrow> op_submit (logged (writer_ops env)) c cid lba n ddr = (rc, c') \<Longrightarrow> weak c'"
    by (cases c) (auto simp: logged_def writer_ops_def Let_def intro: weak_trace split: prod.splits)
next
  fix c :: "'d traced_world" and c' rc cpl
  show "weak c \<Longrightarrow> op_poll_completion (logged (writer_ops env)) c = (rc, cpl, c') \<Longrightarrow> weak c'"
    by (cases c) (auto simp: logged_def writer_ops_def Let_def intro: weak_trace split: prod.splits)
next
  fix c :: "'d traced_world" and c' t
  show "weak c \<Longrightarrow> op_monotonic_us (logged (writer_ops env)) c = (t, c') \<Longrightarrow> weak c'"
    by (cases c) (auto simp: logged_def writer_ops_def Let_def intro: same_run split: prod.splits)
next
  fix c :: "'d traced_world" and sl us
  show "op_sleep_us (logged (writer_ops env)) = Some sl \<Longrightarrow> weak c \<Longrightarrow> weak (sl c us)"
    by (cases c) (auto simp: logged_def writer_ops_def Let_def intro: same_run)
next
  fix c :: "'d traced_world" and y
  show "op_yield_cpu (logged (writer_ops env)) = Some y \<Longrightarrow> weak c \<Longrightarrow> weak (y c)"
    by (cases c) (auto simp: logged_def writer_ops_def Let_def intro: same_run)
next
  fix c :: "'d traced_world" and a c'
  show "weak c \<Longrightarrow> op_producer (logged (writer_ops env)) c = (a, c') \<Longrightarrow> weak c'"
    by (cases c) (auto simp: logged_def writer_ops_def Let_def dest: others_kept split: prod.splits)
next
  fix c :: "'d traced_world" and rs rc c'
  show "op_reset (logged (writer_ops env)) = Some rs \<Longrightarrow> weak c \<Longrightarrow> rs c = (rc, c') \<Longrightarrow> weak c'"
    by (cases c) (auto simp: logged_def writer_ops_def Let_def intro!: weak_trace split: prod.splits)
qed

section \<open>The loop\<close>

definition tinv :: "NvmeCrossSlotEngine \<Rightarrow> 'd traced_world \<Rightarrow> bool" where
  "tinv e wl \<longleftrightarrow> refines e (snd wl) \<and> strong wl"

definition winv :: "NvmeCrossSlotEngine \<Rightarrow> 'd traced_world \<Rightarrow> bool" where
  "winv e wl \<longleftrightarrow> refines e (snd wl) \<and> acct wl"

lemma refines_weak: "refines e (snd wl) \<Longrightarrow> weak wl \<Longrightarrow> acct wl"
  by (auto simp: weak_def elim: refinesE)

lemma acct_weak: "acct wl \<Longrightarrow> weak wl"
  by (simp add: weak_def)

lemma inv_winv: "tinv e wl \<Longrightarrow> winv e wl"
  unfolding tinv_def winv_def by (blast intro: refines_weak strong_weak)

text \<open>Changes of the queue that leave the items where they are.\<close>

definition quiet :: "'d writer_world \<Rightarrow> 'd writer_world \<Rightarrow> bool" where
  "quiet w w' \<longleftrightarrow>
     qr_pushed (ww_run w') = qr_pushed (ww_run w) \<and> qr_popped (ww_run w') = qr_popped (ww_run w) \<and>
     qr_held (ww_run w') = qr_held (ww_run w) \<and> qr_written (ww_run w') = qr_written (ww_run w) \<and>
     (\<forall>a b c. wq_holds (ww_q w) a b c \<longrightarrow> wq_holds (ww_q w') a b c)"

lemma quiet_trans: "quiet a b \<Longrightarrow> quiet b c \<Longrightarrow> quiet a c"
  by (simp add: quiet_def)

lemma quiet_acct:
  assumes "quiet w w'" "acct (w, l)"
  shows "acct (w', l)"
proof -
  have h: "wq_holds (ww_q w) (wq_queue (ww_q w)) (qr_held (ww_run w)) (qr_written (ww_run w))" using assms(2)
    by (simp add: acct_def run_ok_def Let_def)
  with assms(1) have h': "wq_holds (ww_q w') (wq_queue (ww_q w)) (qr_held (ww_run w)) (qr_written (ww_run w))" by (simp add: quiet_def)
  then have "wq_queue (ww_q w') = wq_queue (ww_q w)" by (simp add: wq_holds_def)
  with h' assms show ?thesis by (simp add: acct_def run_ok_def quiet_def Let_def)
qed

lemma quiet_inv:
  assumes "quiet w w'"
  shows "tinv e (w, l) \<Longrightarrow> tinv e (w', l)" "winv e (w, l) \<Longrightarrow> winv e (w', l)"
proof -
  have "qr_held (ww_run w') = qr_held (ww_run w)" using assms by (simp add: quiet_def)
  then show "tinv e (w, l) \<Longrightarrow> tinv e (w', l)" using quiet_acct [OF assms, of l] by (auto simp: tinv_def strong_def)
  show "winv e (w, l) \<Longrightarrow> winv e (w', l)" using quiet_acct [OF assms, of l] by (simp add: winv_def)
qed

lemma quiet_wall: "wall env w = (t, w') \<Longrightarrow> quiet w w'"
  by (auto simp: wall_def quiet_def split: prod.splits)

lemma quiet_on_queue: "(\<And>a b c. wq_holds (f (ww_q w)) a b c = wq_holds (ww_q w) a b c) \<Longrightarrow> quiet w (on_queue f w)"
  by (simp add: quiet_def on_queue_def)

lemma wq_holds_more [simp]:
  "wq_holds (q\<lparr>wq_nvme := r\<rparr>) a b c = wq_holds q a b c"
  "wq_holds (q\<lparr>wq_writer_active_us := t\<rparr>) a b c = wq_holds q a b c"
  "wq_holds (q\<lparr>wq_writer_rt_prio := p\<rparr>) a b c = wq_holds q a b c"
  "wq_holds (q\<lparr>wq_writer_rt_policy := i\<rparr>) a b c = wq_holds q a b c"
  "wq_holds (q\<lparr>wq_writer_rt_enabled := v\<rparr>) a b c = wq_holds q a b c"
  "wq_holds (q\<lparr>wq_nvme_engine := v\<rparr>) a b c = wq_holds q a b c"
  "wq_holds (q\<lparr>wq_cross_stats := st\<rparr>) a b c = wq_holds q a b c"
  "wq_holds (q\<lparr>wq_writer_no_progress_sleep_count := t\<rparr>) a b c = wq_holds q a b c"
  "wq_holds (q\<lparr>wq_writer_schedule_gap_count := t\<rparr>) a b c = wq_holds q a b c"
  "wq_holds (q\<lparr>wq_writer_schedule_gap_max_us := t\<rparr>) a b c = wq_holds q a b c"
  by (auto intro: wq_holds_frame elim!: wq_holds_frame [rotated -1])

lemma quiet_ops:
  "quiet w (on_queue (\<lambda>q. storage_set_writer_error_reason q reason) w)"
  "quiet w (on_queue (\<lambda>q. storage_record_writer_schedule_gap now q a b) w)"
  "quiet w (on_queue (\<lambda>q. storage_cross_slot_update_stats (q\<lparr>wq_writer_active_us := wq_writer_active_us q + us\<rparr>) e) w)"
  "quiet w (on_queue (\<lambda>q. storage_cross_slot_update_stats q e) w)"
  "quiet w (on_queue (\<lambda>q. q\<lparr>wq_writer_event_ring := r q\<rparr>) w)"
  "quiet w (on_queue (\<lambda>q. storage_queue_set_writer_ready q ok) w)"
  by (rule quiet_on_queue;
      simp add: storage_record_writer_schedule_gap_def storage_cross_slot_update_stats_def storage_queue_set_writer_ready_def Let_def)+

lemma quiet_sync: "quiet w (sync_ownership env w)"
  unfolding sync_ownership_def by (rule quiet_on_queue) simp

lemma quiet_quiesced: "quiet w (set_quiesced e w)"
  unfolding set_quiesced_def by (rule quiet_on_queue) simp

lemma quiet_gap: "quiet w (note_gap env t w)"
proof -
  obtain a w1 where 1: "wall env w = (a, w1)" by fastforce
  obtain now w2 where 2: "wall env w1 = (now, w2)" by fastforce
  show ?thesis using quiet_trans [OF quiet_trans [OF quiet_wall [OF 1] quiet_wall [OF 2]] quiet_ops(2) [of w2 now t a]]
    by (simp add: note_gap_def 1 2)
qed

lemma quiet_step: "quiet w (account_step env t e w)"
proof -
  obtain now w1 where 1: "wall env w = (now, w1)" by fastforce
  show ?thesis using quiet_trans [OF quiet_wall [OF 1] quiet_ops(3)] by (simp add: account_step_def 1)
qed

lemma quiet_fatal: "quiet w (report_fatal env w)"
proof -
  obtain now w1 where 1: "wall env (sync_ownership env w) = (now, w1)" by fastforce
  obtain q g where f: "storage_fail_fatal now (ww_q w1) (qr_g (ww_run w1)) = (q, g)" by fastforce
  have "quiet w1 (w1\<lparr>ww_run := (ww_run w1)\<lparr>qr_q := q, qr_g := g\<rparr>\<rparr>)" using fail_fatal_holds [OF f] by (simp add: quiet_def)
  from quiet_trans [OF quiet_trans [OF quiet_sync quiet_wall [OF 1]] this] show ?thesis by (simp add: report_fatal_def 1 f)
qed

lemma quiet_drop: "drop_engine e w = (eng, w') \<Longrightarrow> quiet w w'"
  by (auto simp: drop_engine_def storage_queue_destroy_engine_def on_queue_def quiet_def split: if_splits)

lemma disturb_kept:
  assumes "disturb env e w = (e', w')"
  shows "tinv e (w, l) \<Longrightarrow> tinv e' (w', l)" "winv e (w, l) \<Longrightarrow> winv e' (w', l)"
proof -
  obtain a where o: "others env w = (a, w')" and e': "e' = (case a of None \<Rightarrow> e | Some r \<Rightarrow> nvme_cross_slot_engine_request_abort r e)"
    using assms by (cases "others env w") (auto simp: disturb_def split: option.splits)
  have r: "refines e l \<Longrightarrow> refines e' l" unfolding e' by (auto simp: request_abort_refines split: option.split)
  show "tinv e (w, l) \<Longrightarrow> tinv e' (w', l)" using r others_kept(1) [OF o] by (simp add: tinv_def)
  show "winv e (w, l) \<Longrightarrow> winv e' (w', l)" using r others_acct(1) [OF o] by (simp add: winv_def)
qed

lemma fail_kept:
  assumes "fail_with env reason e (w, l) = (it, e', w', l')" "winv e (w, l)"
  shows "it = ItFailed \<and> winv e' (w', l')"
proof -
  obtain e1 w1 where d: "disturb env e w = (e1, w1)" by fastforce
  from quiet_inv(2) [OF quiet_ops(1)] disturb_kept(2) [OF d assms(2)] assms(1) d show ?thesis by (auto simp: fail_with_def)
qed

text \<open>After the pop of an item the engine does not know it yet.\<close>

definition popped_inv :: "NvmeCrossSlotEngine \<Rightarrow> PendingDdrSlot \<Rightarrow> 'd traced_world \<Rightarrow> bool" where
  "popped_inv e x wl \<longleftrightarrow>
     refines e (snd wl) \<and> acct wl \<and>
     (\<forall>\<sigma>. job_trace (snd wl) \<sigma> \<longrightarrow> (\<exists>held. qr_held (ww_run (fst wl)) = held @ [x] \<and> jobs_held \<sigma> held))"

definition pop_kept :: "queue_pop \<Rightarrow> NvmeCrossSlotEngine \<Rightarrow> 'd traced_world \<Rightarrow> bool" where
  "pop_kept out e wl \<longleftrightarrow>
     winv e wl \<and>
     (case out of QueuePopped STORAGE_QUEUE_POP_ITEM (Some x) \<Rightarrow> popped_inv e x wl | _ \<Rightarrow> tinv e wl)"

lemma note_pop_kept:
  assumes i: "tinv e (w, l)" and p: "storage_queue_pop waited (ww_q w) wait = (out, q)"
  shows "pop_kept out e (w\<lparr>ww_run := note_pop out q (ww_run w)\<rparr>, l)"
proof -
  let ?w = "w\<lparr>ww_run := note_pop out q (ww_run w)\<rparr>"
  have ref: "refines e l" and st: "strong (w, l)" and a: "acct (w, l)" using i inv_winv [OF i] by (auto simp: tinv_def winv_def)
  have run: "run_ok (ww_run ?w)" using note_pop_ok [OF _ p] a by (simp add: acct_def Let_def)
  have lists: "qr_pushed (note_pop out q s) = qr_pushed s" "qr_written (note_pop out q s) = qr_written s" for s
    by (auto simp: note_pop_def split: queue_pop.split StorageQueuePopResult.split option.split)
  have a': "acct (?w, l)" using run a by (auto simp: acct_def Let_def lists)
  show ?thesis
  proof (cases "\<exists>x. out = QueuePopped STORAGE_QUEUE_POP_ITEM (Some x)")
    case True
    then obtain x where out: "out = QueuePopped STORAGE_QUEUE_POP_ITEM (Some x)" ..
    then have "qr_held (ww_run ?w) = qr_held (ww_run w) @ [x]" by (simp add: note_pop_def)
    then show ?thesis using ref st a' out by (auto simp: pop_kept_def popped_inv_def winv_def strong_def)
  next
    case False
    then have "qr_held (ww_run ?w) = qr_held (ww_run w)"
      by (auto simp: note_pop_def split: queue_pop.split StorageQueuePopResult.split option.split)
    then have "strong (?w, l)" using st a' by (auto simp: strong_def)
    then show ?thesis using ref a' False
      by (auto simp: pop_kept_def tinv_def winv_def split: queue_pop.split StorageQueuePopResult.split option.split)
  qed
qed

lemma wait_pop_kept:
  "tinv e (w, l) \<Longrightarrow> wait_pop n env started wait e w = (out, e', w') \<Longrightarrow> pop_kept out e' (w', l)"
proof (induction n arbitrary: started e w)
  case 0
  then show ?case by (auto simp: pop_kept_def inv_winv)
next
  case (Suc n)
  obtain e1 w1 where d: "disturb env e w = (e1, w1)" by fastforce
  have i1: "tinv e1 (w1, l)" using disturb_kept(1) [OF d Suc.prems(1)] .
  obtain out1 q1 where p: "storage_queue_pop None (ww_q w1) wait = (out1, q1)" by fastforce
  obtain t w2 where t: "wall env w1 = (t, w2)" by fastforce
  have i2: "tinv e1 (w2, l)" using quiet_inv(1) [OF quiet_wall [OF t] i1] .
  show ?case
  proof (cases "out1 = QueueBlocked")
    case True
    then show ?thesis using Suc.IH [OF i1] Suc.IH [OF i2] Suc.prems(2) d p t by (cases started) auto
  next
    case False
    show ?thesis
    proof (cases started)
      case None
      then have "out = out1" "e' = e1" "w' = w1\<lparr>ww_run := note_pop out1 q1 (ww_run w1)\<rparr>"
        using False Suc.prems(2) d p by (auto split: queue_pop.splits)
      then show ?thesis using note_pop_kept [OF i1 p] by simp
    next
      case (Some t0)
      obtain out2 q2 where p2: "storage_queue_pop (Some (t0, t)) (ww_q w2) wait = (out2, q2)" by fastforce
      have "out = out2" "e' = e1" "w' = w2\<lparr>ww_run := note_pop out2 q2 (ww_run w2)\<rparr>"
        using Some False Suc.prems(2) d p t p2 by (auto split: queue_pop.splits)
      then show ?thesis using note_pop_kept [OF i2 p2] by simp
    qed
  qed
qed

lemma accept_refines:
  assumes "accept_item rt x e = (res, e')" "refines e l" "item_fit x"
  shows "refines e' (if res = None then l @ [EvAdd (slot_request x)] else l)"
proof -
  define padded where "padded = (case storage_slot_addresses (0, 0) rt x of
      None \<Rightarrow> (-1, en_rt e) | Some _ \<Rightarrow> storage_zero_tail_padding (rt_dry_run rt) x (en_rt e))"
  define e1 where "e1 = e\<lparr>en_rt := snd padded\<rparr>"
  have "nr_dma_desc_count (snd padded) = nr_dma_desc_count (en_rt e)"
    by (auto simp: padded_def storage_zero_tail_padding_def Let_def split: option.split)
  then have r1: "refines e1 l" unfolding e1_def by (intro refines_core [OF assms(2)]) auto
  obtain rc e2 where a: "nvme_cross_slot_engine_add (slot_request x) e1 = (rc, e2)" by fastforce
  have r2: "refines e2 (if rc = 0 then l @ [EvAdd (slot_request x)] else l)"
    by (rule add_refines [OF r1 a]) (use assms(3) in \<open>simp add: slot_request_def item_fit_def\<close>)
  from assms(1) have "(res, e') = (if fst padded \<noteq> 0
      then (Some (if nr_last_error (en_rt e1) \<noteq> [] then nr_last_error (en_rt e1) else ''slot_padding_failed''), e1)
      else (if rc \<noteq> 0 then Some (nvme_cross_slot_engine_last_error e2) else None, e2))"
    unfolding accept_item_def padded_def [symmetric] Let_def e1_def [symmetric] a prod.case by (rule sym)
  then show ?thesis using r1 r2 by (auto split: if_splits)
qed

lemma accept_kept:
  assumes "accept_item rt x e = (res, e')" "popped_inv e x (w, l)"
  shows "winv e' (w, if res = None then l @ [EvAdd (slot_request x)] else l)"
    "res = None \<Longrightarrow> tinv e' (w, l @ [EvAdd (slot_request x)])"
proof -
  let ?r = "slot_request x" and ?held = "qr_held (ww_run w)"
  have ref: "refines e l" and a: "acct (w, l)" using assms(2) by (auto simp: popped_inv_def)
  obtain \<sigma>0 where "job_trace l \<sigma>0" using ref by (rule refinesE)
  then have "x \<in> set ?held" using assms(2) by (auto simp: popped_inv_def)
  then have ref': "refines e' (if res = None then l @ [EvAdd ?r] else l)"
    using accept_refines [OF assms(1) ref] held_fit [OF a] by simp
  then show "winv e' (w, if res = None then l @ [EvAdd ?r] else l)"
    using a acct_trace [OF a refl] by (simp add: winv_def)
  show "tinv e' (w, l @ [EvAdd ?r])" if none: "res = None"
  proof -
    have "jobs_held \<sigma>' ?held" if t': "job_trace (l @ [EvAdd ?r]) \<sigma>'" for \<sigma>'
    proof -
      from t' obtain \<sigma> where t: "job_trace l \<sigma>" "job_step \<sigma> (EvAdd ?r) \<sigma>'" by (auto elim: job_trace_snocE)
      from t(2) have \<sigma>': "\<sigma>' = \<sigma>(wr_slot ?r \<mapsto> new_job ?r)" "\<sigma> (wr_slot ?r) = None" by (auto elim: job_step_addE)
      from assms(2) t(1) obtain held where h: "?held = held @ [x]" "jobs_held \<sigma> held" by (auto simp: popped_inv_def)
      have s: "wr_slot ?r = pd_slot x" by (simp add: slot_request_def)
      show ?thesis
      proof (rule jobs_heldI)
        fix s j assume "\<sigma>' s = Some j"
        then show "\<exists>y\<in>set ?held. jb_req j = slot_request y \<and> pd_slot y = s"
          using jobs_heldD(1) [OF h(2), of s j] by (auto simp: \<sigma>' s h(1) new_job_def split: if_splits)
      next
        fix y assume "y \<in> set ?held"
        then show "\<exists>j. \<sigma>' (pd_slot y) = Some j \<and> jb_req j = slot_request y"
          using jobs_heldD(2) [OF h(2), of y] \<sigma>'(2) by (auto simp: \<sigma>'(1) s h(1) new_job_def)
      qed
    qed
    then show ?thesis using ref' none acct_trace [OF a refl, of "[EvAdd ?r]"] by (simp add: tinv_def strong_def)
  qed
qed

definition iteration_kept :: "iteration \<Rightarrow> NvmeCrossSlotEngine \<Rightarrow> 'd traced_world \<Rightarrow> bool" where
  "iteration_kept it e wl \<longleftrightarrow>
     winv e wl \<and> ((\<exists>t. it = ItContinue t) \<longrightarrow> tinv e wl) \<and>
     (it = ItDrained \<longrightarrow> tinv e wl \<and> wq_count (ww_q (fst wl)) = 0 \<and> en_active_count e = 0)"

lemma iteration_keptI: "winv e wl \<Longrightarrow> it \<in> {ItFailed, ItWaiting, ItNoFuel} \<Longrightarrow> iteration_kept it e wl"
  by (auto simp: iteration_kept_def)

lemma fail_iteration:
  "fail_with env reason e (w, l) = (it, e', wl') \<Longrightarrow> winv e (w, l) \<Longrightarrow> iteration_kept it e' wl'"
  using fail_kept [of env reason e w l it e' "fst wl'" "snd wl'"] by (auto simp: iteration_kept_def)

lemma decide_kept:
  assumes i: "tinv e (w, l)" and d: "decide_next env e (w, l) = (it, e', wl')"
  shows "iteration_kept it e' wl'"
proof -
  obtain t w0 where t: "wall env w = (t, w0)" by fastforce
  obtain e1 w1 where x: "disturb env e w0 = (e1, w1)" by fastforce
  obtain now w2 where n: "wall env w1 = (now, w2)" by fastforce
  define w3 where "w3 = on_queue (\<lambda>q. q\<lparr>wq_writer_event_ring := storage_ring_event now (wq_writer_event_ring q)
      STORAGE_EVENT_STOP_DRAINED (wq_channel q) 0 0 False\<rparr>) w2"
  have i1: "tinv e1 (w1, l)" by (rule disturb_kept(1) [OF x quiet_inv(1) [OF quiet_wall [OF t] i]])
  have i3: "tinv e1 (w3, l)" unfolding w3_def by (rule quiet_inv(1) [OF quiet_trans [OF quiet_wall [OF n] quiet_ops(5)] i1])
  have c: "wq_count (ww_q w3) = wq_count (ww_q w1)" using n by (auto simp: w3_def on_queue_def wall_def split: prod.splits)
  note def = decide_next_def fst_conv snd_conv t x n prod.case w3_def [symmetric]
  show ?thesis
  proof (cases "storage_cross_slot_writer_decision_locked (ww_q w1) e1")
    case STORAGE_CROSS_SLOT_WRITER_QUEUE_ERROR
    then show ?thesis using d fail_iteration inv_winv [OF i1] by (simp only: def StorageCrossSlotWriterDecision.case) blast
  next
    case STORAGE_CROSS_SLOT_WRITER_DRAINED
    then have "wq_count (ww_q w1) = 0 \<and> en_active_count e1 = 0"
      by (auto simp: storage_cross_slot_writer_decision_locked_def storage_cross_slot_writer_decide_def
          nvme_cross_slot_engine_active_def split: if_splits)
    moreover have "it = ItDrained" "e' = e1" "wl' = (w3, l)"
      using d STORAGE_CROSS_SLOT_WRITER_DRAINED by (simp_all only: def StorageCrossSlotWriterDecision.case prod.inject)
    ultimately show ?thesis using i3 inv_winv [OF i3] c by (simp add: iteration_kept_def)
  next
    case STORAGE_CROSS_SLOT_WRITER_CONTINUE
    then have "it = ItContinue t" "e' = e1" "wl' = (w1, l)"
      using d by (simp_all only: def StorageCrossSlotWriterDecision.case prod.inject)
    then show ?thesis using i1 inv_winv [OF i1] by (simp add: iteration_kept_def)
  next
    case STORAGE_CROSS_SLOT_WRITER_WAIT_FOR_QUEUE
    then have "it = ItContinue t" "e' = e1" "wl' = (w1, l)"
      using d by (simp_all only: def StorageCrossSlotWriterDecision.case prod.inject)
    then show ?thesis using i1 inv_winv [OF i1] by (simp add: iteration_kept_def)
  qed
qed

lemma step_engine_kept:
  assumes i: "tinv e (w, l)" and s: "step_engine env fuel e (w, l) = (it, e', wl')"
  shows "iteration_kept it e' wl'"
proof -
  obtain t w0 where t: "wall env w = (t, w0)" by fastforce
  obtain f e1 w1 l1 where st: "nvme_cross_slot_engine_step fuel (logged (writer_ops env)) (wq_writer_budget_override_us (ww_q w0)) e (w0, l) =
      (f, e1, w1, l1)" by (metis prod_cases4)
  have i0: "tinv e (w0, l)" by (rule quiet_inv(1) [OF quiet_wall [OF t] i])
  have ref: "refines e1 l1" using step_refines [OF _ st] i0 by (simp add: tinv_def)
  have "strong (w0, l)" using i0 by (simp add: tinv_def)
  note k = reports.keep_step [OF this st]
  have w1: "winv e1 (w1, l1)" using ref k(1) refines_weak [of e1 "(w1, l1)"] by (simp add: winv_def)
  show ?thesis
  proof (cases f)
    case (FReturn rc)
    let ?w2 = "account_step env t e1 w1"
    have u: "step_engine env fuel e (w, l) =
        (if rc \<noteq> 0 then fail_with env (nvme_cross_slot_engine_last_error e1) e1 (?w2, l1) else decide_next env e1 (?w2, l1))"
      by (simp add: step_engine_def t st FReturn Let_def)
    show ?thesis
    proof (cases "rc = 0")
      case True
      then have "tinv e1 (w1, l1)" using k(2) ref FReturn by (simp add: tinv_def)
      then have "tinv e1 (?w2, l1)" by (rule quiet_inv(1) [OF quiet_step])
      then show ?thesis using decide_kept s u True by simp
    next
      case False
      then have "fail_with env (nvme_cross_slot_engine_last_error e1) e1 (?w2, l1) = (it, e', wl')" using s u by simp
      then show ?thesis by (rule fail_iteration [OF _ quiet_inv(2) [OF quiet_step w1]])
    qed
  qed (use s t st w1 in \<open>auto simp: step_engine_def intro: iteration_keptI\<close>)
qed

lemma iteration_inv:
  assumes i: "tinv e (w, l)" and r: "writer_iteration env fuel t e (w, l) = (it, e', wl')"
  shows "iteration_kept it e' wl'"
proof -
  let ?wait = "nvme_cross_slot_engine_active e = 0"
  obtain e1 w1 where d: "disturb env e w = (e1, w1)" by fastforce
  define w2 where "w2 = (if ?wait then w1 else note_gap env t w1)"
  have i1: "tinv e1 (w1, l)" by (rule disturb_kept(1) [OF d i])
  have i2: "tinv e1 (w2, l)" using i1 quiet_inv(1) [OF quiet_gap i1] by (simp add: w2_def)
  obtain out e3 w3 where p: "wait_pop fuel env None ?wait e1 w2 = (out, e3, w3)" by (metis prod_cases3)
  have k: "pop_kept out e3 (w3, l)" by (rule wait_pop_kept [OF i2 p])
  then have w: "winv e3 (w3, l)" by (simp add: pop_kept_def)
  have u: "writer_iteration env fuel t e (w, l) =
     (if storage_queue_abort_requested (ww_q w1) then fail_with env ''writer_abort_requested'' e1 (w1, l)
      else if nvme_cross_slot_engine_can_accept e1
      then case out of QueueBlocked \<Rightarrow> (ItWaiting, e3, w3, l)
           | QueuePopped STORAGE_QUEUE_POP_ERROR y \<Rightarrow> fail_with env ''storage_queue_pop_failed'' e3 (w3, l)
           | QueuePopped STORAGE_QUEUE_POP_ITEM (Some x) \<Rightarrow>
               (case accept_item (wq_rt (ww_q w3)) x e3 of
                  (Some reason, e4) \<Rightarrow> fail_with env reason e4 (w3, l)
                | (None, e4) \<Rightarrow> step_engine env fuel e4 (w3, l @ [EvAdd (slot_request x)]))
           | _ \<Rightarrow> step_engine env fuel e3 (w3, l)
      else step_engine env fuel e1 (w2, l))"
    unfolding writer_iteration_def Let_def fst_conv snd_conv d prod.case w2_def [symmetric] p ..
  have item: "iteration_kept it e' wl'" if x: "out = QueuePopped STORAGE_QUEUE_POP_ITEM (Some x)"
    and run: "storage_queue_abort_requested (ww_q w1) = False" "nvme_cross_slot_engine_can_accept e1" for x
  proof -
    obtain res e4 where a: "accept_item (wq_rt (ww_q w3)) x e3 = (res, e4)" by fastforce
    have "popped_inv e3 x (w3, l)" using k x by (simp add: pop_kept_def)
    note acc = accept_kept [OF a this]
    show ?thesis
    proof (cases res)
      case None
      then show ?thesis using acc(2) step_engine_kept r u x run a by simp
    next
      case (Some reason)
      then show ?thesis using acc(1) fail_iteration r u x run a by simp
    qed
  qed
  have other: "iteration_kept it e' wl'" if "\<not> (\<exists>x. out = QueuePopped STORAGE_QUEUE_POP_ITEM (Some x))"
    and run: "storage_queue_abort_requested (ww_q w1) = False" "nvme_cross_slot_engine_can_accept e1"
  proof -
    have i3: "tinv e3 (w3, l)" using k that
      by (auto simp: pop_kept_def split: queue_pop.splits StorageQueuePopResult.splits option.splits)
    have "(it, e', wl') \<in> {(ItWaiting, e3, w3, l), fail_with env ''storage_queue_pop_failed'' e3 (w3, l), step_engine env fuel e3 (w3, l)}"
      using r u that by (auto split: queue_pop.splits StorageQueuePopResult.splits option.splits)
    then consider "it = ItWaiting" "e' = e3" "wl' = (w3, l)" | "fail_with env ''storage_queue_pop_failed'' e3 (w3, l) = (it, e', wl')"
      | "step_engine env fuel e3 (w3, l) = (it, e', wl')" by auto
    then show ?thesis
    proof cases
      case 1
      then show ?thesis using w by (simp add: iteration_keptI)
    next
      case 2
      then show ?thesis using fail_iteration w by blast
    next
      case 3
      then show ?thesis using step_engine_kept i3 by blast
    qed
  qed
  show ?thesis
  proof (cases "\<not> storage_queue_abort_requested (ww_q w1) \<and> nvme_cross_slot_engine_can_accept e1")
    case True
    then show ?thesis using item other by blast
  next
    case False
    then have "fail_with env ''writer_abort_requested'' e1 (w1, l) = (it, e', wl') \<or> step_engine env fuel e1 (w2, l) = (it, e', wl')"
      using r u by (auto split: if_splits)
    then show ?thesis using fail_iteration inv_winv [OF i1] step_engine_kept [OF i2] by blast
  qed
qed

lemma loop_inv:
  "tinv e wl \<Longrightarrow> writer_loop n env fuel t e wl = (it, e', wl') \<Longrightarrow> iteration_kept it e' wl'"
proof (induction n arbitrary: t e wl)
  case 0
  then show ?case by (auto simp: iteration_kept_def inv_winv)
next
  case (Suc n)
  obtain it1 e1 wl1 where i: "writer_iteration env fuel t e wl = (it1, e1, wl1)" by (metis prod_cases3)
  have k: "iteration_kept it1 e1 wl1" using iteration_inv [of e "fst wl" "snd wl" env fuel t] Suc.prems(1) i by simp
  show ?case
  proof (cases "\<exists>t1. it1 = ItContinue t1")
    case True
    then obtain t1 where t1: "it1 = ItContinue t1" ..
    then have "tinv e1 wl1" using k by (simp add: iteration_kept_def)
    moreover have "writer_loop n env fuel t1 e1 wl1 = (it, e', wl')" using Suc.prems(2) i t1 by simp
    ultimately show ?thesis by (rule Suc.IH)
  next
    case False
    then have "(it, e', wl') = (it1, e1, wl1)" using Suc.prems(2) i by (auto split: iteration.splits)
    then show ?thesis using k by simp
  qed
qed

section \<open>Start and end\<close>

lemma wait_run_acct: "acct (w, l) \<Longrightarrow> wait_run n env w = (rc, w') \<Longrightarrow> acct (w', l) \<and> qr_held (ww_run w') = qr_held (ww_run w) \<and>
    wq_nvme (ww_q w') = wq_nvme (ww_q w)"
proof (induction n arbitrary: w)
  case (Suc n)
  obtain a w1 where o: "others env w = (a, w1)" by fastforce
  have "wq_nvme (ww_q w1) = wq_nvme (ww_q w)" using o by (auto simp: others_def run_nvme split: prod.splits)
  with others_acct [OF o Suc.prems(1)] Suc o show ?case by (auto split: option.splits)
qed simp

lemma quiet_refuse: "quiet w (refuse_start env reason w)"
proof -
  obtain now w1 where 1: "wall env w = (now, w1)" by fastforce
  let ?q1 = "storage_queue_set_writer_ready (storage_set_writer_error_reason (ww_q w1) reason) False"
  have "wq_holds ?q1 a b c = wq_holds (ww_q w1) a b c" for a b c
    by (simp add: storage_queue_set_writer_ready_def)
  then have "quiet w1 (refuse_start env reason w)" by (simp add: refuse_start_def 1 Let_def quiet_def)
  with quiet_wall [OF 1] show ?thesis by (rule quiet_trans)
qed

lemma quiet_set: "(\<And>a b c. wq_holds q a b c = wq_holds (ww_q w) a b c) \<Longrightarrow> quiet w (on_queue (\<lambda>_. q) w)"
  by (simp add: quiet_def on_queue_def)

lemma apply_rt_quiet:
  assumes "storage_apply_writer_rt ts (ww_q w) = (rc, q)"
  shows "quiet w (on_queue (\<lambda>_. q) w)" "wq_nvme q = wq_nvme (ww_q w)"
proof -
  show "quiet w (on_queue (\<lambda>_. q) w)"
    by (rule quiet_set) (use assms in \<open>auto simp: storage_apply_writer_rt_def Let_def split: if_splits\<close>)
  show "wq_nvme q = wq_nvme (ww_q w)" using assms by (auto simp: storage_apply_writer_rt_def Let_def split: if_splits)
qed

lemma set_engine_kept:
  assumes "storage_queue_set_engine (ww_q w) e = (q, e')" "tinv e (w, l)"
  shows "tinv e' (on_queue (\<lambda>_. q) w, l)"
proof -
  have "quiet w (on_queue (\<lambda>_. q) w)" by (rule quiet_set) (use assms(1) in \<open>auto simp: storage_queue_set_engine_def\<close>)
  moreover have "refines e l \<Longrightarrow> refines e' l"
    using assms(1) by (auto simp: storage_queue_set_engine_def request_abort_refines split: if_splits)
  ultimately show ?thesis using quiet_inv(1) assms(2) by (metis (no_types) snd_conv tinv_def)
qed

lemma start_inv:
  assumes "acct (w, [])" "qr_held (ww_run w) = []" "refines e []"
  shows "tinv e (w, [])"
proof -
  have "jobs_held \<sigma> []" if "job_trace [] \<sigma>" for \<sigma>
  proof -
    from that have "\<sigma> = Map.empty" by (cases rule: job_trace.cases) auto
    then show ?thesis by (simp add: jobs_held_def)
  qed
  then show ?thesis using assms by (simp add: tinv_def strong_def)
qed

lemma failed_kept:
  assumes w: "winv e wl" and f: "writer_failed env fuel e wl = (ended, eng, wl')"
  shows "acct wl'"
proof -
  obtain t w0 where t: "wall env (fst wl) = (t, w0)" by fastforce
  define e0 where "e0 = nvme_cross_slot_engine_request_abort (nvme_cross_slot_engine_last_error e) e"
  obtain g e1 w1 l1 where d: "nvme_cross_slot_engine_drain_abort fuel (logged (writer_ops env)) (drain_deadline (ww_q w0) e0 t) e0 (w0, snd wl) =
      (g, e1, w1, l1)" by (metis prod_cases4)
  have w0: "winv e (w0, snd wl)" by (rule quiet_inv(2) [OF quiet_wall [OF t]]) (use w in simp)
  then have r0: "refines e0 (snd wl)" and a0: "acct (w0, snd wl)" by (simp_all add: winv_def e0_def request_abort_refines)
  have r1: "refines e1 (l1 @ drain_events e0 e1)" using drain_abort_refines [OF _ d] r0 by simp
  then obtain \<sigma> where "job_trace (l1 @ drain_events e0 e1) \<sigma>" by (rule refinesE)
  then obtain \<sigma>1 where "job_trace l1 \<sigma>1" using trace_prefix by blast
  moreover have "weak (w1, l1)" by (rule drain.keep_drain_abort [OF acct_weak [OF a0] d])
  ultimately have a1: "acct (w1, l1)" by (auto simp: weak_def)
  define w2 where "w2 = report_fatal env (on_queue (\<lambda>q. storage_cross_slot_update_stats q e1) (set_quiesced e1 w1))"
  obtain eng3 w3 where x: "drop_engine e1 w2 = (eng3, w3)" by fastforce
  have "quiet w1 w2" unfolding w2_def by (rule quiet_trans [OF quiet_trans [OF quiet_quiesced quiet_ops(4)] quiet_fatal])
  then have q: "quiet w1 w3" by (rule quiet_trans [OF _ quiet_drop [OF x]])
  have "wl' = (w3, l1 @ drain_events e0 e1) \<or> wl' = (w1, l1)"
    using f t d x unfolding writer_failed_def e0_def [symmetric] w2_def by (auto simp: Let_def split: flow.splits)
  then show ?thesis using a1 acct_trace [OF quiet_acct [OF q a1] refl] by auto
qed

lemma drained_empty:
  assumes "tinv e (w, l)" "en_active_count e = 0"
  shows "qr_held (ww_run w) = []"
proof -
  from assms(1) obtain \<sigma> where t: "job_trace l \<sigma>" and c: "core_inv (core e)" and m: "jobs_match \<sigma> (core e)"
    unfolding tinv_def by (auto elim: refinesE)
  have "\<not> en_active e ! i" if "i < CAP" for i
    using core_invD(4,7) [OF c] assms(2) that by (auto simp: filter_empty_conv in_set_conv_nth)
  then have "\<sigma> s = None" for s using m by (cases "\<sigma> s") (auto simp: jobs_match_def)
  moreover have "jobs_held \<sigma> (qr_held (ww_run w))" using assms(1) t by (auto simp: tinv_def strong_def)
  ultimately show ?thesis using jobs_heldD(2) [of \<sigma> "qr_held (ww_run w)"] by (cases "qr_held (ww_run w)") auto
qed

text \<open>What is known when the thread has ended or is still running.\<close>

lemma thread_kept:
  assumes a: "acct (w0, [])" "qr_held (ww_run w0) = []" "nr_dma_desc_count (wq_nvme (ww_q w0)) \<noteq> 0"
    and r: "storage_nvme_cross_slot_writer_thread env ts alloc_ok n fuel w0 = (res, eng, w, l)"
  shows "acct (w, l) \<and> (res = WriterDrained \<longrightarrow> wq_queue (ww_q w) = [] \<and> qr_held (ww_run w) = [])"
proof -
  obtain rc w1 where wr: "wait_run fuel env w0 = (rc, w1)" by fastforce
  note a1 = wait_run_acct [OF a(1) wr]
  obtain src q1 where ap: "storage_apply_writer_rt ts (ww_q w1) = (src, q1)" by fastforce
  define w2 where "w2 = on_queue (\<lambda>_. q1) w1"
  have a2: "acct (w2, [])" "qr_held (ww_run w2) = []"
    using quiet_acct [OF apply_rt_quiet(1) [OF ap]] a1 a(2) by (auto simp: w2_def on_queue_def)
  have refuse: "acct (refuse_start env reason w2, [])" for reason using quiet_acct [OF quiet_refuse a2(1)] .
  obtain res2 where "res2 = nvme_cross_slot_engine_create_with_ops_config alloc_ok (wq_nvme q1) (wq_cross_slot_config q1)" by blast
  note cr = this [symmetric]
  show ?thesis
  proof (cases "rc = Some 0 \<and> src = 0 \<and> res2 \<noteq> None")
    case False
    then have "(res, eng, w, l) \<in> {(WriterRunning, None, w1, []), (WriterRefused, None, w1, []), (WriterRefused, None, refuse_start env [] w2, []),
        (WriterRefused, None, refuse_start env ''cross_slot_engine_create_failed'' w2, [])}"
      using r unfolding storage_nvme_cross_slot_writer_thread_def wr ap cr prod.case Let_def w2_def [symmetric]
      by (auto split: option.splits if_splits)
    then show ?thesis using a1 refuse by auto
  next
    case True
    then obtain e0 where e0: "res2 = Some e0" by auto
    have ref: "refines e0 []" using create_refines [OF cr [unfolded e0]] apply_rt_quiet(2) [OF ap] a1 a(3) by simp
    obtain x w3 where o: "others env w2 = (x, w3)" by fastforce
    have a3: "acct (w3, [])" "qr_held (ww_run w3) = []" using others_acct [OF o a2(1)] a2(2) by simp_all
    obtain q2 e1 where se: "storage_queue_set_engine (ww_q w3) e0 = (q2, e1)" by fastforce
    obtain e2 w4 where d: "disturb env e1 (on_queue (\<lambda>_. q2) w3) = (e2, w4)" by fastforce
    define w5 where "w5 = on_queue (\<lambda>q. storage_queue_set_writer_ready q True) w4"
    have i5: "tinv e2 (w5, [])" unfolding w5_def
      by (rule quiet_inv(1) [OF quiet_ops(6) disturb_kept(1) [OF d set_engine_kept [OF se start_inv [OF a3 ref]]]])
    obtain it e6 w6 l6 where lp: "writer_loop n env fuel 0 e2 (w5, []) = (it, e6, w6, l6)" by (metis prod_cases4)
    have k: "iteration_kept it e6 (w6, l6)" by (rule loop_inv [OF i5 lp])
    then have wi: "winv e6 (w6, l6)" by (simp add: iteration_kept_def)
    have u: "storage_nvme_cross_slot_writer_thread env ts alloc_ok n fuel w0 =
       (case it of ItDrained \<Rightarrow> (case drop_engine e6 (set_quiesced e6 w6) of (eng, w7) \<Rightarrow> (WriterDrained, eng, w7, l6))
        | ItFailed \<Rightarrow> (case writer_failed env fuel e6 (w6, l6) of (ended, eng, wl1) \<Rightarrow> (if ended then WriterFailed else WriterRunning, eng, wl1))
        | _ \<Rightarrow> (WriterRunning, Some e6, w6, l6))"
      using True e0 unfolding storage_nvme_cross_slot_writer_thread_def wr ap cr prod.case Let_def w2_def [symmetric] o snd_conv se d
      by (simp add: w5_def [symmetric] lp o se d split: iteration.split)
    show ?thesis
    proof (cases it)
      case ItDrained
      obtain eng7 w7 where dr: "drop_engine e6 (set_quiesced e6 w6) = (eng7, w7)" by fastforce
      have q: "quiet w6 w7" by (rule quiet_trans [OF quiet_quiesced quiet_drop [OF dr]])
      have i: "tinv e6 (w6, l6)" "wq_count (ww_q w6) = 0" "en_active_count e6 = 0" using k ItDrained by (simp_all add: iteration_kept_def)
      have h: "wq_holds (ww_q w6) (wq_queue (ww_q w6)) (qr_held (ww_run w6)) (qr_written (ww_run w6))"
        using wi by (simp add: winv_def acct_def run_ok_def Let_def)
      then have "wq_queue (ww_q w6) = []" using wq_holds_count [OF h] i(2) by simp
      moreover have "wq_queue (ww_q w7) = wq_queue (ww_q w6)" using q h by (auto simp: quiet_def wq_holds_def)
      moreover have "qr_held (ww_run w7) = []" using drained_empty [OF i(1,3)] q by (simp add: quiet_def)
      moreover have "acct (w7, l6)" by (rule quiet_acct [OF q]) (use wi in \<open>simp add: winv_def\<close>)
      ultimately show ?thesis using r u dr ItDrained by simp
    next
      case ItFailed
      obtain ended eng7 wl7 where f: "writer_failed env fuel e6 (w6, l6) = (ended, eng7, wl7)" by (metis prod_cases3)
      then have "acct wl7" by (rule failed_kept [OF wi])
      then show ?thesis using r u f ItFailed by (auto split: if_splits)
    qed (use r u wi in \<open>auto simp: winv_def\<close>)
  qed
qed

section \<open>Properties\<close>

definition writer_start :: "StorageWriteQueue \<Rightarrow> StorageGlobals \<Rightarrow> 'd \<Rightarrow> 'd writer_world" where
  "writer_start q g d = \<lparr>ww_run = queue_start q g, ww_device = d, ww_writes = []\<rparr>"

lemma writer_start_kept:
  assumes "storage_queue_init oks ring_size backlog config rt nrt channel fi ms task xs batch = Some q0"
    "nr_dma_desc_count nrt \<noteq> 0"
    "storage_nvme_cross_slot_writer_thread env ts alloc_ok n fuel (writer_start q0 g d) = (res, eng, w, l)"
  shows "acct (w, l) \<and> (res = WriterDrained \<longrightarrow> wq_queue (ww_q w) = [] \<and> qr_held (ww_run w) = [])"
proof (rule thread_kept [OF _ _ _ assms(3)])
  have "run_ok (queue_start q0 g)" by (rule start_ok [OF init_holds [OF assms(1)]])
  then show "acct (writer_start q0 g d, [])" by (simp add: acct_def writer_start_def queue_start_def Let_def)
  show "qr_held (ww_run (writer_start q0 g d)) = []" by (simp add: writer_start_def queue_start_def)
  have "wq_nvme q0 = nrt" using assms(1) by (auto simp: storage_queue_init_def queue_zero_def split: prod.splits if_splits option.splits)
  then show "nr_dma_desc_count (wq_nvme (ww_q (writer_start q0 g d))) \<noteq> 0"
    using assms(2) by (simp add: writer_start_def queue_start_def)
qed

text \<open>
  Sector \<open>k\<close> of the slot \<open>x\<close> of the queue is on the device: it was submitted from its place in the memory of
  the slot to its place behind the address of the slot, and the command came back without an error.
\<close>

definition slot_sector_written :: "nvme_event list \<Rightarrow> PendingDdrSlot \<Rightarrow> nat \<Rightarrow> bool" where
  "slot_sector_written l x k \<longleftrightarrow>
     (\<exists>a cid first n rc. a < length l \<and> owned rc \<and> unat first \<le> k \<and> k < unat first + unat n \<and>
        l ! a = EvSubmit cid (pd_start_lba x + first) n (pd_hw_addr x + first * NVME_SECTOR_BYTES) rc \<and> came_back l a cid)"

lemma request_written_slot: "sector_written l (slot_request x) k \<Longrightarrow> slot_sector_written l x k"
  unfolding sector_written_def handed_over_def slot_sector_written_def slot_request_def NvmeWriteSlotReq.simps by blast

text \<open>C1. The bytes the worker reports as written are on the device. Whatever the device answers, whenever the other
  threads push, stop or abort, and however the writer thread ends: for every slot the write queue counts as
  written, each of its sectors was handed to the device from the memory of that slot to its place in the file, and
  the command came back without an error.\<close>

theorem written_bytes_are_on_device:
  assumes "storage_queue_init oks ring_size backlog config rt nrt channel fi ms task xs batch = Some q0"
    "nr_dma_desc_count nrt \<noteq> 0"
    "storage_nvme_cross_slot_writer_thread env ts alloc_ok n fuel (writer_start q0 g d) = (res, eng, w, l)"
  shows "unat (storage_queue_written_bytes (ww_q w)) = total_bytes (qr_written (ww_run w)) \<and>
    (\<forall>x\<in>set (qr_written (ww_run w)). \<forall>k<unat (pd_sectors x). slot_sector_written l x k)"
  using writer_start_kept [OF assms] request_written_slot
  by (simp add: acct_def run_ok_def wq_holds_def storage_queue_written_bytes_def Let_def)

text \<open>C2. A writer thread that ends because everything is drained has lost nothing: the slots it has written are exactly
  the slots the producer pushed, and the bytes it reports are all the bytes pushed.\<close>

theorem drained_writer_wrote_all:
  assumes "storage_queue_init oks ring_size backlog config rt nrt channel fi ms task xs batch = Some q0"
    "nr_dma_desc_count nrt \<noteq> 0"
    "storage_nvme_cross_slot_writer_thread env ts alloc_ok n fuel (writer_start q0 g d) = (WriterDrained, eng, w, l)"
  shows "mset (qr_written (ww_run w)) = mset (qr_pushed (ww_run w)) \<and>
    unat (storage_queue_written_bytes (ww_q w)) = total_bytes (qr_pushed (ww_run w))"
proof -
  let ?s = "ww_run w"
  from writer_start_kept [OF assms] have ok: "run_ok ?s" and e: "wq_queue (ww_q w) = []" "qr_held ?s = []"
    by (auto simp: acct_def Let_def)
  have m: "mset (qr_written ?s) = mset (qr_pushed ?s)" using ok e by (auto simp: run_ok_def)
  have "total_bytes xs = sum_mset (image_mset (\<lambda>x. unat (pd_bytes x)) (mset xs))" for xs
    by (simp add: sum_mset_sum_list flip: mset_map)
  then have "total_bytes (qr_written ?s) = total_bytes (qr_pushed ?s)" using m by simp
  then show ?thesis using m ok by (simp add: run_ok_def wq_holds_def storage_queue_written_bytes_def)
qed

text \<open>A device that answers every command and other threads that follow a script.\<close>

type_synonym script_state = "(u64 \<times> u16 list) \<times> queue_op list list"

definition script_env :: "script_state writer_env" where
  "script_env =
     \<lparr>we_device =
        \<lparr>op_submit = (\<lambda>(c, sc) cid lba n ddr. case op_submit mock_ops c cid lba n ddr of (rc, c1) \<Rightarrow> (rc, c1, sc)),
         op_poll_completion = (\<lambda>(c, sc). case op_poll_completion mock_ops c of (rc, cpl, c1) \<Rightarrow> (rc, cpl, c1, sc)),
         op_monotonic_us = (\<lambda>(c, sc). case op_monotonic_us mock_ops c of (t, c1) \<Rightarrow> (t, c1, sc)),
         op_sleep_us = Some (\<lambda>(c, sc) us. (c, sc)), op_yield_cpu = None, op_reset = None, op_done = None,
         op_producer = (\<lambda>c. (None, c))\<rparr>,
      we_wall = (\<lambda>d. (7, d)), we_dma = (\<lambda>d. (0, 1, d)), we_unresolved = (\<lambda>_. False),
      we_others = (\<lambda>(c, sc). case sc of [] \<Rightarrow> ([], c, []) | ops # rest \<Rightarrow> (ops, c, rest))\<rparr>"

definition script :: "queue_op list list" where
  "script = [[OpReady, OpEnableRun], [], [], [OpProducerReady True, OpRunning, OpPush [small_item 0 0, small_item 1 1], OpFinish]]"

definition plain_settings :: thread_settings where
  "plain_settings = \<lparr>ts_ulong_max = ULLONG_MAX, ts_env = (\<lambda>_. None), ts_config = None, ts_setsched = (\<lambda>_ _. 0)\<rparr>"

definition small_thread :: "writer_end \<times> NvmeCrossSlotEngine option \<times> script_state traced_world" where
  "small_thread = storage_nvme_cross_slot_writer_thread script_env plain_settings True 4 8
     (writer_start small_queue quiet_globals ((1, []), script))"

definition thread_end :: "writer_end \<times> NvmeCrossSlotEngine option \<times> script_state traced_world \<Rightarrow> writer_end \<times> nat \<times> u64 list" where
  "thread_end r = (case r of (res, eng, w, l) \<Rightarrow> (res, length (qr_pushed (ww_run w)), map pd_sectors (qr_written (ww_run w))))"

lemma small_thread_end: "thread_end small_thread = (WriterDrained, 2, [2, 2])"
  by code_simp

lemma small_thread_run:
  obtains eng w l where
    "storage_nvme_cross_slot_writer_thread script_env plain_settings True 4 8 (writer_start small_queue quiet_globals ((1, []), script)) =
       (WriterDrained, eng, w, l)"
    "small_thread = (WriterDrained, eng, w, l)" "length (qr_pushed (ww_run w)) = 2" "map pd_sectors (qr_written (ww_run w)) = [2, 2]"
  using small_thread_end that
  by (cases "storage_nvme_cross_slot_writer_thread script_env plain_settings True 4 8
        (writer_start small_queue quiet_globals ((1, []), script))")
    (auto simp: small_thread_def thread_end_def)

lemma mock_slots_nonzero: "nr_dma_desc_count mock_runtime \<noteq> 0"
  by (simp add: mock_runtime_def)

theorem written_bytes_are_on_device_witness:
  "\<exists>eng w l x y. small_thread = (WriterDrained, eng, w, l) \<and> qr_written (ww_run w) = [x, y] \<and>
     slot_sector_written l x 0 \<and> slot_sector_written l x 1 \<and> slot_sector_written l y 1"
proof -
  obtain eng w l where r:
    "storage_nvme_cross_slot_writer_thread script_env plain_settings True 4 8 (writer_start small_queue quiet_globals ((1, []), script)) =
       (WriterDrained, eng, w, l)"
    "small_thread = (WriterDrained, eng, w, l)" "map pd_sectors (qr_written (ww_run w)) = [2, 2]" by (rule small_thread_run)
  from r(3) obtain x y where x: "qr_written (ww_run w) = [x, y]" "pd_sectors x = 2" "pd_sectors y = 2" by (auto simp: map_eq_Cons_conv)
  from written_bytes_are_on_device [OF small_queue_init mock_slots_nonzero r(1)]
  have "slot_sector_written l x 0" "slot_sector_written l x 1" "slot_sector_written l y 1"
    unfolding x(1) by (simp_all add: x(2,3))
  with r(2) x(1) show ?thesis by blast
qed

theorem drained_writer_wrote_all_witness:
  "\<exists>eng w l. small_thread = (WriterDrained, eng, w, l) \<and> length (qr_pushed (ww_run w)) = 2 \<and>
     mset (qr_written (ww_run w)) = mset (qr_pushed (ww_run w))"
proof -
  obtain eng w l where r:
    "storage_nvme_cross_slot_writer_thread script_env plain_settings True 4 8 (writer_start small_queue quiet_globals ((1, []), script)) =
       (WriterDrained, eng, w, l)"
    "small_thread = (WriterDrained, eng, w, l)" "length (qr_pushed (ww_run w)) = 2" by (rule small_thread_run)
  from drained_writer_wrote_all [OF small_queue_init mock_slots_nonzero r(1)] r(2,3) show ?thesis by blast
qed

end
