(* ===== verification/Command_Line.thy ===== *)
theory Command_Line
  imports Channel_Table
begin

text \<open>
  The command line of \<^verbatim>\<open>ccb_cli.c\<close>: the leading global options, the name of the command, the options
  of the command and the tests of each command. \<^verbatim>\<open>getopt_long\<close> is modelled for a table in which every
  option takes an argument. A function that returns an error leaves nothing its callers read, so an
  error is \<^verbatim>\<open>None\<close>. The largest values of \<^verbatim>\<open>unsigned long\<close> and \<^verbatim>\<open>long\<close> are arguments. The messages
  on the standard error stream are left out.
\<close>

section \<open>Reading of signed numbers\<close>

text \<open>\<^verbatim>\<open>strtol(s, &end, base)\<close>; the value is clipped to the range of the type.\<close>

definition strtol :: "int \<Rightarrow> int \<Rightarrow> string \<Rightarrow> strtoul_result" where
  "strtol long_max base s =
     (let s1 = dropWhile c_isspace s;
          neg = (s1 \<noteq> [] \<and> hd s1 = CHR ''-'');
          s2 = (if s1 \<noteq> [] \<and> (hd s1 = CHR ''-'' \<or> hd s1 = CHR ''+'') then tl s1 else s1);
          (b, s3) = c_prefix_base base s2;
          ds = takeWhile (c_base_digit b) s3;
          v = (if neg then - c_digits_value b ds else c_digits_value b ds)
      in if ds = [] then \<lparr>su_value = 0, su_end = s, su_converted = False, su_range_error = False\<rparr>
         else \<lparr>su_value = (if v < - long_max - 1 then - long_max - 1 else if long_max < v then long_max else v),
               su_end = dropWhile (c_base_digit b) s3,
               su_converted = True,
               su_range_error = (v < - long_max - 1 \<or> long_max < v)\<rparr>)"

text \<open>The test after a conversion: no range error, something converted and nothing left.\<close>

definition whole :: "strtoul_result \<Rightarrow> int option" where
  "whole r = (if su_range_error r \<or> \<not> su_converted r \<or> su_end r \<noteq> [] then None else Some (su_value r))"

abbreviation ULLONG_MAX :: int where "ULLONG_MAX \<equiv> 18446744073709551615"

section \<open>Data\<close>

datatype SourceMode = SOURCE_TRANSFER | SOURCE_TEST

datatype CommandType =
    CMD_WRITE
  | CMD_READ
  | CMD_LIST
  | CMD_INIT_META
  | CMD_STORAGE_WRITE
  | CMD_NETWORK_SEND
  | CMD_DDR_PATTERN_STORE
  | CMD_SSD_LBA_WRAP_TEST
  | CMD_SSD_CONTINUOUS_PATTERN_TEST
  | CMD_DMA_RX_BENCHMARK

record GlobalOptions =
  go_dry_run :: bool
  go_skip_link_check :: bool
  go_timeout_us :: u32

record ParsedArgs =
  pa_has_lba :: bool
  pa_lba_auto :: bool
  pa_lba :: u64
  pa_has_size :: bool
  pa_size_bytes :: u64
  pa_has_task_no :: bool
  pa_task_no :: string
  pa_has_file_index :: bool
  pa_file_index :: u32
  pa_has_proto_file_type :: bool
  pa_proto_file_type :: u32
  pa_has_calibration_type :: bool
  pa_calibration_type :: u32
  pa_has_source :: bool
  pa_source :: SourceMode
  pa_has_dma_desc_bytes :: bool
  pa_dma_desc_bytes :: u32
  pa_has_ddr_offset :: bool
  pa_ddr_offset :: u64
  pa_has_duration_sec :: bool
  pa_duration_sec :: u32
  pa_has_channel :: bool
  pa_channel_id :: int
  pa_channel_all :: bool

definition args_zero :: ParsedArgs where
  "args_zero =
     \<lparr>pa_has_lba = False, pa_lba_auto = False, pa_lba = 0, pa_has_size = False, pa_size_bytes = 0,
      pa_has_task_no = False, pa_task_no = [], pa_has_file_index = False, pa_file_index = 0,
      pa_has_proto_file_type = False, pa_proto_file_type = 0, pa_has_calibration_type = False,
      pa_calibration_type = 0, pa_has_source = False, pa_source = SOURCE_TRANSFER,
      pa_has_dma_desc_bytes = False, pa_dma_desc_bytes = 0, pa_has_ddr_offset = False, pa_ddr_offset = 0,
      pa_has_duration_sec = False, pa_duration_sec = 0, pa_has_channel = False, pa_channel_id = 0,
      pa_channel_all = False\<rparr>"

section \<open>Global options and commands\<close>

fun parse_global_loop :: "int \<Rightarrow> string list \<Rightarrow> GlobalOptions \<Rightarrow> (GlobalOptions \<times> string list) option" where
  "parse_global_loop ulong_max [] out = Some (out, [])"
| "parse_global_loop ulong_max (arg # args) out =
     (if arg = ''--dry-run'' then parse_global_loop ulong_max args (out\<lparr>go_dry_run := True\<rparr>)
      else if arg = ''--skip-link-check'' then parse_global_loop ulong_max args (out\<lparr>go_skip_link_check := True\<rparr>)
      else if arg = ''--timeout-us''
      then case args of
             [] \<Rightarrow> None
           | text # rest \<Rightarrow>
               (case whole (strtoul ulong_max 0 text) of
                  None \<Rightarrow> None
                | Some v \<Rightarrow> if v = 0 then None
                            else parse_global_loop ulong_max rest (out\<lparr>go_timeout_us := word_of_int v\<rparr>))
      else Some (out, arg # args))"

abbreviation DEFAULT_TIMEOUT_US :: u32 where "DEFAULT_TIMEOUT_US \<equiv> 5000000"

text \<open>The arguments after the options, the first of which is the command. The name of the program is skipped.\<close>

definition parse_global_options :: "int \<Rightarrow> string list \<Rightarrow> (GlobalOptions \<times> string list) option" where
  "parse_global_options ulong_max argv =
     parse_global_loop ulong_max (drop 1 argv)
       \<lparr>go_dry_run = False, go_skip_link_check = False, go_timeout_us = DEFAULT_TIMEOUT_US\<rparr>"

definition command_names :: "(string \<times> CommandType) list" where
  "command_names =
     [(''write'', CMD_WRITE), (''read'', CMD_READ), (''list'', CMD_LIST), (''init-meta'', CMD_INIT_META),
      (''storage-write'', CMD_STORAGE_WRITE), (''network-send'', CMD_NETWORK_SEND),
      (''ddr-pattern-store'', CMD_DDR_PATTERN_STORE), (''ssd-lba-wrap-test'', CMD_SSD_LBA_WRAP_TEST),
      (''ssd-continuous-pattern-test'', CMD_SSD_CONTINUOUS_PATTERN_TEST), (''dma-rx-benchmark'', CMD_DMA_RX_BENCHMARK)]"

definition parse_command_type :: "string \<Rightarrow> CommandType option" where
  "parse_command_type s = map_of command_names s"

section \<open>The option scanner of the C library\<close>

text \<open>
  One call of \<^verbatim>\<open>getopt_long\<close> on the arguments not yet scanned: an option with its argument, the end
  (with the arguments that are no options, which are moved to the end), or the character \<^verbatim>\<open>?\<close> for an
  unknown or ambiguous option or a missing argument. A long name may be abbreviated as long as it
  is unique.
\<close>

datatype getopt_result =
    GetoptOption char string "string list"
  | GetoptEnd "string list"
  | GetoptNonOption "string list"
  | GetoptError

definition long_match :: "(string \<times> char) list \<Rightarrow> string \<Rightarrow> char option" where
  "long_match long_opts name =
     (case map_of long_opts name of
        Some c \<Rightarrow> Some c
      | None \<Rightarrow> (case filter (\<lambda>(n, c). c_starts_with name n) long_opts of
                   [(n, c)] \<Rightarrow> Some c
                 | _ \<Rightarrow> None))"

definition with_argument :: "char \<Rightarrow> string option \<Rightarrow> string list \<Rightarrow> getopt_result" where
  "with_argument c attached rest =
     (case attached of
        Some text \<Rightarrow> GetoptOption c text rest
      | None \<Rightarrow> (case rest of [] \<Rightarrow> GetoptError | text # rest1 \<Rightarrow> GetoptOption c text rest1))"

definition long_option :: "(string \<times> char) list \<Rightarrow> string \<Rightarrow> string list \<Rightarrow> getopt_result" where
  "long_option long_opts body rest =
     (let name = takeWhile (\<lambda>c. c \<noteq> CHR ''='') body;
          attached = (if name = body then None else Some (drop (Suc (length name)) body))
      in case long_match long_opts name of
           None \<Rightarrow> GetoptError
         | Some c \<Rightarrow> with_argument c attached rest)"

definition short_option :: "string \<Rightarrow> string \<Rightarrow> string list \<Rightarrow> getopt_result" where
  "short_option short_opts arg rest =
     (case arg of
        d # c # text \<Rightarrow>
          if d \<noteq> CHR ''-'' then GetoptNonOption rest
          else if c \<in> set short_opts then with_argument c (if text = [] then None else Some text) rest
          else GetoptError
      | _ \<Rightarrow> GetoptNonOption rest)"

definition getopt_long :: "string \<Rightarrow> (string \<times> char) list \<Rightarrow> string list \<Rightarrow> getopt_result" where
  "getopt_long short_opts long_opts args =
     (case args of
        [] \<Rightarrow> GetoptEnd []
      | arg # rest \<Rightarrow>
          if arg = ''--'' then GetoptEnd rest
          else if c_starts_with ''--'' arg then long_option long_opts (drop 2 arg) rest
          else short_option short_opts arg rest)"

section \<open>Options of a command\<close>

definition long_opts :: "(string \<times> char) list" where
  "long_opts =
     [(''channel'', CHR ''c''), (''size'', CHR ''s''), (''task-no'', CHR ''T''), (''file-index'', CHR ''i''),
      (''ssd-lba'', CHR ''l''), (''source'', CHR ''S''), (''dma-desc-bytes'', CHR ''b''), (''ddr-offset'', CHR ''O''),
      (''proto-file-type'', CHR ''p''), (''calibration-type'', CHR ''C''), (''duration-sec'', CHR ''d'')]"

abbreviation short_opts :: string where "short_opts \<equiv> ''csTilSbOpCd''"

definition parse_u64_auto :: "string \<Rightarrow> (bool \<times> u64) option" where
  "parse_u64_auto s =
     (if s = ''auto'' then Some (True, 0)
      else map_option (\<lambda>v. (False, word_of_int v)) (whole (strtoul ULLONG_MAX 0 s)))"

definition parse_channel_arg :: "int \<Rightarrow> string \<Rightarrow> (bool \<times> int) option" where
  "parse_channel_arg long_max s =
     (if s = ''all'' then Some (True, - 1)
      else case whole (strtol long_max 10 s) of
             None \<Rightarrow> None
           | Some v \<Rightarrow> if v \<noteq> HIGH_I_CHANNEL_ID \<and> v \<noteq> HIGH_Q_CHANNEL_ID \<and> v \<noteq> uint LOW_SPEED_CHANNEL_ID then None
                       else Some (False, v))"

text \<open>\<^verbatim>\<open>strncpy\<close> into the array of 12 bytes whose last byte is set to zero.\<close>

definition copy_task_no :: "string \<Rightarrow> string" where
  "copy_task_no text = take 11 text"

text \<open>One option: the \<^verbatim>\<open>switch\<close> in the loop.\<close>

definition parse_option :: "int \<Rightarrow> int \<Rightarrow> char \<Rightarrow> string \<Rightarrow> ParsedArgs \<Rightarrow> ParsedArgs option" where
  "parse_option ulong_max long_max c optarg out =
     (let number = whole (strtoul ulong_max 0 optarg);
          wide = whole (strtoul ULLONG_MAX 0 optarg)
      in if c = CHR ''c''
         then map_option (\<lambda>(all, i). out\<lparr>pa_has_channel := True, pa_channel_all := all, pa_channel_id := i\<rparr>)
                (parse_channel_arg long_max optarg)
         else if c = CHR ''s''
         then (case wide of
                 None \<Rightarrow> None
               | Some v \<Rightarrow> if v = 0 then None else Some (out\<lparr>pa_has_size := True, pa_size_bytes := word_of_int v\<rparr>))
         else if c = CHR ''T''
         then Some (out\<lparr>pa_has_task_no := True, pa_task_no := copy_task_no optarg\<rparr>)
         else if c = CHR ''i''
         then map_option (\<lambda>v. out\<lparr>pa_has_file_index := True, pa_file_index := word_of_int v\<rparr>) number
         else if c = CHR ''l''
         then map_option (\<lambda>(auto_lba, v). out\<lparr>pa_has_lba := True, pa_lba_auto := auto_lba, pa_lba := v\<rparr>)
                (parse_u64_auto optarg)
         else if c = CHR ''S''
         then (if optarg = ''transfer'' then Some (out\<lparr>pa_has_source := True, pa_source := SOURCE_TRANSFER\<rparr>)
               else if optarg = ''test'' then Some (out\<lparr>pa_has_source := True, pa_source := SOURCE_TEST\<rparr>)
               else None)
         else if c = CHR ''b''
         then (case number of
                 None \<Rightarrow> None
               | Some v \<Rightarrow> if v = 0 \<or> 0xFFFFFFFF < v then None
                           else Some (out\<lparr>pa_has_dma_desc_bytes := True, pa_dma_desc_bytes := word_of_int v\<rparr>))
         else if c = CHR ''O''
         then map_option (\<lambda>v. out\<lparr>pa_has_ddr_offset := True, pa_ddr_offset := word_of_int v\<rparr>) wide
         else if c = CHR ''p''
         then (case number of
                 None \<Rightarrow> None
               | Some v \<Rightarrow> if 0xFF < v then None
                           else Some (out\<lparr>pa_has_proto_file_type := True, pa_proto_file_type := word_of_int v\<rparr>))
         else if c = CHR ''C''
         then (case number of
                 None \<Rightarrow> None
               | Some v \<Rightarrow> if 0xFF < v then None
                           else Some (out\<lparr>pa_has_calibration_type := True, pa_calibration_type := word_of_int v\<rparr>))
         else if c = CHR ''d''
         then (case number of
                 None \<Rightarrow> None
               | Some v \<Rightarrow> if v = 0 \<or> 86400 < v then None
                           else Some (out\<lparr>pa_has_duration_sec := True, pa_duration_sec := word_of_int v\<rparr>))
         else None)"

text \<open>
  The loop. Arguments that are no options end up behind the options, where the test of \<^verbatim>\<open>optind\<close>
  finds them.
\<close>

definition unscanned :: "getopt_result \<Rightarrow> string list option" where
  "unscanned r = (case r of GetoptOption c text rest \<Rightarrow> Some rest | GetoptNonOption rest \<Rightarrow> Some rest | _ \<Rightarrow> None)"

lemma with_argument_shorter: "unscanned (with_argument c attached rest) = Some rest1 \<Longrightarrow> length rest1 \<le> length rest"
  by (auto simp: with_argument_def unscanned_def split: option.splits list.splits)

lemma long_option_shorter: "unscanned (long_option long body rest) = Some rest1 \<Longrightarrow> length rest1 \<le> length rest"
  unfolding long_option_def Let_def
  by (cases "long_match long (takeWhile (\<lambda>c. c \<noteq> CHR ''='') body)")
    (auto simp: unscanned_def [of GetoptError] intro: with_argument_shorter)

lemma short_option_shorter: "unscanned (short_option short arg rest) = Some rest1 \<Longrightarrow> length rest1 \<le> length rest"
  unfolding short_option_def
  by (auto simp: unscanned_def [of GetoptError] unscanned_def [of "GetoptNonOption rest"] with_argument_shorter
      split: list.splits if_split_asm)

lemma getopt_long_shorter: "unscanned (getopt_long short long args) = Some rest \<Longrightarrow> length rest < length args"
  unfolding getopt_long_def
  by (cases args)
    (auto simp: unscanned_def [of "GetoptEnd _"] less_Suc_eq_le
      split: if_split_asm dest: long_option_shorter short_option_shorter)

lemma getopt_option_shorter: "getopt_long short long args = GetoptOption c text rest \<Longrightarrow> length rest < length args"
  by (rule getopt_long_shorter [of short long]) (simp add: unscanned_def)

lemma getopt_skip_shorter: "getopt_long short long args = GetoptNonOption rest \<Longrightarrow> length rest < length args"
  by (rule getopt_long_shorter [of short long]) (simp add: unscanned_def)

function parse_options_loop ::
  "int \<Rightarrow> int \<Rightarrow> bool \<Rightarrow> string list \<Rightarrow> ParsedArgs \<Rightarrow> ParsedArgs option" where
  "parse_options_loop ulong_max long_max leftover args out =
     (case getopt_long short_opts long_opts args of
        GetoptOption c optarg rest \<Rightarrow>
          (case parse_option ulong_max long_max c optarg out of
             None \<Rightarrow> None
           | Some out1 \<Rightarrow> parse_options_loop ulong_max long_max leftover rest out1)
      | GetoptNonOption rest \<Rightarrow> parse_options_loop ulong_max long_max True rest out
      | GetoptError \<Rightarrow> None
      | GetoptEnd rest \<Rightarrow> if leftover \<or> rest \<noteq> [] then None else Some out)"
  by pat_completeness auto
termination
  by (relation "measure (\<lambda>(_, _, _, args, _). length args)")
    (auto dest: getopt_option_shorter getopt_skip_shorter)

declare parse_options_loop.simps [simp del]

definition parse_subcommand_args :: "int \<Rightarrow> int \<Rightarrow> string list \<Rightarrow> ParsedArgs option" where
  "parse_subcommand_args ulong_max long_max argv =
     parse_options_loop ulong_max long_max False (drop 1 argv) args_zero"

section \<open>Tests of the commands\<close>

abbreviation SECTOR_BYTES :: u64 where "SECTOR_BYTES \<equiv> 512"
abbreviation FILE_MAX_BYTES :: u64 where "FILE_MAX_BYTES \<equiv> 4294967295 * SECTOR_BYTES"
abbreviation DMA_DESC_BYTES_MAX :: u32 where "DMA_DESC_BYTES_MAX \<equiv> DMA_DESC_BYTES_CH2_DEFAULT"

definition ensure_channel_required :: "ParsedArgs \<Rightarrow> bool \<Rightarrow> bool" where
  "ensure_channel_required a allow_all \<longleftrightarrow> pa_has_channel a \<and> (allow_all \<or> \<not> pa_channel_all a)"

definition validate_dma_desc_bytes_for_channel :: "ParsedArgs \<Rightarrow> bool" where
  "validate_dma_desc_bytes_for_channel a \<longleftrightarrow>
     (if \<not> pa_has_dma_desc_bytes a then True
      else if pa_dma_desc_bytes a mod 512 \<noteq> 0 then False
      else if DMA_DESC_BYTES_MAX < pa_dma_desc_bytes a then False
      else case find_channel (pa_channel_id a) of
             None \<Rightarrow> False
           | Some cfg \<Rightarrow>
               if ch_dma_ring_bytes cfg mod ucast (pa_dma_desc_bytes a) \<noteq> 0 then False
               else let desc_count = ucast (ch_dma_ring_bytes cfg div ucast (pa_dma_desc_bytes a)) :: u32;
                        max_desc_count = ucast (ch_desc_cpu_size cfg div 64) :: u32
                    in \<not> (desc_count = 0 \<or> max_desc_count < desc_count))"

definition chosen_channel :: "ParsedArgs \<Rightarrow> ChannelConfig option" where
  "chosen_channel a = (if pa_has_channel a then find_channel (pa_channel_id a) else find_channel (uint LOW_SPEED_CHANNEL_ID))"

definition size_or :: "u64 \<Rightarrow> ParsedArgs \<Rightarrow> u64" where
  "size_or default_size a = (if pa_has_size a then pa_size_bytes a else default_size)"

definition validate_ddr_offset_for_channel :: "ParsedArgs \<Rightarrow> bool" where
  "validate_ddr_offset_for_channel a \<longleftrightarrow>
     (if \<not> pa_has_ddr_offset a then True
      else if pa_ddr_offset a mod SECTOR_BYTES \<noteq> 0 then False
      else case chosen_channel a of
             None \<Rightarrow> False
           | Some cfg \<Rightarrow>
               \<not> (ch_dma_ring_bytes_max cfg < pa_ddr_offset a \<or>
                   ch_dma_ring_bytes_max cfg - pa_ddr_offset a < size_or (32 * 1024 * 1024) a))"

definition validate_write_args :: "ParsedArgs \<Rightarrow> bool" where
  "validate_write_args a \<longleftrightarrow>
     (if \<not> ensure_channel_required a False then False
      else if \<not> pa_has_size a \<or> \<not> pa_has_task_no a \<or> \<not> pa_has_file_index a \<or> \<not> pa_has_lba a \<or> \<not> pa_has_source a then False
      else if 11 < length (pa_task_no a) then False
      else if pa_size_bytes a mod SECTOR_BYTES \<noteq> 0 then False
      else if FILE_MAX_BYTES < pa_size_bytes a then False
      else validate_dma_desc_bytes_for_channel a)"

definition validate_read_args :: "ParsedArgs \<Rightarrow> bool" where
  "validate_read_args a \<longleftrightarrow>
     (if \<not> ensure_channel_required a False then False
      else let by_task = pa_has_task_no a \<and> pa_has_file_index a;
               by_lba = pa_has_lba a \<and> \<not> pa_lba_auto a \<and> pa_has_size a
           in if \<not> by_task \<and> \<not> by_lba then False
              else \<not> (by_lba \<and> pa_size_bytes a mod SECTOR_BYTES \<noteq> 0))"

definition validate_list_args :: "ParsedArgs \<Rightarrow> bool" where
  "validate_list_args a = ensure_channel_required a True"

definition validate_init_meta_args :: "ParsedArgs \<Rightarrow> bool" where
  "validate_init_meta_args a = ensure_channel_required a True"

definition validate_storage_write_args :: "ParsedArgs \<Rightarrow> bool" where
  "validate_storage_write_args a \<longleftrightarrow>
     (if \<not> ensure_channel_required a False then False
      else if \<not> pa_has_task_no a \<or> \<not> pa_has_file_index a \<or> \<not> pa_has_lba a \<or> \<not> pa_has_source a then False
      else if 11 < length (pa_task_no a) then False
      else if pa_has_size a \<and> pa_size_bytes a mod SECTOR_BYTES \<noteq> 0 then False
      else if pa_has_size a \<and> FILE_MAX_BYTES < pa_size_bytes a then False
      else if \<not> pa_has_size a \<and> \<not> pa_lba_auto a then False
      else if \<not> pa_has_proto_file_type a then False
      else validate_dma_desc_bytes_for_channel a)"

definition validate_network_send_args :: "ParsedArgs \<Rightarrow> bool" where
  "validate_network_send_args a \<longleftrightarrow>
     (if \<not> pa_has_task_no a \<or> \<not> pa_has_file_index a \<or> \<not> pa_has_proto_file_type a then False
      else \<not> 11 < length (pa_task_no a))"

definition raw_store_enabled :: "environment \<Rightarrow> bool" where
  "raw_store_enabled env =
     (case storage_config_compat_getenv env (Some ''SRC_REAL_DDR_RAW_STORE'') of
        None \<Rightarrow> False
      | Some raw \<Rightarrow> raw \<noteq> [] \<and> raw \<noteq> ''0'')"

definition validate_ddr_pattern_store_args :: "environment \<Rightarrow> ParsedArgs \<Rightarrow> bool" where
  "validate_ddr_pattern_store_args env a \<longleftrightarrow>
     (let size = size_or (32 * 1024 * 1024) a;
          size_limit = (case chosen_channel a of
                          Some cfg \<Rightarrow> if raw_store_enabled env then ch_dma_ring_bytes cfg else CHANNEL_CPU_DDR_BYTES
                        | None \<Rightarrow> CHANNEL_CPU_DDR_BYTES)
      in if \<not> pa_has_task_no a \<or> \<not> pa_has_file_index a \<or> \<not> pa_has_proto_file_type a then False
         else if pa_has_channel a \<and> pa_channel_all a then False
         else if pa_has_channel a \<and> find_channel (pa_channel_id a) = None then False
         else if 11 < length (pa_task_no a) then False
         else if size mod SECTOR_BYTES \<noteq> 0 then False
         else if size = 0 \<or> size_limit < size then False
         else validate_ddr_offset_for_channel a)"

definition low_speed_only :: "ParsedArgs \<Rightarrow> bool" where
  "low_speed_only a \<longleftrightarrow>
     \<not> (pa_has_channel a \<and> \<not> pa_channel_all a \<and> pa_channel_id a \<noteq> uint LOW_SPEED_CHANNEL_ID) \<and>
     \<not> (pa_has_channel a \<and> pa_channel_all a)"

unbundle bit_operations_syntax

definition validate_ssd_lba_wrap_test_args :: "ParsedArgs \<Rightarrow> bool" where
  "validate_ssd_lba_wrap_test_args a \<longleftrightarrow>
     (let size = size_or (4 * 1024 * 1024) a;
          aligned = (size + 4095) AND NOT 4095
      in if \<not> pa_has_lba a \<or> pa_lba_auto a then False
         else if \<not> low_speed_only a then False
         else if size mod SECTOR_BYTES \<noteq> 0 then False
         else \<not> (size = 0 \<or> CHANNEL_CPU_DDR_BYTES div 4 < aligned))"

definition validate_ssd_continuous_pattern_test_args :: "ParsedArgs \<Rightarrow> bool" where
  "validate_ssd_continuous_pattern_test_args a \<longleftrightarrow>
     (let size = size_or (640 * 1024 * 1024) a
      in if \<not> pa_has_lba a \<or> pa_lba_auto a then False
         else if \<not> low_speed_only a then False
         else if size mod SECTOR_BYTES \<noteq> 0 then False
         else size \<noteq> 0)"

section \<open>Arguments of the storage worker\<close>

text \<open>The checks at the start of \<^verbatim>\<open>run_storage_worker_main\<close> of \<^verbatim>\<open>system.c\<close>; \<^verbatim>\<open>None\<close> is the exit status 2.\<close>

definition storage_worker_args :: "int \<Rightarrow> int \<Rightarrow> string list \<Rightarrow> (GlobalOptions \<times> CommandType \<times> ParsedArgs) option" where
  "storage_worker_args ulong_max long_max argv =
     (case parse_global_options ulong_max argv of
        Some (gopt, name # rest) \<Rightarrow>
          (case parse_command_type name of
             None \<Rightarrow> None
           | Some cmd \<Rightarrow>
               if cmd \<noteq> CMD_WRITE \<and> cmd \<noteq> CMD_STORAGE_WRITE then None
               else case parse_subcommand_args ulong_max long_max (name # rest) of
                      None \<Rightarrow> None
                    | Some a \<Rightarrow>
                        if \<not> (if cmd = CMD_STORAGE_WRITE then validate_storage_write_args a else validate_write_args a)
                        then None
                        else if cmd = CMD_WRITE
                        then Some (gopt, cmd,
                               a\<lparr>pa_has_proto_file_type := True,
                                 pa_proto_file_type := (case find_channel (pa_channel_id a) of
                                                          Some cfg \<Rightarrow> ch_file_type cfg | None \<Rightarrow> 0),
                                 pa_has_calibration_type := True, pa_calibration_type := 0\<rparr>)
                        else Some (gopt, cmd, a))
      | _ \<Rightarrow> None)"

section \<open>Typing of the arguments\<close>

text \<open>What every accepted sequence of options leaves in the record.\<close>

definition args_ok :: "ParsedArgs \<Rightarrow> bool" where
  "args_ok a \<longleftrightarrow>
     (pa_has_channel a \<longrightarrow> pa_channel_all a \<or> find_channel (pa_channel_id a) \<noteq> None) \<and>
     (pa_has_size a \<longrightarrow> pa_size_bytes a \<noteq> 0) \<and>
     length (pa_task_no a) \<le> 11 \<and>
     (pa_has_dma_desc_bytes a \<longrightarrow> pa_dma_desc_bytes a \<noteq> 0) \<and>
     pa_proto_file_type a \<le> 255 \<and> pa_calibration_type a \<le> 255 \<and>
     (pa_has_duration_sec a \<longrightarrow> pa_duration_sec a \<noteq> 0 \<and> pa_duration_sec a \<le> 86400)"

lemma whole_range: "whole (strtoul m 0 s) = Some v \<Longrightarrow> 0 \<le> m \<Longrightarrow> 0 \<le> v \<and> v \<le> m"
  using strtoul_range [of m 0 s] by (auto simp: whole_def split: if_splits)

lemma uint_word_of_small: "0 \<le> v \<Longrightarrow> v < 2 ^ LENGTH('a) \<Longrightarrow> uint (word_of_int v :: 'a::len word) = v"
  by (simp add: uint_word_of_int)

lemma word_of_small_nonzero: "0 < v \<Longrightarrow> v < 2 ^ LENGTH('a) \<Longrightarrow> (word_of_int v :: 'a::len word) \<noteq> 0"
  using uint_word_of_small [of v, where 'a = 'a] by auto

lemma word_of_small_le:
  "0 \<le> v \<Longrightarrow> v \<le> k \<Longrightarrow> k < 2 ^ LENGTH('a) \<Longrightarrow> (word_of_int v :: 'a::len word) \<le> word_of_int k"
  by (simp add: word_le_def uint_word_of_small)

lemma parse_channel_arg_ok:
  "parse_channel_arg long_max s = Some (all, i) \<Longrightarrow> all \<or> find_channel i \<noteq> None"
  using find_channel_iff [of i] unfolding parse_channel_arg_def
  by (auto simp del: not_None_eq split: if_split_asm option.split_asm)

lemma args_ok_updates:
  assumes "args_ok out"
  shows "all \<or> find_channel i \<noteq> None \<Longrightarrow> args_ok (out\<lparr>pa_has_channel := True, pa_channel_all := all, pa_channel_id := i\<rparr>)"
    and "n \<noteq> 0 \<Longrightarrow> args_ok (out\<lparr>pa_has_size := True, pa_size_bytes := n\<rparr>)"
    and "args_ok (out\<lparr>pa_has_task_no := True, pa_task_no := copy_task_no t\<rparr>)"
    and "args_ok (out\<lparr>pa_has_file_index := True, pa_file_index := k\<rparr>)"
    and "args_ok (out\<lparr>pa_has_lba := True, pa_lba_auto := b, pa_lba := n\<rparr>)"
    and "args_ok (out\<lparr>pa_has_source := True, pa_source := m\<rparr>)"
    and "k \<noteq> 0 \<Longrightarrow> args_ok (out\<lparr>pa_has_dma_desc_bytes := True, pa_dma_desc_bytes := k\<rparr>)"
    and "args_ok (out\<lparr>pa_has_ddr_offset := True, pa_ddr_offset := n\<rparr>)"
    and "k \<le> 255 \<Longrightarrow> args_ok (out\<lparr>pa_has_proto_file_type := True, pa_proto_file_type := k\<rparr>)"
    and "k \<le> 255 \<Longrightarrow> args_ok (out\<lparr>pa_has_calibration_type := True, pa_calibration_type := k\<rparr>)"
    and "k \<noteq> 0 \<and> k \<le> 86400 \<Longrightarrow> args_ok (out\<lparr>pa_has_duration_sec := True, pa_duration_sec := k\<rparr>)"
  using assms by (simp_all add: args_ok_def copy_task_no_def)

lemma number_words:
  assumes "whole (strtoul m 0 s) = Some v" and "0 \<le> m"
  shows "v \<noteq> 0 \<Longrightarrow> v \<le> 0xFFFFFFFF \<Longrightarrow> (word_of_int v :: u32) \<noteq> 0"
    and "v \<noteq> 0 \<Longrightarrow> m = ULLONG_MAX \<Longrightarrow> (word_of_int v :: u64) \<noteq> 0"
    and "v \<le> 255 \<Longrightarrow> (word_of_int v :: u32) \<le> 255"
    and "v \<le> 86400 \<Longrightarrow> (word_of_int v :: u32) \<le> 86400"
  using whole_range [OF assms] word_of_small_nonzero [of v, where 'a = 32] word_of_small_nonzero [of v, where 'a = 64]
    word_of_small_le [of v 255, where 'a = 32] word_of_small_le [of v 86400, where 'a = 32]
  by simp_all

lemma parse_option_letter:
  "parse_option ulong_max long_max c optarg out = Some out1 \<Longrightarrow>
     c = CHR ''c'' \<or> c = CHR ''s'' \<or> c = CHR ''T'' \<or> c = CHR ''i'' \<or> c = CHR ''l'' \<or> c = CHR ''S'' \<or>
     c = CHR ''b'' \<or> c = CHR ''O'' \<or> c = CHR ''p'' \<or> c = CHR ''C'' \<or> c = CHR ''d''"
  by (rule ccontr) (simp add: parse_option_def)

lemma parse_option_ok:
  assumes "args_ok out" and "0 \<le> ulong_max" and parsed: "parse_option ulong_max long_max c optarg out = Some out1"
  shows "args_ok out1"
  using parse_option_letter [OF parsed]
proof (elim disjE)
  assume c: "c = CHR ''c''"
  then obtain all i where "parse_channel_arg long_max optarg = Some (all, i)"
    and e: "out1 = out\<lparr>pa_has_channel := True, pa_channel_all := all, pa_channel_id := i\<rparr>"
    using parsed by (auto simp: parse_option_def)
  from parse_channel_arg_ok [OF this(1)] show ?thesis unfolding e by (rule args_ok_updates(1) [OF assms(1)])
next
  assume "c = CHR ''s''"
  then obtain v where "whole (strtoul ULLONG_MAX 0 optarg) = Some v" and "v \<noteq> 0"
    and "out1 = out\<lparr>pa_has_size := True, pa_size_bytes := word_of_int v\<rparr>"
    using parsed by (auto simp: parse_option_def split: option.split_asm if_split_asm)
  then show ?thesis using number_words(2) by (simp only:) (rule args_ok_updates(2) [OF assms(1)], simp)
next
  assume "c = CHR ''b''"
  then obtain v where "whole (strtoul ulong_max 0 optarg) = Some v" and "v \<noteq> 0" and "v \<le> 0xFFFFFFFF"
    and "out1 = out\<lparr>pa_has_dma_desc_bytes := True, pa_dma_desc_bytes := word_of_int v\<rparr>"
    using parsed by (auto simp: parse_option_def split: option.split_asm if_split_asm)
  then show ?thesis using number_words(1) assms(2) by (simp only:) (rule args_ok_updates(7) [OF assms(1)], simp)
next
  assume "c = CHR ''p''"
  then obtain v where "whole (strtoul ulong_max 0 optarg) = Some v" and "v \<le> 255"
    and "out1 = out\<lparr>pa_has_proto_file_type := True, pa_proto_file_type := word_of_int v\<rparr>"
    using parsed by (auto simp: parse_option_def split: option.split_asm if_split_asm)
  then show ?thesis using number_words(3) assms(2) by (simp only:) (rule args_ok_updates(9) [OF assms(1)], simp)
next
  assume "c = CHR ''C''"
  then obtain v where "whole (strtoul ulong_max 0 optarg) = Some v" and "v \<le> 255"
    and "out1 = out\<lparr>pa_has_calibration_type := True, pa_calibration_type := word_of_int v\<rparr>"
    using parsed by (auto simp: parse_option_def split: option.split_asm if_split_asm)
  then show ?thesis using number_words(3) assms(2) by (simp only:) (rule args_ok_updates(10) [OF assms(1)], simp)
next
  assume "c = CHR ''d''"
  then obtain v where "whole (strtoul ulong_max 0 optarg) = Some v" and "v \<noteq> 0" and "v \<le> 86400"
    and "out1 = out\<lparr>pa_has_duration_sec := True, pa_duration_sec := word_of_int v\<rparr>"
    using parsed by (auto simp: parse_option_def split: option.split_asm if_split_asm)
  then show ?thesis using number_words(1,4) assms(2) by (simp only:) (rule args_ok_updates(11) [OF assms(1)], simp)
qed (use parsed args_ok_updates(3-6,8) [OF assms(1)] in
    \<open>auto simp: parse_option_def split: option.split_asm if_split_asm\<close>)

lemma parse_options_ok:
  "parse_options_loop ulong_max long_max leftover args out = Some a \<Longrightarrow> args_ok out \<Longrightarrow> 0 \<le> ulong_max \<Longrightarrow> args_ok a"
proof (induction ulong_max long_max leftover args out rule: parse_options_loop.induct)
  case (1 ulong_max long_max leftover args out)
  show ?case
  proof (cases "getopt_long short_opts long_opts args")
    case (GetoptOption c optarg rest)
    then obtain out1 where "parse_option ulong_max long_max c optarg out = Some out1"
      and "parse_options_loop ulong_max long_max leftover rest out1 = Some a"
      using "1.prems"(1) by (auto simp: parse_options_loop.simps [of _ _ _ args] split: option.split_asm)
    then show ?thesis using "1.IH"(1) [OF GetoptOption] parse_option_ok "1.prems" by blast
  next
    case (GetoptNonOption rest)
    then show ?thesis using "1.IH"(2) [OF GetoptNonOption] "1.prems" by (simp add: parse_options_loop.simps [of _ _ _ args])
  qed (use "1.prems" in \<open>auto simp: parse_options_loop.simps [of _ _ _ args] split: if_split_asm\<close>)
qed

lemma parse_subcommand_ok: "parse_subcommand_args ulong_max long_max argv = Some a \<Longrightarrow> 0 \<le> ulong_max \<Longrightarrow> args_ok a"
  unfolding parse_subcommand_args_def by (rule parse_options_ok) (auto simp: args_ok_def args_zero_def)

text \<open>
  The arguments with which a worker starts to write: an existing channel, a task number of at most 11
  characters, a size of whole sectors whose number fits into 32 bits, or no size and an
  automatic address, a file type of one byte, and descriptors that tile the ring of the channel and
  fit into the descriptor memory.
\<close>

definition write_args_typed :: "ParsedArgs \<Rightarrow> bool" where
  "write_args_typed a \<longleftrightarrow>
     pa_has_channel a \<and> \<not> pa_channel_all a \<and> pa_has_task_no a \<and> pa_has_file_index a \<and> pa_has_lba a \<and> pa_has_source a \<and>
     length (pa_task_no a) \<le> 11 \<and> pa_has_proto_file_type a \<and> pa_proto_file_type a \<le> 255 \<and>
     (if pa_has_size a then 512 dvd unat (pa_size_bytes a) \<and> 0 < unat (pa_size_bytes a) \<and>
                            unat (pa_size_bytes a) div 512 < 2 ^ 32
      else pa_lba_auto a) \<and>
     (case find_channel (pa_channel_id a) of
        None \<Rightarrow> False
      | Some cfg \<Rightarrow> pa_has_dma_desc_bytes a \<longrightarrow>
          512 dvd unat (pa_dma_desc_bytes a) \<and>
          (let n = unat (ch_dma_ring_bytes cfg) div unat (pa_dma_desc_bytes a)
           in unat (ch_dma_ring_bytes cfg) = n * unat (pa_dma_desc_bytes a) \<and> 0 < n \<and> n \<le> unat (ch_desc_cpu_size cfg) div 64))"

lemma whole_sectors:
  assumes "x \<noteq> (0 :: u64)" and "x mod 512 = 0" and "x \<le> FILE_MAX_BYTES"
  shows "512 dvd unat x \<and> 0 < unat x \<and> unat x div 512 < 2 ^ 32"
proof -
  have "unat x mod 512 = 0" using arg_cong [OF assms(2), of unat] by (simp add: unat_mod_distrib)
  moreover have "unat x \<le> 4294967295 * 512" using assms(3) by (simp add: word_le_nat_alt)
  moreover have "0 < unat x" using assms(1) by (simp add: unat_gt_0)
  ultimately show ?thesis by auto
qed

lemma channel_ring_small: "find_channel i = Some cfg \<Longrightarrow> unat (ch_dma_ring_bytes cfg) < 2 ^ 32 \<and> unat (ch_desc_cpu_size cfg) div 64 < 2 ^ 32"
  by (auto simp: find_channel_def kChannels_def split: if_splits)

lemma desc_bytes_tile:
  assumes has: "pa_has_dma_desc_bytes a" and "pa_dma_desc_bytes a \<noteq> 0" and "validate_dma_desc_bytes_for_channel a"
    and cfg: "find_channel (pa_channel_id a) = Some cfg"
    and n: "n = unat (ch_dma_ring_bytes cfg) div unat (pa_dma_desc_bytes a)"
  shows "512 dvd unat (pa_dma_desc_bytes a) \<and> unat (ch_dma_ring_bytes cfg) = n * unat (pa_dma_desc_bytes a) \<and>
    0 < n \<and> n \<le> unat (ch_desc_cpu_size cfg) div 64"
proof -
  let ?d = "pa_dma_desc_bytes a" and ?r = "ch_dma_ring_bytes cfg"
  have checks: "?d mod 512 = 0" "?r mod ucast ?d = 0"
    "(ucast (?r div ucast ?d) :: u32) \<noteq> 0" "(ucast (?r div ucast ?d) :: u32) \<le> ucast (ch_desc_cpu_size cfg div 64)"
    using assms(3) has cfg by (auto simp: validate_dma_desc_bytes_for_channel_def Let_def split: if_split_asm)
  have d: "unat (ucast ?d :: u64) = unat ?d"
    using unsigned_less [of ?d, where 'a = nat] by (simp add: unsigned_ucast_eq take_bit_nat_eq_self)
  have "n < 2 ^ 32" using channel_ring_small [OF cfg] n by (meson div_le_dividend le_less_trans)
  then have count: "unat (ucast (?r div ucast ?d) :: u32) = n"
    by (simp add: unsigned_ucast_eq unat_div_distrib d n take_bit_nat_eq_self)
  have limit: "unat (ucast (ch_desc_cpu_size cfg div 64) :: u32) = unat (ch_desc_cpu_size cfg) div 64"
    using channel_ring_small [OF cfg] by (simp add: unsigned_ucast_eq unat_div_distrib take_bit_nat_eq_self)
  have "unat ?d mod 512 = 0" using arg_cong [OF checks(1), of unat] by (simp add: unat_mod_distrib)
  moreover have "unat ?r mod unat ?d = 0" using arg_cong [OF checks(2), of unat] by (simp add: unat_mod_distrib d)
  moreover have "0 < n" using checks(3) count by (metis neq0_conv unat_eq_zero)
  moreover have "n \<le> unat (ch_desc_cpu_size cfg) div 64" using checks(4) count limit by (simp add: word_le_nat_alt)
  ultimately show ?thesis using n by (auto simp: mod_eq_0_iff_dvd)
qed

lemma validated_write_typed:
  assumes "args_ok a" and "validate_write_args a \<and> pa_has_proto_file_type a \<or> validate_storage_write_args a"
  shows "write_args_typed a"
proof -
  have has: "pa_has_channel a" "\<not> pa_channel_all a" "pa_has_task_no a" "pa_has_file_index a" "pa_has_lba a" "pa_has_source a"
      "pa_has_proto_file_type a" "validate_dma_desc_bytes_for_channel a"
      "pa_has_size a \<Longrightarrow> pa_size_bytes a mod 512 = 0 \<and> pa_size_bytes a \<le> FILE_MAX_BYTES" "\<not> pa_has_size a \<Longrightarrow> pa_lba_auto a"
    using assms(2)
    by (auto simp: validate_write_args_def validate_storage_write_args_def ensure_channel_required_def split: if_split_asm)
  obtain cfg where cfg: "find_channel (pa_channel_id a) = Some cfg" using assms(1) has by (auto simp: args_ok_def)
  show ?thesis
    using assms(1) has desc_bytes_tile [OF _ _ has(8) cfg refl] whole_sectors [of "pa_size_bytes a"]
    by (simp add: write_args_typed_def args_ok_def cfg Let_def)
qed

lemma typed_with_channel_type:
  "args_ok a \<Longrightarrow> validate_write_args a \<Longrightarrow> find_channel (pa_channel_id a) = Some cfg \<Longrightarrow>
     write_args_typed (a\<lparr>pa_has_proto_file_type := True, pa_proto_file_type := ch_file_type cfg,
       pa_has_calibration_type := True, pa_calibration_type := 0\<rparr>)"
proof (rule validated_write_typed)
  let ?b = "a\<lparr>pa_has_proto_file_type := True, pa_proto_file_type := ch_file_type cfg, pa_has_calibration_type := True,
      pa_calibration_type := 0\<rparr>"
  assume a: "args_ok a" "validate_write_args a" "find_channel (pa_channel_id a) = Some cfg"
  have "ch_file_type cfg \<le> 255" using a(3) by (auto simp: find_channel_def kChannels_def split: if_split_asm)
  then show "args_ok ?b" using a(1) by (simp add: args_ok_def)
  have "validate_dma_desc_bytes_for_channel ?b = validate_dma_desc_bytes_for_channel a"
    and "ensure_channel_required ?b False = ensure_channel_required a False"
    by (simp_all add: validate_dma_desc_bytes_for_channel_def ensure_channel_required_def split: option.split)
  then have "validate_write_args ?b" using a(2) by (simp add: validate_write_args_def split: if_split_asm)
  then show "validate_write_args ?b \<and> pa_has_proto_file_type ?b \<or> validate_storage_write_args ?b" by simp
qed

lemma worker_args_cases:
  assumes "storage_worker_args ulong_max long_max argv = Some (gopt, cmd, b)"
  obtains rest a where "parse_subcommand_args ulong_max long_max rest = Some a"
    and "cmd = CMD_STORAGE_WRITE \<and> validate_storage_write_args a \<and> b = a \<or>
      cmd = CMD_WRITE \<and> validate_write_args a \<and>
      b = a\<lparr>pa_has_proto_file_type := True,
            pa_proto_file_type := (case find_channel (pa_channel_id a) of Some cfg \<Rightarrow> ch_file_type cfg | None \<Rightarrow> 0),
            pa_has_calibration_type := True, pa_calibration_type := 0\<rparr>"
  using assms unfolding storage_worker_args_def
  by (auto simp del: ParsedArgs.simps split: option.split_asm prod.split_asm list.split_asm if_split_asm)

text \<open>C32. The arguments with which a storage worker starts are well typed: whatever the command line was,
  after the parser and the tests of \<^verbatim>\<open>write\<close> or \<^verbatim>\<open>storage-write\<close> have accepted it the channel exists, the size is a
  positive number of whole sectors that fits into 32 bits (or the address is automatic), the task number fits
  its field, and a descriptor size tiles the ring of the channel with a number of descriptors the descriptor
  memory can hold.\<close>

theorem worker_args_typed:
  assumes "storage_worker_args ulong_max long_max argv = Some (gopt, cmd, a)" and "0 \<le> ulong_max"
  shows "write_args_typed a"
proof -
  from assms(1) obtain rest a0 where parsed: "parse_subcommand_args ulong_max long_max rest = Some a0"
    and kind: "cmd = CMD_STORAGE_WRITE \<and> validate_storage_write_args a0 \<and> a = a0 \<or>
      cmd = CMD_WRITE \<and> validate_write_args a0 \<and>
      a = a0\<lparr>pa_has_proto_file_type := True,
            pa_proto_file_type := (case find_channel (pa_channel_id a0) of Some cfg \<Rightarrow> ch_file_type cfg | None \<Rightarrow> 0),
            pa_has_calibration_type := True, pa_calibration_type := 0\<rparr>"
    by (rule worker_args_cases)
  have ok: "args_ok a0" using parsed assms(2) by (rule parse_subcommand_ok)
  from kind show ?thesis
  proof (elim disjE conjE)
    assume w: "validate_write_args a0"
    then have "pa_has_channel a0" "\<not> pa_channel_all a0"
      by (auto simp: validate_write_args_def ensure_channel_required_def split: if_split_asm)
    then obtain cfg where "find_channel (pa_channel_id a0) = Some cfg" using ok by (auto simp: args_ok_def)
    moreover assume "a = a0\<lparr>pa_has_proto_file_type := True,
            pa_proto_file_type := (case find_channel (pa_channel_id a0) of Some cfg \<Rightarrow> ch_file_type cfg | None \<Rightarrow> 0),
            pa_has_calibration_type := True, pa_calibration_type := 0\<rparr>"
    ultimately show ?thesis using typed_with_channel_type [OF ok w] by simp
  qed (use validated_write_typed [OF ok] in blast)
qed

definition worker_command_line :: "string list" where
  "worker_command_line =
     [''app'', ''--dry-run'', ''write'', ''--channel=2'', ''--si'', ''0x200000'', ''-Tpass-0001'', ''--file-index'', ''7'',
      ''--ssd-lba'', ''auto'', ''--source'', ''test'', ''--dma-desc-bytes'', ''8388608'']"

theorem worker_args_typed_witness:
  "(case storage_worker_args ULLONG_MAX 9223372036854775807 worker_command_line of
      None \<Rightarrow> False
    | Some (gopt, cmd, a) \<Rightarrow> write_args_typed a \<and> pa_size_bytes a = 2097152 \<and> pa_task_no a = ''pass-0001'')"
proof -
  let ?r = "storage_worker_args ULLONG_MAX 9223372036854775807 worker_command_line"
  have run: "map_option (\<lambda>(gopt, cmd, a). (pa_size_bytes a, pa_task_no a)) ?r = Some (2097152, ''pass-0001'')"
    by code_simp
  obtain gopt cmd a where r: "?r = Some (gopt, cmd, a)" using run by auto
  show ?thesis using worker_args_typed [OF r] run by (simp add: r)
qed

section \<open>Numbers that pass the tests\<close>

text \<open>On a 64-bit target the test for zero precedes the conversion to 32 bits.\<close>

lemma timeout_wraps_to_zero:
  "map_option (go_timeout_us \<circ> fst) (parse_global_options ULLONG_MAX [''app'', ''--timeout-us'', ''0x100000000'', ''list'']) = Some 0"
  by code_simp

text \<open>Rounding the size up to pages wraps around, so a size near the end of the range passes.\<close>

lemma wrap_test_accepts_huge_size:
  "validate_ssd_lba_wrap_test_args (args_zero\<lparr>pa_has_lba := True, pa_has_size := True, pa_size_bytes := - 512\<rparr>)"
  by code_simp

end
