(* ===== verification/Spec2Isabelle.thy ===== *)
theory Spec2Isabelle
  imports Storage_Error Capture_Task Storage_Worker Storage_Stop Storage_Writer Slot_Table
    Storage_Pipeline Serial_Proto Metadata Storage_Config Storage_Ipc Storage_Supervisor
    Storage_Commit Sync_Outbox Storage_Health Event_Ring Storage_Task Dma_Stop Nvme_Promises
    Writer_Proof Command_Line
begin

text \<open>
  Verification of the capture and storage program of this repository.

  \<^bold>\<open>The program.\<close> The program receives sample streams on three channels by DMA and stores them on NVMe
  devices. A main process takes commands over a serial line (\<^verbatim>\<open>serial_proto.c\<close>, \<^verbatim>\<open>system.c\<close>), keeps the state
  of the capture task (\<^verbatim>\<open>storage_controller.c\<close>) and starts one worker process per channel with arguments on
  the command line (\<^verbatim>\<open>ccb_cli.c\<close>, \<^verbatim>\<open>storage_process.c\<close>, \<^verbatim>\<open>ccb_storage_task.c\<close>). Parent and workers exchange
  fixed-size messages (\<^verbatim>\<open>ccb_storage_ipc.c\<close>); the parent collects them in a supervisor
  (\<^verbatim>\<open>ccb_storage_supervisor.c\<close>) that decides the result of the task, and then commits files, metadata and
  database records (\<^verbatim>\<open>ccb_storage_commit.c\<close>, \<^verbatim>\<open>ccb_metadata.c\<close>, \<^verbatim>\<open>ccb_storage_sync_outbox.c\<close>). In a worker
  (\<^verbatim>\<open>ccb_commands.c\<close>) a producer harvests descriptors of the DMA ring (\<^verbatim>\<open>ccb_hw.c\<close>) and pushes the filled slots
  into a write queue; a writer thread pops them and drives the cross-slot NVMe engine (\<^verbatim>\<open>ccb_hw.c\<close>), which
  splits a slot into commands, keeps several slots in flight and reports a slot when all its commands came
  back; the completed slot is handed back to the DMA ring. A stop latches the ring, harvests the rest, drains
  the queue and resets the engine only when nothing can be lost (\<^verbatim>\<open>storage_stop.c\<close>, \<^verbatim>\<open>storage_writer.c\<close>).

  \<^bold>\<open>The library.\<close> \<^verbatim>\<open>Ccb_Prelude\<close> has the word types, named collections and generic lemmas; \<^verbatim>\<open>C_Library\<close> the
  functions of the C library on text. Interfaces are locales with the lemmas their clients
  use: \<^verbatim>\<open>Forward_Machine\<close> (a guarded transition that only moves forward; interpreted on the capture task, the
  worker and the stop phases), \<^verbatim>\<open>Stable_Window\<close> (a detector that fires after an unchanged observation has lasted;
  interpreted on the drain and harvest detectors), \<^verbatim>\<open>Fifo_Channel\<close> (a queue as a sequence; interpreted on the
  pipeline, whose ring is a list by \<^verbatim>\<open>Ring_View\<close>), the latch of \<^verbatim>\<open>Storage_Error\<close>, the store of \<^verbatim>\<open>Slot_Table\<close>, and \<^verbatim>\<open>Engine_Context\<close> (what the operations of an
  engine keep of their context is kept by every step and by the drain; interpreted on the writer thread).

  \<^bold>\<open>Components\<close>, each in its own theory with records, operations, invariants and properties:
    \<^item> \<^verbatim>\<open>Storage_Error\<close> (\<^verbatim>\<open>storage_error.c\<close>): codes and the latch of the first error.
    \<^item> \<^verbatim>\<open>Capture_Task\<close>, \<^verbatim>\<open>Storage_Worker\<close>, \<^verbatim>\<open>Storage_Stop\<close>, \<^verbatim>\<open>Storage_Writer\<close>: the state machines of task,
      worker and stop sequence and the decisions of the writer. A capture is only done after its own stop and
      commit; the input counts as idle only after enough quiet scans since the last activity.
    \<^item> \<^verbatim>\<open>Slot_Table\<close> (\<^verbatim>\<open>storage_queue.c\<close>) and \<^verbatim>\<open>Storage_Pipeline\<close> (\<^verbatim>\<open>ccb_storage_pipeline.c\<close>): slot states with
      their counters; the bounded queue of the pipeline, first in first out and atomic in batches.
    \<^item> \<^verbatim>\<open>Serial_Proto\<close>, \<^verbatim>\<open>Storage_Ipc\<close>: frames of the serial line and messages of the workers, with parsers that
      resynchronise and deadline transfers that lose no byte.
    \<^item> \<^verbatim>\<open>Metadata\<close>, \<^verbatim>\<open>Storage_Commit\<close>, \<^verbatim>\<open>Sync_Outbox\<close>: the file table, the commit with its rollback and the
      durable markers. A failed commit calls every undo the operations offer and its result says when the undo
      was incomplete; a successful one is complete; a marker survives. What a write of the table leaves on the
      file is an input, because the code ignores the result of \<^verbatim>\<open>fclose\<close>.
    \<^item> \<^verbatim>\<open>Storage_Supervisor\<close>, \<^verbatim>\<open>Storage_Task\<close>, \<^verbatim>\<open>Storage_Health\<close>, \<^verbatim>\<open>Event_Ring\<close>: verdict of a task, the record
      of a worker process, the health service and the diagnostic ring.
    \<^item> \<^verbatim>\<open>Storage_Config\<close>, \<^verbatim>\<open>Channel_Table\<close>, \<^verbatim>\<open>Worker_Config\<close>, \<^verbatim>\<open>Command_Line\<close>: profiles, the table of
      channels, the settings of a worker and the arguments it is started with, with their ranges.
    \<^item> \<^verbatim>\<open>Dma_Ring\<close>, \<^verbatim>\<open>Dma_Stop\<close> (\<^verbatim>\<open>ccb_hw.c\<close>): descriptors, harvest in order, hand-back, snapshots; quiescing
      and the final reset, which loses no data when the caller gives the slot states; the stop without slot states
      resets without that audit.
    \<^item> \<^verbatim>\<open>Nvme_Engine\<close> (\<^verbatim>\<open>ccb_hw.c\<close>): the engine over any table of operations. \<^verbatim>\<open>Nvme_Jobs\<close> is an abstract
      machine with one job per slot, \<^verbatim>\<open>Nvme_Refine\<close> shows that every call of the engine is a trace of that machine
      and \<^verbatim>\<open>Nvme_Promises\<close> derives what a caller relies on.
    \<^item> \<^verbatim>\<open>Write_Queue\<close> (\<^verbatim>\<open>ccb_commands.c\<close>): the queue of a worker with its lifecycle. \<^verbatim>\<open>Write_Account\<close> shows that
      every slot is in exactly one place and every byte is counted once, \<^verbatim>\<open>Write_Lifecycle\<close> what the lifecycle allows.
    \<^item> \<^verbatim>\<open>Writer_Thread\<close> (\<^verbatim>\<open>ccb_commands.c\<close>): the writer thread, which composes queue and engine while the other
      threads act between any two of its steps. \<^verbatim>\<open>Writer_Proof\<close> joins the accounts of the queue with the promises
      of the engine: the bytes reported as written are on the device, and a drained writer wrote everything.

  \<^bold>\<open>How the code is modelled.\<close> A struct is a record, an enumeration a datatype, integers have their width
  and wrap. A function that holds a mutex is one step; waiting on a condition variable is an outcome of the step.
  Register reads, clock samples, results of system calls and the memory written by hardware are arguments;
  register writes and messages are results. Return codes are kept; a pointer that may be null is an option. The
  operations of the function-pointer tables (\<^verbatim>\<open>StorageCommitOps\<close>, \<^verbatim>\<open>StorageSyncOutboxOps\<close>, \<^verbatim>\<open>NvmeCrossSlotOps\<close>)
  are parameters over an arbitrary context, so a property holds for every behaviour of the device or the system.

  \<^bold>\<open>Bounds and fuel.\<close> Loops over a list of samples end with the list. The step and the drain of the engine take
  fuel: \<^verbatim>\<open>nvme_drain_returns\<close> gives an amount that is enough when every reading of the clock takes time, whatever
  the sleep between two polls. The properties of the engine are about rings with at least one descriptor and
  requests of fewer than 2^32 sectors, whose commands the 32-bit counters of the engine can count. The loop of the writer thread
  takes a number of iterations, because a worker runs for as long as data arrive; its properties hold for every
  number, the result for a thread still running included. The identifiers of commands are searched 65535 times
  as in the code.

  \<^bold>\<open>Not modelled.\<close> Formatting of log lines and statistics that are only printed; the sqlite statements of
  \<^verbatim>\<open>file_list.c\<close> and \<^verbatim>\<open>logger.c\<close>, whose meaning is that of a library outside the repository; mapping of device
  memory and the debug console (\<^verbatim>\<open>debug_uart.c\<close>); the producer loop \<^verbatim>\<open>execute_write\<close> of \<^verbatim>\<open>ccb_commands.c\<close> and the
  dispatcher of \<^verbatim>\<open>system.c\<close> as a whole, of which the modelled components are the decisions; the scripts and test
  drivers under \<^verbatim>\<open>tests\<close> and \<^verbatim>\<open>tools\<close>.
\<close>

end
